(* ===== verification/Prelude.thy ===== *)
theory Prelude
  imports Main "HOL-Library.AList" "HOL-Library.Multiset"
begin

text \<open>
  Generic vocabulary of the development: Python exceptions as values, Python dictionaries
  as insertion-ordered association lists, the string methods the services use, and the
  list lemmas that several components share.
\<close>

text \<open>
  Two collections the component theories fill: \<open>op_defs\<close>, the definitions of small
  operations that proofs unfold together, and \<open>inv_defs\<close>, the definitions of the
  component invariants.
\<close>

named_theorems op_defs \<open>definitions of operations\<close>
named_theorems inv_defs \<open>definitions of invariants\<close>

section \<open>Errors as values\<close>

text \<open>
  A raising Python function returns a value of \<open>py_error + 'a\<close>. The string of an
  exception is its class specific payload, kept where a caller looks at it.
\<close>

datatype py_error =
    ValueError string
  | RuntimeError string
  | KeyError string
  | ZeroDivisionError
  | AttributeError string
  | VenueAPIError string
  | MarketNotFoundError string
  | OtherError string

type_synonym 'a result = "py_error + 'a"

definition sbind :: "'e + 'a \<Rightarrow> ('a \<Rightarrow> 'e + 'b) \<Rightarrow> 'e + 'b" where
  "sbind r f = (case r of Inl e \<Rightarrow> Inl e | Inr a \<Rightarrow> f a)"

lemma sbind_simps [simp]:
  "sbind (Inl e) f = Inl e" "sbind (Inr a) f = f a"
  by (simp_all add: sbind_def)

lemma sbind_eq_Inr: "sbind r f = Inr b \<longleftrightarrow> (\<exists>a. r = Inr a \<and> f a = Inr b)"
  by (cases r) simp_all

lemma sbind_eq_Inl: "sbind r f = Inl e \<longleftrightarrow> r = Inl e \<or> (\<exists>a. r = Inr a \<and> f a = Inl e)"
  by (cases r) simp_all

section \<open>Dictionaries\<close>

text \<open>
  A Python dictionary keeps the insertion order of its keys, and \<open>d[k] = v\<close> on a key
  that is present keeps the key's place. \<^const>\<open>AList.update\<close> and
  \<^const>\<open>AList.delete\<close> do exactly that on association lists.
\<close>

type_synonym ('k, 'v) dict = "('k \<times> 'v) list"

abbreviation d_get :: "('k, 'v) dict \<Rightarrow> 'k \<Rightarrow> 'v option" where
  "d_get \<equiv> map_of"

abbreviation d_set :: "'k \<Rightarrow> 'v \<Rightarrow> ('k, 'v) dict \<Rightarrow> ('k, 'v) dict" where
  "d_set \<equiv> AList.update"

abbreviation d_del :: "'k \<Rightarrow> ('k, 'v) dict \<Rightarrow> ('k, 'v) dict" where
  "d_del \<equiv> AList.delete"

abbreviation d_has :: "('k, 'v) dict \<Rightarrow> 'k \<Rightarrow> bool" where
  "d_has d k \<equiv> map_of d k \<noteq> None"

abbreviation d_keys :: "('k, 'v) dict \<Rightarrow> 'k list" where
  "d_keys d \<equiv> map fst d"

abbreviation d_values :: "('k, 'v) dict \<Rightarrow> 'v list" where
  "d_values d \<equiv> map snd d"

definition dict_wf :: "('k, 'v) dict \<Rightarrow> bool" where
  "dict_wf d \<longleftrightarrow> distinct (map fst d)"

lemma dict_wf_Nil [simp]: "dict_wf []"
  by (simp add: dict_wf_def)

lemma dict_wf_set [simp, intro]: "dict_wf d \<Longrightarrow> dict_wf (d_set k v d)"
  by (simp add: dict_wf_def distinct_update)

lemma dict_wf_del [simp, intro]: "dict_wf d \<Longrightarrow> dict_wf (d_del k d)"
  by (simp add: dict_wf_def distinct_delete)

lemma d_get_set [simp]: "d_get (d_set k v d) = (d_get d)(k \<mapsto> v)"
  by (simp add: update_conv')

lemma d_get_del [simp]: "d_get (d_del k d) = (d_get d)(k := None)"
  by (simp add: delete_conv')

lemma d_get_in: "d_get d k = Some v \<Longrightarrow> (k, v) \<in> set d"
  by (rule map_of_SomeD)

lemma d_in_get: "dict_wf d \<Longrightarrow> (k, v) \<in> set d \<Longrightarrow> d_get d k = Some v"
  by (simp add: dict_wf_def)

lemma d_in_iff_get: "dict_wf d \<Longrightarrow> (k, v) \<in> set d \<longleftrightarrow> d_get d k = Some v"
  by (auto intro: d_get_in d_in_get)

lemma d_get_filter: "d_get (filter (\<lambda>(k, v). P k) d) k = (if P k then d_get d k else None)"
  by (induction d) auto

lemma dict_wf_filter: "dict_wf d \<Longrightarrow> dict_wf (filter P d)"
  unfolding dict_wf_def by (induction d) (auto split: prod.splits)

lemma d_keys_iff: "k \<in> set (d_keys d) \<longleftrightarrow> d_has d k"
  by (simp add: map_of_eq_None_iff)

lemma d_keys_set_present [simp]:
  "k \<in> set (d_keys d) \<Longrightarrow> d_keys (d_set k v d) = d_keys d"
  by (simp add: update_keys)

lemma d_set_fresh: "k \<notin> set (d_keys d) \<Longrightarrow> d_set k v d = d @ [(k, v)]"
  by (induction d) auto

lemma length_d_del:
  "dict_wf d \<Longrightarrow> d_has d k \<Longrightarrow> Suc (length (d_del k d)) = length d"
proof (induction d)
  case (Cons a d)
  show ?case
  proof (cases "fst a = k")
    case True
    with Cons.prems have "k \<notin> set (d_keys d)" by (auto simp: dict_wf_def)
    then have "d_del k d = d" by (simp add: delete_id)
    with True show ?thesis by simp
  next
    case False
    with Cons show ?thesis by (auto simp: dict_wf_def)
  qed
qed simp

lemma mset_keys_d_del:
  assumes "dict_wf d" "d_has d k"
  shows "add_mset k (mset (d_keys (d_del k d))) = mset (d_keys d)"
proof -
  have "d_keys (d_del k d) = remove1 k (d_keys d)"
    using assms(1) by (simp add: delete_keys distinct_remove1_removeAll dict_wf_def)
  moreover have "k \<in> set (d_keys d)" by (rule d_keys_iff [THEN iffD2, OF assms(2)])
  ultimately show ?thesis by (simp add: insert_DiffM)
qed

lemma d_set_all: "\<forall>x \<in> set d. P x \<Longrightarrow> P (k, v) \<Longrightarrow> \<forall>x \<in> set (d_set k v d). P x"
  by (induction d) auto

lemma d_del_all: "\<forall>x \<in> set d. P x \<Longrightarrow> \<forall>x \<in> set (d_del k d). P x"
  by (auto simp: AList.delete_eq)

text \<open>A dictionary comprehension \<open>{key(x): val(x) for x in xs}\<close>: later items win.\<close>

definition dict_of :: "('k \<times> 'v) list \<Rightarrow> ('k, 'v) dict" where
  "dict_of kvs = fold (\<lambda>(k, v) d. d_set k v d) kvs []"

lemma dict_wf_fold_set:
  "dict_wf d \<Longrightarrow> dict_wf (fold (\<lambda>(k, v) d. d_set k v d) kvs d)"
  by (induction kvs arbitrary: d) auto

lemma dict_wf_dict_of [simp]: "dict_wf (dict_of kvs)"
  by (simp add: dict_of_def dict_wf_fold_set)

lemma d_get_fold_set:
  "d_get (fold (\<lambda>(k, v) d. d_set k v d) kvs d) k =
     (case map_of (rev kvs) k of Some v \<Rightarrow> Some v | None \<Rightarrow> d_get d k)"
  by (induction kvs arbitrary: d) (auto simp: map_add_def split: option.splits)

lemma d_get_dict_of: "d_get (dict_of kvs) k = map_of (rev kvs) k"
  by (simp add: dict_of_def d_get_fold_set split: option.splits)

text \<open>A set kept as a list without repetitions: \<open>add\<close> (\<open>discard\<close> is \<open>removeAll\<close>).\<close>

definition set_add :: "'a \<Rightarrow> 'a list \<Rightarrow> 'a list" where
  "set_add x xs = (if x \<in> set xs then xs else xs @ [x])"

lemma set_set_add [simp]: "set (set_add x xs) = insert x (set xs)"
  by (auto simp: set_add_def)

lemma set_add_ok: "set_add x xs \<noteq> []" "distinct xs \<Longrightarrow> distinct (set_add x xs)"
  by (auto simp: set_add_def)

section \<open>Sorting by a key\<close>

text \<open>
  \<open>[by_ts[ts] for ts in sorted(by_ts.keys())]\<close>: the values of a dictionary in the
  order of its keys.
\<close>

definition sorted_values :: "('k::linorder, 'v) dict \<Rightarrow> 'v list" where
  "sorted_values d = map snd (sort_key fst d)"

lemma set_sorted_values: "set (sorted_values d) = snd ` set d"
  by (simp add: sorted_values_def)

lemma length_sorted_values [simp]: "length (sorted_values d) = length d"
  by (simp add: sorted_values_def)

lemma sort_key_fst_strict:
  "dict_wf d \<Longrightarrow> sorted_wrt (<) (map fst (sort_key fst d))"
proof -
  assume "dict_wf d"
  then have "distinct (map fst (sort_key fst d))"
    by (simp add: dict_wf_def distinct_map)
  moreover have "sorted (map fst (sort_key fst d))" by simp
  ultimately show ?thesis by (simp add: strict_sorted_iff)
qed

lemma sorted_values_strict:
  assumes "dict_wf d" and "\<And>k v. (k, v) \<in> set d \<Longrightarrow> f v = k"
  shows "sorted_wrt (<) (map f (sorted_values d))"
proof -
  have "map f (sorted_values d) = map fst (sort_key fst d)"
    using assms(2) by (auto simp: sorted_values_def)
  then show ?thesis using assms(1) by (simp add: sort_key_fst_strict)
qed

lemma strict_sorted_map_unique:
  fixes f :: "'a \<Rightarrow> 'b::linorder"
  assumes "sorted_wrt (<) (map f xs)" "sorted_wrt (<) (map f ys)" "set xs = set ys"
  shows "xs = ys"
proof -
  have "inj_on f (set xs)"
    using assms(1) by (simp add: strict_sorted_iff distinct_map)
  moreover have "map f xs = map f ys"
    using assms by (intro sorted_distinct_set_unique) (auto simp: strict_sorted_iff)
  ultimately show ?thesis
    by (metis assms(3) Un_absorb map_inj_on)
qed

section \<open>Strings\<close>

text \<open>
  The Python string methods the services call, on ASCII strings: \<open>strip\<close>,
  \<open>upper\<close>, \<open>lower\<close>, \<open>startswith\<close> (the library's prefix test), the
  substring test \<open>a in b\<close> and \<open>split\<close> on one character.
\<close>

definition is_space :: "char \<Rightarrow> bool" where
  "is_space c \<longleftrightarrow> (c = CHR '' '' \<or> (9 \<le> (of_char c :: nat) \<and> (of_char c :: nat) \<le> 13)
     \<or> (28 \<le> (of_char c :: nat) \<and> (of_char c :: nat) \<le> 31))"

definition py_strip :: "string \<Rightarrow> string" where
  "py_strip s = rev (dropWhile is_space (rev (dropWhile is_space s)))"

definition upper_char :: "char \<Rightarrow> char" where
  "upper_char c = (let n = (of_char c :: nat) in
     if 97 \<le> n \<and> n \<le> 122 then char_of (n - 32) else c)"

definition lower_char :: "char \<Rightarrow> char" where
  "lower_char c = (let n = (of_char c :: nat) in
     if 65 \<le> n \<and> n \<le> 90 then char_of (n + 32) else c)"

definition py_upper :: "string \<Rightarrow> string" where
  "py_upper s = map upper_char s"

definition py_lower :: "string \<Rightarrow> string" where
  "py_lower s = map lower_char s"

fun py_startswith :: "string \<Rightarrow> string \<Rightarrow> bool" where
  "py_startswith s [] = True"
| "py_startswith [] (p # ps) = False"
| "py_startswith (c # s) (p # ps) = (c = p \<and> py_startswith s ps)"

fun py_in :: "string \<Rightarrow> string \<Rightarrow> bool" where
  "py_in a [] = (a = [])"
| "py_in a (c # s) = (py_startswith (c # s) a \<or> py_in a s)"

fun py_split :: "char \<Rightarrow> string \<Rightarrow> string list" where
  "py_split sep [] = [[]]"
| "py_split sep (c # s) =
     (if c = sep then [] # py_split sep s
      else (case py_split sep s of [] \<Rightarrow> [[c]] | w # ws \<Rightarrow> (c # w) # ws))"

definition py_join :: "string \<Rightarrow> string list \<Rightarrow> string" where
  "py_join sep ws = (case ws of [] \<Rightarrow> [] | w # ws' \<Rightarrow> w @ concat (map (\<lambda>x. sep @ x) ws'))"

lemma py_startswith_iff: "py_startswith s p \<longleftrightarrow> (\<exists>t. s = p @ t)"
  by (induction s p rule: py_startswith.induct) auto

lemma py_startswith_append [simp]: "py_startswith (p @ t) p"
  by (auto simp: py_startswith_iff)

lemma py_in_iff: "py_in a s \<longleftrightarrow> (\<exists>u v. s = u @ a @ v)"
proof (induction a s rule: py_in.induct)
  case (2 a c s)
  have "(\<exists>u v. c # s = u @ a @ v) \<longleftrightarrow>
      (\<exists>v. c # s = a @ v) \<or> (\<exists>u v. s = u @ a @ v)"
    by (metis append_Cons append_Nil list.inject neq_Nil_conv)
  with 2 show ?case by (simp add: py_startswith_iff)
qed auto

lemma py_in_length: "py_in a s \<Longrightarrow> length a \<le> length s"
  by (auto simp: py_in_iff)

lemma py_in_refl [simp]: "py_in s s"
  by (metis append_Nil append_Nil2 py_in_iff)

lemma upper_char_idem [simp]: "upper_char (upper_char c) = upper_char c"
  by (auto simp: upper_char_def Let_def)

lemma py_upper_idem [simp]: "py_upper (py_upper s) = py_upper s"
  by (simp add: py_upper_def)

lemma py_strip_idem_aux:
  "dropWhile P (rev (dropWhile P (rev (dropWhile P s)))) = rev (dropWhile P (rev (dropWhile P s)))"
proof (cases "rev (dropWhile P (rev (dropWhile P s)))")
  case (Cons c cs)
  have "dropWhile P s = (c # cs) @ rev (takeWhile P (rev (dropWhile P s)))"
    by (metis Cons rev_append rev_rev_ident takeWhile_dropWhile_id)
  then have "\<not> P c"
    by (metis append_Cons hd_dropWhile list.discI list.sel(1))
  then show ?thesis unfolding Cons by simp
next
  case Nil
  then show ?thesis unfolding Nil by simp
qed

lemma py_strip_idem [simp]: "py_strip (py_strip s) = py_strip s"
  by (simp add: py_strip_def py_strip_idem_aux)

text \<open>\<open>str(n)\<close> of an integer and \<open>int(s)\<close> of a string (sign, digits, single underscores).\<close>

definition digit_char :: "nat \<Rightarrow> char" where
  "digit_char d = char_of (48 + d)"

fun show_nat :: "nat \<Rightarrow> string" where
  "show_nat n = (if n < 10 then [digit_char n] else show_nat (n div 10) @ [digit_char (n mod 10)])"

declare show_nat.simps [simp del]

definition show_int :: "int \<Rightarrow> string" where
  "show_int n = (if n < 0 then CHR ''-'' # show_nat (nat (- n)) else show_nat (nat n))"

definition is_digit :: "char \<Rightarrow> bool" where
  "is_digit c \<longleftrightarrow> 48 \<le> (of_char c :: nat) \<and> (of_char c :: nat) \<le> 57"

fun parse_digits :: "nat \<Rightarrow> bool \<Rightarrow> string \<Rightarrow> nat option" where
  "parse_digits acc prev [] = (if prev then Some acc else None)"
| "parse_digits acc prev (c # s) =
     (if is_digit c then parse_digits (10 * acc + (of_char c - 48)) True s
      else if c = CHR ''_'' \<and> prev then parse_digits acc False s else None)"

definition py_int :: "string \<Rightarrow> int option" where
  "py_int s = (case py_strip s of
     [] \<Rightarrow> None
   | c # r \<Rightarrow>
       if c = CHR ''-'' then map_option (\<lambda>n. - int n) (parse_digits 0 False r)
       else if c = CHR ''+'' then map_option int (parse_digits 0 False r)
       else map_option int (parse_digits 0 False (c # r)))"

lemma is_digit_digit_char [simp]: "d < 10 \<Longrightarrow> is_digit (digit_char d)"
  by (simp add: is_digit_def digit_char_def)

lemma of_char_digit_char [simp]: "d < 10 \<Longrightarrow> of_char (digit_char d) - 48 = d"
  by (simp add: digit_char_def)

lemma parse_digits_append:
  "\<forall>c \<in> set s. is_digit c \<Longrightarrow> s \<noteq> [] \<Longrightarrow>
     parse_digits acc prev (s @ [c]) = Option.bind (parse_digits acc prev s) (\<lambda>a. parse_digits a True [c])"
proof (induction s arbitrary: acc prev)
  case (Cons x s)
  then show ?case by (cases "s = []") simp_all
qed simp

lemma show_nat_digits: "show_nat n \<noteq> [] \<and> (\<forall>c \<in> set (show_nat n). is_digit c)"
proof (induction n rule: show_nat.induct)
  case (1 n)
  then show ?case by (cases "n < 10") (simp_all add: show_nat.simps [of n])
qed

lemma parse_show_nat: "parse_digits 0 prev (show_nat n) = Some n"
proof (induction n rule: show_nat.induct)
  case (1 n)
  show ?case
  proof (cases "n < 10")
    case True
    then show ?thesis by (simp add: show_nat.simps [of n])
  next
    case False
    then have "parse_digits 0 prev (show_nat (n div 10)) = Some (n div 10)" using 1 by simp
    with False show ?thesis
      by (simp add: show_nat.simps [of n] parse_digits_append show_nat_digits)
  qed
qed

lemma digit_not_space: "is_digit c \<Longrightarrow> \<not> is_space c"
  by (auto simp: is_digit_def is_space_def)

lemma digit_not_sign: "is_digit c \<Longrightarrow> c \<noteq> CHR ''-'' \<and> c \<noteq> CHR ''+'' \<and> c \<noteq> CHR '':''"
  by (auto simp: is_digit_def)

lemma py_strip_id:
  "s \<noteq> [] \<Longrightarrow> \<not> is_space (hd s) \<Longrightarrow> \<not> is_space (last s) \<Longrightarrow> py_strip s = s"
proof -
  assume a: "s \<noteq> []" "\<not> is_space (hd s)" "\<not> is_space (last s)"
  then have "dropWhile is_space s = s" by (cases s) simp_all
  moreover have "dropWhile is_space (rev s) = rev s" using a by (cases s rule: rev_cases) simp_all
  ultimately show ?thesis by (simp add: py_strip_def)
qed

lemma show_int_ends:
  "show_int n \<noteq> [] \<and> \<not> is_space (hd (show_int n)) \<and> \<not> is_space (last (show_int n))
     \<and> CHR '':'' \<notin> set (show_int n)"
proof -
  have d: "show_nat m \<noteq> []" "hd (show_nat m) \<in> set (show_nat m)" "last (show_nat m) \<in> set (show_nat m)"
    "\<forall>c \<in> set (show_nat m). is_digit c" for m
    using show_nat_digits [of m] by auto
  have m: "\<not> is_space (CHR ''-'')" by (simp add: is_space_def)
  show ?thesis
    using d [of "nat (- n)"] d [of "nat n"] m digit_not_space digit_not_sign
    by (auto simp: show_int_def)
qed

lemma py_int_show_int: "py_int (show_int n) = Some n"
proof -
  have "py_strip (show_int n) = show_int n" using show_int_ends [of n] by (intro py_strip_id) simp_all
  moreover obtain c r where cr: "show_nat (nat n) = c # r" "c \<noteq> CHR ''-''" "c \<noteq> CHR ''+''"
    using show_nat_digits [of "nat n"] digit_not_sign by (cases "show_nat (nat n)") auto
  moreover have "parse_digits 0 False (c # r) = Some (nat n)"
    using parse_show_nat [of False "nat n"] cr(1) by simp
  ultimately show ?thesis
    by (cases "n < 0") (simp_all add: py_int_def show_int_def parse_show_nat)
qed

lemma py_split_no_sep: "c \<notin> set s \<Longrightarrow> py_split c s = [s]"
  by (induction s) auto

lemma py_split_append: "c \<notin> set s \<Longrightarrow> py_split c (s @ c # t) = s # py_split c t"
  by (induction s) auto

text \<open>\<open>xs[:n]\<close>, where a negative bound counts from the end.\<close>

definition py_take :: "int \<Rightarrow> 'a list \<Rightarrow> 'a list" where
  "py_take n xs = (if 0 \<le> n then take (nat n) xs else take (length xs - nat (- n)) xs)"

lemma find_SomeD: "find P xs = Some x \<Longrightarrow> P x \<and> x \<in> set xs"
  by (auto simp: find_Some_iff)

lemma set_map_filter: "set (List.map_filter f xs) = {y. \<exists>x \<in> set xs. f x = Some y}"
  by (induction xs) (auto simp: map_filter_simps split: option.split)

lemma sorted_le_last: "sorted xs \<Longrightarrow> x \<in> set xs \<Longrightarrow> x \<le> last xs"
proof -
  assume s: "sorted xs" and x: "x \<in> set xs"
  then have "xs = butlast xs @ [last xs]" by (cases xs) simp_all
  with s x show ?thesis by (metis sorted_append Un_iff set_append list.set_intros(1) empty_iff list.set(1) set_ConsD order_refl)
qed

section \<open>Adjacent elements\<close>

text \<open>A relation between all neighbours of a list, the shape of the \<open>range(1, n)\<close> loops.\<close>

fun adjacent :: "('a \<Rightarrow> 'a \<Rightarrow> bool) \<Rightarrow> 'a list \<Rightarrow> bool" where
  "adjacent R (x # y # zs) = (R x y \<and> adjacent R (y # zs))"
| "adjacent R xs = True"

lemma adjacent_sorted_wrt:
  assumes "transp R"
  shows "adjacent R xs = sorted_wrt R xs"
proof (induction xs rule: induct_list012)
  case (3 x y zs)
  have "R x z" if "R x y" "R y z" for z
    using assms that by (rule transpD)
  with 3 show ?case by auto
qed simp_all

lemma adjacent_map: "adjacent R (map f xs) = adjacent (\<lambda>a b. R (f a) (f b)) xs"
  by (induction xs rule: induct_list012) auto

lemma adjacent_append:
  "adjacent R (xs @ ys) \<longleftrightarrow> adjacent R xs \<and> adjacent R ys \<and>
     (xs \<noteq> [] \<and> ys \<noteq> [] \<longrightarrow> R (last xs) (hd ys))"
proof (induction xs rule: induct_list012)
  case (2 x)
  then show ?case by (cases ys) auto
qed auto

lemma adjacent_rev: "adjacent R (rev xs) \<longleftrightarrow> adjacent (\<lambda>a b. R b a) xs"
proof (induction xs rule: induct_list012)
  case (3 x y zs)
  then show ?case by (simp add: adjacent_append) blast
qed simp_all

lemma adjacent_tl: "adjacent R xs \<Longrightarrow> adjacent R (tl xs)"
  by (cases "(R, xs)" rule: adjacent.cases) auto

end
