(* ===== verification/PyFloat.thy ===== *)
theory PyFloat
  imports Prelude "HOL-Library.Log_Nat"
begin

text \<open>
  Python's \<open>float\<close> is an IEEE 754 binary64 number. A finite float is modelled by the
  rational it denotes, and every arithmetic operation by the exact rational result rounded
  to the nearest binary64 value, ties to even (\<open>rnd\<close>). Subnormals are rounded with the
  fixed exponent -1074. The exponent has no upper bound here: results beyond
  \<open>2 ^ 1024\<close> (infinities) and NaN are not modelled.
\<close>

type_synonym pfloat = rat

section \<open>Rounding to binary64\<close>

definition round_half_even :: "rat \<Rightarrow> int" where
  "round_half_even x = (let n = \<lfloor>x\<rfloor>; r = x - of_int n in
     if r < 1 / 2 then n else if r > 1 / 2 then n + 1 else if even n then n else n + 1)"

text \<open>\<open>binexp x\<close> is the \<open>e\<close> with \<open>2 ^ e \<le> x < 2 ^ (e + 1)\<close>.\<close>

definition binexp :: "rat \<Rightarrow> int" where
  "binexp x = (if 1 \<le> x then bitlen \<lfloor>x\<rfloor> - 1 else - bitlen (\<lceil>1 / x\<rceil> - 1))"

definition ulpexp :: "rat \<Rightarrow> int" where
  "ulpexp x = max (binexp x - 52) (- 1074)"

definition rnd_pos :: "rat \<Rightarrow> rat" where
  "rnd_pos x = of_int (round_half_even (x / 2 powi ulpexp x)) * 2 powi ulpexp x"

definition rnd :: "rat \<Rightarrow> pfloat" where
  "rnd x = (if x = 0 then 0 else if 0 < x then rnd_pos x else - rnd_pos (- x))"

definition is_float :: "rat \<Rightarrow> bool" where
  "is_float x \<longleftrightarrow> rnd x = x"

section \<open>Arithmetic\<close>

definition fadd :: "pfloat \<Rightarrow> pfloat \<Rightarrow> pfloat" where "fadd x y = rnd (x + y)"
definition fsub :: "pfloat \<Rightarrow> pfloat \<Rightarrow> pfloat" where "fsub x y = rnd (x - y)"
definition fmul :: "pfloat \<Rightarrow> pfloat \<Rightarrow> pfloat" where "fmul x y = rnd (x * y)"

text \<open>Division by a divisor the code knows to be non-zero; \<open>pdiv\<close> is Python's \<open>/\<close>.\<close>

definition fdiv :: "pfloat \<Rightarrow> pfloat \<Rightarrow> pfloat" where "fdiv x y = rnd (x / y)"

definition pdiv :: "pfloat \<Rightarrow> pfloat \<Rightarrow> pfloat result" where
  "pdiv x y = (if y = 0 then Inl ZeroDivisionError else Inr (fdiv x y))"

text \<open>\<open>sum(xs)\<close> of floats, left to right from the integer 0.\<close>

definition fsum :: "pfloat list \<Rightarrow> pfloat" where
  "fsum xs = fold (\<lambda>x acc. fadd acc x) xs 0"

text \<open>\<open>round(x, n)\<close>: the exact value rounded half-even at \<open>n\<close> decimals, then the nearest float.\<close>

definition fround :: "nat \<Rightarrow> pfloat \<Rightarrow> pfloat" where
  "fround n x = rnd (of_int (round_half_even (x * 10 ^ n)) / 10 ^ n)"

section \<open>Evaluation\<close>

text \<open>Code equations that evaluate the rounding on integers.\<close>

lemma round_half_even_code [code]:
  "round_half_even x = (case quotient_of x of (p, q) \<Rightarrow>
     (let n = p div q; r = 2 * (p mod q)
      in if r < q then n else if r > q then n + 1 else if even n then n else n + 1))"
proof -
  obtain p q where pq: "quotient_of x = (p, q)" by (cases "quotient_of x")
  then have q: "0 < q" and x: "x = of_int p / of_int q"
    by (simp_all add: quotient_of_denom_pos quotient_of_div)
  have n: "\<lfloor>x\<rfloor> = p div q" by (simp add: x floor_divide_of_int_eq)
  have "of_int p = (of_int q :: rat) * of_int (p div q) + of_int (p mod q)"
    by (metis mult_div_mod_eq of_int_add of_int_mult)
  then have "x - of_int \<lfloor>x\<rfloor> = of_int (p mod q) / of_int q"
    using q by (simp add: n) (simp add: x field_simps)
  moreover have "(of_int (p mod q) / of_int q :: rat) < 1 / 2 \<longleftrightarrow> of_int (2 * (p mod q)) < (of_int q :: rat)"
    using q by (simp add: pos_divide_less_eq mult.commute)
  moreover have "1 / 2 < (of_int (p mod q) / of_int q :: rat) \<longleftrightarrow> of_int q < (of_int (2 * (p mod q)) :: rat)"
    using q by (simp add: pos_less_divide_eq mult.commute)
  ultimately show ?thesis
    unfolding round_half_even_def Let_def pq prod.case by (simp only: of_int_less_iff n)
qed

lemma rnd_pos_code [code]:
  "rnd_pos x = (let u = ulpexp x in
     if 0 \<le> u then of_int (round_half_even (x / of_int (2 ^ nat u)) * 2 ^ nat u)
     else (let s = 2 ^ nat (- u) in of_int (round_half_even (x * of_int s)) / of_int s))"
proof (cases "0 \<le> ulpexp x")
  case True
  then show ?thesis by (simp add: rnd_pos_def Let_def power_int_def)
next
  case False
  then have "(2 :: rat) powi ulpexp x = 1 / 2 ^ nat (- ulpexp x)"
    by (simp add: power_int_def power_one_over)
  with False show ?thesis by (simp add: rnd_pos_def Let_def)
qed

section \<open>Exponents and the half-even rounding\<close>

lemma powi_pos [simp]: "0 < (2 :: rat) powi e"
  by (simp add: zero_less_power_int)

lemma powi_nonzero [simp]: "(2 :: rat) powi e \<noteq> 0"
  by simp

lemma powi_mono: "a \<le> b \<Longrightarrow> (2 :: rat) powi a \<le> 2 powi b"
  by (simp add: power_int_increasing)

lemma powi_strict_iff: "(2 :: rat) powi a < 2 powi b \<longleftrightarrow> a < b"
  by (metis linorder_not_less nle_le powi_mono power_int_strict_increasing one_less_numeral_iff semiring_norm(76))

lemma powi_split: "b \<le> a \<Longrightarrow> (2 :: rat) powi a / 2 powi b = of_int (2 ^ nat (a - b))"
proof -
  assume "b \<le> a"
  have "(2 :: rat) powi a / 2 powi b = 2 powi (a - b)" by (simp add: power_int_diff)
  with \<open>b \<le> a\<close> show ?thesis by (simp add: power_int_def)
qed

lemma round_half_even_of_int [simp]: "round_half_even (of_int n) = n"
  by (simp add: round_half_even_def)

lemma round_half_even_mono:
  assumes "x \<le> y"
  shows "round_half_even x \<le> round_half_even y"
proof (cases "\<lfloor>x\<rfloor> = \<lfloor>y\<rfloor>")
  case True
  with assms show ?thesis by (simp add: round_half_even_def Let_def)
next
  case False
  with assms have "\<lfloor>x\<rfloor> + 1 \<le> \<lfloor>y\<rfloor>" using floor_mono by fastforce
  moreover have "round_half_even x \<le> \<lfloor>x\<rfloor> + 1" "\<lfloor>y\<rfloor> \<le> round_half_even y"
    by (auto simp: round_half_even_def Let_def)
  ultimately show ?thesis by linarith
qed

lemma round_half_even_ge: "of_int n \<le> x \<Longrightarrow> n \<le> round_half_even x"
  using round_half_even_mono [of "of_int n" x] by simp

lemma round_half_even_le: "x \<le> of_int n \<Longrightarrow> round_half_even x \<le> n"
  using round_half_even_mono [of x "of_int n"] by simp

lemma binexp_ge_1:
  assumes "1 \<le> x"
  shows "2 powi binexp x \<le> x \<and> x < 2 powi (binexp x + 1)"
proof -
  have pos: "0 < \<lfloor>x\<rfloor>" using assms by simp
  note b = bitlen_bounds [OF pos]
  have nn: "0 \<le> bitlen \<lfloor>x\<rfloor> - 1" "0 \<le> bitlen \<lfloor>x\<rfloor>"
    using pos bitlen_eq_zero_iff [of "\<lfloor>x\<rfloor>"] bitlen_nonneg [of "\<lfloor>x\<rfloor>"] by linarith+
  have "of_int (2 ^ nat (bitlen \<lfloor>x\<rfloor> - 1)) \<le> x"
    using b by (simp only: le_floor_iff [symmetric])
  moreover have "x < of_int (2 ^ nat (bitlen \<lfloor>x\<rfloor>))"
    using b by (simp only: floor_less_iff [symmetric])
  ultimately show ?thesis
    using assms nn by (simp add: binexp_def power_int_def)
qed

lemma binexp_less_1:
  assumes "0 < x" "x < 1"
  shows "2 powi binexp x \<le> x \<and> x < 2 powi (binexp x + 1)"
proof -
  define m where "m = \<lceil>1 / x\<rceil> - 1"
  have "1 < 1 / x" using assms by simp
  then have pos: "0 < m" by (simp add: m_def less_ceiling_iff)
  note b = bitlen_bounds [OF pos]
  have nn: "1 \<le> bitlen m" using pos by (simp add: bitlen_ge_iff_power)
  have "1 / x \<le> of_int (m + 1)" by (simp add: m_def)
  also have "\<dots> \<le> of_int (2 ^ nat (bitlen m))" using b by (intro of_int_le_iff [THEN iffD2]) simp
  finally have up: "1 / x \<le> 2 ^ nat (bitlen m)" by simp
  have "of_int m < 1 / x" using ceiling_correct [of "1 / x"] unfolding m_def by simp
  moreover have "of_int (2 ^ nat (bitlen m - 1)) \<le> (of_int m :: rat)"
    using b by (simp only: of_int_le_iff)
  ultimately have "of_int (2 ^ nat (bitlen m - 1)) < 1 / x" by (rule order_le_less_trans [rotated])
  then have lo: "2 ^ nat (bitlen m - 1) < 1 / x" by simp
  have e: "2 powi (- bitlen m) = 1 / (2 :: rat) ^ nat (bitlen m)"
    "2 powi (1 - bitlen m) = 1 / (2 :: rat) ^ nat (bitlen m - 1)"
    using nn by (auto simp: power_int_def divide_simps)
  show ?thesis
    using assms up lo unfolding binexp_def m_def [symmetric]
    by (simp add: e divide_simps mult.commute)
qed

lemma binexp_bounds:
  "0 < x \<Longrightarrow> 2 powi binexp x \<le> x \<and> x < 2 powi (binexp x + 1)"
  using binexp_ge_1 [of x] binexp_less_1 [of x] by linarith

lemma binexp_unique:
  assumes "2 powi e \<le> x" "x < 2 powi (e + 1)"
  shows "binexp x = e"
proof -
  have "0 < x" using assms(1) powi_pos [of e] by linarith
  note b = binexp_bounds [OF this]
  have "(2 :: rat) powi binexp x < 2 powi (e + 1)" "(2 :: rat) powi e < 2 powi (binexp x + 1)"
    using b assms by linarith+
  then show ?thesis by (simp add: powi_strict_iff)
qed

lemma binexp_mono:
  assumes "0 < x" "x \<le> y"
  shows "binexp x \<le> binexp y"
proof -
  have "(2 :: rat) powi binexp x < 2 powi (binexp y + 1)"
    using binexp_bounds [of x] binexp_bounds [of y] assms by linarith
  then show ?thesis by (simp add: powi_strict_iff)
qed

section \<open>Properties of the rounding\<close>

text \<open>An integer multiple of a power of two with at most 53 bits is a float.\<close>

lemma rnd_pos_exact:
  assumes "0 < x" "x = of_int m * 2 powi e" "ulpexp x \<le> e"
  shows "rnd_pos x = x"
proof -
  have "x / 2 powi ulpexp x = of_int m * (2 powi e / 2 powi ulpexp x)"
    by (subst assms(2)) simp
  also have "\<dots> = of_int (m * 2 ^ nat (e - ulpexp x))"
    by (simp only: powi_split [OF assms(3)] of_int_mult)
  finally have q: "x / 2 powi ulpexp x = of_int (m * 2 ^ nat (e - ulpexp x))" .
  then have "rnd_pos x = x / 2 powi ulpexp x * 2 powi ulpexp x"
    by (simp only: rnd_pos_def round_half_even_of_int)
  then show ?thesis by simp
qed

lemma rnd_pos_le_pow:
  assumes "0 < x" "x \<le> 2 powi e" "ulpexp x \<le> e"
  shows "rnd_pos x \<le> 2 powi e"
proof -
  have "x / 2 powi ulpexp x \<le> 2 powi e / 2 powi ulpexp x"
    using assms(2) by (simp add: divide_right_mono)
  also have "\<dots> = of_int (2 ^ nat (e - ulpexp x))" by (rule powi_split [OF assms(3)])
  finally have "round_half_even (x / 2 powi ulpexp x) \<le> 2 ^ nat (e - ulpexp x)"
    by (rule round_half_even_le)
  then have "of_int (round_half_even (x / 2 powi ulpexp x)) \<le> (of_int (2 ^ nat (e - ulpexp x)) :: rat)"
    by (simp only: of_int_le_iff)
  also have "\<dots> = 2 powi e / 2 powi ulpexp x" by (rule powi_split [OF assms(3), symmetric])
  finally show ?thesis by (simp add: rnd_pos_def pos_le_divide_eq)
qed

lemma rnd_pos_ge_pow:
  assumes "0 < x" "2 powi e \<le> x" "ulpexp x \<le> e"
  shows "2 powi e \<le> rnd_pos x"
proof -
  have "of_int (2 ^ nat (e - ulpexp x)) = (2 :: rat) powi e / 2 powi ulpexp x"
    by (rule powi_split [OF assms(3), symmetric])
  also have "\<dots> \<le> x / 2 powi ulpexp x"
    using assms(2) by (simp add: divide_right_mono)
  finally have "2 ^ nat (e - ulpexp x) \<le> round_half_even (x / 2 powi ulpexp x)"
    by (rule round_half_even_ge)
  then have "(of_int (2 ^ nat (e - ulpexp x)) :: rat) \<le> of_int (round_half_even (x / 2 powi ulpexp x))"
    by (simp only: of_int_le_iff)
  then have "(2 :: rat) powi e / 2 powi ulpexp x \<le> of_int (round_half_even (x / 2 powi ulpexp x))"
    by (simp only: powi_split [OF assms(3)])
  then show ?thesis by (simp add: rnd_pos_def pos_divide_le_eq)
qed

lemma rnd_pos_mono:
  assumes "0 < x" "x \<le> y"
  shows "rnd_pos x \<le> rnd_pos y"
proof (cases "ulpexp x = ulpexp y")
  case True
  with assms show ?thesis
    by (simp add: rnd_pos_def divide_right_mono round_half_even_mono)
next
  case False
  have le: "binexp x \<le> binexp y" using assms by (rule binexp_mono)
  with False have lt: "binexp x < binexp y" "ulpexp y = binexp y - 52" "ulpexp x \<le> binexp y"
    by (auto simp: ulpexp_def max_def split: if_splits)
  have "x < 2 powi (binexp x + 1)" using binexp_bounds [OF assms(1)] by simp
  also have "\<dots> \<le> 2 powi binexp y" using lt(1) by (simp add: powi_mono)
  finally have "rnd_pos x \<le> 2 powi binexp y"
    using assms(1) lt(3) by (intro rnd_pos_le_pow) simp_all
  also have "\<dots> \<le> rnd_pos y"
    using assms lt(2) binexp_bounds [of y] by (intro rnd_pos_ge_pow) simp_all
  finally show ?thesis .
qed

lemma rnd_pos_nonneg: "0 < x \<Longrightarrow> 0 \<le> rnd_pos x"
  by (simp add: rnd_pos_def round_half_even_ge)

lemma rnd_0 [simp]: "rnd 0 = 0"
  by (simp add: rnd_def)

lemma rnd_minus: "rnd (- x) = - rnd x"
  by (simp add: rnd_def)

lemma rnd_nonneg: "0 \<le> x \<Longrightarrow> 0 \<le> rnd x"
  by (auto simp: rnd_def rnd_pos_nonneg)

lemma rnd_nonpos: "x \<le> 0 \<Longrightarrow> rnd x \<le> 0"
  using rnd_nonneg [of "- x"] by (simp add: rnd_minus)

theorem rnd_mono: "x \<le> y \<Longrightarrow> rnd x \<le> rnd y"
proof -
  assume le: "x \<le> y"
  consider "0 < x" | "x \<le> 0" "0 \<le> y" | "y < 0" by linarith
  then show ?thesis
  proof cases
    case 1
    with le show ?thesis by (simp add: rnd_def rnd_pos_mono)
  next
    case 2
    then show ?thesis using rnd_nonpos [of x] rnd_nonneg [of y] by linarith
  next
    case 3
    with le have "rnd_pos (- y) \<le> rnd_pos (- x)" by (intro rnd_pos_mono) simp_all
    with 3 le show ?thesis by (simp add: rnd_def)
  qed
qed

lemma ulpexp_bound:
  assumes "0 < x" "x < 2 powi (e + 53)" "- 1074 \<le> e"
  shows "ulpexp x \<le> e"
proof -
  have "(2 :: rat) powi binexp x < 2 powi (e + 53)"
    using binexp_bounds [OF assms(1)] assms(2) by linarith
  then show ?thesis using assms(3) by (simp add: powi_strict_iff ulpexp_def)
qed

lemma rnd_exact_pos:
  assumes "0 < m" "m \<le> 2 ^ 53" "- 1074 \<le> e"
  shows "rnd_pos (of_int m * 2 powi e) = of_int m * 2 powi e"
proof (cases "m = 2 ^ 53")
  case True
  have s: "(of_int m :: rat) * 2 powi e = of_int 1 * 2 powi (e + 53)"
    using True by (simp add: power_int_add)
  have "rnd_pos (of_int 1 * 2 powi (e + 53)) = (of_int 1 * 2 powi (e + 53) :: rat)"
  proof (rule rnd_pos_exact [OF _ refl])
    show "ulpexp (of_int 1 * 2 powi (e + 53)) \<le> e + 53"
      using assms(3) powi_strict_iff [of "e + 53" "e + 53 + 53"] by (intro ulpexp_bound) simp_all
  qed simp
  then show ?thesis by (simp only: s)
next
  case False
  have pos: "0 < (of_int m :: rat) * 2 powi e" using assms(1) by simp
  have "(of_int m :: rat) < of_int (2 ^ 53)" using False assms(2) by (simp only: of_int_less_iff)
  then have "(of_int m :: rat) * 2 powi e < 2 powi (e + 53)" by (simp add: power_int_add)
  then show ?thesis
    using assms(3) pos by (intro rnd_pos_exact [OF _ refl] ulpexp_bound) simp_all
qed

lemma rnd_of_int: "\<bar>n\<bar> \<le> 2 ^ 53 \<Longrightarrow> rnd (of_int n) = of_int n"
  using rnd_exact_pos [of n 0] rnd_exact_pos [of "- n" 0]
  by (cases n "0 :: int" rule: linorder_cases) (simp_all add: rnd_def)

lemma rnd_1 [simp]: "rnd 1 = 1"
  using rnd_of_int [of 1] by simp

lemma rnd_pos_idem:
  assumes "0 < x"
  shows "rnd (rnd_pos x) = rnd_pos x"
proof -
  define m where "m = round_half_even (x / 2 powi ulpexp x)"
  have eq: "rnd_pos x = of_int m * 2 powi ulpexp x" by (simp add: rnd_pos_def m_def)
  have m0: "0 \<le> m" using assms by (simp add: m_def round_half_even_ge)
  have "binexp x + 1 \<le> ulpexp x + 53" by (simp add: ulpexp_def)
  then have "x < 2 powi (ulpexp x + 53)"
    using binexp_bounds [OF assms] powi_mono order_less_le_trans by blast
  then have "x / 2 powi ulpexp x \<le> of_int (2 ^ 53)"
    by (simp add: power_int_add pos_divide_le_eq mult.commute)
  then have m53: "m \<le> 2 ^ 53" unfolding m_def by (rule round_half_even_le)
  show ?thesis
  proof (cases "m = 0")
    case True
    then show ?thesis by (simp add: eq)
  next
    case False
    with m0 have "0 < m" by simp
    then have "rnd_pos (of_int m * 2 powi ulpexp x) = of_int m * 2 powi ulpexp x"
      using m53 by (intro rnd_exact_pos) (simp_all add: ulpexp_def)
    with \<open>0 < m\<close> show ?thesis by (simp add: eq rnd_def)
  qed
qed

theorem rnd_idem [simp]: "rnd (rnd x) = rnd x"
proof -
  consider "x = 0" | "0 < x" | "0 < - x" by linarith
  then show ?thesis
  proof cases
    case 3
    then have "rnd (- rnd_pos (- x)) = - rnd_pos (- x)"
      by (simp only: rnd_minus rnd_pos_idem)
    with 3 show ?thesis by (simp add: rnd_def)
  qed (simp_all add: rnd_def [of x] rnd_pos_idem)
qed

lemma is_float_rnd [simp]: "is_float (rnd x)"
  by (simp add: is_float_def)

lemma is_float_ops [simp]:
  "is_float (fadd x y)" "is_float (fsub x y)" "is_float (fmul x y)" "is_float (fdiv x y)"
  by (simp_all add: fadd_def fsub_def fmul_def fdiv_def)

lemma is_float_0 [simp]: "is_float 0"
  by (simp add: is_float_def)

lemma is_float_1 [simp]: "is_float 1"
  by (simp add: is_float_def)

lemma rnd_ge: "is_float a \<Longrightarrow> a \<le> x \<Longrightarrow> a \<le> rnd x"
  using rnd_mono [of a x] by (simp add: is_float_def)

lemma rnd_le: "is_float a \<Longrightarrow> x \<le> a \<Longrightarrow> rnd x \<le> a"
  using rnd_mono [of x a] by (simp add: is_float_def)

section \<open>Sign and order of the operations\<close>

lemma fadd_nonneg: "0 \<le> x \<Longrightarrow> 0 \<le> y \<Longrightarrow> 0 \<le> fadd x y"
  by (simp add: fadd_def rnd_nonneg)

lemma fmul_nonneg: "0 \<le> x \<Longrightarrow> 0 \<le> y \<Longrightarrow> 0 \<le> fmul x y"
  by (simp add: fmul_def rnd_nonneg)

lemma fdiv_nonneg: "0 \<le> x \<Longrightarrow> 0 \<le> y \<Longrightarrow> 0 \<le> fdiv x y"
  by (simp add: fdiv_def rnd_nonneg)

lemma fadd_mono: "x \<le> x' \<Longrightarrow> y \<le> y' \<Longrightarrow> fadd x y \<le> fadd x' y'"
  by (simp add: fadd_def rnd_mono)

lemma fmul_mono_right: "0 \<le> c \<Longrightarrow> x \<le> y \<Longrightarrow> fmul x c \<le> fmul y c"
  by (simp add: fmul_def rnd_mono mult_right_mono)

lemma fdiv_mono: "0 < c \<Longrightarrow> x \<le> y \<Longrightarrow> fdiv x c \<le> fdiv y c"
  by (simp add: fdiv_def rnd_mono divide_right_mono)

lemma fmul_ge_left: "is_float p \<Longrightarrow> 0 \<le> p \<Longrightarrow> 1 \<le> k \<Longrightarrow> p \<le> fmul p k"
  unfolding fmul_def by (rule rnd_ge) (simp_all add: mult_le_cancel_left1)

lemma fmul_le_left: "is_float p \<Longrightarrow> 0 \<le> p \<Longrightarrow> k \<le> 1 \<Longrightarrow> fmul p k \<le> p"
  unfolding fmul_def by (rule rnd_le) (simp_all add: mult_le_cancel_left2)

lemma fadd_one_ge: "0 \<le> s \<Longrightarrow> 1 \<le> fadd 1 s"
  unfolding fadd_def by (rule rnd_ge) simp_all

lemma fsub_one_le: "0 \<le> s \<Longrightarrow> fsub 1 s \<le> 1"
  unfolding fsub_def by (rule rnd_le) simp_all

lemma fsub_nonneg: "y \<le> x \<Longrightarrow> 0 \<le> fsub x y"
  by (simp add: fsub_def rnd_nonneg)

lemma fsub_nonpos: "x \<le> y \<Longrightarrow> fsub x y \<le> 0"
  by (simp add: fsub_def rnd_nonpos)

lemma pdiv_eq_Inr: "pdiv x y = Inr z \<longleftrightarrow> y \<noteq> 0 \<and> z = fdiv x y"
  by (auto simp: pdiv_def)

end
