(* ===== verification/PyTime.thy ===== *)
theory PyTime
  imports Prelude
begin

text \<open>
  Python's \<open>datetime\<close>: a wall clock reading (microseconds since 1970-01-01T00:00 on the
  local clock), the \<open>fold\<close> flag of PEP 495 and an optional \<open>tzinfo\<close>. A zone is
  what the standard library asks of it: its UTC offset at a wall clock reading and the
  conversion from UTC. The zone data (tzdata) is not part of the repository, so a zone other
  than UTC is a parameter of the definitions that use it. Two datetimes of one zone are
  compared and subtracted on the wall clock, datetimes of different zones through UTC.
\<close>

section \<open>Zones and datetimes\<close>

record tzinfo =
  tz_name :: string
  tz_utcoff :: "int \<Rightarrow> bool \<Rightarrow> int"
  tz_fromutc :: "int \<Rightarrow> int \<times> bool"

record datetime =
  dt_wall :: int
  dt_fold :: bool
  dt_tz :: "tzinfo option"

definition utc :: tzinfo where
  "utc = \<lparr>tz_name = ''UTC'', tz_utcoff = (\<lambda>_ _. 0), tz_fromutc = (\<lambda>u. (u, False))\<rparr>"

text \<open>The documented contract of \<open>fromutc\<close>: it inverts the offset.\<close>

definition tz_ok :: "tzinfo \<Rightarrow> bool" where
  "tz_ok z \<longleftrightarrow> (\<forall>u. fst (tz_fromutc z u) - tz_utcoff z (fst (tz_fromutc z u)) (snd (tz_fromutc z u)) = u)"

lemma tz_ok_utc [simp]: "tz_ok utc"
  by (simp add: tz_ok_def utc_def)

abbreviation second_us :: int where "second_us \<equiv> 1000000"
abbreviation minute_us :: int where "minute_us \<equiv> 60000000"
abbreviation day_us :: int where "day_us \<equiv> 86400000000"

definition utc_dt :: "int \<Rightarrow> datetime" where
  "utc_dt us = \<lparr>dt_wall = us, dt_fold = False, dt_tz = Some utc\<rparr>"

definition dt_epoch :: "datetime \<Rightarrow> int" where
  "dt_epoch d = (case dt_tz d of None \<Rightarrow> dt_wall d
     | Some z \<Rightarrow> dt_wall d - tz_utcoff z (dt_wall d) (dt_fold d))"

definition same_tz :: "datetime \<Rightarrow> datetime \<Rightarrow> bool" where
  "same_tz a b \<longleftrightarrow> map_option tz_name (dt_tz a) = map_option tz_name (dt_tz b)"

text \<open>\<open>a - b\<close> in microseconds, and the comparisons Python derives from it.\<close>

definition dt_sub :: "datetime \<Rightarrow> datetime \<Rightarrow> int" where
  "dt_sub a b = (if same_tz a b then dt_wall a - dt_wall b else dt_epoch a - dt_epoch b)"

definition dt_less :: "datetime \<Rightarrow> datetime \<Rightarrow> bool" where
  "dt_less a b \<longleftrightarrow> dt_sub a b < 0"

definition dt_le :: "datetime \<Rightarrow> datetime \<Rightarrow> bool" where
  "dt_le a b \<longleftrightarrow> dt_sub a b \<le> 0"

text \<open>
  Times of different zones are never equal when the offset of one depends on its \<open>fold\<close>, as in the
  hour an autumn clock change repeats (PEP 495).
\<close>

definition fold_matters :: "datetime \<Rightarrow> bool" where
  "fold_matters d = (case dt_tz d of None \<Rightarrow> False
     | Some z \<Rightarrow> tz_utcoff z (dt_wall d) (\<not> dt_fold d) \<noteq> tz_utcoff z (dt_wall d) (dt_fold d))"

definition dt_eq :: "datetime \<Rightarrow> datetime \<Rightarrow> bool" where
  "dt_eq a b \<longleftrightarrow> dt_sub a b = 0 \<and> (same_tz a b \<or> \<not> fold_matters a \<and> \<not> fold_matters b)"

definition dt_add :: "datetime \<Rightarrow> int \<Rightarrow> datetime" where
  "dt_add d us = d\<lparr>dt_wall := dt_wall d + us, dt_fold := False\<rparr>"

definition fromtimestamp :: "tzinfo \<Rightarrow> int \<Rightarrow> datetime" where
  "fromtimestamp z us = \<lparr>dt_wall = fst (tz_fromutc z us), dt_fold = snd (tz_fromutc z us), dt_tz = Some z\<rparr>"

definition astimezone :: "tzinfo \<Rightarrow> datetime \<Rightarrow> datetime" where
  "astimezone z d = (if map_option tz_name (dt_tz d) = Some (tz_name z) then d
     else fromtimestamp z (dt_epoch d))"

text \<open>\<open>int(x / n)\<close> truncates towards zero.\<close>

definition trunc_div :: "int \<Rightarrow> int \<Rightarrow> int" where
  "trunc_div a n = (if 0 \<le> a then a div n else - ((- a) div n))"

definition timestamp_int :: "datetime \<Rightarrow> int" where
  "timestamp_int d = trunc_div (dt_epoch d) second_us"

text \<open>\<open>replace(second=0, microsecond=0)\<close>\<close>

definition floor_minute :: "datetime \<Rightarrow> datetime" where
  "floor_minute d = d\<lparr>dt_wall := dt_wall d - dt_wall d mod minute_us\<rparr>"

lemma utc_dt_simps [simp]:
  "dt_wall (utc_dt u) = u" "dt_fold (utc_dt u) = False" "dt_tz (utc_dt u) = Some utc"
  "dt_epoch (utc_dt u) = u"
  by (simp_all add: utc_dt_def dt_epoch_def utc_def)

lemma same_tz_utc [simp]: "same_tz (utc_dt a) (utc_dt b)"
  by (simp add: same_tz_def)

lemma dt_utc_simps [simp]:
  "dt_sub (utc_dt a) (utc_dt b) = a - b"
  "dt_less (utc_dt a) (utc_dt b) \<longleftrightarrow> a < b"
  "dt_le (utc_dt a) (utc_dt b) \<longleftrightarrow> a \<le> b"
  "dt_eq (utc_dt a) (utc_dt b) \<longleftrightarrow> a = b"
  "dt_add (utc_dt a) us = utc_dt (a + us)"
  "floor_minute (utc_dt a) = utc_dt (a - a mod minute_us)"
  by (simp_all add: dt_sub_def dt_less_def dt_le_def dt_eq_def dt_add_def floor_minute_def utc_dt_def
      same_tz_def)

lemma utc_dt_inj [simp]: "utc_dt a = utc_dt b \<longleftrightarrow> a = b"
  by (simp add: utc_dt_def)

lemma fromtimestamp_utc [simp]: "fromtimestamp utc u = utc_dt u"
  by (simp add: fromtimestamp_def utc_dt_def utc_def)

lemma fromtimestamp_epoch [simp]: "tz_ok z \<Longrightarrow> dt_epoch (fromtimestamp z u) = u"
  by (simp add: fromtimestamp_def dt_epoch_def tz_ok_def)

lemma timestamp_int_seconds [simp]: "timestamp_int (utc_dt (s * second_us)) = s"
  by (simp add: timestamp_int_def trunc_div_def minus_mult_left del: mult_minus_left)

lemma timestamp_int_numeral [simp]:
  "timestamp_int (utc_dt (numeral n)) = numeral n div second_us"
  "timestamp_int (utc_dt 0) = 0"
  by (simp_all add: timestamp_int_def trunc_div_def)

lemma trunc_div_mult [simp]: "0 < n \<Longrightarrow> trunc_div (k * n) n = k"
  by (simp add: trunc_div_def minus_mult_left del: mult_minus_left)

lemma trunc_div_le_mult: "0 < n \<Longrightarrow> 0 \<le> a \<Longrightarrow> trunc_div a n * n \<le> a"
  by (simp add: trunc_div_def minus_mod_eq_div_mult [symmetric])

text \<open>
  A zone with one transition: offset \<open>o1\<close> before the instant \<open>T\<close> and \<open>o2\<close> from it on. Wall
  clock times that occur twice (or never) are resolved by \<open>fold\<close> as PEP 495 says.
\<close>

definition switch_zone :: "string \<Rightarrow> int \<Rightarrow> int \<Rightarrow> int \<Rightarrow> tzinfo" where
  "switch_zone name T o1 o2 = \<lparr>tz_name = name,
     tz_utcoff = (\<lambda>w f. if w < T + min o1 o2 then o1
        else if w < T + max o1 o2 then (if f then o2 else o1) else o2),
     tz_fromutc = (\<lambda>u. if u < T then (u + o1, False) else (u + o2, u < T + (o1 - o2)))\<rparr>"

lemma tz_ok_switch_zone [simp]: "tz_ok (switch_zone name T o1 o2)"
  by (auto simp: tz_ok_def switch_zone_def)

section \<open>The calendar\<close>

definition is_leap :: "int \<Rightarrow> bool" where
  "is_leap y \<longleftrightarrow> y mod 4 = 0 \<and> (y mod 100 \<noteq> 0 \<or> y mod 400 = 0)"

definition days_before_year :: "int \<Rightarrow> int" where
  "days_before_year y = 365 * (y - 1970) + ((y - 1) div 4 - (y - 1) div 100 + (y - 1) div 400) - 477"

definition days_before_month :: "int \<Rightarrow> int \<Rightarrow> int" where
  "days_before_month y m =
     [0, 31, 59, 90, 120, 151, 181, 212, 243, 273, 304, 334] ! nat (m - 1)
       + (if 2 < m \<and> is_leap y then 1 else 0)"

text \<open>
  Months are numbered consecutively: \<open>12 * year + (month - 1)\<close>. \<open>month_start\<close> is the
  day number (days since 1970-01-01) of the first of a month, \<open>month_of_day\<close> its inverse.
\<close>

definition month_start :: "int \<Rightarrow> int" where
  "month_start i = days_before_year (i div 12) + days_before_month (i div 12) (i mod 12 + 1)"

lemma div_pred:
  fixes y n :: int
  assumes "0 < n"
  shows "y div n = (y - 1) div n + (if y mod n = 0 then 1 else 0)"
proof (cases "y mod n = 0")
  case True
  have "y - 1 = n * (y div n - 1) + (n - 1)"
    using True div_mult_mod_eq [of y n] by (simp add: algebra_simps)
  then have "(y - 1) div n = y div n - 1" by (rule int_div_pos_eq) (use assms in simp_all)
  with True show ?thesis by simp
next
  case False
  have "y - 1 = n * (y div n) + (y mod n - 1)"
    using div_mult_mod_eq [of y n] by (simp add: algebra_simps)
  moreover have "0 \<le> y mod n - 1" "y mod n - 1 < n"
    using False assms pos_mod_sign [of n y] pos_mod_bound [of n y] by linarith+
  ultimately have "(y - 1) div n = y div n" by (rule int_div_pos_eq)
  with False show ?thesis by simp
qed

lemma days_before_year_Suc:
  "days_before_year (y + 1) = days_before_year y + (if is_leap y then 366 else 365)"
proof -
  have 4: "y mod 100 = 0 \<Longrightarrow> y mod 4 = 0"
    using dvd_trans [of 4 100 y] by (simp add: mod_eq_0_iff_dvd)
  have 100: "y mod 400 = 0 \<Longrightarrow> y mod 100 = 0"
    using dvd_trans [of 100 400 y] by (simp add: mod_eq_0_iff_dvd)
  have d: "y div 4 = (y - 1) div 4 + (if y mod 4 = 0 then 1 else 0)"
    "y div 100 = (y - 1) div 100 + (if y mod 100 = 0 then 1 else 0)"
    "y div 400 = (y - 1) div 400 + (if y mod 400 = 0 then 1 else 0)"
    by (rule div_pred, simp)+
  have "days_before_year (y + 1) = days_before_year y + 365 + ((if y mod 4 = 0 then 1 else 0)
      - (if y mod 100 = 0 then 1 else 0) + (if y mod 400 = 0 then 1 else 0))"
    unfolding days_before_year_def add_diff_cancel_right' d by (simp only: algebra_simps)
  then show ?thesis unfolding is_leap_def using 4 100
    by (cases "y mod 4 = 0"; cases "y mod 100 = 0"; cases "y mod 400 = 0") simp_all
qed

lemma below_12:
  assumes "0 \<le> (r :: int)" "r < 12"
  shows "r = 0 \<or> r = 1 \<or> r = 2 \<or> r = 3 \<or> r = 4 \<or> r = 5 \<or> r = 6 \<or> r = 7 \<or> r = 8 \<or> r = 9
    \<or> r = 10 \<or> r = 11"
  using assms by presburger

lemma days_before_month_step:
  assumes "0 \<le> r" "r < 11"
  shows "days_before_month y (r + 1) + 28 \<le> days_before_month y (r + 2) \<and>
    days_before_month y (r + 2) \<le> days_before_month y (r + 1) + 31"
proof -
  have "r = 0 \<or> r = 1 \<or> r = 2 \<or> r = 3 \<or> r = 4 \<or> r = 5 \<or> r = 6 \<or> r = 7 \<or> r = 8 \<or> r = 9 \<or> r = 10"
    using below_12 [of r] assms by auto
  then show ?thesis
    by (elim disjE) (simp_all add: days_before_month_def eval_nat_numeral)
qed

lemma month_start_step:
  "month_start i + 28 \<le> month_start (i + 1) \<and> month_start (i + 1) \<le> month_start i + 31"
proof -
  define y r where yr: "y = i div 12" "r = i mod 12"
  have r: "0 \<le> r" "r < 12" by (simp_all add: yr)
  have i: "i = 12 * y + r" by (simp add: yr)
  have s0: "month_start i = days_before_year y + days_before_month y (r + 1)"
    by (simp add: month_start_def yr)
  show ?thesis
  proof (cases "r = 11")
    case True
    have "(i + 1) div 12 = y + 1"
      by (rule int_div_pos_eq [where r = 0]) (use i True in simp_all)
    moreover have "(i + 1) mod 12 = 0"
      by (rule int_mod_pos_eq [where q = "y + 1"]) (use i True in simp_all)
    ultimately have "month_start (i + 1) = days_before_year (y + 1)"
      by (simp add: month_start_def days_before_month_def)
    moreover have "days_before_month y (r + 1) = 334 + (if is_leap y then 1 else 0)"
      using True by (simp add: days_before_month_def eval_nat_numeral)
    ultimately show ?thesis by (simp add: s0 days_before_year_Suc)
  next
    case False
    have "(i + 1) div 12 = y"
      by (rule int_div_pos_eq [where r = "r + 1"]) (use i r False in simp_all)
    moreover have "(i + 1) mod 12 = r + 1"
      by (rule int_mod_pos_eq [where q = y]) (use i r False in simp_all)
    ultimately have "month_start (i + 1) = days_before_year y + days_before_month y (r + 2)"
      by (simp add: month_start_def add.commute)
    with False r days_before_month_step [of r y] show ?thesis by (simp add: s0)
  qed
qed

function month_search :: "int \<Rightarrow> int \<Rightarrow> int" where
  "month_search i d = (if month_start (i + 1) \<le> d then month_search (i + 1) d else i)"
  by pat_completeness auto
termination
proof (relation "measure (\<lambda>(i, d). nat (d - month_start i))")
  fix i d assume "month_start (i + 1) \<le> d"
  then show "((i + 1, d), i, d) \<in> measure (\<lambda>(i, d). nat (d - month_start i))"
    using month_start_step [of i] by simp
qed simp

declare month_search.simps [simp del]

definition month_of_day :: "int \<Rightarrow> int" where
  "month_of_day d = month_search (12 * 1970 + (if 0 \<le> d then d div 31 else d div 28)) d"

lemma month_start_1970 [simp]: "month_start (12 * 1970) = 0"
  by (simp add: month_start_def days_before_year_def days_before_month_def)

lemma month_start_up: "month_start (12 * 1970 + int k) \<le> 31 * int k"
proof (induction k)
  case (Suc k)
  then show ?case using month_start_step [of "12 * 1970 + int k"] by (simp add: algebra_simps)
qed (use month_start_1970 in simp)

lemma month_start_down: "month_start (12 * 1970 - int k) \<le> - 28 * int k"
proof (induction k)
  case (Suc k)
  then show ?case using month_start_step [of "12 * 1970 - int k - 1"] by (simp add: algebra_simps)
qed (use month_start_1970 in simp)

lemma month_search_spec:
  "month_start i \<le> d \<Longrightarrow>
     month_start (month_search i d) \<le> d \<and> d < month_start (month_search i d + 1)"
proof (induction i d rule: month_search.induct)
  case (1 i d)
  then show ?case
    by (cases "month_start (i + 1) \<le> d") (auto simp: month_search.simps [of i d])
qed

lemma month_of_day_spec:
  "month_start (month_of_day d) \<le> d \<and> d < month_start (month_of_day d + 1)"
proof -
  have "month_start (12 * 1970 + (if 0 \<le> d then d div 31 else d div 28)) \<le> d"
  proof (cases "0 \<le> d")
    case True
    then have "0 \<le> d div 31" by simp
    then have "month_start (12 * 1970 + d div 31) \<le> 31 * (d div 31)"
      using month_start_up [of "nat (d div 31)"] by simp
    also have "\<dots> \<le> d" by linarith
    finally show ?thesis using True by simp
  next
    case False
    then have "0 \<le> - (d div 28)" by simp
    then have "month_start (12 * 1970 + d div 28) \<le> 28 * (d div 28)"
      using month_start_down [of "nat (- (d div 28))"] by simp
    also have "\<dots> \<le> d" by linarith
    finally show ?thesis using False by simp
  qed
  then show ?thesis unfolding month_of_day_def by (rule month_search_spec)
qed

lemma month_start_mono_nat: "month_start i \<le> month_start (i + int k)"
proof (induction k)
  case (Suc k)
  then show ?case using month_start_step [of "i + int k"] by (simp add: algebra_simps)
qed simp

lemma month_start_mono: "i \<le> j \<Longrightarrow> month_start i \<le> month_start j"
  using month_start_mono_nat [of i "nat (j - i)"] by simp

lemma month_of_day_le_iff: "month_of_day d \<le> i \<longleftrightarrow> d < month_start (i + 1)"
proof -
  note s = month_of_day_spec [of d]
  show ?thesis
  proof
    assume "month_of_day d \<le> i"
    then have "month_start (month_of_day d + 1) \<le> month_start (i + 1)" by (simp add: month_start_mono)
    with s show "d < month_start (i + 1)" by linarith
  next
    assume a: "d < month_start (i + 1)"
    show "month_of_day d \<le> i"
    proof (rule ccontr)
      assume "\<not> month_of_day d \<le> i"
      then have "month_start (i + 1) \<le> month_start (month_of_day d)" by (simp add: month_start_mono)
      with s a show False by linarith
    qed
  qed
qed

lemma month_of_day_ge_iff: "i \<le> month_of_day d \<longleftrightarrow> month_start i \<le> d"
  using month_of_day_le_iff [of d "i - 1"] by auto

lemma month_of_day_mono: "d \<le> e \<Longrightarrow> month_of_day d \<le> month_of_day e"
  using month_of_day_spec [of d] by (simp add: month_of_day_ge_iff)

lemma month_of_day_start [simp]: "month_of_day (month_start i) = i"
proof (rule antisym)
  show "month_of_day (month_start i) \<le> i" using month_start_step [of i] by (simp add: month_of_day_le_iff)
  show "i \<le> month_of_day (month_start i)" by (simp add: month_of_day_ge_iff)
qed

definition dt_day :: "datetime \<Rightarrow> int" where "dt_day d = dt_wall d div day_us"
definition dt_month :: "datetime \<Rightarrow> int" where "dt_month d = month_of_day (dt_day d)"

text \<open>\<open>weekday()\<close> counts from Monday = 0; 1970-01-01 was a Thursday.\<close>

definition dt_weekday :: "datetime \<Rightarrow> int" where "dt_weekday d = (dt_day d + 3) mod 7"
definition dt_hour :: "datetime \<Rightarrow> int" where "dt_hour d = (dt_wall d mod day_us) div 3600000000"
definition dt_minute :: "datetime \<Rightarrow> int" where "dt_minute d = (dt_wall d mod 3600000000) div minute_us"

text \<open>\<open>replace(day=1, hour=0, minute=0, second=0, microsecond=0)\<close>\<close>

definition floor_month :: "datetime \<Rightarrow> datetime" where
  "floor_month d = d\<lparr>dt_wall := month_start (dt_month d) * day_us\<rparr>"

lemma floor_month_le: "dt_wall (floor_month d) \<le> dt_wall d"
proof -
  have "month_start (dt_month d) \<le> dt_day d"
    using month_of_day_spec [of "dt_day d"] by (simp add: dt_month_def)
  then have "month_start (dt_month d) \<le> dt_wall d div day_us" by (simp add: dt_day_def)
  then show ?thesis by (simp add: floor_month_def)
qed

end
