(* ===== verification/Models.thy ===== *)
theory Models
  imports PyFloat PyTime
begin

text \<open>
  The dataclasses of \<open>domain/models\<close>: candles, candle ranges, orders, positions,
  balances, prices, trade fills and the fee model. A dataclass is a record with the source's
  fields; \<open>__post_init__\<close> and the properties are functions on it. Validation errors are
  values of \<^typ>\<open>py_error\<close>.
\<close>

section \<open>Candles (domain/models/candle.py)\<close>

record candle =
  c_symbol :: string
  c_ts :: datetime
  c_open :: pfloat
  c_high :: pfloat
  c_low :: pfloat
  c_close :: pfloat
  c_volume :: pfloat
  c_closed :: bool

definition candle_post_init :: "candle \<Rightarrow> candle result" where
  "candle_post_init c =
     (if c_high c < c_low c then Inl (ValueError ''high < low'')
      else if c_open c > c_high c \<or> c_open c < c_low c then Inl (ValueError ''open out of range'')
      else if c_close c > c_high c \<or> c_close c < c_low c then Inl (ValueError ''close out of range'')
      else if c_volume c < 0 then Inl (ValueError ''negative volume'')
      else Inr c)"

definition candle_ok :: "candle \<Rightarrow> bool" where
  "candle_ok c \<longleftrightarrow> c_low c \<le> c_high c \<and> c_low c \<le> c_open c \<and> c_open c \<le> c_high c
     \<and> c_low c \<le> c_close c \<and> c_close c \<le> c_high c \<and> 0 \<le> c_volume c"

lemma candle_post_init_Inr: "candle_post_init c = Inr c' \<longleftrightarrow> c' = c \<and> candle_ok c"
  by (auto simp: candle_post_init_def candle_ok_def)

lemma candle_post_init_Inl: "(\<exists>e. candle_post_init c = Inl e) \<longleftrightarrow> \<not> candle_ok c"
  by (auto simp: candle_post_init_def candle_ok_def)

definition candle_range_prop :: "candle \<Rightarrow> pfloat" where
  "candle_range_prop c = fsub (c_high c) (c_low c)"

definition candle_body :: "candle \<Rightarrow> pfloat" where
  "candle_body c = \<bar>fsub (c_close c) (c_open c)\<bar>"

definition is_bullish :: "candle \<Rightarrow> bool" where
  "is_bullish c \<longleftrightarrow> c_close c > c_open c"

definition is_bearish :: "candle \<Rightarrow> bool" where
  "is_bearish c \<longleftrightarrow> c_close c < c_open c"

definition is_doji :: "candle \<Rightarrow> bool" where
  "is_doji c = (if candle_range_prop c > 0
     then \<bar>fsub (c_close c) (c_open c)\<bar> < fmul (candle_range_prop c) (rnd (1 / 10)) else True)"

text \<open>
  A CSV row after \<open>split(',')\<close>. The text of a number is kept as the number: Python
  prints a float with the shortest digits that read back as the same float.
\<close>

datatype csv_field = FInt int | FFloat pfloat | FText string

fun field_int :: "csv_field \<Rightarrow> int result" where
  "field_int (FInt n) = Inr n"
| "field_int (FFloat x) = Inl (ValueError ''int'')"
| "field_int (FText s) = Inl (ValueError ''int'')"

fun field_float :: "csv_field \<Rightarrow> pfloat result" where
  "field_float (FInt n) = Inr (rnd (of_int n))"
| "field_float (FFloat x) = Inr x"
| "field_float (FText s) = Inl (ValueError ''float'')"

definition to_csv_row :: "candle \<Rightarrow> csv_field list" where
  "to_csv_row c = [FInt (timestamp_int (c_ts c)), FFloat (c_open c), FFloat (c_high c),
     FFloat (c_low c), FFloat (c_close c), FFloat (c_volume c)]"

definition from_csv_row :: "string \<Rightarrow> csv_field list \<Rightarrow> candle result" where
  "from_csv_row symbol row =
     (case row of
        [f0, f1, f2, f3, f4, f5] \<Rightarrow>
          sbind (field_int f0) (\<lambda>ts. sbind (field_float f1) (\<lambda>opn. sbind (field_float f2) (\<lambda>hi.
          sbind (field_float f3) (\<lambda>lo. sbind (field_float f4) (\<lambda>cl. sbind (field_float f5) (\<lambda>vol.
            candle_post_init \<lparr>c_symbol = symbol, c_ts = fromtimestamp utc (ts * second_us),
              c_open = opn, c_high = hi, c_low = lo, c_close = cl, c_volume = vol,
              c_closed = True\<rparr>))))))
      | _ \<Rightarrow> Inl (ValueError ''Invalid CSV row format''))"

lemma csv_row_roundtrip:
  assumes "candle_ok c" "c_ts c = utc_dt (s * second_us)" "c_closed c"
  shows "from_csv_row (c_symbol c) (to_csv_row c) = Inr c"
  using assms by (simp add: from_csv_row_def to_csv_row_def candle_post_init_Inr candle_ok_def)

lemma from_csv_row_ok: "from_csv_row s row = Inr c \<Longrightarrow> candle_ok c \<and> c_closed c \<and> c_symbol c = s"
  by (auto simp: from_csv_row_def sbind_eq_Inr candle_post_init_Inr split: list.splits)

section \<open>Candle ranges\<close>

record candle_range =
  r_symbol :: string
  r_start :: datetime
  r_end :: datetime
  r_candles :: "candle list"
  r_is_complete :: bool
  r_missing_count :: int

definition range_count :: "candle_range \<Rightarrow> int" where
  "range_count r = int (length (r_candles r))"

definition minutes_between :: "datetime \<Rightarrow> datetime \<Rightarrow> int" where
  "minutes_between a b = trunc_div (dt_sub b a) minute_us"

definition range_expected_count :: "candle_range \<Rightarrow> int" where
  "range_expected_count r = minutes_between (r_start r) (r_end r)"

definition validate_completeness :: "candle_range \<Rightarrow> candle_range \<times> bool" where
  "validate_completeness r = (let m = max 0 (range_expected_count r - range_count r) in
     (r\<lparr>r_missing_count := m, r_is_complete := (m = 0)\<rparr>, m = 0))"

section \<open>Balances, prices, ticks\<close>

record balance =
  b_usdc :: pfloat
  b_native_token :: pfloat
  b_available_margin :: pfloat
  b_used_margin :: pfloat

definition total_equity :: "balance \<Rightarrow> pfloat" where
  "total_equity b = b_usdc b"

definition margin_usage_percent :: "balance \<Rightarrow> pfloat" where
  "margin_usage_percent b = (let total = fadd (b_available_margin b) (b_used_margin b) in
     if total = 0 then 0 else fmul (fdiv (b_used_margin b) total) 100)"

record price_data =
  px_symbol :: string
  px_bid :: pfloat
  px_ask :: pfloat
  px_mid :: pfloat
  px_ts :: datetime

definition spread :: "price_data \<Rightarrow> pfloat" where
  "spread p = fsub (px_ask p) (px_bid p)"

definition spread_percent :: "price_data \<Rightarrow> pfloat" where
  "spread_percent p = (if px_mid p = 0 then 0 else fmul (fdiv (spread p) (px_mid p)) 100)"

record tick =
  t_symbol :: string
  t_price :: pfloat
  t_ts :: datetime
  t_volume :: "pfloat option"

section \<open>Fees (domain/models/cost_model.py)\<close>

record cost_model =
  cm_symbol :: string
  spread_bps :: pfloat
  open_fee_bps :: pfloat
  close_fee_bps :: pfloat
  price_impact_bps :: pfloat
  borrowing_fee_bps :: pfloat

definition BASIS_POINTS_DIVISOR :: pfloat where "BASIS_POINTS_DIVISOR = 10000"
definition BORROWING_FEE_PLACEHOLDER :: pfloat where "BORROWING_FEE_PLACEHOLDER = 0"

record open_fees =
  of_spread_cost :: pfloat
  of_open_fee :: pfloat
  of_price_impact_cost :: pfloat
  of_total_entry_cost :: pfloat

record close_fees =
  cf_close_fee :: pfloat
  cf_borrowing_cost :: pfloat
  cf_total_exit_cost :: pfloat

record total_fees =
  tf_spread_cost :: pfloat
  tf_open_fee :: pfloat
  tf_close_fee :: pfloat
  tf_price_impact_cost :: pfloat
  tf_borrowing_cost :: pfloat
  tf_total_fees :: pfloat

definition calculate_open_fees :: "cost_model \<Rightarrow> pfloat \<Rightarrow> open_fees" where
  "calculate_open_fees m sz =
     (let sp = fdiv (fmul sz (spread_bps m)) BASIS_POINTS_DIVISOR;
          fee = fdiv (fmul sz (open_fee_bps m)) BASIS_POINTS_DIVISOR;
          impact = fdiv (fmul sz (price_impact_bps m)) 10000
      in \<lparr>of_spread_cost = sp, of_open_fee = fee, of_price_impact_cost = impact,
          of_total_entry_cost = fadd (fadd sp fee) impact\<rparr>)"

definition calculate_close_fees :: "cost_model \<Rightarrow> pfloat \<Rightarrow> close_fees" where
  "calculate_close_fees m sz =
     (let fee = fdiv (fmul sz (close_fee_bps m)) BASIS_POINTS_DIVISOR;
          borrowing = BORROWING_FEE_PLACEHOLDER
      in \<lparr>cf_close_fee = fee, cf_borrowing_cost = borrowing, cf_total_exit_cost = fadd fee borrowing\<rparr>)"

definition calculate_total_fees :: "cost_model \<Rightarrow> pfloat \<Rightarrow> total_fees" where
  "calculate_total_fees m sz =
     (let o_fees = calculate_open_fees m sz; c_fees = calculate_close_fees m sz
      in \<lparr>tf_spread_cost = of_spread_cost o_fees, tf_open_fee = of_open_fee o_fees,
          tf_close_fee = cf_close_fee c_fees, tf_price_impact_cost = of_price_impact_cost o_fees,
          tf_borrowing_cost = cf_borrowing_cost c_fees,
          tf_total_fees = fadd (of_total_entry_cost o_fees) (cf_total_exit_cost c_fees)\<rparr>)"

definition cost_model_of :: "string \<Rightarrow> pfloat \<Rightarrow> pfloat \<Rightarrow> pfloat \<Rightarrow> cost_model" where
  "cost_model_of s sp op cl = \<lparr>cm_symbol = s, spread_bps = sp, open_fee_bps = op,
     close_fee_bps = cl, price_impact_bps = 0, borrowing_fee_bps = 0\<rparr>"

definition for_gtrade_symbol :: "string \<Rightarrow> cost_model result" where
  "for_gtrade_symbol symb = (let s = py_upper symb in
     if s = ''EURUSD'' then Inr (cost_model_of s 1 (rnd (12 / 10)) (rnd (12 / 10)))
     else if s = ''XAUUSD'' then Inr (cost_model_of s 1 5 5)
     else if s = ''ETH'' \<or> s = ''BTC'' \<or> s = ''WETH'' then Inr (cost_model_of s 1 5 5)
     else Inl (ValueError s))"

definition cost_model_ok :: "cost_model \<Rightarrow> bool" where
  "cost_model_ok m \<longleftrightarrow> 0 \<le> spread_bps m \<and> 0 \<le> open_fee_bps m \<and> 0 \<le> close_fee_bps m
     \<and> 0 \<le> price_impact_bps m"

lemma for_gtrade_symbol_ok: "for_gtrade_symbol s = Inr m \<Longrightarrow> cost_model_ok m"
  by (auto simp: for_gtrade_symbol_def cost_model_ok_def cost_model_of_def Let_def rnd_nonneg split: if_splits)

lemma for_gtrade_symbol_upper: "for_gtrade_symbol (py_upper s) = for_gtrade_symbol s"
  by (simp add: for_gtrade_symbol_def)

lemma open_fees_nonneg:
  "cost_model_ok m \<Longrightarrow> 0 \<le> sz \<Longrightarrow> 0 \<le> of_total_entry_cost (calculate_open_fees m sz)"
  by (simp add: calculate_open_fees_def cost_model_ok_def Let_def BASIS_POINTS_DIVISOR_def
      fadd_nonneg fdiv_nonneg fmul_nonneg)

lemma close_fees_nonneg:
  "cost_model_ok m \<Longrightarrow> 0 \<le> sz \<Longrightarrow> 0 \<le> cf_total_exit_cost (calculate_close_fees m sz)"
  by (simp add: calculate_close_fees_def cost_model_ok_def Let_def BASIS_POINTS_DIVISOR_def
      BORROWING_FEE_PLACEHOLDER_def fadd_nonneg fdiv_nonneg fmul_nonneg)

lemma open_fees_mono:
  "cost_model_ok m \<Longrightarrow> x \<le> y \<Longrightarrow>
     of_total_entry_cost (calculate_open_fees m x) \<le> of_total_entry_cost (calculate_open_fees m y)"
  by (simp add: calculate_open_fees_def cost_model_ok_def Let_def BASIS_POINTS_DIVISOR_def
      fadd_mono fdiv_mono fmul_mono_right)

lemma close_fees_mono:
  "cost_model_ok m \<Longrightarrow> x \<le> y \<Longrightarrow>
     cf_total_exit_cost (calculate_close_fees m x) \<le> cf_total_exit_cost (calculate_close_fees m y)"
  by (simp add: calculate_close_fees_def cost_model_ok_def Let_def BASIS_POINTS_DIVISOR_def
      fadd_mono fdiv_mono fmul_mono_right)

end
