(* ===== verification/Orders_Model.thy ===== *)
theory Orders_Model
  imports Models
begin

text \<open>
  Orders, positions and trade fills of \<open>domain/models\<close>. The free text of an order
  error is a constructor with the values the text shows.
\<close>

section \<open>Orders (domain/models/order.py)\<close>

datatype order_type = MARKET | LIMIT | STOP
datatype order_side = BUY | SELL

record order_request =
  rq_symbol :: string
  rq_side :: order_side
  rq_collateral :: pfloat
  rq_leverage :: pfloat
  rq_order_type :: order_type
  rq_sl_price :: "pfloat option"
  rq_tp_price :: "pfloat option"
  rq_limit_price :: "pfloat option"
  rq_stop_price :: "pfloat option"

datatype order_error =
    InsufficientBalance pfloat pfloat
  | UnsupportedSymbol string
  | PositionNotFound string
  | NoPrice string
  | VenueRefused py_error

datatype fees_breakdown = OpenFees open_fees | CloseFees close_fees

record order_result =
  or_success :: bool
  or_position_id :: string
  or_order_id :: "string option"
  or_executed_price :: "pfloat option"
  or_executed_size :: "pfloat option"
  or_fee :: "pfloat option"
  or_slippage :: "pfloat option"
  or_realized_pnl :: "pfloat option"
  or_realized_pnl_percent :: "pfloat option"
  or_pnl_gross :: "pfloat option"
  or_pnl_gross_percent :: "pfloat option"
  or_fees_breakdown :: "fees_breakdown option"
  or_tx_hash :: "string option"
  or_error_message :: "order_error option"
  or_timestamp :: datetime

definition order_failure :: "string \<Rightarrow> order_error \<Rightarrow> datetime \<Rightarrow> order_result" where
  "order_failure pid err ts = \<lparr>or_success = False, or_position_id = pid, or_order_id = None,
     or_executed_price = None, or_executed_size = None, or_fee = None, or_slippage = None,
     or_realized_pnl = None, or_realized_pnl_percent = None, or_pnl_gross = None,
     or_pnl_gross_percent = None, or_fees_breakdown = None, or_tx_hash = None,
     or_error_message = Some err, or_timestamp = ts\<rparr>"

lemma order_failure_simps [simp]:
  "or_success (order_failure pid err ts) = False"
  "or_position_id (order_failure pid err ts) = pid"
  "or_error_message (order_failure pid err ts) = Some err"
  by (simp_all add: order_failure_def)

text \<open>The identifier parsers \<open>pair_id\<close> and \<open>trade_index\<close>.\<close>

definition id_parts :: "string \<Rightarrow> string list" where
  "id_parts position_id = (let pid = py_strip position_id;
     pid' = (if py_startswith (py_lower pid) ''lighter:'' then py_strip (drop 8 pid) else pid)
     in py_split CHR '':'' pid')"

definition or_pair_id :: "order_result \<Rightarrow> int option" where
  "or_pair_id r = (case id_parts (or_position_id r) of [] \<Rightarrow> None | w # _ \<Rightarrow> py_int w)"

definition or_trade_index :: "order_result \<Rightarrow> int option" where
  "or_trade_index r = (let parts = id_parts (or_position_id r) in
     if 2 \<le> length parts then py_int (parts ! 1) else None)"

section \<open>Positions (domain/models/position.py)\<close>

record position =
  p_pair_id :: int
  p_trade_index :: int
  p_symbol :: string
  p_is_long :: bool
  p_collateral :: pfloat
  p_leverage :: pfloat
  p_open_price :: pfloat
  p_current_price :: pfloat
  p_sl_price :: "pfloat option"
  p_tp_price :: "pfloat option"
  p_open_time :: "datetime option"
  p_notional :: pfloat
  p_wallet_address :: "string option"
  p_venue_position_id :: "string option"
  p_mark_price :: "pfloat option"
  p_unrealized_pnl :: "pfloat option"

text \<open>
  The attribute names a \<open>Position\<close> object has: its fields and its properties. Reading any
  other attribute raises \<open>AttributeError\<close>.
\<close>

definition position_attributes :: "string list" where
  "position_attributes = [''pair_id'', ''trade_index'', ''symbol'', ''is_long'', ''collateral'',
     ''leverage'', ''open_price'', ''current_price'', ''sl_price'', ''tp_price'', ''open_time'',
     ''notional'', ''wallet_address'', ''venue_position_id'', ''mark_price'', ''unrealized_pnl'',
     ''side'', ''position_id'', ''get_ref'']"

definition py_truthy_str :: "string option \<Rightarrow> bool" where
  "py_truthy_str s \<longleftrightarrow> s \<noteq> None \<and> s \<noteq> Some []"

definition side :: "position \<Rightarrow> string" where
  "side p = (if p_is_long p then ''LONG'' else ''SHORT'')"

definition position_id :: "position \<Rightarrow> string" where
  "position_id p = (case p_venue_position_id p of
     Some v \<Rightarrow> if v \<noteq> [] then v else show_int (p_pair_id p) @ '':'' @ show_int (p_trade_index p)
   | None \<Rightarrow> show_int (p_pair_id p) @ '':'' @ show_int (p_trade_index p))"

record position_ref =
  ref_wallet :: string
  ref_pair_id :: int
  ref_trade_index :: int

definition get_ref :: "position \<Rightarrow> position_ref option" where
  "get_ref p = (case p_wallet_address p of
     Some w \<Rightarrow> if w = [] then None
       else Some \<lparr>ref_wallet = w, ref_pair_id = p_pair_id p, ref_trade_index = p_trade_index p\<rparr>
   | None \<Rightarrow> None)"

definition position_ref_str :: "position_ref \<Rightarrow> string" where
  "position_ref_str r =
     ref_wallet r @ '':'' @ show_int (ref_pair_id r) @ '':'' @ show_int (ref_trade_index r)"

text \<open>\<open>__post_init__\<close>: the optional arguments that are filled in at construction.\<close>

definition position_post_init ::
  "datetime \<Rightarrow> datetime option \<Rightarrow> pfloat option \<Rightarrow> position \<Rightarrow> position" where
  "position_post_init utcnow opened notional p = p\<lparr>
     p_open_time := (case opened of None \<Rightarrow> Some utcnow | Some t \<Rightarrow> Some t),
     p_notional := (case notional of None \<Rightarrow> fmul (p_collateral p) (p_leverage p) | Some n \<Rightarrow> n)\<rparr>"

lemma id_parts_show:
  "id_parts (show_int a @ '':'' @ show_int b) = [show_int a, show_int b]"
proof -
  note a = show_int_ends [of a] and b = show_int_ends [of b]
  have strip: "py_strip (show_int a @ CHR '':'' # show_int b) = show_int a @ CHR '':'' # show_int b"
    using a b by (intro py_strip_id) auto
  obtain c r where c: "show_int a = c # r" using a by (cases "show_int a") auto
  have "c = CHR ''-'' \<or> is_digit c"
    using c show_nat_digits [of "nat a"] by (auto simp: show_int_def split: if_splits)
  then have "lower_char c \<noteq> CHR ''l''"
    by (auto simp: lower_char_def is_digit_def Let_def)
  then have "\<not> py_startswith (py_lower (show_int a @ CHR '':'' # show_int b)) ''lighter:''"
    by (simp add: c py_lower_def)
  moreover have "py_split CHR '':'' (show_int a @ CHR '':'' # show_int b) = [show_int a, show_int b]"
    using a b by (simp add: py_split_append py_split_no_sep)
  ultimately show ?thesis by (simp add: id_parts_def Let_def strip)
qed

lemma position_id_show:
  "\<not> py_truthy_str (p_venue_position_id p) \<Longrightarrow>
     position_id p = show_int (p_pair_id p) @ '':'' @ show_int (p_trade_index p)"
  by (auto simp: position_id_def py_truthy_str_def split: option.splits)

section \<open>Fills and history\<close>

datatype close_reason = CR_MANUAL | CR_STOP_LOSS | CR_TAKE_PROFIT | CR_LIQUIDATION | CR_TTL

record trade_fill =
  f_trade_id :: string
  f_symbol :: string
  f_side :: string
  f_price :: pfloat
  f_size :: pfloat
  f_fee :: pfloat
  f_fee_currency :: "string option"
  f_timestamp :: datetime
  f_order_id :: string
  f_position_id :: string
  f_close_reason :: close_reason
  f_open_ts :: "datetime option"
  f_close_ts :: datetime
  f_open_price :: pfloat
  f_close_price :: pfloat

record trade_history =
  h_trade_id :: string
  h_pair_id :: int
  h_trade_index :: int
  h_symbol :: string
  h_is_long :: bool
  h_collateral :: pfloat
  h_leverage :: pfloat
  h_open_price :: pfloat
  h_close_price :: pfloat
  h_open_time :: datetime
  h_close_time :: datetime
  h_pnl :: pfloat
  h_pnl_percent :: pfloat
  h_funding_fee :: pfloat
  h_rollover_fee :: pfloat
  h_total_fees :: pfloat
  h_close_reason :: string
  h_tx_hash :: "string option"

definition duration_seconds :: "trade_history \<Rightarrow> pfloat" where
  "duration_seconds h = rnd (of_int (dt_sub (h_close_time h) (h_open_time h)) / 1000000)"

definition duration_hours :: "trade_history \<Rightarrow> pfloat" where
  "duration_hours h = fdiv (duration_seconds h) 3600"

definition net_pnl :: "trade_history \<Rightarrow> pfloat" where
  "net_pnl h = fsub (h_pnl h) (h_total_fees h)"

end
