(* ===== verification/PaperEngine.thy ===== *)
theory PaperEngine
  imports Orders_Model
begin

text \<open>
  The paper trading engine, \<open>infrastructure/execution/paper_engine.py\<close>. A method is a
  function from the engine state and its arguments to the new state and the result (or the
  exception raised, in the state reached when it is raised). The clock, \<open>uuid4\<close> and the
  hub are outside: the current time and the fresh identifier are arguments, and the messages
  given to the hub are a log in the state (\<open>None\<close> when there is no hub).
\<close>

section \<open>State\<close>

datatype ws_event =
    PositionEvent string string "position option"
  | ExecutionEvent string string string pfloat pfloat "pfloat option"
  | BalanceEvent pfloat pfloat pfloat

record engine =
  e_balance :: pfloat
  e_initial_balance :: pfloat
  e_positions :: "(string, position) dict"
  e_trade_history :: "trade_fill list"
  e_slippage_bps :: pfloat
  e_tz :: tzinfo
  e_hub :: "ws_event list option"

definition engine_init :: "pfloat \<Rightarrow> pfloat \<Rightarrow> tzinfo \<Rightarrow> ws_event list option \<Rightarrow> engine" where
  "engine_init bal slip tz hub = \<lparr>e_balance = bal, e_initial_balance = bal, e_positions = [],
     e_trade_history = [], e_slippage_bps = slip, e_tz = tz, e_hub = hub\<rparr>"

definition get_balance :: "engine \<Rightarrow> balance" where
  "get_balance e = \<lparr>b_usdc = e_balance e, b_native_token = 0, b_available_margin = e_balance e,
     b_used_margin = fsum (map p_collateral (d_values (e_positions e)))\<rparr>"

definition get_position :: "engine \<Rightarrow> string \<Rightarrow> position option" where
  "get_position e pid = d_get (e_positions e) pid"

definition get_all_positions :: "engine \<Rightarrow> position list" where
  "get_all_positions e = d_values (e_positions e)"

section \<open>Broadcasting\<close>

text \<open>
  The attributes that the position message reads. An \<open>AttributeError\<close> is caught by the
  broadcast and logged, and nothing is sent.
\<close>

definition position_message_attributes :: "string list" where
  "position_message_attributes = [''symbol'', ''is_long'', ''collateral'', ''leverage'',
     ''open_price'', ''current_price'', ''sl_price'', ''tp_price'', ''unrealized_pnl'',
     ''unrealized_pnl_percent'']"

definition position_message :: "engine \<Rightarrow> string \<Rightarrow> string \<Rightarrow> ws_event result" where
  "position_message e pid action = (case d_get (e_positions e) pid of
     None \<Rightarrow> Inr (PositionEvent pid action None)
   | Some p \<Rightarrow> (case filter (\<lambda>a. a \<notin> set position_attributes) position_message_attributes of
       [] \<Rightarrow> Inr (PositionEvent pid action (Some p))
     | a # _ \<Rightarrow> Inl (AttributeError a)))"

definition broadcast_position_event :: "string \<Rightarrow> string \<Rightarrow> engine \<Rightarrow> engine" where
  "broadcast_position_event pid action e = (case e_hub e of
     None \<Rightarrow> e
   | Some msgs \<Rightarrow> (case position_message e pid action of
       Inl _ \<Rightarrow> e
     | Inr ev \<Rightarrow> e\<lparr>e_hub := Some (msgs @ [ev])\<rparr>))"

definition broadcast_execution_event ::
  "string \<Rightarrow> string \<Rightarrow> string \<Rightarrow> pfloat \<Rightarrow> pfloat \<Rightarrow> pfloat option \<Rightarrow> engine \<Rightarrow> engine" where
  "broadcast_execution_event pid symbol action price fee pnl e = (case e_hub e of
     None \<Rightarrow> e
   | Some msgs \<Rightarrow> e\<lparr>e_hub := Some (msgs @ [ExecutionEvent pid symbol action price fee pnl])\<rparr>)"

definition broadcast_balance_event :: "engine \<Rightarrow> engine" where
  "broadcast_balance_event e = (case e_hub e of
     None \<Rightarrow> e
   | Some msgs \<Rightarrow> (let b = get_balance e in
       e\<lparr>e_hub := Some (msgs @ [BalanceEvent (b_usdc b) (b_available_margin b) (b_used_margin b)])\<rparr>))"

section \<open>Opening and closing\<close>

definition slippage_factor :: "engine \<Rightarrow> pfloat" where
  "slippage_factor e = fdiv (e_slippage_bps e) BASIS_POINTS_DIVISOR"

definition entry_price :: "engine \<Rightarrow> order_side \<Rightarrow> pfloat \<Rightarrow> pfloat" where
  "entry_price e sd price = (if sd = BUY then fmul price (fadd 1 (slippage_factor e))
     else fmul price (fsub 1 (slippage_factor e)))"

definition new_position ::
  "order_request \<Rightarrow> string \<Rightarrow> pfloat \<Rightarrow> pfloat \<Rightarrow> datetime \<Rightarrow> position" where
  "new_position req pid executed notional ts = \<lparr>p_pair_id = 0, p_trade_index = 0,
     p_symbol = rq_symbol req, p_is_long = (rq_side req = BUY), p_collateral = rq_collateral req,
     p_leverage = rq_leverage req, p_open_price = executed, p_current_price = executed,
     p_sl_price = rq_sl_price req, p_tp_price = rq_tp_price req, p_open_time = Some ts,
     p_notional = notional, p_wallet_address = None, p_venue_position_id = Some pid,
     p_mark_price = None, p_unrealized_pnl = None\<rparr>"

definition paper_pid :: "string \<Rightarrow> string" where
  "paper_pid uid = ''paper_'' @ uid"

definition open_position ::
  "order_request \<Rightarrow> string \<Rightarrow> pfloat \<Rightarrow> datetime option \<Rightarrow> datetime \<Rightarrow> string \<Rightarrow> engine
     \<Rightarrow> engine \<times> order_result" where
  "open_position req coid price tstamp now uid e =
     (let ts = (case tstamp of None \<Rightarrow> now | Some t \<Rightarrow> t);
          notional = fmul (rq_collateral req) (rq_leverage req)
      in if rq_collateral req > e_balance e
         then (e, order_failure [] (InsufficientBalance (e_balance e) (rq_collateral req)) ts)
         else (case for_gtrade_symbol (rq_symbol req) of
           Inl _ \<Rightarrow> (e, order_failure [] (UnsupportedSymbol (py_upper (rq_symbol req))) ts)
         | Inr cm \<Rightarrow>
             (let executed = entry_price e (rq_side req) price;
                  fees = calculate_open_fees cm notional;
                  entry_fee = of_total_entry_cost fees;
                  total_cost = fadd (rq_collateral req) entry_fee;
                  pid = paper_pid uid;
                  e1 = e\<lparr>e_balance := fsub (e_balance e) total_cost,
                         e_positions := d_set pid (new_position req pid executed notional ts) (e_positions e)\<rparr>;
                  e2 = broadcast_position_event pid ''opened'' e1;
                  e3 = broadcast_execution_event pid (rq_symbol req) ''opened'' executed entry_fee None e2;
                  e4 = broadcast_balance_event e3;
                  size_base = (if executed \<noteq> 0 then fdiv notional executed else 0)
              in (e4, \<lparr>or_success = True, or_position_id = pid, or_order_id = Some coid,
                   or_executed_price = Some executed, or_executed_size = Some size_base,
                   or_fee = Some entry_fee, or_slippage = Some (e_slippage_bps e),
                   or_realized_pnl = None, or_realized_pnl_percent = None, or_pnl_gross = None,
                   or_pnl_gross_percent = None, or_fees_breakdown = Some (OpenFees fees),
                   or_tx_hash = None, or_error_message = None, or_timestamp = ts\<rparr>))))"

definition exit_price :: "engine \<Rightarrow> position \<Rightarrow> pfloat \<Rightarrow> pfloat" where
  "exit_price e p price = (if p_is_long p then fmul price (fsub 1 (slippage_factor e))
     else fmul price (fadd 1 (slippage_factor e)))"

definition price_diff :: "position \<Rightarrow> pfloat \<Rightarrow> pfloat" where
  "price_diff p executed = (let d = fsub executed (p_open_price p) in
     if p_is_long p then d else - d)"

definition pnl_gross :: "position \<Rightarrow> pfloat \<Rightarrow> pfloat result" where
  "pnl_gross p executed =
     pdiv (fmul (fmul (price_diff p executed) (p_leverage p)) (p_collateral p)) (p_open_price p)"

definition close_fill ::
  "position \<Rightarrow> string \<Rightarrow> string \<Rightarrow> pfloat \<Rightarrow> pfloat \<Rightarrow> datetime \<Rightarrow> close_reason \<Rightarrow> trade_fill" where
  "close_fill p pid coid executed fee ts reason =
     \<lparr>f_trade_id = ''paper_'' @ pid @ ''_'' @ show_int (timestamp_int ts),
      f_symbol = p_symbol p, f_side = (if p_is_long p then ''sell'' else ''buy''),
      f_price = executed, f_size = (if executed \<noteq> 0 then fdiv (p_notional p) executed else 0),
      f_fee = fee, f_fee_currency = None, f_timestamp = ts, f_order_id = coid, f_position_id = pid,
      f_close_reason = reason, f_open_ts = p_open_time p, f_close_ts = ts,
      f_open_price = p_open_price p, f_close_price = executed\<rparr>"

definition close_position ::
  "string \<Rightarrow> string \<Rightarrow> pfloat \<Rightarrow> datetime option \<Rightarrow> datetime \<Rightarrow> close_reason \<Rightarrow> engine
     \<Rightarrow> engine \<times> order_result result" where
  "close_position pid coid price tstamp now reason e =
     (let ts = (case tstamp of None \<Rightarrow> now | Some t \<Rightarrow> t) in
      case d_get (e_positions e) pid of
        None \<Rightarrow> (e, Inr (order_failure pid (PositionNotFound pid) ts))
      | Some p \<Rightarrow> (case for_gtrade_symbol (p_symbol p) of
          Inl _ \<Rightarrow> (e, Inr (order_failure pid (UnsupportedSymbol (py_upper (p_symbol p))) ts))
        | Inr cm \<Rightarrow>
            (let executed = exit_price e p price in
             case pnl_gross p executed of
               Inl err \<Rightarrow> (e, Inl err)
             | Inr gross \<Rightarrow>
                 (let fees = calculate_close_fees cm (p_notional p);
                      exit_fee = cf_total_exit_cost fees;
                      net = fsub gross exit_fee;
                      e1 = e\<lparr>e_balance := fadd (e_balance e) (fadd (p_collateral p) net)\<rparr>
                  in if p_collateral p = 0 then (e1, Inl ZeroDivisionError)
                     else
                       (let gross_pct = fmul (fdiv gross (p_collateral p)) 100;
                            net_pct = fmul (fdiv net (p_collateral p)) 100;
                            fill = close_fill p pid coid executed exit_fee ts reason;
                            e2 = e1\<lparr>e_trade_history := e_trade_history e1 @ [fill],
                                   e_positions := d_del pid (e_positions e1)\<rparr>;
                            e3 = broadcast_position_event pid ''closed'' e2;
                            e4 = broadcast_execution_event pid (p_symbol p) ''closed'' executed exit_fee (Some net) e3;
                            e5 = broadcast_balance_event e4
                        in (e5, Inr \<lparr>or_success = True, or_position_id = pid, or_order_id = Some coid,
                             or_executed_price = Some executed, or_executed_size = Some (p_notional p),
                             or_fee = Some exit_fee, or_slippage = Some (e_slippage_bps e),
                             or_realized_pnl = Some net, or_realized_pnl_percent = Some net_pct,
                             or_pnl_gross = Some gross, or_pnl_gross_percent = Some gross_pct,
                             or_fees_breakdown = Some (CloseFees fees), or_tx_hash = None,
                             or_error_message = None, or_timestamp = ts\<rparr>))))))"

definition update_sl :: "string \<Rightarrow> pfloat option \<Rightarrow> engine \<Rightarrow> engine \<times> unit result" where
  "update_sl pid new_sl e = (case d_get (e_positions e) pid of
     None \<Rightarrow> (e, Inl (ValueError pid))
   | Some p \<Rightarrow> (broadcast_position_event pid ''updated''
       (e\<lparr>e_positions := d_set pid (p\<lparr>p_sl_price := new_sl\<rparr>) (e_positions e)\<rparr>), Inr ()))"

definition update_tp :: "string \<Rightarrow> pfloat option \<Rightarrow> engine \<Rightarrow> engine \<times> unit result" where
  "update_tp pid new_tp e = (case d_get (e_positions e) pid of
     None \<Rightarrow> (e, Inl (ValueError pid))
   | Some p \<Rightarrow> (broadcast_position_event pid ''updated''
       (e\<lparr>e_positions := d_set pid (p\<lparr>p_tp_price := new_tp\<rparr>) (e_positions e)\<rparr>), Inr ()))"

section \<open>Stops, liquidation, time to live\<close>

text \<open>
  The monitoring loops walk a snapshot of the open positions. For each position the decision
  function says whether the loop skips it (\<open>None\<close>) or how it updates it, and the close it
  then asks for (prefix of the order id, reason and price), if any. An exception of
  \<open>close_position\<close> ends the loop.
\<close>

type_synonym decision = "position \<Rightarrow> (position \<times> (string \<times> close_reason \<times> pfloat) option) option"

definition d_touch :: "'k \<Rightarrow> 'v \<Rightarrow> ('k, 'v) dict \<Rightarrow> ('k, 'v) dict" where
  "d_touch k v d = (if d_has d k then d_set k v d else d)"

fun scan_positions ::
  "decision \<Rightarrow> datetime \<Rightarrow> (string \<times> position) list \<Rightarrow> engine \<Rightarrow> order_result list
     \<Rightarrow> engine \<times> order_result list result" where
  "scan_positions decide now [] e outs = (e, Inr outs)"
| "scan_positions decide now ((pid, p) # ps) e outs =
     (case decide p of
        None \<Rightarrow> scan_positions decide now ps e outs
      | Some (p', act) \<Rightarrow>
          (let e1 = e\<lparr>e_positions := d_touch pid p' (e_positions e)\<rparr> in
           case act of
             None \<Rightarrow> scan_positions decide now ps e1 outs
           | Some (prefix, reason, price) \<Rightarrow>
               (case close_position pid (prefix @ pid) price None now reason e1 of
                  (e2, Inl err) \<Rightarrow> (e2, Inl err)
                | (e2, Inr r) \<Rightarrow> scan_positions decide now ps e2 (outs @ [r]))))"

definition sl_hit :: "position \<Rightarrow> pfloat \<Rightarrow> bool" where
  "sl_hit p px = (case p_sl_price p of None \<Rightarrow> False
     | Some sl \<Rightarrow> (p_is_long p \<and> px \<le> sl) \<or> (\<not> p_is_long p \<and> px \<ge> sl))"

definition tp_hit :: "position \<Rightarrow> pfloat \<Rightarrow> bool" where
  "tp_hit p px = (case p_tp_price p of None \<Rightarrow> False
     | Some tp \<Rightarrow> (p_is_long p \<and> px \<ge> tp) \<or> (\<not> p_is_long p \<and> px \<le> tp))"

definition stop_decision :: "(string \<rightharpoonup> pfloat) \<Rightarrow> decision" where
  "stop_decision prices p = (case prices (p_symbol p) of
     None \<Rightarrow> None
   | Some px \<Rightarrow> Some (p\<lparr>p_current_price := px\<rparr>,
       if sl_hit p px then Some (''sl_'', CR_STOP_LOSS, px)
       else if tp_hit p px then Some (''tp_'', CR_TAKE_PROFIT, px) else None))"

definition check_stops ::
  "(string \<rightharpoonup> pfloat) \<Rightarrow> datetime \<Rightarrow> engine \<Rightarrow> engine \<times> order_result list result" where
  "check_stops prices now e = scan_positions (stop_decision prices) now (e_positions e) e []"

definition equity :: "position \<Rightarrow> pfloat \<Rightarrow> pfloat" where
  "equity p px =
     (let sz = fdiv (p_notional p) (if p_open_price p \<noteq> 0 then p_open_price p else 1);
          upnl = (if p_is_long p then fmul (fsub px (p_open_price p)) sz
                  else fmul (fsub (p_open_price p) px) sz)
      in fadd (p_collateral p) upnl)"

definition maintenance_margin :: "position \<Rightarrow> pfloat \<Rightarrow> pfloat" where
  "maintenance_margin p ratio =
     fmul (if p_notional p \<noteq> 0 then p_notional p else fmul (p_collateral p) (p_leverage p)) ratio"

definition liquidation_decision :: "(string \<rightharpoonup> pfloat) \<Rightarrow> pfloat \<Rightarrow> decision" where
  "liquidation_decision prices ratio p = (case prices (p_symbol p) of
     None \<Rightarrow> None
   | Some px \<Rightarrow> Some (p\<lparr>p_current_price := px\<rparr>,
       if equity p px \<le> maintenance_margin p ratio then Some (''liq_'', CR_LIQUIDATION, px)
       else None))"

definition check_stops_and_liquidation ::
  "(string \<rightharpoonup> pfloat) \<Rightarrow> pfloat \<Rightarrow> datetime \<Rightarrow> engine \<Rightarrow> engine \<times> order_result list result" where
  "check_stops_and_liquidation prices ratio now e =
     (case scan_positions (liquidation_decision prices ratio) now (e_positions e) e [] of
        (e1, Inl err) \<Rightarrow> (e1, Inl err)
      | (e1, Inr outs) \<Rightarrow>
          (case check_stops prices now e1 of
             (e2, Inl err) \<Rightarrow> (e2, Inl err)
           | (e2, Inr outs2) \<Rightarrow> (e2, Inr (outs @ outs2))))"

definition total_seconds :: "int \<Rightarrow> pfloat" where
  "total_seconds us = rnd (of_int us / 1000000)"

definition age_s :: "tzinfo \<Rightarrow> datetime \<Rightarrow> datetime \<Rightarrow> pfloat" where
  "age_s tz now opened =
     (let o_t = (if dt_tz opened = None then opened\<lparr>dt_tz := Some tz\<rparr> else opened)
      in total_seconds (dt_sub now o_t))"

definition ttl_decision :: "tzinfo \<Rightarrow> pfloat \<Rightarrow> datetime \<Rightarrow> decision" where
  "ttl_decision tz ttl now p = (case p_open_time p of
     None \<Rightarrow> None
   | Some opened \<Rightarrow> Some (p,
       if age_s tz now opened \<ge> ttl
       then Some (''ttl_'', CR_TTL, if p_current_price p \<noteq> 0 then p_current_price p else p_open_price p)
       else None))"

definition check_ttl :: "pfloat \<Rightarrow> datetime \<Rightarrow> engine \<Rightarrow> engine \<times> order_result list result" where
  "check_ttl ttl now e = scan_positions (ttl_decision (e_tz e) ttl now) now (e_positions e) e []"

section \<open>History\<close>

text \<open>\<open>sort(key=..., reverse=True)\<close> keeps the order of equal keys.\<close>

definition sort_desc :: "('a \<Rightarrow> 'b::linorder) \<Rightarrow> 'a list \<Rightarrow> 'a list" where
  "sort_desc f xs = rev (sort_key f (rev xs))"

definition get_trade_history ::
  "string option \<Rightarrow> datetime option \<Rightarrow> datetime option \<Rightarrow> int \<Rightarrow> engine \<Rightarrow> trade_fill list" where
  "get_trade_history symbol since until limit e =
     (let out = e_trade_history e;
          out1 = (case symbol of None \<Rightarrow> out
                  | Some s \<Rightarrow> if s = [] then out else filter (\<lambda>t. f_symbol t = s) out);
          out2 = (case since of None \<Rightarrow> out1 | Some d \<Rightarrow> filter (\<lambda>t. dt_le d (f_timestamp t)) out1);
          out3 = (case until of None \<Rightarrow> out2 | Some d \<Rightarrow> filter (\<lambda>t. dt_le (f_timestamp t) d) out2)
      in py_take limit (sort_desc (\<lambda>t. dt_epoch (f_timestamp t)) out3))"

section \<open>Broadcasts touch only the hub\<close>

lemma broadcast_simps [simp]:
  "e_balance (broadcast_position_event pid a e) = e_balance e"
  "e_positions (broadcast_position_event pid a e) = e_positions e"
  "e_trade_history (broadcast_position_event pid a e) = e_trade_history e"
  "e_slippage_bps (broadcast_position_event pid a e) = e_slippage_bps e"
  "e_tz (broadcast_position_event pid a e) = e_tz e"
  "e_balance (broadcast_execution_event pid s a px fee pnl e) = e_balance e"
  "e_positions (broadcast_execution_event pid s a px fee pnl e) = e_positions e"
  "e_trade_history (broadcast_execution_event pid s a px fee pnl e) = e_trade_history e"
  "e_slippage_bps (broadcast_execution_event pid s a px fee pnl e) = e_slippage_bps e"
  "e_tz (broadcast_execution_event pid s a px fee pnl e) = e_tz e"
  "e_balance (broadcast_balance_event e) = e_balance e"
  "e_positions (broadcast_balance_event e) = e_positions e"
  "e_trade_history (broadcast_balance_event e) = e_trade_history e"
  "e_slippage_bps (broadcast_balance_event e) = e_slippage_bps e"
  "e_tz (broadcast_balance_event e) = e_tz e"
  by (auto simp: broadcast_position_event_def broadcast_execution_event_def broadcast_balance_event_def
      Let_def split: option.splits sum.splits)

lemma position_message_open: "d_get (e_positions e) pid = Some p \<Longrightarrow>
    position_message e pid a = Inl (AttributeError ''unrealized_pnl_percent'')"
  by (simp add: position_message_def position_message_attributes_def position_attributes_def)

end
