(* ===== verification/PaperEngine_Inv.thy ===== *)
theory PaperEngine_Inv
  imports PaperEngine
begin

text \<open>
  What the paper engine promises: the effect of opening and closing on every branch, the
  well-formedness invariant that makes every close of an open position succeed, the
  monitoring loops as a whole, and the balance between opened and closed positions.
\<close>

section \<open>Opening\<close>

lemma open_position_rejected:
  assumes "rq_collateral req > e_balance e \<or> (\<exists>err. for_gtrade_symbol (rq_symbol req) = Inl err)"
  shows "fst (open_position req coid px ts now uid e) = e \<and>
    \<not> or_success (snd (open_position req coid px ts now uid e))"
  using assms by (auto simp: open_position_def Let_def split: sum.splits)

lemma open_position_accepted:
  assumes "rq_collateral req \<le> e_balance e" "for_gtrade_symbol (rq_symbol req) = Inr cm"
  defines "notional \<equiv> fmul (rq_collateral req) (rq_leverage req)"
  shows
    "or_success (snd (open_position req coid px ts now uid e))"
    "or_position_id (snd (open_position req coid px ts now uid e)) = paper_pid uid"
    "or_executed_price (snd (open_position req coid px ts now uid e)) = Some (entry_price e (rq_side req) px)"
    "e_positions (fst (open_position req coid px ts now uid e)) = d_set (paper_pid uid)
       (new_position req (paper_pid uid) (entry_price e (rq_side req) px) notional
          (case ts of None \<Rightarrow> now | Some t \<Rightarrow> t)) (e_positions e)"
    "e_balance (fst (open_position req coid px ts now uid e)) =
       fsub (e_balance e) (fadd (rq_collateral req) (of_total_entry_cost (calculate_open_fees cm notional)))"
    "e_trade_history (fst (open_position req coid px ts now uid e)) = e_trade_history e"
    "e_slippage_bps (fst (open_position req coid px ts now uid e)) = e_slippage_bps e"
    "e_tz (fst (open_position req coid px ts now uid e)) = e_tz e"
  using assms by (simp_all add: open_position_def Let_def)

lemma open_position_cases:
  obtains (rejected) "fst (open_position req coid px ts now uid e) = e"
      "\<not> or_success (snd (open_position req coid px ts now uid e))"
  | (accepted) cm where "rq_collateral req \<le> e_balance e" "for_gtrade_symbol (rq_symbol req) = Inr cm"
      "or_success (snd (open_position req coid px ts now uid e))"
proof (cases "rq_collateral req > e_balance e \<or> (\<exists>err. for_gtrade_symbol (rq_symbol req) = Inl err)")
  case True
  then show ?thesis using open_position_rejected rejected by blast
next
  case False
  then obtain cm where "for_gtrade_symbol (rq_symbol req) = Inr cm"
    by (cases "for_gtrade_symbol (rq_symbol req)") auto
  with False show ?thesis by (intro accepted) (auto intro: open_position_accepted)
qed

lemma slippage_factor_nonneg: "0 \<le> e_slippage_bps e \<Longrightarrow> 0 \<le> slippage_factor e"
  by (simp add: slippage_factor_def BASIS_POINTS_DIVISOR_def fdiv_nonneg)

lemma entry_price_adverse:
  assumes "is_float px" "0 \<le> px" "0 \<le> e_slippage_bps e"
  shows "px \<le> entry_price e BUY px" "entry_price e SELL px \<le> px"
  using assms slippage_factor_nonneg [of e]
  by (auto simp: entry_price_def intro: fmul_ge_left fmul_le_left fadd_one_ge fsub_one_le)

lemma exit_price_adverse:
  assumes "is_float px" "0 \<le> px" "0 \<le> e_slippage_bps e"
  shows "p_is_long p \<Longrightarrow> exit_price e p px \<le> px" "\<not> p_is_long p \<Longrightarrow> px \<le> exit_price e p px"
  using assms slippage_factor_nonneg [of e]
  by (auto simp: exit_price_def intro: fmul_ge_left fmul_le_left fadd_one_ge fsub_one_le)

section \<open>Closing\<close>

text \<open>A position whose close goes through: its symbol has fees and no division is by zero.\<close>

definition closable :: "position \<Rightarrow> bool" where
  "closable p \<longleftrightarrow> (\<exists>cm. for_gtrade_symbol (p_symbol p) = Inr cm) \<and> p_open_price p \<noteq> 0 \<and> p_collateral p \<noteq> 0"

definition gross_of :: "position \<Rightarrow> pfloat \<Rightarrow> pfloat" where
  "gross_of p executed =
     fdiv (fmul (fmul (price_diff p executed) (p_leverage p)) (p_collateral p)) (p_open_price p)"

definition exit_fee_of :: "position \<Rightarrow> pfloat" where
  "exit_fee_of p = (case for_gtrade_symbol (p_symbol p) of
     Inl _ \<Rightarrow> 0 | Inr cm \<Rightarrow> cf_total_exit_cost (calculate_close_fees cm (p_notional p)))"

lemma close_position_unknown:
  "d_get (e_positions e) pid = None \<Longrightarrow>
     close_position pid coid px ts now reason e =
       (e, Inr (order_failure pid (PositionNotFound pid) (case ts of None \<Rightarrow> now | Some t \<Rightarrow> t)))"
  by (simp add: close_position_def Let_def)

lemma close_position_closable:
  assumes "d_get (e_positions e) pid = Some p" "closable p"
  obtains e' r where
    "close_position pid coid px ts now reason e = (e', Inr r)"
    "or_success r" "or_position_id r = pid"
    "or_realized_pnl r = Some (fsub (gross_of p (exit_price e p px)) (exit_fee_of p))"
    "e_positions e' = d_del pid (e_positions e)"
    "e_trade_history e' = e_trade_history e @ [close_fill p pid coid (exit_price e p px) (exit_fee_of p)
       (case ts of None \<Rightarrow> now | Some t \<Rightarrow> t) reason]"
    "e_balance e' = fadd (e_balance e)
       (fadd (p_collateral p) (fsub (gross_of p (exit_price e p px)) (exit_fee_of p)))"
    "e_slippage_bps e' = e_slippage_bps e" "e_tz e' = e_tz e"
proof -
  from assms(2) obtain cm where cm: "for_gtrade_symbol (p_symbol p) = Inr cm"
    and nz: "p_open_price p \<noteq> 0" "p_collateral p \<noteq> 0"
    by (auto simp: closable_def)
  let ?c = "close_position pid coid px ts now reason e"
  show ?thesis
    by (rule that [of "fst ?c" "projr (snd ?c)"])
       (simp_all add: close_position_def Let_def assms(1) cm nz pnl_gross_def pdiv_def gross_of_def
         exit_fee_of_def)
qed

section \<open>The invariant\<close>

definition position_ok :: "string \<Rightarrow> position \<Rightarrow> bool" where
  "position_ok pid p \<longleftrightarrow> closable p \<and> p_venue_position_id p = Some pid"

definition engine_ok :: "engine \<Rightarrow> bool" where
  "engine_ok e \<longleftrightarrow> dict_wf (e_positions e) \<and> (\<forall>(pid, p) \<in> set (e_positions e). position_ok pid p)"

lemma engine_ok_init [simp]: "engine_ok (engine_init bal slip tz hub)"
  by (simp add: engine_ok_def engine_init_def)

lemma engine_ok_get: "engine_ok e \<Longrightarrow> d_get (e_positions e) pid = Some p \<Longrightarrow> position_ok pid p"
  by (auto simp: engine_ok_def dest: d_get_in)

lemma engine_ok_closable: "engine_ok e \<Longrightarrow> d_get (e_positions e) pid = Some p \<Longrightarrow> closable p"
  using engine_ok_get by (auto simp: position_ok_def)

lemma engine_ok_dict_wf: "engine_ok e \<Longrightarrow> dict_wf (e_positions e)"
  by (simp add: engine_ok_def)

lemma engine_ok_cong: "e_positions e' = e_positions e \<Longrightarrow> engine_ok e' = engine_ok e"
  by (simp add: engine_ok_def)

lemma engine_ok_set:
  assumes "engine_ok e" "position_ok pid p" "e_positions e' = d_set pid p (e_positions e)"
  shows "engine_ok e'"
  using assms d_set_all [of "e_positions e" "\<lambda>(pid, p). position_ok pid p" pid p]
  by (simp add: engine_ok_def)

lemma engine_ok_del:
  assumes "engine_ok e" "e_positions e' = d_del pid (e_positions e)"
  shows "engine_ok e'"
  using assms d_del_all [of "e_positions e" "\<lambda>(pid, p). position_ok pid p" pid]
  by (simp add: engine_ok_def)

lemma position_ok_update [simp]:
  "position_ok pid (p\<lparr>p_sl_price := sl\<rparr>) = position_ok pid p"
  "position_ok pid (p\<lparr>p_tp_price := tp\<rparr>) = position_ok pid p"
  "position_ok pid (p\<lparr>p_current_price := px\<rparr>) = position_ok pid p"
  by (simp_all add: position_ok_def closable_def)

lemma update_sl_ok:
  assumes "engine_ok e"
  shows "engine_ok (fst (update_sl pid sl e))"
proof (cases "d_get (e_positions e) pid")
  case (Some p)
  then have ok: "position_ok pid (p\<lparr>p_sl_price := sl\<rparr>)" using assms engine_ok_get by simp
  show ?thesis by (rule engine_ok_set [OF assms ok]) (simp add: update_sl_def Some)
qed (use assms in \<open>simp add: update_sl_def\<close>)

lemma update_tp_ok:
  assumes "engine_ok e"
  shows "engine_ok (fst (update_tp pid tp e))"
proof (cases "d_get (e_positions e) pid")
  case (Some p)
  then have ok: "position_ok pid (p\<lparr>p_tp_price := tp\<rparr>)" using assms engine_ok_get by simp
  show ?thesis by (rule engine_ok_set [OF assms ok]) (simp add: update_tp_def Some)
qed (use assms in \<open>simp add: update_tp_def\<close>)

lemma close_position_ok:
  assumes "engine_ok e"
  shows "engine_ok (fst (close_position pid coid px ts now reason e))"
proof (cases "d_get (e_positions e) pid")
  case None
  with assms show ?thesis by (simp add: close_position_unknown)
next
  case (Some p)
  from Some engine_ok_closable [OF assms Some] show ?thesis
    by (rule close_position_closable [of e pid p coid px ts now reason])
      (use assms in \<open>auto intro: engine_ok_del\<close>)
qed

text \<open>
  An order whose position can be closed again: positive collateral, a price that is not so
  small that the executed price rounds to zero, and at most 50 percent slippage.
\<close>

definition order_ok :: "order_request \<Rightarrow> pfloat \<Rightarrow> engine \<Rightarrow> bool" where
  "order_ok req px e \<longleftrightarrow> 0 < rq_collateral req \<and> 2 powi (- 1000) \<le> px
     \<and> 0 \<le> e_slippage_bps e \<and> e_slippage_bps e \<le> 5000"

lemma is_float_powi: "- 1074 \<le> k \<Longrightarrow> is_float (2 powi k)"
  using rnd_exact_pos [of 1 k] by (simp add: is_float_def rnd_def)

lemma half_powi: "(2 :: rat) powi k / 2 = 2 powi (k - 1)"
  by (simp add: power_int_diff)

lemma is_float_half: "is_float (1 / 2)"
proof -
  have "(1 / 2 :: rat) = 2 powi (- 1)" using half_powi [of 0] by simp
  moreover have "is_float (2 powi (- 1))" by (rule is_float_powi) simp
  ultimately show ?thesis by (simp only:)
qed

lemma slippage_factor_le_half:
  assumes "e_slippage_bps e \<le> 5000"
  shows "slippage_factor e \<le> 1 / 2"
  unfolding slippage_factor_def fdiv_def BASIS_POINTS_DIVISOR_def
  by (rule rnd_le [OF is_float_half]) (use assms in simp)

lemma entry_price_pos:
  assumes "order_ok req px e"
  shows "0 < entry_price e sd px"
proof -
  have s: "0 \<le> slippage_factor e" "slippage_factor e \<le> 1 / 2"
    using assms slippage_factor_nonneg slippage_factor_le_half by (simp_all add: order_ok_def)
  have "1 / 2 \<le> fsub 1 (slippage_factor e)"
    unfolding fsub_def by (rule rnd_ge [OF is_float_half]) (use s in simp)
  moreover have "1 \<le> fadd 1 (slippage_factor e)" using s(1) by (rule fadd_one_ge)
  ultimately have k: "1 / 2 \<le> (if sd = BUY then fadd 1 (slippage_factor e) else fsub 1 (slippage_factor e))"
    (is "_ \<le> ?k") by simp
  have px: "2 powi (- 1000) \<le> px" using assms by (simp add: order_ok_def)
  have "(2 :: rat) powi (- 1001) = 2 powi (- 1000) * (1 / 2)"
    using half_powi [of "- 1000"] by simp
  also have "\<dots> \<le> px * ?k"
    using px k powi_pos [of "- 1000"] by (intro mult_mono) (auto intro: order_trans less_imp_le)
  finally have "2 powi (- 1001) \<le> rnd (px * ?k)"
    by (intro rnd_ge is_float_powi) simp_all
  moreover have "entry_price e sd px = rnd (px * ?k)" by (simp add: entry_price_def fmul_def)
  ultimately show ?thesis using powi_pos [of "- 1001"] by linarith
qed

lemma open_position_ok:
  assumes "engine_ok e" "order_ok req px e"
  shows "engine_ok (fst (open_position req coid px ts now uid e))"
proof (rule open_position_cases [of req coid px ts now uid e])
  fix cm assume a: "rq_collateral req \<le> e_balance e" "for_gtrade_symbol (rq_symbol req) = Inr cm"
  note acc = open_position_accepted [OF a, of coid px ts now uid]
  have "position_ok (paper_pid uid) (new_position req (paper_pid uid) (entry_price e (rq_side req) px)
      n t)" for n t
    using entry_price_pos [OF assms(2), of "rq_side req"] assms(2) a(2)
    by (simp add: position_ok_def closable_def new_position_def order_ok_def)
  then show ?thesis using assms(1) acc(4) by (blast intro: engine_ok_set)
qed (use assms(1) in simp)

section \<open>The monitoring loops\<close>

text \<open>
  \<open>after\<close> is what a loop makes of one position, \<open>closes\<close> the closes it asks for, in
  the order of the snapshot.
\<close>

definition after :: "decision \<Rightarrow> position \<Rightarrow> position option" where
  "after decide p = (case decide p of None \<Rightarrow> Some p | Some (p', None) \<Rightarrow> Some p' | Some (p', Some _) \<Rightarrow> None)"

fun closes :: "decision \<Rightarrow> (string \<times> position) list \<Rightarrow> (string \<times> close_reason) list" where
  "closes decide [] = []"
| "closes decide ((pid, p) # ps) = (case decide p of
     Some (p', Some (prefix, reason, price)) \<Rightarrow> (pid, reason) # closes decide ps
   | _ \<Rightarrow> closes decide ps)"

text \<open>A decision only refreshes the price of a position.\<close>

definition gentle :: "decision \<Rightarrow> bool" where
  "gentle decide \<longleftrightarrow> (\<forall>p p' act. decide p = Some (p', act) \<longrightarrow> (\<exists>px. p' = p\<lparr>p_current_price := px\<rparr>))"

lemma gentle_decisions:
  "gentle (stop_decision prices)" "gentle (liquidation_decision prices ratio)"
  "gentle (ttl_decision tz ttl now)"
proof -
  show "gentle (stop_decision prices)" "gentle (liquidation_decision prices ratio)"
    by (auto simp: gentle_def stop_decision_def liquidation_decision_def split: option.splits if_splits)
  have "\<exists>px. p = p\<lparr>p_current_price := px\<rparr>" for p :: position
    by (rule exI [of _ "p_current_price p"]) simp
  then show "gentle (ttl_decision tz ttl now)"
    by (auto simp: gentle_def ttl_decision_def split: option.splits if_splits)
qed

definition after_map ::
  "decision \<Rightarrow> (string \<times> position) list \<Rightarrow> (string \<rightharpoonup> position) \<Rightarrow> (string \<rightharpoonup> position)" where
  "after_map decide ps m = (\<lambda>pid. case map_of ps pid of None \<Rightarrow> m pid | Some p \<Rightarrow> after decide p)"

lemma after_map_Nil [simp]: "after_map decide [] m = m"
  by (simp add: after_map_def)

lemma after_map_Cons:
  "map_of ps pid = None \<Longrightarrow>
     after_map decide ((pid, p) # ps) m = after_map decide ps (m(pid := after decide p))"
  by (auto simp: after_map_def fun_eq_iff split: option.splits)

definition scan_result ::
  "decision \<Rightarrow> (string \<times> position) list \<Rightarrow> engine \<Rightarrow> order_result list \<Rightarrow> engine \<times> order_result list result \<Rightarrow> bool" where
  "scan_result decide ps e out res \<longleftrightarrow> (\<exists>e' rs fs. res = (e', Inr (out @ rs)) \<and> engine_ok e' \<and>
     (\<forall>r \<in> set rs. or_success r) \<and> map or_position_id rs = map fst (closes decide ps) \<and>
     e_trade_history e' = e_trade_history e @ fs \<and>
     map (\<lambda>f. (f_position_id f, f_close_reason f)) fs = closes decide ps \<and>
     mset (d_keys (e_positions e')) + mset (map f_position_id fs) = mset (d_keys (e_positions e)) \<and>
     d_get (e_positions e') = after_map decide ps (d_get (e_positions e)) \<and>
     e_slippage_bps e' = e_slippage_bps e \<and> e_tz e' = e_tz e)"

lemma scan_positions_result:
  assumes "gentle decide" "engine_ok e" "distinct (map fst ps)"
    "\<forall>(pid, p) \<in> set ps. d_get (e_positions e) pid = Some p"
  shows "scan_result decide ps e out (scan_positions decide now ps e out)"
  using assms
proof (induction ps arbitrary: e out)
  case Nil
  then show ?case by (simp add: scan_result_def)
next
  case (Cons kp ps)
  obtain pid p where kp: "kp = (pid, p)" by (cases kp)
  have here: "d_get (e_positions e) pid = Some p" "pid \<notin> fst ` set ps" and dist: "distinct (map fst ps)"
    using Cons.prems(3,4) kp by auto
  then have not_later: "map_of ps pid = None" by (simp add: map_of_eq_None_iff)
  note ok = Cons.prems(2) and later = Cons.prems(4)
  show ?case
  proof (cases "decide p")
    case None
    have "scan_result decide ps e out (scan_positions decide now ps e out)"
      using Cons.IH [OF Cons.prems(1) ok dist] later kp by auto
    moreover have "(d_get (e_positions e))(pid := after decide p) = d_get (e_positions e)"
      using here(1) None by (auto simp: after_def fun_eq_iff)
    ultimately show ?thesis
      using None by (simp add: kp scan_result_def after_map_Cons not_later)
  next
    case (Some d)
    obtain p' act where d: "d = (p', act)" by (cases d)
    define e1 where "e1 = e\<lparr>e_positions := d_set pid p' (e_positions e)\<rparr>"
    from Cons.prems(1) Some d obtain px where "p' = p\<lparr>p_current_price := px\<rparr>"
      by (auto simp: gentle_def)
    then have pok: "position_ok pid p'" using engine_ok_get [OF ok here(1)] by simp
    then have ok1: "engine_ok e1" using ok by (auto simp: e1_def intro: engine_ok_set)
    have get1: "d_get (e_positions e1) = (d_get (e_positions e))(pid \<mapsto> p')" by (simp add: e1_def)
    have "d_keys (e_positions e1) = d_keys (e_positions e)"
      using here(1) d_keys_iff [of pid "e_positions e"] by (simp add: e1_def)
    then have len1: "mset (d_keys (e_positions e1)) = mset (d_keys (e_positions e))" by (simp only:)
    have step: "scan_positions decide now (kp # ps) e out = (case act of
        None \<Rightarrow> scan_positions decide now ps e1 out
      | Some (prefix, reason, price) \<Rightarrow>
          (case close_position pid (prefix @ pid) price None now reason e1 of
             (e2, Inl err) \<Rightarrow> (e2, Inl err)
           | (e2, Inr r) \<Rightarrow> scan_positions decide now ps e2 (out @ [r])))"
      unfolding e1_def using Some d here(1) by (simp add: kp d_touch_def Let_def)
    show ?thesis
    proof (cases act)
      case None
      have "scan_result decide ps e1 out (scan_positions decide now ps e1 out)"
        using Cons.IH [OF Cons.prems(1) ok1 dist] later kp here(2) get1 by force
      then have "scan_result decide (kp # ps) e out (scan_positions decide now ps e1 out)"
        using Some d None not_later len1
        by (simp add: scan_result_def after_def kp e1_def after_map_Cons)
      then show ?thesis by (simp add: step None)
    next
      case (Some a)
      obtain prefix reason price where a: "a = (prefix, reason, price)" by (cases a)
      have g1: "d_get (e_positions e1) pid = Some p'" by (simp add: get1)
      obtain e2 r where c: "close_position pid (prefix @ pid) price None now reason e1 = (e2, Inr r)"
        "or_success r" "or_position_id r = pid"
        "e_positions e2 = d_del pid (e_positions e1)"
        "e_trade_history e2 = e_trade_history e1 @ [close_fill p' pid (prefix @ pid)
           (exit_price e1 p' price) (exit_fee_of p') now reason]"
        "e_slippage_bps e2 = e_slippage_bps e1" "e_tz e2 = e_tz e1"
        by (rule close_position_closable [OF g1 engine_ok_closable [OF ok1 g1], of "prefix @ pid" price None now reason]) auto
      have ok2: "engine_ok e2" using ok1 c(4) by (rule engine_ok_del)
      have get2: "d_get (e_positions e2) = (d_get (e_positions e))(pid := None)"
        by (simp add: c(4) get1)
      have len2: "add_mset pid (mset (d_keys (e_positions e2))) = mset (d_keys (e_positions e))"
        using mset_keys_d_del [OF engine_ok_dict_wf [OF ok1], of pid] g1 len1 by (simp add: c(4))
      have "scan_result decide ps e2 (out @ [r]) (scan_positions decide now ps e2 (out @ [r]))"
        using Cons.IH [OF Cons.prems(1) ok2 dist] later kp here(2) get2 by force
      then obtain e' rs fs where ih: "scan_positions decide now ps e2 (out @ [r]) = (e', Inr (out @ r # rs))"
        "engine_ok e'" "\<forall>r \<in> set rs. or_success r" "map or_position_id rs = map fst (closes decide ps)"
        "e_trade_history e' = e_trade_history e2 @ fs"
        "map (\<lambda>f. (f_position_id f, f_close_reason f)) fs = closes decide ps"
        "mset (d_keys (e_positions e')) + mset (map f_position_id fs) = mset (d_keys (e_positions e2))"
        "d_get (e_positions e') = after_map decide ps (d_get (e_positions e2))"
        "e_slippage_bps e' = e_slippage_bps e2" "e_tz e' = e_tz e2"
        unfolding scan_result_def by auto
      define f where "f = close_fill p' pid (prefix @ pid) (exit_price e1 p' price) (exit_fee_of p') now reason"
      have aft: "after decide p = None" using \<open>decide p = Some d\<close> d Some by (simp add: after_def)
      have cl: "closes decide (kp # ps) = (pid, reason) # closes decide ps"
        using \<open>decide p = Some d\<close> d Some a by (simp add: kp)
      have "scan_result decide (kp # ps) e out (e', Inr (out @ r # rs))"
        unfolding scan_result_def
      proof (intro exI [of _ e'] exI [of _ "r # rs"] exI [of _ "f # fs"] conjI)
        show "e_trade_history e' = e_trade_history e @ f # fs"
          by (simp add: ih(5) c(5) f_def e1_def)
        show "d_get (e_positions e') = after_map decide (kp # ps) (d_get (e_positions e))"
          by (simp add: ih(8) kp get2 aft not_later after_map_Cons)
      qed (use ih c len2 cl in \<open>auto simp: f_def close_fill_def e1_def\<close>)
      then show ?thesis by (simp add: step Some a c(1) ih(1))
    qed
  qed
qed

lemma closes_iff:
  "(pid, reason) \<in> set (closes decide ps) \<longleftrightarrow>
     (\<exists>p p' prefix price. (pid, p) \<in> set ps \<and> decide p = Some (p', Some (prefix, reason, price)))"
  by (induction decide ps rule: closes.induct) (auto split: option.splits prod.splits)

text \<open>The whole dictionary as snapshot.\<close>

lemma scan_all:
  assumes "gentle decide" "engine_ok e"
  obtains e' rs fs where
    "scan_positions decide now (e_positions e) e [] = (e', Inr rs)" "engine_ok e'"
    "\<forall>r \<in> set rs. or_success r" "map or_position_id rs = map fst (closes decide (e_positions e))"
    "e_trade_history e' = e_trade_history e @ fs"
    "map (\<lambda>f. (f_position_id f, f_close_reason f)) fs = closes decide (e_positions e)"
    "mset (d_keys (e_positions e')) + mset (map f_position_id fs) = mset (d_keys (e_positions e))"
    "d_get (e_positions e') = (\<lambda>pid. Option.bind (d_get (e_positions e) pid) (after decide))"
    "e_slippage_bps e' = e_slippage_bps e" "e_tz e' = e_tz e"
proof -
  have "scan_result decide (e_positions e) e [] (scan_positions decide now (e_positions e) e [])"
    using assms by (intro scan_positions_result) (auto simp: engine_ok_def dict_wf_def d_in_get)
  moreover have "after_map decide (e_positions e) (d_get (e_positions e)) =
      (\<lambda>pid. Option.bind (d_get (e_positions e) pid) (after decide))"
    by (auto simp: after_map_def fun_eq_iff split: option.splits)
  ultimately show ?thesis unfolding scan_result_def using that by auto
qed

text \<open>What one risk sweep makes of a position.\<close>

definition risk_outcome :: "(string \<rightharpoonup> pfloat) \<Rightarrow> pfloat \<Rightarrow> position \<Rightarrow> position option" where
  "risk_outcome prices ratio p = (case prices (p_symbol p) of
     None \<Rightarrow> Some p
   | Some px \<Rightarrow>
       if equity p px \<le> maintenance_margin p ratio \<or> sl_hit p px \<or> tp_hit p px then None
       else Some (p\<lparr>p_current_price := px\<rparr>))"

lemma risk_field_simps [simp]:
  "equity (p\<lparr>p_current_price := x\<rparr>) px = equity p px"
  "maintenance_margin (p\<lparr>p_current_price := x\<rparr>) ratio = maintenance_margin p ratio"
  "sl_hit (p\<lparr>p_current_price := x\<rparr>) px = sl_hit p px"
  "tp_hit (p\<lparr>p_current_price := x\<rparr>) px = tp_hit p px"
  by (simp_all add: equity_def maintenance_margin_def sl_hit_def tp_hit_def Let_def
      cong: if_cong option.case_cong)

lemma after_liquidation_stop:
  "Option.bind (after (liquidation_decision prices ratio) p) (after (stop_decision prices))
     = risk_outcome prices ratio p"
  by (auto simp: after_def liquidation_decision_def stop_decision_def risk_outcome_def split: option.splits)

definition close_reason_of :: "(string \<rightharpoonup> pfloat) \<Rightarrow> pfloat \<Rightarrow> position \<Rightarrow> close_reason option" where
  "close_reason_of prices ratio p = (case prices (p_symbol p) of
     None \<Rightarrow> None
   | Some px \<Rightarrow>
       if equity p px \<le> maintenance_margin p ratio then Some CR_LIQUIDATION
       else if sl_hit p px then Some CR_STOP_LOSS
       else if tp_hit p px then Some CR_TAKE_PROFIT else None)"

lemma liquidation_closes_iff:
  "(\<exists>p' prefix price. liquidation_decision prices ratio p = Some (p', Some (prefix, reason, price)))
     \<longleftrightarrow> close_reason_of prices ratio p = Some reason \<and> reason = CR_LIQUIDATION"
  by (auto simp: liquidation_decision_def close_reason_of_def split: option.splits)

lemma stop_closes_iff:
  "(\<exists>p1. after (liquidation_decision prices ratio) p = Some p1 \<and>
      (\<exists>p' prefix price. stop_decision prices p1 = Some (p', Some (prefix, reason, price))))
     \<longleftrightarrow> close_reason_of prices ratio p = Some reason \<and> reason \<noteq> CR_LIQUIDATION"
  by (cases "prices (p_symbol p)")
     (auto simp: after_def liquidation_decision_def stop_decision_def close_reason_of_def)

lemma risk_sweep:
  assumes "engine_ok e"
  obtains e' rs fs where
    "check_stops_and_liquidation prices ratio now e = (e', Inr rs)" "engine_ok e'"
    "\<forall>r \<in> set rs. or_success r" "map or_position_id rs = map f_position_id fs"
    "e_trade_history e' = e_trade_history e @ fs"
    "\<And>pid reason. (\<exists>f \<in> set fs. f_position_id f = pid \<and> f_close_reason f = reason) \<longleftrightarrow>
        (\<exists>p. d_get (e_positions e) pid = Some p \<and> close_reason_of prices ratio p = Some reason)"
    "mset (d_keys (e_positions e')) + mset (map f_position_id fs) = mset (d_keys (e_positions e))"
    "d_get (e_positions e') = (\<lambda>pid. Option.bind (d_get (e_positions e) pid) (risk_outcome prices ratio))"
    "e_slippage_bps e' = e_slippage_bps e" "e_tz e' = e_tz e"
proof -
  let ?liq = "liquidation_decision prices ratio" and ?stop = "stop_decision prices"
  obtain e1 rs1 fs1 where s1:
    "scan_positions ?liq now (e_positions e) e [] = (e1, Inr rs1)" "engine_ok e1"
    "\<forall>r \<in> set rs1. or_success r" "map or_position_id rs1 = map fst (closes ?liq (e_positions e))"
    "e_trade_history e1 = e_trade_history e @ fs1"
    "map (\<lambda>f. (f_position_id f, f_close_reason f)) fs1 = closes ?liq (e_positions e)"
    "mset (d_keys (e_positions e1)) + mset (map f_position_id fs1) = mset (d_keys (e_positions e))"
    "d_get (e_positions e1) = (\<lambda>pid. Option.bind (d_get (e_positions e) pid) (after ?liq))"
    "e_slippage_bps e1 = e_slippage_bps e" "e_tz e1 = e_tz e"
    by (rule scan_all [OF gentle_decisions(2) assms])
  obtain e2 rs2 fs2 where s2:
    "scan_positions ?stop now (e_positions e1) e1 [] = (e2, Inr rs2)" "engine_ok e2"
    "\<forall>r \<in> set rs2. or_success r" "map or_position_id rs2 = map fst (closes ?stop (e_positions e1))"
    "e_trade_history e2 = e_trade_history e1 @ fs2"
    "map (\<lambda>f. (f_position_id f, f_close_reason f)) fs2 = closes ?stop (e_positions e1)"
    "mset (d_keys (e_positions e2)) + mset (map f_position_id fs2) = mset (d_keys (e_positions e1))"
    "d_get (e_positions e2) = (\<lambda>pid. Option.bind (d_get (e_positions e1) pid) (after ?stop))"
    "e_slippage_bps e2 = e_slippage_bps e1" "e_tz e2 = e_tz e1"
    by (rule scan_all [OF gentle_decisions(1) s1(2)])
  have ids: "map f_position_id fs = map fst (map (\<lambda>f. (f_position_id f, f_close_reason f)) fs)" for fs
    by simp
  have mem: "(\<exists>f \<in> set fs. f_position_id f = pid \<and> f_close_reason f = reason) \<longleftrightarrow>
      (pid, reason) \<in> set (map (\<lambda>f. (f_position_id f, f_close_reason f)) fs)" for fs pid reason
    by auto
  note wf = engine_ok_dict_wf [OF assms] engine_ok_dict_wf [OF s1(2)]
  show ?thesis
  proof (rule that [of e2 "rs1 @ rs2" "fs1 @ fs2"])
    show "check_stops_and_liquidation prices ratio now e = (e2, Inr (rs1 @ rs2))"
      by (simp add: check_stops_and_liquidation_def s1(1) check_stops_def s2(1))
    show "d_get (e_positions e2) = (\<lambda>pid. Option.bind (d_get (e_positions e) pid) (risk_outcome prices ratio))"
      by (auto simp: s2(8) s1(8) after_liquidation_stop [symmetric] fun_eq_iff split: bind_split)
    show "map or_position_id (rs1 @ rs2) = map f_position_id (fs1 @ fs2)"
      using s1(4,6) s2(4,6) by (simp only: map_append ids)
    show "mset (d_keys (e_positions e2)) + mset (map f_position_id (fs1 @ fs2)) = mset (d_keys (e_positions e))"
      using s1(7) s2(7) by (simp add: ac_simps)
    fix pid reason
    have "(\<exists>f \<in> set fs1. f_position_id f = pid \<and> f_close_reason f = reason) \<longleftrightarrow>
        (\<exists>p. d_get (e_positions e) pid = Some p \<and> close_reason_of prices ratio p = Some reason
           \<and> reason = CR_LIQUIDATION)"
      unfolding mem s1(6) closes_iff d_in_iff_get [OF wf(1)] liquidation_closes_iff [symmetric] by blast
    moreover have "(\<exists>f \<in> set fs2. f_position_id f = pid \<and> f_close_reason f = reason) \<longleftrightarrow>
        (\<exists>p. d_get (e_positions e) pid = Some p \<and> close_reason_of prices ratio p = Some reason
           \<and> reason \<noteq> CR_LIQUIDATION)"
      unfolding mem s2(6) closes_iff d_in_iff_get [OF wf(2)] s1(8) stop_closes_iff [symmetric]
        bind_eq_Some_conv by blast
    ultimately show "(\<exists>f \<in> set (fs1 @ fs2). f_position_id f = pid \<and> f_close_reason f = reason) \<longleftrightarrow>
        (\<exists>p. d_get (e_positions e) pid = Some p \<and> close_reason_of prices ratio p = Some reason)"
      unfolding set_append bex_Un by blast
  qed (use s1 s2 in auto)
qed

lemma ttl_sweep:
  assumes "engine_ok e"
  obtains e' rs fs where
    "check_ttl ttl now e = (e', Inr rs)" "engine_ok e'"
    "\<forall>r \<in> set rs. or_success r" "e_trade_history e' = e_trade_history e @ fs"
    "\<forall>f \<in> set fs. f_close_reason f = CR_TTL"
    "mset (d_keys (e_positions e')) + mset (map f_position_id fs) = mset (d_keys (e_positions e))"
    "d_get (e_positions e') = (\<lambda>pid. Option.bind (d_get (e_positions e) pid)
       (\<lambda>p. case p_open_time p of None \<Rightarrow> Some p
          | Some t \<Rightarrow> if ttl \<le> age_s (e_tz e) now t then None else Some p))"
    "e_slippage_bps e' = e_slippage_bps e" "e_tz e' = e_tz e"
proof -
  let ?ttl = "ttl_decision (e_tz e) ttl now"
  have aft: "after ?ttl = (\<lambda>p. case p_open_time p of None \<Rightarrow> Some p
      | Some t \<Rightarrow> if ttl \<le> age_s (e_tz e) now t then None else Some p)"
    by (auto simp: after_def ttl_decision_def fun_eq_iff split: option.splits)
  obtain e' rs fs where s: "scan_positions ?ttl now (e_positions e) e [] = (e', Inr rs)" "engine_ok e'"
    "\<forall>r \<in> set rs. or_success r"
    "e_trade_history e' = e_trade_history e @ fs"
    "map (\<lambda>f. (f_position_id f, f_close_reason f)) fs = closes ?ttl (e_positions e)"
    "mset (d_keys (e_positions e')) + mset (map f_position_id fs) = mset (d_keys (e_positions e))"
    "d_get (e_positions e') = (\<lambda>pid. Option.bind (d_get (e_positions e) pid) (after ?ttl))"
    "e_slippage_bps e' = e_slippage_bps e" "e_tz e' = e_tz e"
    by (rule scan_all [OF gentle_decisions(3) assms])
  have "f_close_reason f = CR_TTL" if "f \<in> set fs" for f
  proof -
    have "(f_position_id f, f_close_reason f) \<in> set (closes ?ttl (e_positions e))"
      using that unfolding s(5) [symmetric] by auto
    then show ?thesis by (auto simp: closes_iff ttl_decision_def split: option.splits if_splits)
  qed
  then show ?thesis using s by (intro that [of e' rs fs]) (simp_all add: check_ttl_def aft)
qed

section \<open>Reachable states and the balance of positions\<close>

text \<open>
  \<open>engine_step e n e'\<close>: one call of the engine, which opened \<open>n\<close> positions (0 or 1).
  The identifier of an opening is fresh, as \<open>uuid4\<close> makes it.
\<close>

definition fresh_uid :: "string \<Rightarrow> engine \<Rightarrow> bool" where
  "fresh_uid uid e \<longleftrightarrow> paper_pid uid \<notin> set (d_keys (e_positions e))
     \<and> paper_pid uid \<notin> set (map f_position_id (e_trade_history e))"

inductive engine_step :: "engine \<Rightarrow> nat \<Rightarrow> engine \<Rightarrow> bool" where
  step_open: "order_ok req px e \<Longrightarrow> fresh_uid uid e \<Longrightarrow>
     open_position req coid px ts now uid e = (e', r) \<Longrightarrow>
     engine_step e (if or_success r then 1 else 0) e'"
| step_close: "close_position pid coid px ts now reason e = (e', r) \<Longrightarrow> engine_step e 0 e'"
| step_sl: "update_sl pid sl e = (e', u) \<Longrightarrow> engine_step e 0 e'"
| step_tp: "update_tp pid tp e = (e', u) \<Longrightarrow> engine_step e 0 e'"
| step_sweep: "check_stops_and_liquidation prices ratio now e = (e', rs) \<Longrightarrow> engine_step e 0 e'"
| step_ttl: "check_ttl ttl now e = (e', rs) \<Longrightarrow> engine_step e 0 e'"

inductive engine_run :: "engine \<Rightarrow> nat \<Rightarrow> engine \<Rightarrow> bool" where
  run_nil: "engine_run e 0 e"
| run_step: "engine_run e n e' \<Longrightarrow> engine_step e' k e'' \<Longrightarrow> engine_run e (n + k) e''"

text \<open>Every identifier handed out is that of an open position or of exactly one fill.\<close>

definition all_ids :: "engine \<Rightarrow> string multiset" where
  "all_ids e = mset (d_keys (e_positions e)) + mset (map f_position_id (e_trade_history e))"

definition run_inv :: "engine \<Rightarrow> nat \<Rightarrow> bool" where
  "run_inv e n \<longleftrightarrow> engine_ok e \<and> size (all_ids e) = n \<and> (\<forall>x. count (all_ids e) x \<le> 1)"

lemma run_inv_same_ids: "run_inv e n \<Longrightarrow> engine_ok e' \<Longrightarrow> all_ids e' = all_ids e \<Longrightarrow> run_inv e' n"
  by (simp add: run_inv_def)

lemma update_all_ids:
  "all_ids (fst (update_sl pid sl e)) = all_ids e" "all_ids (fst (update_tp pid tp e)) = all_ids e"
proof -
  have k: "mset (d_keys (d_set pid v d)) = mset (d_keys d)" if "d_get d pid = Some w" for v w d
  proof -
    have "d_keys (d_set pid v d) = d_keys d"
      using that d_keys_iff [of pid d] by simp
    then show ?thesis by (simp only:)
  qed
  show "all_ids (fst (update_sl pid sl e)) = all_ids e" "all_ids (fst (update_tp pid tp e)) = all_ids e"
    using k by (auto simp: all_ids_def update_sl_def update_tp_def split: option.splits)
qed

lemma close_all_ids:
  assumes "engine_ok e"
  shows "all_ids (fst (close_position pid coid px ts now reason e)) = all_ids e"
proof (cases "d_get (e_positions e) pid")
  case None
  then show ?thesis by (simp add: close_position_unknown)
next
  case (Some p)
  show ?thesis
  proof (rule close_position_closable [OF Some engine_ok_closable [OF assms Some], of coid px ts now reason])
    fix e' r
    assume c: "close_position pid coid px ts now reason e = (e', Inr r)"
      "e_positions e' = d_del pid (e_positions e)"
      "e_trade_history e' = e_trade_history e @ [close_fill p pid coid (exit_price e p px) (exit_fee_of p)
         (case ts of None \<Rightarrow> now | Some t \<Rightarrow> t) reason]"
    have "add_mset pid (mset (d_keys (e_positions e'))) = mset (d_keys (e_positions e))"
      unfolding c(2) by (rule mset_keys_d_del) (use Some engine_ok_dict_wf [OF assms] in simp_all)
    then show ?thesis by (simp add: all_ids_def c(1,3) close_fill_def)
  qed
qed

lemma open_all_ids:
  assumes "fresh_uid uid e"
  shows "all_ids (fst (open_position req coid px ts now uid e)) =
    all_ids e + (if or_success (snd (open_position req coid px ts now uid e)) then {#paper_pid uid#} else {#})"
proof (rule open_position_cases [of req coid px ts now uid e])
  fix cm assume a: "rq_collateral req \<le> e_balance e" "for_gtrade_symbol (rq_symbol req) = Inr cm"
  have "d_set (paper_pid uid) p (e_positions e) = e_positions e @ [(paper_pid uid, p)]" for p
    using assms by (intro d_set_fresh) (simp add: fresh_uid_def)
  then show ?thesis
    using open_position_accepted [OF a, of coid px ts now uid] by (simp add: all_ids_def)
qed simp

lemma engine_step_inv:
  assumes "engine_step e k e'" "run_inv e n"
  shows "run_inv e' (n + k)"
  using assms
proof (induction rule: engine_step.induct)
  case (step_open req px e uid coid ts now e' r)
  then have ok: "engine_ok e" by (simp add: run_inv_def)
  have e': "e' = fst (open_position req coid px ts now uid e)" "r = snd (open_position req coid px ts now uid e)"
    using step_open(3) by simp_all
  have "count (all_ids e) (paper_pid uid) = 0"
    using step_open(2) by (auto simp: fresh_uid_def all_ids_def count_eq_zero_iff)
  moreover have "engine_ok e'" unfolding e' by (rule open_position_ok [OF ok step_open(1)])
  ultimately show ?case
    using step_open(4) open_all_ids [OF step_open(2), of req coid px ts now]
    by (auto simp: run_inv_def e')
next
  case (step_close pid coid px ts now reason e e' r)
  then have "e' = fst (close_position pid coid px ts now reason e)" by simp
  with step_close(2) show ?case
    by (auto intro!: run_inv_same_ids simp: close_position_ok close_all_ids run_inv_def)
next
  case (step_sl pid sl e e' u)
  then have "e' = fst (update_sl pid sl e)" by simp
  with step_sl(2) show ?case
    by (auto intro!: run_inv_same_ids simp: update_sl_ok update_all_ids run_inv_def)
next
  case (step_tp pid tp e e' u)
  then have "e' = fst (update_tp pid tp e)" by simp
  with step_tp(2) show ?case
    by (auto intro!: run_inv_same_ids simp: update_tp_ok update_all_ids run_inv_def)
next
  case (step_sweep prices ratio now e e' rs)
  then have ok: "engine_ok e" by (simp add: run_inv_def)
  obtain fs where "engine_ok e'" "e_trade_history e' = e_trade_history e @ fs"
    "mset (d_keys (e_positions e')) + mset (map f_position_id fs) = mset (d_keys (e_positions e))"
    by (rule risk_sweep [OF ok, of prices ratio now]) (use step_sweep(1) in auto)
  then have "engine_ok e' \<and> all_ids e' = all_ids e" by (simp add: all_ids_def ac_simps)
  with step_sweep(2) show ?case by (auto intro: run_inv_same_ids)
next
  case (step_ttl ttl now e e' rs)
  then have ok: "engine_ok e" by (simp add: run_inv_def)
  obtain fs where "engine_ok e'" "e_trade_history e' = e_trade_history e @ fs"
    "mset (d_keys (e_positions e')) + mset (map f_position_id fs) = mset (d_keys (e_positions e))"
    by (rule ttl_sweep [OF ok, of ttl now]) (use step_ttl(1) in auto)
  then have "engine_ok e' \<and> all_ids e' = all_ids e" by (simp add: all_ids_def ac_simps)
  with step_ttl(2) show ?case by (auto intro: run_inv_same_ids)
qed

lemma engine_run_inv: "engine_run e n e' \<Longrightarrow> run_inv e 0 \<Longrightarrow> run_inv e' n"
  by (induction rule: engine_run.induct) (auto intro: engine_step_inv)

lemma run_inv_init: "run_inv (engine_init bal slip tz hub) 0"
  by (simp add: run_inv_def all_ids_def) (simp add: engine_init_def)

lemma run_inv_distinct:
  "run_inv e n \<Longrightarrow> distinct (d_keys (e_positions e) @ map f_position_id (e_trade_history e))"
proof -
  assume "run_inv e n"
  then have "\<forall>x. count (mset (d_keys (e_positions e) @ map f_position_id (e_trade_history e))) x \<le> 1"
    by (simp add: run_inv_def all_ids_def)
  then show ?thesis
    by (metis distinct_count_atmost_1 count_mset count_eq_zero_iff le_SucE le_zero_eq One_nat_def set_mset_mset)
qed

end
