(* ===== verification/PaperEngine_Props.thy ===== *)
theory PaperEngine_Props
  imports PaperEngine_Inv
begin

text \<open>
  The properties of the paper trading engine, each with a witness on a concrete account:
  10000 USDC, 5 basis points of slippage, one long EURUSD order.
\<close>

section \<open>A concrete account\<close>

definition demo_time :: "int \<Rightarrow> datetime" where
  "demo_time s = utc_dt (s * second_us)"

definition demo_engine :: engine where
  "demo_engine = engine_init 10000 5 utc None"

definition demo_order :: order_request where
  "demo_order = \<lparr>rq_symbol = ''EURUSD'', rq_side = BUY, rq_collateral = 100, rq_leverage = 10,
     rq_order_type = MARKET, rq_sl_price = Some 1, rq_tp_price = Some 3, rq_limit_price = None,
     rq_stop_price = None\<rparr>"

definition demo_open :: engine where
  "demo_open = fst (open_position demo_order ''c1'' 2 None (demo_time 1000) ''a1'' demo_engine)"

lemma powi_minus_1000_le:
  assumes "1 \<le> x"
  shows "(2 :: rat) powi (- 1000) \<le> x"
proof -
  have "(2 :: rat) powi (- 1000) \<le> 2 powi 0" by (rule powi_mono) simp
  with assms show ?thesis by (simp only: power_int_0_right)
qed

lemma demo_order_ok: "order_ok demo_order 2 demo_engine"
  unfolding order_ok_def
  by (intro conjI powi_minus_1000_le) (simp_all add: demo_order_def demo_engine_def engine_init_def)

lemma demo_open_ok: "engine_ok demo_open"
  unfolding demo_open_def
  by (rule open_position_ok [OF _ demo_order_ok]) (simp add: demo_engine_def)

definition eurusd_fees :: cost_model where
  "eurusd_fees = cost_model_of ''EURUSD'' 1 (rnd (12 / 10)) (rnd (12 / 10))"

lemma for_gtrade_symbol_eurusd: "for_gtrade_symbol ''EURUSD'' = Inr eurusd_fees"
  by (simp add: for_gtrade_symbol_def py_upper_def upper_char_def Let_def eurusd_fees_def)

definition demo_position :: position where
  "demo_position = new_position demo_order ''paper_a1'' (entry_price demo_engine BUY 2) (fmul 100 10)
     (demo_time 1000)"

lemma demo_open_positions: "e_positions demo_open = [(''paper_a1'', demo_position)]"
proof -
  have bal: "rq_collateral demo_order \<le> e_balance demo_engine"
    by (simp add: demo_order_def demo_engine_def engine_init_def)
  have cm: "for_gtrade_symbol (rq_symbol demo_order) = Inr eurusd_fees"
    by (simp add: demo_order_def for_gtrade_symbol_eurusd)
  show ?thesis
    unfolding demo_open_def open_position_accepted(4) [OF bal cm]
    by (simp add: demo_engine_def engine_init_def demo_position_def paper_pid_def demo_order_def)
qed

lemma demo_position_get [simp]: "d_get (e_positions demo_open) ''paper_a1'' = Some demo_position"
  by (simp add: demo_open_positions)

lemma demo_position_pos: "0 < p_open_price demo_position"
  using entry_price_pos [OF demo_order_ok, of BUY] by (simp add: demo_position_def new_position_def)

lemma demo_position_simps [simp]:
  "p_symbol demo_position = ''EURUSD''" "p_is_long demo_position" "p_collateral demo_position = 100"
  "p_leverage demo_position = 10" "p_notional demo_position = fmul 100 10"
  "p_sl_price demo_position = Some 1" "p_tp_price demo_position = Some 3"
  "p_open_time demo_position = Some (demo_time 1000)"
  "p_open_price demo_position = entry_price demo_engine BUY 2"
  by (simp_all add: demo_position_def new_position_def demo_order_def)

section \<open>Opening and closing\<close>

text \<open>
  C1. Opening a position: an order whose collateral exceeds the balance, or whose symbol has
  no fee schedule, changes nothing and fails; any other order succeeds, stores exactly one new
  position under the new identifier, charges the collateral and the entry fee, keeps the
  history, and executes at a price that slippage never makes better for the trader.
\<close>

theorem open_position_correct:
  fixes e :: engine and req :: order_request and px :: pfloat and coid uid :: string and now :: datetime
  assumes "is_float px" "0 \<le> px" "0 \<le> e_slippage_bps e"
  defines "r \<equiv> open_position req coid px None now uid e"
    and "notional \<equiv> fmul (rq_collateral req) (rq_leverage req)"
    and "executed \<equiv> entry_price e (rq_side req) px"
  shows "case for_gtrade_symbol (rq_symbol req) of
      Inl _ \<Rightarrow> fst r = e \<and> \<not> or_success (snd r)
    | Inr cm \<Rightarrow>
        if rq_collateral req > e_balance e then fst r = e \<and> \<not> or_success (snd r)
        else or_success (snd r) \<and> or_position_id (snd r) = ''paper_'' @ uid \<and>
          e_positions (fst r) = d_set (''paper_'' @ uid)
            (new_position req (''paper_'' @ uid) executed notional now) (e_positions e) \<and>
          e_balance (fst r) = fsub (e_balance e)
            (fadd (rq_collateral req) (of_total_entry_cost (calculate_open_fees cm notional))) \<and>
          e_trade_history (fst r) = e_trade_history e \<and>
          or_executed_price (snd r) = Some executed \<and>
          (if rq_side req = BUY then px \<le> executed else executed \<le> px)"
proof (cases "for_gtrade_symbol (rq_symbol req)")
  case (Inl err)
  then show ?thesis
    using open_position_rejected [of e req coid px None now uid] by (auto simp: r_def)
next
  case (Inr cm)
  show ?thesis
  proof (cases "rq_collateral req > e_balance e")
    case True
    with Inr show ?thesis
      using open_position_rejected [of e req coid px None now uid] by (auto simp: r_def)
  next
    case False
    then have "rq_collateral req \<le> e_balance e" by simp
    note acc = open_position_accepted [OF this Inr, of coid px None now uid]
    have "if rq_side req = BUY then px \<le> executed else executed \<le> px"
      using entry_price_adverse [OF assms(1-3)] by (cases "rq_side req") (simp_all add: executed_def)
    with False Inr acc show ?thesis
      by (simp add: r_def notional_def executed_def paper_pid_def)
  qed
qed

theorem open_position_correct_witness:
  "or_success (snd (open_position demo_order ''c1'' 2 None (demo_time 1000) ''a1'' demo_engine))
   \<and> 2 \<le> entry_price demo_engine BUY 2"
proof -
  have cm: "for_gtrade_symbol (rq_symbol demo_order) = Inr eurusd_fees"
    by (simp add: demo_order_def for_gtrade_symbol_eurusd)
  have f: "is_float 2" using rnd_of_int [of 2] by (simp add: is_float_def)
  have s: "0 \<le> e_slippage_bps demo_engine" by (simp add: demo_engine_def engine_init_def)
  have "\<not> rq_collateral demo_order > e_balance demo_engine" "rq_side demo_order = BUY"
    by (simp_all add: demo_engine_def engine_init_def demo_order_def)
  then show ?thesis
    using open_position_correct [OF f _ s, of demo_order "''c1''" "demo_time 1000" "''a1''"]
    by (simp add: cm)
qed

text \<open>
  C2. Closing a position that is open and closable (its symbol has fees, its collateral and
  entry price are not zero): exactly that position is removed, one fill is appended with the
  requested reason, the account is credited with the collateral and the net profit, the net
  profit never exceeds the gross profit, and the gross profit has the sign of the price move
  in the position's direction.
\<close>

theorem close_position_correct:
  fixes e :: engine and p :: position and px :: pfloat
  assumes "d_get (e_positions e) pid = Some p" "closable p"
    and "0 < p_open_price p" "0 \<le> p_leverage p" "0 < p_collateral p" "0 \<le> p_notional p"
  defines "executed \<equiv> exit_price e p px"
  shows "\<exists>e' res f net gross. close_position pid coid px None now reason e = (e', Inr res) \<and>
    or_success res \<and> e_positions e' = d_del pid (e_positions e) \<and>
    e_trade_history e' = e_trade_history e @ [f] \<and> f_position_id f = pid \<and> f_close_reason f = reason \<and>
    or_realized_pnl res = Some net \<and> gross = gross_of p executed \<and>
    e_balance e' = fadd (e_balance e) (fadd (p_collateral p) net) \<and> net \<le> gross \<and>
    ((if p_is_long p then p_open_price p \<le> executed else executed \<le> p_open_price p) \<longrightarrow> 0 \<le> gross) \<and>
    ((if p_is_long p then executed \<le> p_open_price p else p_open_price p \<le> executed) \<longrightarrow> gross \<le> 0)"
proof -
  obtain e' r where c: "close_position pid coid px None now reason e = (e', Inr r)"
    "or_success r" "or_realized_pnl r = Some (fsub (gross_of p executed) (exit_fee_of p))"
    "e_positions e' = d_del pid (e_positions e)"
    "e_trade_history e' = e_trade_history e @ [close_fill p pid coid executed (exit_fee_of p) now reason]"
    "e_balance e' = fadd (e_balance e) (fadd (p_collateral p) (fsub (gross_of p executed) (exit_fee_of p)))"
    unfolding executed_def
    by (rule close_position_closable [OF assms(1,2), of coid px None now reason]) auto
  obtain cm where "for_gtrade_symbol (p_symbol p) = Inr cm" using assms(2) by (auto simp: closable_def)
  then have fee: "0 \<le> exit_fee_of p"
    using close_fees_nonneg [OF for_gtrade_symbol_ok] assms(6) by (simp add: exit_fee_of_def)
  have "is_float (gross_of p executed)" by (simp add: gross_of_def)
  then have net: "fsub (gross_of p executed) (exit_fee_of p) \<le> gross_of p executed"
    unfolding fsub_def by (rule rnd_le) (use fee in simp)
  have pos: "0 \<le> price_diff p executed \<Longrightarrow> 0 \<le> gross_of p executed"
    using assms(3-5) by (simp add: gross_of_def fdiv_nonneg fmul_nonneg)
  have neg: "price_diff p executed \<le> 0 \<Longrightarrow> gross_of p executed \<le> 0"
    using assms(3-5) unfolding gross_of_def fdiv_def fmul_def
    by (intro rnd_nonpos divide_nonpos_pos mult_nonpos_nonneg) simp_all
  have dir: "(if p_is_long p then p_open_price p \<le> executed else executed \<le> p_open_price p) \<Longrightarrow>
      0 \<le> price_diff p executed"
    "(if p_is_long p then executed \<le> p_open_price p else p_open_price p \<le> executed) \<Longrightarrow>
      price_diff p executed \<le> 0"
    by (auto simp: price_diff_def fsub_nonneg fsub_nonpos split: if_splits)
  show ?thesis
    using c net pos neg dir by (intro exI conjI impI) (auto simp: close_fill_def)
qed

theorem close_position_correct_witness:
  "\<exists>e' res. close_position ''paper_a1'' ''c2'' 2 None (demo_time 2000) CR_MANUAL demo_open = (e', Inr res) \<and>
     e_positions e' = []"
proof -
  have "closable demo_position" by (rule engine_ok_closable [OF demo_open_ok demo_position_get])
  then show ?thesis
    using close_position_correct [OF demo_position_get _ demo_position_pos,
        of "''c2''" 2 "demo_time 2000" CR_MANUAL]
    by (auto simp: demo_open_positions fmul_nonneg)
qed

text \<open>
  The affordability check of an opening compares the collateral alone with the balance,
  but the entry fee is charged on top of it: an order for the whole balance is accepted and
  leaves a negative balance.
\<close>

theorem open_position_can_overdraw:
  assumes "for_gtrade_symbol (rq_symbol req) = Inr cm" "rq_collateral req = e_balance e"
    and "0 < of_total_entry_cost (calculate_open_fees cm (fmul (rq_collateral req) (rq_leverage req)))"
    and "fadd (rq_collateral req) (of_total_entry_cost
           (calculate_open_fees cm (fmul (rq_collateral req) (rq_leverage req)))) \<noteq> rq_collateral req"
    and "is_float (e_balance e)"
  shows "or_success (snd (open_position req coid px None now uid e)) \<and>
    e_balance (fst (open_position req coid px None now uid e)) \<le> 0 \<and>
    e_balance e < fadd (rq_collateral req) (of_total_entry_cost
           (calculate_open_fees cm (fmul (rq_collateral req) (rq_leverage req))))"
proof -
  let ?fee = "of_total_entry_cost (calculate_open_fees cm (fmul (rq_collateral req) (rq_leverage req)))"
  have "rq_collateral req \<le> fadd (rq_collateral req) ?fee"
    unfolding fadd_def using assms(2,3,5) by (intro rnd_ge) simp_all
  with assms(2,4) have lt: "e_balance e < fadd (rq_collateral req) ?fee" by simp
  have "rq_collateral req \<le> e_balance e" using assms(2) by simp
  note acc = open_position_accepted [OF this assms(1), of coid px None now uid]
  show ?thesis using acc lt by (simp add: fsub_nonpos)
qed

definition all_in_order :: order_request where
  "all_in_order = demo_order\<lparr>rq_collateral := 10000, rq_leverage := 1\<rparr>"

theorem open_position_can_overdraw_witness:
  "or_success (snd (open_position all_in_order ''c1'' 2 None (demo_time 0) ''a1'' demo_engine)) \<and>
   e_balance (fst (open_position all_in_order ''c1'' 2 None (demo_time 0) ''a1'' demo_engine)) < 0"
proof -
  let ?fee = "of_total_entry_cost (calculate_open_fees eurusd_fees (fmul 10000 1))"
  have cm: "for_gtrade_symbol (rq_symbol all_in_order) = Inr eurusd_fees"
    by (simp add: all_in_order_def demo_order_def for_gtrade_symbol_eurusd)
  have num: "0 < ?fee" "fadd 10000 ?fee \<noteq> 10000" "fsub 10000 (fadd 10000 ?fee) < 0"
    by code_simp+
  have sel: "rq_collateral all_in_order = 10000" "rq_leverage all_in_order = 1" "e_balance demo_engine = 10000"
    by (simp_all add: all_in_order_def demo_engine_def engine_init_def)
  have bal: "rq_collateral all_in_order = e_balance demo_engine" "is_float (e_balance demo_engine)"
    using rnd_of_int [of 10000] by (simp_all add: sel is_float_def)
  have "e_balance (fst (open_position all_in_order ''c1'' 2 None (demo_time 0) ''a1'' demo_engine)) =
      fsub 10000 (fadd 10000 ?fee)"
    using open_position_accepted(5) [OF eq_refl [OF bal(1)] cm] by (simp add: sel)
  then show ?thesis
    using open_position_can_overdraw [OF cm bal(1) _ _ bal(2), of "''c1''" 2 "demo_time 0" "''a1''"] num
    by (simp add: sel)
qed

section \<open>Risk monitoring\<close>

text \<open>
  C3. A sweep of \<open>check_stops_and_liquidation\<close> over a well-formed engine never raises, keeps
  the engine well-formed, closes successfully whatever it closes, and leaves no priced position
  behind that is under its maintenance margin or past its stop loss or take profit; the
  positions that remain are exactly those the sweep had no reason to close, at their new price.
\<close>

theorem risk_sweep_safe:
  assumes "engine_ok e"
  shows "\<exists>e' rs. check_stops_and_liquidation prices ratio now e = (e', Inr rs) \<and> engine_ok e' \<and>
    (\<forall>r \<in> set rs. or_success r) \<and>
    d_get (e_positions e') =
      (\<lambda>pid. Option.bind (d_get (e_positions e) pid) (risk_outcome prices ratio)) \<and>
    (\<forall>pid p px. d_get (e_positions e') pid = Some p \<longrightarrow> prices (p_symbol p) = Some px \<longrightarrow>
       maintenance_margin p ratio < equity p px \<and> \<not> sl_hit p px \<and> \<not> tp_hit p px \<and> p_current_price p = px)"
proof (rule risk_sweep [OF assms, of prices ratio now])
  fix e' rs
  assume s: "check_stops_and_liquidation prices ratio now e = (e', Inr rs)" "engine_ok e'"
    "\<forall>r \<in> set rs. or_success r"
    "d_get (e_positions e') = (\<lambda>pid. Option.bind (d_get (e_positions e) pid) (risk_outcome prices ratio))"
  have "maintenance_margin p ratio < equity p px \<and> \<not> sl_hit p px \<and> \<not> tp_hit p px \<and> p_current_price p = px"
    if "d_get (e_positions e') pid = Some p" "prices (p_symbol p) = Some px" for pid p px
  proof -
    from that(1) obtain p0 where "risk_outcome prices ratio p0 = Some p"
      by (auto simp: s(4) bind_eq_Some_conv)
    moreover from this have "p_symbol p = p_symbol p0"
      by (auto simp: risk_outcome_def split: option.splits if_splits)
    ultimately show ?thesis
      using that(2) by (auto simp: risk_outcome_def split: if_splits)
  qed
  with s show ?thesis by blast
qed

theorem risk_sweep_safe_witness:
  "engine_ok demo_open \<and>
   (\<exists>e' rs. check_stops_and_liquidation (\<lambda>_. Some (1 / 2)) (1 / 20) (demo_time 2000) demo_open = (e', Inr rs)
      \<and> d_get (e_positions e') ''paper_a1'' = None)"
proof -
  have "risk_outcome (\<lambda>_. Some (1 / 2)) (1 / 20) demo_position = None"
    by (simp add: risk_outcome_def sl_hit_def)
  then show ?thesis
    using risk_sweep_safe [OF demo_open_ok, of "\<lambda>_. Some (1 / 2)" "1 / 20" "demo_time 2000"] demo_open_ok
    by auto
qed

text \<open>
  The fills a sweep appends tell why: a position gets a fill exactly when it has a reason
  to close, and the reason recorded is liquidation first, then stop loss, then take profit. No
  identifier is filled twice, and what was open is either still open or filled.
\<close>

theorem risk_sweep_reasons:
  assumes "engine_ok e"
  shows "\<exists>e' rs fs. check_stops_and_liquidation prices ratio now e = (e', Inr rs) \<and>
    e_trade_history e' = e_trade_history e @ fs \<and>
    (\<forall>pid reason. (\<exists>f \<in> set fs. f_position_id f = pid \<and> f_close_reason f = reason) \<longleftrightarrow>
       (\<exists>p. d_get (e_positions e) pid = Some p \<and> close_reason_of prices ratio p = Some reason)) \<and>
    mset (d_keys (e_positions e')) + mset (map f_position_id fs) = mset (d_keys (e_positions e))"
  by (rule risk_sweep [OF assms, of prices ratio now]) blast

theorem risk_sweep_reasons_witness:
  "engine_ok demo_open \<and> close_reason_of (\<lambda>_. Some 4) 0 demo_position = Some CR_TAKE_PROFIT \<and>
   (\<exists>e' rs. check_stops_and_liquidation (\<lambda>_. Some 4) 0 (demo_time 2000) demo_open = (e', Inr rs) \<and>
      (\<exists>f \<in> set (e_trade_history e'). f_close_reason f = CR_TAKE_PROFIT))"
proof -
  have eq: "0 < equity demo_position 4" unfolding equity_def demo_position_simps by code_simp
  have r: "close_reason_of (\<lambda>_. Some 4) 0 demo_position = Some CR_TAKE_PROFIT"
    using eq by (simp add: close_reason_of_def sl_hit_def tp_hit_def maintenance_margin_def fmul_def)
  obtain e' rs fs where s: "check_stops_and_liquidation (\<lambda>_. Some 4) 0 (demo_time 2000) demo_open = (e', Inr rs)"
    "e_trade_history e' = e_trade_history demo_open @ fs"
    "\<exists>f \<in> set fs. f_position_id f = ''paper_a1'' \<and> f_close_reason f = CR_TAKE_PROFIT"
    using risk_sweep_reasons [OF demo_open_ok, of "\<lambda>_. Some 4" 0 "demo_time 2000"] r demo_position_get
    by blast
  then show ?thesis using demo_open_ok r by auto
qed

text \<open>
  C4. Conservation of positions over any run of the engine (openings with acceptable orders and
  fresh identifiers, closings, stop and target updates, risk sweeps, time-to-live sweeps, in
  any order): the number of successful openings is the number of open positions plus the number
  of fills, every identifier handed out is open or filled but never both nor twice, and the
  engine is well-formed, so any open position can still be closed.
\<close>

theorem engine_conservation:
  assumes "engine_run (engine_init bal slip tz hub) n e"
  shows "length (e_positions e) + length (e_trade_history e) = n \<and>
    distinct (d_keys (e_positions e) @ map f_position_id (e_trade_history e)) \<and>
    (\<forall>pid p coid px now reason. d_get (e_positions e) pid = Some p \<longrightarrow>
       (\<exists>e' r. close_position pid coid px None now reason e = (e', Inr r) \<and> or_success r))"
proof -
  have inv: "run_inv e n" using assms run_inv_init by (rule engine_run_inv)
  then have ok: "engine_ok e" and sz: "size (all_ids e) = n" by (simp_all add: run_inv_def)
  have "length (e_positions e) + length (e_trade_history e) = n"
    using sz by (simp add: all_ids_def)
  moreover have "\<exists>e' r. close_position pid coid px None now reason e = (e', Inr r) \<and> or_success r"
    if "d_get (e_positions e) pid = Some p" for pid p coid px now reason
    by (rule close_position_closable [OF that engine_ok_closable [OF ok that], of coid px None now reason]) blast
  ultimately show ?thesis using run_inv_distinct [OF inv] by blast
qed

lemma engine_conservation_run: "engine_run demo_engine 1 demo_open"
proof -
  have "or_success (snd (open_position demo_order ''c1'' 2 None (demo_time 1000) ''a1'' demo_engine))"
    by (rule open_position_accepted(1) [of _ _ eurusd_fees])
      (simp_all add: demo_order_def demo_engine_def engine_init_def for_gtrade_symbol_eurusd)
  moreover have "fresh_uid ''a1'' demo_engine" by (simp add: fresh_uid_def demo_engine_def engine_init_def)
  ultimately have "engine_step demo_engine 1 demo_open"
    using step_open [OF demo_order_ok, of "''a1''" "''c1''" None "demo_time 1000"]
    by (simp add: demo_open_def prod_eq_iff)
  then show ?thesis using run_step [OF run_nil] by fastforce
qed

theorem engine_conservation_witness:
  "engine_run demo_engine 1 demo_open \<and> length (e_positions demo_open) + length (e_trade_history demo_open) = 1"
  using engine_conservation [of 10000 5 utc None 1 demo_open] engine_conservation_run
  by (simp add: demo_engine_def)

text \<open>
  The time-to-live sweep never raises on a well-formed engine, and afterwards an open
  position with an opening time is younger than the limit; positions under the limit stay
  untouched and every fill it appends carries the reason TTL.
\<close>

theorem ttl_sweep_correct:
  assumes "engine_ok e"
  shows "\<exists>e' rs fs. check_ttl ttl now e = (e', Inr rs) \<and> engine_ok e' \<and>
    e_trade_history e' = e_trade_history e @ fs \<and> (\<forall>f \<in> set fs. f_close_reason f = CR_TTL) \<and>
    (\<forall>pid p. d_get (e_positions e') pid = Some p \<longleftrightarrow> d_get (e_positions e) pid = Some p \<and>
       (\<forall>t. p_open_time p = Some t \<longrightarrow> age_s (e_tz e) now t < ttl))"
proof (rule ttl_sweep [OF assms, of ttl now])
  fix e' rs fs
  assume s: "check_ttl ttl now e = (e', Inr rs)" "engine_ok e'" "e_trade_history e' = e_trade_history e @ fs"
    "\<forall>f \<in> set fs. f_close_reason f = CR_TTL"
    "d_get (e_positions e') = (\<lambda>pid. Option.bind (d_get (e_positions e) pid)
       (\<lambda>p. case p_open_time p of None \<Rightarrow> Some p
          | Some t \<Rightarrow> if ttl \<le> age_s (e_tz e) now t then None else Some p))"
  have "d_get (e_positions e') pid = Some p \<longleftrightarrow> d_get (e_positions e) pid = Some p \<and>
      (\<forall>t. p_open_time p = Some t \<longrightarrow> age_s (e_tz e) now t < ttl)" for pid p
    by (auto simp: s(5) bind_eq_Some_conv split: option.splits if_splits)
  with s show ?thesis by blast
qed

theorem ttl_sweep_correct_witness:
  "engine_ok demo_open \<and> (\<exists>e' rs. check_ttl 3600 (demo_time 4600) demo_open = (e', Inr rs) \<and>
     d_get (e_positions e') ''paper_a1'' = None)"
proof -
  have "age_s (e_tz demo_open) (demo_time 4600) (demo_time 1000) = rnd (of_int 3600)"
    by (simp add: age_s_def demo_time_def total_seconds_def)
  also have "\<dots> = 3600" by (rule trans [OF rnd_of_int]) simp_all
  finally have "\<not> age_s (e_tz demo_open) (demo_time 4600) (demo_time 1000) < 3600" by simp
  then show ?thesis
    using ttl_sweep_correct [OF demo_open_ok, of 3600 "demo_time 4600"] demo_open_ok
    by (metis demo_position_get demo_position_simps(8) not_None_eq option.inject)
qed

section \<open>Broadcasts and history\<close>

text \<open>
  The \<open>positions\<close> channel never hears of a position that is open: the message reads the
  attribute \<open>unrealized_pnl_percent\<close>, which a position does not have, the exception is
  swallowed, and the event log stays as it was. Stop loss and take profit updates are therefore
  silent, and an opening announces only the execution and the balance.
\<close>

theorem open_position_event_lost:
  assumes "d_get (e_positions e) pid = Some p"
  shows "broadcast_position_event pid action e = e \<and>
    e_hub (fst (update_sl pid sl e)) = e_hub e \<and> e_hub (fst (update_tp pid tp e)) = e_hub e"
proof -
  have "broadcast_position_event pid a e' = e'" if "d_get (e_positions e') pid = Some q" for a e' q
    using position_message_open [OF that] by (simp add: broadcast_position_event_def split: option.splits)
  then show ?thesis using assms by (simp add: update_sl_def update_tp_def)
qed

theorem open_position_event_lost_witness:
  "e_hub (fst (update_sl ''paper_a1'' (Some 2) (demo_open\<lparr>e_hub := Some []\<rparr>))) = Some []"
  using open_position_event_lost [of "demo_open\<lparr>e_hub := Some []\<rparr>" "''paper_a1''" demo_position]
  by simp

lemma sort_desc_props:
  "mset (sort_desc f xs) = mset xs" "sorted_wrt (\<ge>) (map f (sort_desc f xs))"
proof -
  show "mset (sort_desc f xs) = mset xs" by (simp add: sort_desc_def)
  have "sorted_wrt (\<le>) (map f (sort_key f (rev xs)))" by simp
  then show "sorted_wrt (\<ge>) (map f (sort_desc f xs))"
    unfolding sort_desc_def rev_map [symmetric] sorted_wrt_rev by (simp add: sorted_wrt_mono_rel)
qed

text \<open>
  The trade history query with a non-negative limit returns at most that many fills,
  newest first, all of them recorded fills that match the symbol and time filters; and with a
  limit no smaller than the history it returns every matching fill, as often as it is recorded.
\<close>

theorem get_trade_history_correct:
  fixes symbol :: "string option" and since until :: "datetime option" and limit :: int and e :: engine
  assumes "0 \<le> limit"
  defines "matches \<equiv> (\<lambda>t. (\<forall>s. symbol = Some s \<and> s \<noteq> [] \<longrightarrow> f_symbol t = s) \<and>
      (\<forall>d. since = Some d \<longrightarrow> dt_le d (f_timestamp t)) \<and> (\<forall>d. until = Some d \<longrightarrow> dt_le (f_timestamp t) d))"
  shows "length (get_trade_history symbol since until limit e) \<le> nat limit \<and>
    sorted_wrt (\<ge>) (map (\<lambda>t. dt_epoch (f_timestamp t)) (get_trade_history symbol since until limit e)) \<and>
    set (get_trade_history symbol since until limit e) \<subseteq> {t \<in> set (e_trade_history e). matches t} \<and>
    (int (length (e_trade_history e)) \<le> limit \<longrightarrow>
       mset (get_trade_history symbol since until limit e) = mset (filter matches (e_trade_history e)))"
proof -
  let ?srt = "sort_desc (\<lambda>t. dt_epoch (f_timestamp t)) (filter matches (e_trade_history e))"
  have h: "get_trade_history symbol since until limit e = take (nat limit) ?srt"
    using assms(1)
    by (cases symbol; cases since; cases until)
       (simp_all add: get_trade_history_def py_take_def matches_def Let_def conj_ac split: if_splits)
  have m: "mset ?srt = mset (filter matches (e_trade_history e))" by (rule sort_desc_props)
  then have set: "set ?srt = set (filter matches (e_trade_history e))" by (rule mset_eq_setD)
  have len: "length ?srt \<le> length (e_trade_history e)"
    using mset_eq_length [OF m] by simp
  show ?thesis
  proof (intro conjI impI)
    show "sorted_wrt (\<ge>) (map (\<lambda>t. dt_epoch (f_timestamp t)) (get_trade_history symbol since until limit e))"
      unfolding h take_map [symmetric] by (intro sorted_wrt_take sort_desc_props)
    show "set (get_trade_history symbol since until limit e) \<subseteq> {t \<in> set (e_trade_history e). matches t}"
      unfolding h using set set_take_subset [of "nat limit" ?srt] by auto
    show "mset (get_trade_history symbol since until limit e) = mset (filter matches (e_trade_history e))"
      if "int (length (e_trade_history e)) \<le> limit"
    proof -
      have "length ?srt \<le> nat limit" using that len by linarith
      then show ?thesis unfolding h by (simp only: take_all m)
    qed
  qed (simp add: h)
qed

theorem get_trade_history_correct_witness:
  "length (get_trade_history (Some ''EURUSD'') None None 500 demo_open) \<le> 500"
  using get_trade_history_correct [of 500 "Some ''EURUSD''" None None demo_open] by simp

end
