(* ===== verification/VenueContract.thy ===== *)
theory VenueContract
  imports Orders_Model
begin

text \<open>
  What the trading core relies on in a venue, \<open>domain/interfaces/venue_adapter.py\<close>: the operations
  as a record of functions on a venue state, and two contracts. The weak one speaks of the open
  positions only, and every venue keeps it; the strict one also says that a refused operation does
  nothing and that a close returns \<open>True\<close> only for a position that was open.
\<close>

record open_args =
  oa_symbol :: string
  oa_is_long :: bool
  oa_collateral :: pfloat
  oa_leverage :: pfloat
  oa_sl_price :: "pfloat option"
  oa_tp_price :: "pfloat option"
  oa_client_order_id :: "string option"

text \<open>The adapter object as the trading core sees it, over a state type of its own.\<close>

record 's adapter =
  ad_positions :: "'s \<Rightarrow> position list"
  ad_open :: "open_args \<Rightarrow> 's \<Rightarrow> 's \<times> order_result result"
  ad_close :: "string \<Rightarrow> 's \<Rightarrow> 's \<times> bool result"

section \<open>The open positions\<close>

text \<open>
  \<open>csym\<close> and \<open>canon\<close> are the venue's own forms of a symbol and of an identifier. A rejected opening
  leaves the open positions as they are; an accepted one adds one position with the requested
  symbol under a fresh identifier; a close that returns \<open>True\<close> leaves every position
  but the named one, and any other close leaves all. The order of the positions is free.
\<close>

locale venue_positions =
  fixes ad :: "'s adapter"
    and inv :: "'s \<Rightarrow> bool"
    and admissible :: "open_args \<Rightarrow> 's \<Rightarrow> bool"
    and csym :: "string \<Rightarrow> string"
    and canon :: "string \<Rightarrow> string"
  assumes rejected_keeps: "\<lbrakk>inv s; ad_open ad a s = (s', r); \<forall>res. r = Inr res \<longrightarrow> \<not> or_success res\<rbrakk> \<Longrightarrow>
      inv s' \<and> mset (ad_positions ad s') = mset (ad_positions ad s)"
    and accepted_adds: "\<lbrakk>inv s; admissible a s; ad_open ad a s = (s', Inr res); or_success res\<rbrakk> \<Longrightarrow>
      inv s' \<and> or_position_id res \<notin> set (map position_id (ad_positions ad s)) \<and>
      (\<exists>p. mset (ad_positions ad s') = add_mset p (mset (ad_positions ad s)) \<and> p_symbol p = csym (oa_symbol a) \<and>
           position_id p = or_position_id res)"
    and close_effect: "\<lbrakk>inv s; ad_close ad pid s = (s', b)\<rbrakk> \<Longrightarrow>
      inv s' \<and> mset (ad_positions ad s') =
        (if b = Inr True then filter_mset (\<lambda>p. position_id p \<noteq> canon pid) (mset (ad_positions ad s))
         else mset (ad_positions ad s))"
    and distinct_ids: "inv s \<Longrightarrow> distinct (map position_id (ad_positions ad s))"
begin

lemma distinct_map_mset: "mset xs = mset ys \<Longrightarrow> distinct (map f xs) \<longleftrightarrow> distinct (map f ys)"
  by (metis mset_eq_imp_distinct_iff mset_map)

text \<open>What a caller that guards on the open symbols keeps: no two positions share a symbol.\<close>

lemma open_distinct_symbols:
  assumes "inv s" "ad_open ad a s = (s', r)" "admissible a s"
    and "distinct (map (nm \<circ> p_symbol) (ad_positions ad s))"
    and "nm (csym (oa_symbol a)) \<notin> set (map (nm \<circ> p_symbol) (ad_positions ad s))"
  shows "inv s' \<and> distinct (map (nm \<circ> p_symbol) (ad_positions ad s'))"
proof (cases "\<exists>res. r = Inr res \<and> or_success res")
  case True
  then obtain res where "r = Inr res" "or_success res" by blast
  then obtain p where p: "inv s'" "mset (ad_positions ad s') = mset (p # ad_positions ad s)" "p_symbol p = csym (oa_symbol a)"
    using accepted_adds [OF assms(1,3)] assms(2) by fastforce
  then show ?thesis using assms(4,5) unfolding distinct_map_mset [OF p(2)] by simp
next
  case False
  then have "inv s'" "mset (ad_positions ad s') = mset (ad_positions ad s)"
    using rejected_keeps [OF assms(1,2)] by blast+
  with assms(4) distinct_map_mset show ?thesis by blast
qed

lemma close_distinct_symbols:
  assumes "inv s" "ad_close ad pid s = (s', r)"
    and "distinct (map (nm \<circ> p_symbol) (ad_positions ad s))"
  shows "inv s' \<and> distinct (map (nm \<circ> p_symbol) (ad_positions ad s'))"
proof -
  note c = close_effect [OF assms(1,2)]
  have f: "mset (ad_positions ad s') = mset (filter (\<lambda>p. r = Inr True \<longrightarrow> position_id p \<noteq> canon pid) (ad_positions ad s))"
    using c by (cases "r = Inr True") simp_all
  show ?thesis
    unfolding distinct_map_mset [OF f] using c distinct_map_filter [OF assms(3)] by blast
qed

text \<open>The position a successful close names is not open afterwards.\<close>

lemma closed_gone:
  assumes "inv s" "ad_close ad pid s = (s', Inr True)"
  shows "canon pid \<notin> set (map position_id (ad_positions ad s'))"
proof -
  have "set_mset (mset (ad_positions ad s')) = {p \<in> set (ad_positions ad s). position_id p \<noteq> canon pid}"
    using close_effect [OF assms] by simp
  then show ?thesis by auto
qed

end

section \<open>Refused operations do nothing\<close>

text \<open>
  \<open>canon\<close> is the identifier under which the venue itself knows a position that a client names.
\<close>

locale venue_contract =
  fixes ad :: "'s adapter"
    and inv :: "'s \<Rightarrow> bool"
    and admissible :: "open_args \<Rightarrow> 's \<Rightarrow> bool"
    and canon :: "string \<Rightarrow> string"
  assumes open_rejected: "\<lbrakk>inv s; ad_open ad a s = (s', r); \<forall>res. r = Inr res \<longrightarrow> \<not> or_success res\<rbrakk> \<Longrightarrow> s' = s"
    and open_accepted: "\<lbrakk>inv s; admissible a s; ad_open ad a s = (s', Inr res); or_success res\<rbrakk> \<Longrightarrow>
      inv s' \<and> or_position_id res \<notin> set (map position_id (ad_positions ad s)) \<and>
      (\<exists>p. ad_positions ad s' = ad_positions ad s @ [p] \<and> p_symbol p = oa_symbol a \<and>
           position_id p = or_position_id res)"
    and close_removes: "\<lbrakk>inv s; ad_close ad pid s = (s', Inr True)\<rbrakk> \<Longrightarrow>
      inv s' \<and> canon pid \<in> set (map position_id (ad_positions ad s)) \<and>
      ad_positions ad s' = filter (\<lambda>p. position_id p \<noteq> canon pid) (ad_positions ad s)"
    and close_refused: "\<lbrakk>inv s; ad_close ad pid s = (s', b); b \<noteq> Inr True\<rbrakk> \<Longrightarrow> s' = s"
    and ids_distinct: "inv s \<Longrightarrow> distinct (map position_id (ad_positions ad s))"
begin

text \<open>A close that succeeded does not succeed again before another opening.\<close>

lemma close_once:
  assumes "inv s" "ad_close ad pid s = (s', Inr True)"
  shows "ad_close ad pid s' = (s', r) \<Longrightarrow> r \<noteq> Inr True"
    and "snd (ad_close ad pid s') \<noteq> Inr True"
proof -
  note c = close_removes [OF assms]
  have gone: "canon pid \<notin> set (map position_id (ad_positions ad s'))"
    using c by auto
  have "snd (ad_close ad pid s') \<noteq> Inr True"
  proof
    assume "snd (ad_close ad pid s') = Inr True"
    then have "ad_close ad pid s' = (fst (ad_close ad pid s'), Inr True)" by (simp add: prod_eq_iff)
    from close_removes [OF _ this] c gone show False by simp
  qed
  then show "snd (ad_close ad pid s') \<noteq> Inr True"
    and "ad_close ad pid s' = (s', r) \<Longrightarrow> r \<noteq> Inr True" by auto
qed

lemma close_length:
  assumes "inv s" "ad_close ad pid s = (s', r)"
  shows "length (ad_positions ad s) = length (ad_positions ad s') + (if r = Inr True then 1 else 0)"
proof (cases "r = Inr True")
  case True
  note c = close_removes [OF assms(1) assms(2) [unfolded True]]
  let ?l = "map position_id (ad_positions ad s)"
  have d: "distinct ?l" by (rule ids_distinct [OF assms(1)])
  have "map position_id (ad_positions ad s') = remove1 (canon pid) ?l"
    unfolding c [THEN conjunct2, THEN conjunct2] distinct_remove1_removeAll [OF d] removeAll_filter_not_eq
    by (simp add: filter_map o_def eq_commute)
  then have "length (ad_positions ad s') = length (remove1 (canon pid) ?l)"
    by (metis length_map)
  moreover have mem: "canon pid \<in> set ?l" using c by blast
  moreover have "0 < length ?l" using mem by (metis length_pos_if_in_set)
  ultimately show ?thesis using True by (simp add: length_remove1)
next
  case False
  then show ?thesis using close_refused [OF assms False] by simp
qed

end

text \<open>The strict contract gives the weak one.\<close>

sublocale venue_contract \<subseteq> venue_positions ad inv admissible "\<lambda>symbol. symbol" canon
proof
  fix s a s' r assume a: "inv s" "ad_open ad a s = (s', r)" "\<forall>res. r = Inr res \<longrightarrow> \<not> or_success res"
  then show "inv s' \<and> mset (ad_positions ad s') = mset (ad_positions ad s)"
    using open_rejected [OF a] by simp
next
  fix s a s' res assume "inv s" "admissible a s" "ad_open ad a s = (s', Inr res)" "or_success res"
  from open_accepted [OF this] show "inv s' \<and> or_position_id res \<notin> set (map position_id (ad_positions ad s)) \<and>
      (\<exists>p. mset (ad_positions ad s') = add_mset p (mset (ad_positions ad s)) \<and> p_symbol p = oa_symbol a \<and>
           position_id p = or_position_id res)" by auto
next
  fix s pid s' r assume a: "inv s" "ad_close ad pid s = (s', r)"
  show "inv s' \<and> mset (ad_positions ad s') =
        (if r = Inr True then filter_mset (\<lambda>p. position_id p \<noteq> canon pid) (mset (ad_positions ad s))
         else mset (ad_positions ad s))"
  proof (cases "r = Inr True")
    case True
    with close_removes a show ?thesis by simp
  next
    case False
    with close_refused [OF a] a(1) show ?thesis by simp
  qed
qed (rule ids_distinct)

end
