(* ===== verification/PaperVenue.thy ===== *)
theory PaperVenue
  imports PaperEngine_Inv VenueContract
begin

text \<open>
  The paper venue: \<open>infrastructure/venues/paper/paper_venue_adapter.py\<close> and the risk loop
  \<open>infrastructure/execution/paper_risk_engine.py\<close>.
\<close>

section \<open>Risk loop\<close>

text \<open>
  The price source is outside: for a symbol it gives a price record, nothing (\<open>None\<close>) or an
  exception, as \<open>get_price\<close> may.
\<close>

type_synonym price_source = "string \<Rightarrow> price_data option result"

record risk_engine =
  k_symbols :: "string list"
  k_running :: bool
  k_task :: bool
  k_ratio :: pfloat
  k_ttl :: "pfloat option"

definition explicit_ttl :: "pfloat option \<Rightarrow> pfloat option \<Rightarrow> pfloat option" where
  "explicit_ttl ttl_arg env_ttl = (case ttl_arg of
     Some t \<Rightarrow> if t > 0 then Some t else None
   | None \<Rightarrow> env_ttl)"

definition risk_init :: "string list \<Rightarrow> pfloat \<Rightarrow> pfloat option \<Rightarrow> pfloat option \<Rightarrow> risk_engine" where
  "risk_init syms ratio ttl_arg env_ttl = \<lparr>k_symbols = syms, k_running = False, k_task = False,
     k_ratio = ratio, k_ttl = explicit_ttl ttl_arg env_ttl\<rparr>"

definition risk_start :: "risk_engine \<Rightarrow> risk_engine" where
  "risk_start k = (if k_running k then k else k\<lparr>k_running := True, k_task := True\<rparr>)"

definition risk_stop :: "risk_engine \<Rightarrow> risk_engine" where
  "risk_stop k = k\<lparr>k_running := False, k_task := False\<rparr>"

definition price_mid :: "price_source \<Rightarrow> string \<Rightarrow> pfloat result" where
  "price_mid src sy = (case src sy of
     Inl err \<Rightarrow> Inl err
   | Inr None \<Rightarrow> Inr 0
   | Inr (Some px) \<Rightarrow> Inr (px_mid px))"

fun gather_prices :: "price_source \<Rightarrow> string list \<Rightarrow> (string, pfloat) dict \<Rightarrow> (string, pfloat) dict" where
  "gather_prices src [] prices = prices"
| "gather_prices src (sy # syms) prices =
     gather_prices src syms (case price_mid src sy of
        Inl _ \<Rightarrow> prices
      | Inr px \<Rightarrow> if px > 0 then d_set sy px prices else prices)"

text \<open>
  One turn of \<open>_run_loop\<close>: an exception of the sweep is caught by the loop, which then skips
  the time-to-live check of this turn.
\<close>

definition risk_turn :: "risk_engine \<Rightarrow> price_source \<Rightarrow> datetime \<Rightarrow> engine \<Rightarrow> engine" where
  "risk_turn k src now e =
     (let prices = gather_prices src (k_symbols k) [];
          (e1, r) = (if prices \<noteq> [] then check_stops_and_liquidation (d_get prices) (k_ratio k) now e
                     else (e, Inr []))
      in case r of
           Inl _ \<Rightarrow> e1
         | Inr _ \<Rightarrow> (case k_ttl k of None \<Rightarrow> e1 | Some t \<Rightarrow> fst (check_ttl t now e1)))"

fun run_risk_loop :: "risk_engine \<Rightarrow> (bool \<times> price_source \<times> datetime) list \<Rightarrow> engine \<Rightarrow> engine" where
  "run_risk_loop k [] e = e"
| "run_risk_loop k ((running, src, now) # turns) e =
     (if running then run_risk_loop k turns (risk_turn k src now e) else e)"

section \<open>The adapter\<close>

record trading_pair =
  tp_pair_id :: int
  tp_symbol :: string
  tp_base :: string
  tp_quote :: string
  tp_min_leverage :: pfloat
  tp_max_leverage :: "pfloat option"
  tp_maker_fee :: pfloat
  tp_taker_fee :: pfloat
  tp_market_open :: bool

definition get_pairs :: "string list \<Rightarrow> trading_pair list" where
  "get_pairs syms = map (\<lambda>(i, s). \<lparr>tp_pair_id = int i, tp_symbol = s, tp_base = s, tp_quote = ''USDC'',
     tp_min_leverage = 1, tp_max_leverage = Some 50, tp_maker_fee = 0, tp_taker_fee = 0,
     tp_market_open = True\<rparr>) (enumerate 0 syms)"

definition internal_id :: "string \<Rightarrow> string" where
  "internal_id pid = (if py_startswith pid ''paper:'' then drop 6 pid else pid)"

definition open_request :: "open_args \<Rightarrow> order_request" where
  "open_request a = \<lparr>rq_symbol = oa_symbol a, rq_side = (if oa_is_long a then BUY else SELL),
     rq_collateral = oa_collateral a, rq_leverage = oa_leverage a, rq_order_type = MARKET,
     rq_sl_price = oa_sl_price a, rq_tp_price = oa_tp_price a, rq_limit_price = None,
     rq_stop_price = None\<rparr>"

text \<open>
  Waiting for the price lets other coroutines run: \<open>env\<close> is what they do to the engine in the
  meantime. \<open>auto_coid\<close> is the generated client order id (it prints the clock).
\<close>

definition venue_open ::
  "price_source \<Rightarrow> (engine \<Rightarrow> engine) \<Rightarrow> datetime \<Rightarrow> string \<Rightarrow> string \<Rightarrow> open_args \<Rightarrow> engine
     \<Rightarrow> engine \<times> order_result result" where
  "venue_open src env now uid auto_coid a e = (case src (oa_symbol a) of
     Inl err \<Rightarrow> (env e, Inl err)
   | Inr None \<Rightarrow> (env e, Inl (AttributeError ''mid''))
   | Inr (Some px) \<Rightarrow>
       if px_mid px \<le> 0 then (env e, Inr (order_failure [] (NoPrice (oa_symbol a)) now))
       else
         (let coid = (if py_truthy_str (oa_client_order_id a) then the (oa_client_order_id a) else auto_coid);
              (e1, res) = open_position (open_request a) coid (px_mid px) None now uid (env e)
          in (e1, Inr (if or_success res then res\<lparr>or_fees_breakdown := None\<rparr> else res))))"

definition venue_close ::
  "price_source \<Rightarrow> (engine \<Rightarrow> engine) \<Rightarrow> datetime \<Rightarrow> string \<Rightarrow> engine \<Rightarrow> engine \<times> bool result" where
  "venue_close src env now pid e =
     (let iid = internal_id pid in
      case get_position e iid of
        None \<Rightarrow> (e, Inr False)
      | Some pos \<Rightarrow> (case src (p_symbol pos) of
          Inl err \<Rightarrow> (env e, Inl err)
        | Inr None \<Rightarrow> (env e, Inl (AttributeError ''mid''))
        | Inr (Some px) \<Rightarrow>
            (let mid = (if px_mid px \<noteq> 0 then px_mid px else p_open_price pos) in
             case close_position iid (''close_'' @ iid) mid None now CR_MANUAL (env e) of
               (e1, Inl err) \<Rightarrow> (e1, Inl err)
             | (e1, Inr res) \<Rightarrow> (e1, Inr (or_success res)))))"

definition venue_update_sl :: "string \<Rightarrow> pfloat \<Rightarrow> engine \<Rightarrow> engine \<times> bool" where
  "venue_update_sl pid sl e = (case update_sl (internal_id pid) (Some sl) e of
     (e1, Inl _) \<Rightarrow> (e1, False) | (e1, Inr _) \<Rightarrow> (e1, True))"

definition venue_update_tp :: "string \<Rightarrow> pfloat \<Rightarrow> engine \<Rightarrow> engine \<times> bool" where
  "venue_update_tp pid tp e = (case update_tp (internal_id pid) (Some tp) e of
     (e1, Inl _) \<Rightarrow> (e1, False) | (e1, Inr _) \<Rightarrow> (e1, True))"

definition paper_adapter ::
  "price_source \<Rightarrow> (engine \<Rightarrow> engine) \<Rightarrow> datetime \<Rightarrow> string \<Rightarrow> string \<Rightarrow> engine adapter" where
  "paper_adapter src env now uid auto_coid = \<lparr>ad_positions = get_all_positions,
     ad_open = venue_open src env now uid auto_coid, ad_close = venue_close src env now\<rparr>"

lemma paper_adapter_simps [simp]:
  "ad_positions (paper_adapter src env now uid ac) = get_all_positions"
  "ad_open (paper_adapter src env now uid ac) = venue_open src env now uid ac"
  "ad_close (paper_adapter src env now uid ac) = venue_close src env now"
  by (simp_all add: paper_adapter_def)

end
