(* ===== verification/PaperVenue_Inv.thy ===== *)
theory PaperVenue_Inv
  imports PaperVenue
begin

text \<open>
  The invariant of the paper venue and its adapter as an instance of the venue contract
  (\<^theory_text>\<open>venue_contract\<close>).
\<close>

section \<open>The paper adapter keeps the contract\<close>

definition venue_inv :: "engine \<Rightarrow> bool" where
  [inv_defs]: "venue_inv e \<longleftrightarrow> engine_ok e \<and> [] \<notin> set (d_keys (e_positions e))"

text \<open>
  An opening is admissible when its identifier is fresh and the engine's arithmetic is in
  range: some collateral, a price that is not denormal, and slippage of at most half.
\<close>

definition venue_admissible :: "price_source \<Rightarrow> string \<Rightarrow> open_args \<Rightarrow> engine \<Rightarrow> bool" where
  "venue_admissible src uid a e \<longleftrightarrow> fresh_uid uid e \<and>
     (\<forall>px. src (oa_symbol a) = Inr (Some px) \<longrightarrow> px_mid px > 0 \<longrightarrow> order_ok (open_request a) (px_mid px) e)"

lemma map_position_id:
  assumes "venue_inv e"
  shows "map position_id (get_all_positions e) = d_keys (e_positions e)"
proof -
  have "position_id p = pid" if "(pid, p) \<in> set (e_positions e)" for pid p
  proof -
    have "pid \<in> set (d_keys (e_positions e))" using that by force
    then have "pid \<noteq> []" using assms by (metis venue_inv_def)
    moreover have "p_venue_position_id p = Some pid"
      using assms that by (auto simp: venue_inv_def engine_ok_def position_ok_def)
    ultimately show ?thesis by (simp add: position_id_def)
  qed
  then show ?thesis by (auto simp: get_all_positions_def o_def)
qed

lemma d_values_del:
  assumes "\<forall>(k, v) \<in> set d. f v = k"
  shows "d_values (d_del k d) = filter (\<lambda>v. f v \<noteq> k) (d_values d)"
  using assms by (induction d) auto

lemma internal_id_paper [simp]: "internal_id (''paper:'' @ pid) = pid"
  by (simp add: internal_id_def)

lemma internal_id_engine [simp]: "internal_id (paper_pid uid) = paper_pid uid"
  by (simp add: internal_id_def paper_pid_def)

lemma venue_open_rejected:
  assumes "venue_open src id now uid ac a e = (e', r)" "\<forall>res. r = Inr res \<longrightarrow> \<not> or_success res"
  shows "e' = e"
proof -
  have fail: "e'' = e" if "open_position (open_request a) coid px None now uid e = (e'', res)" "\<not> or_success res"
    for e'' res coid px
    by (rule open_position_cases [of "open_request a" coid px None now uid e]) (use that in auto)
  show ?thesis
    using assms
    by (auto simp: venue_open_def Let_def split: sum.splits option.splits if_splits prod.splits dest: fail)
qed

lemma venue_open_success:
  assumes "venue_open src env now uid ac a e = (e', Inr res)" "or_success res"
  obtains px coid res0 where "src (oa_symbol a) = Inr (Some px)" "0 < px_mid px"
    "open_position (open_request a) coid (px_mid px) None now uid (env e) = (e', res0)" "or_success res0"
    "or_position_id res = or_position_id res0" "or_executed_price res = or_executed_price res0"
proof -
  obtain px where px: "src (oa_symbol a) = Inr (Some px)" "0 < px_mid px"
    using assms by (auto simp: venue_open_def split: sum.splits option.splits if_splits)
  let ?coid = "if py_truthy_str (oa_client_order_id a) then the (oa_client_order_id a) else ac"
  obtain e1 res0 where o: "open_position (open_request a) ?coid (px_mid px) None now uid (env e) = (e1, res0)"
    by (cases "open_position (open_request a) ?coid (px_mid px) None now uid (env e)")
  have "e1 = e'" "or_success res0" "or_position_id res = or_position_id res0"
    "or_executed_price res = or_executed_price res0"
    using assms px o by (auto simp: venue_open_def Let_def split: if_splits)
  with px o that show ?thesis by blast
qed

lemma venue_open_accepted:
  assumes "venue_inv e" "venue_admissible src uid a e"
    and "venue_open src id now uid ac a e = (e', Inr res)" "or_success res"
  shows "venue_inv e' \<and> or_position_id res \<notin> set (map position_id (get_all_positions e)) \<and>
    (\<exists>p. get_all_positions e' = get_all_positions e @ [p] \<and> p_symbol p = oa_symbol a \<and>
         position_id p = or_position_id res)"
proof -
  obtain px coid res0 where o: "src (oa_symbol a) = Inr (Some px)" "0 < px_mid px"
    "open_position (open_request a) coid (px_mid px) None now uid e = (e', res0)" "or_success res0"
    "or_position_id res = or_position_id res0"
    by (rule venue_open_success [OF assms(3,4)]) simp
  have ok: "order_ok (open_request a) (px_mid px) e" and fresh: "fresh_uid uid e"
    using assms(2) o(1,2) by (auto simp: venue_admissible_def)
  have e': "e' = fst (open_position (open_request a) coid (px_mid px) None now uid e)"
    "res0 = snd (open_position (open_request a) coid (px_mid px) None now uid e)"
    using o(3) by simp_all
  obtain cm where cm: "rq_collateral (open_request a) \<le> e_balance e"
    "for_gtrade_symbol (rq_symbol (open_request a)) = Inr cm"
    by (rule open_position_cases [of "open_request a" coid "px_mid px" None now uid e])
       (use o(4) e'(2) in auto)
  note acc = open_position_accepted [OF cm, of coid "px_mid px" None now uid]
  have pid: "or_position_id res = paper_pid uid" using o(5) acc(2) e'(2) by simp
  have fr: "paper_pid uid \<notin> set (d_keys (e_positions e))" using fresh by (simp add: fresh_uid_def)
  let ?p = "new_position (open_request a) (paper_pid uid) (entry_price e (rq_side (open_request a)) (px_mid px))
    (fmul (rq_collateral (open_request a)) (rq_leverage (open_request a))) now"
  have pos: "e_positions e' = e_positions e @ [(paper_pid uid, ?p)]"
    using acc(4) d_set_fresh [OF fr] by (simp add: e'(1))
  have "engine_ok e'"
    unfolding e'(1) using assms(1) ok by (intro open_position_ok) (simp_all add: venue_inv_def)
  then have "venue_inv e'"
    using assms(1) by (simp add: venue_inv_def pos paper_pid_def)
  moreover have "p_symbol ?p = oa_symbol a" by (simp add: new_position_def open_request_def)
  moreover have "position_id ?p = paper_pid uid"
    by (simp add: new_position_def position_id_def paper_pid_def)
  moreover have "get_all_positions e' = get_all_positions e @ [?p]"
    by (simp add: get_all_positions_def pos)
  ultimately show ?thesis unfolding map_position_id [OF assms(1)] pid using fr by blast
qed

lemma venue_close_refused:
  assumes "venue_inv e" "venue_close src id now pid e = (e', r)" "r \<noteq> Inr True"
  shows "e' = e"
proof (cases "get_position e (internal_id pid)")
  case (Some pos)
  have cl: "closable pos"
    using assms(1) Some engine_ok_closable by (auto simp: venue_inv_def get_position_def)
  show ?thesis
  proof (cases "src (p_symbol pos)")
    case (Inr opx)
    show ?thesis
    proof (cases opx)
      case px: (Some px)
      have g: "d_get (e_positions e) (internal_id pid) = Some pos" using Some by (simp add: get_position_def)
      show ?thesis
        by (rule close_position_closable [OF g cl, of "''close_'' @ internal_id pid"
              "if px_mid px \<noteq> 0 then px_mid px else p_open_price pos" None now CR_MANUAL])
           (use assms(2,3) Some Inr px in \<open>simp add: venue_close_def Let_def\<close>)
    qed (use assms Some Inr in \<open>simp add: venue_close_def Let_def\<close>)
  qed (use assms Some in \<open>simp add: venue_close_def Let_def\<close>)
qed (use assms in \<open>simp add: venue_close_def Let_def\<close>)

lemma venue_close_success:
  assumes "venue_close src env now pid e = (e', Inr True)"
  obtains pos mid res where "get_position e (internal_id pid) = Some pos"
    "close_position (internal_id pid) (''close_'' @ internal_id pid) mid None now CR_MANUAL (env e) = (e', Inr res)"
    "or_success res"
  using assms
  by (auto simp: venue_close_def Let_def split: option.splits sum.splits prod.splits if_splits)

lemma close_position_success_removes:
  assumes "engine_ok e" "close_position pid coid px ts now reason e = (e', Inr res)" "or_success res"
  shows "\<exists>p. d_get (e_positions e) pid = Some p \<and> e_positions e' = d_del pid (e_positions e) \<and>
    e_trade_history e' = e_trade_history e @ [close_fill p pid coid (exit_price e p px) (exit_fee_of p)
       (case ts of None \<Rightarrow> now | Some t \<Rightarrow> t) reason]"
proof (cases "d_get (e_positions e) pid")
  case None
  with assms show ?thesis by (auto simp: close_position_unknown)
next
  case (Some p)
  show ?thesis
    by (rule close_position_closable [OF Some engine_ok_closable [OF assms(1) Some], of coid px ts now reason])
       (use assms Some in auto)
qed

lemma venue_close_removes:
  assumes "venue_inv e" "venue_close src id now pid e = (e', Inr True)"
  shows "venue_inv e' \<and> internal_id pid \<in> set (map position_id (get_all_positions e)) \<and>
    get_all_positions e' = filter (\<lambda>p. position_id p \<noteq> internal_id pid) (get_all_positions e)"
proof -
  have ok: "engine_ok e" using assms(1) by (simp add: venue_inv_def)
  obtain pos mid res where c: "get_position e (internal_id pid) = Some pos"
    "close_position (internal_id pid) (''close_'' @ internal_id pid) mid None now CR_MANUAL e = (e', Inr res)"
    "or_success res"
    using venue_close_success [OF assms(2)] by auto
  then have pos: "e_positions e' = d_del (internal_id pid) (e_positions e)"
    using close_position_success_removes [OF ok c(2,3)] by blast
  have "engine_ok e'" by (rule engine_ok_del [OF ok pos])
  then have "venue_inv e'"
    using assms(1) unfolding venue_inv_def pos delete_keys by simp
  moreover have "\<forall>(k, v) \<in> set (e_positions e). position_id v = k"
    using map_position_id [OF assms(1)] by (auto simp: get_all_positions_def)
  then have "get_all_positions e' = filter (\<lambda>p. position_id p \<noteq> internal_id pid) (get_all_positions e)"
    unfolding get_all_positions_def pos by (rule d_values_del)
  moreover have "internal_id pid \<in> set (d_keys (e_positions e))"
    using c(1) unfolding d_keys_iff get_position_def by simp
  ultimately show ?thesis by (simp add: map_position_id [OF assms(1)])
qed

interpretation paper: venue_contract "paper_adapter src id now uid ac" venue_inv "venue_admissible src uid" internal_id
  for src now uid ac
proof unfold_locales
  show "distinct (map position_id (ad_positions (paper_adapter src id now uid ac) e))" if "venue_inv e" for e
    using map_position_id [OF that] that by (simp add: venue_inv_def engine_ok_def dict_wf_def)
qed (unfold paper_adapter_simps; blast intro: venue_open_rejected
  dest: venue_open_accepted venue_close_removes venue_close_refused)+

end
