(* ===== verification/PaperVenue_Props.thy ===== *)
theory PaperVenue_Props
  imports PaperVenue_Inv PaperEngine_Props
begin

text \<open>Properties of the paper venue: the risk loop and the interleaving of closes.\<close>

section \<open>The risk loop\<close>

lemma gather_prices_get:
  "d_get (gather_prices src syms prices) s =
     (if s \<in> set syms \<and> (\<exists>px. price_mid src s = Inr px \<and> 0 < px)
      then Some (projr (price_mid src s)) else d_get prices s)"
  by (induction src syms prices rule: gather_prices.induct) (auto split: sum.splits)

lemma gather_prices_empty: "d_get (gather_prices src syms []) s = Some px \<longleftrightarrow>
    s \<in> set syms \<and> price_mid src s = Inr px \<and> 0 < px"
  by (auto simp: gather_prices_get)

lemma ttl_sweep_get:
  assumes "engine_ok e"
  shows "engine_ok (fst (check_ttl ttl now e)) \<and> e_tz (fst (check_ttl ttl now e)) = e_tz e \<and>
    d_get (e_positions (fst (check_ttl ttl now e))) =
      (\<lambda>pid. Option.bind (d_get (e_positions e) pid)
         (\<lambda>p. case p_open_time p of None \<Rightarrow> Some p
            | Some t \<Rightarrow> if ttl \<le> age_s (e_tz e) now t then None else Some p))"
  by (rule ttl_sweep [OF assms, of ttl now]) simp

lemma risk_sweep_get:
  assumes "engine_ok e"
  shows "\<exists>e' rs. check_stops_and_liquidation prices ratio now e = (e', Inr rs) \<and> engine_ok e' \<and> e_tz e' = e_tz e \<and>
    d_get (e_positions e') = (\<lambda>pid. Option.bind (d_get (e_positions e) pid) (risk_outcome prices ratio))"
  by (rule risk_sweep [OF assms, of prices ratio now]) blast

definition turn_outcome :: "risk_engine \<Rightarrow> price_source \<Rightarrow> datetime \<Rightarrow> tzinfo \<Rightarrow> position \<Rightarrow> position option" where
  "turn_outcome k src now tz = (\<lambda>p.
     Option.bind (risk_outcome (d_get (gather_prices src (k_symbols k) [])) (k_ratio k) p)
       (\<lambda>q. case k_ttl k of
          None \<Rightarrow> Some q
        | Some ttl \<Rightarrow> (case p_open_time q of
            None \<Rightarrow> Some q
          | Some t \<Rightarrow> if ttl \<le> age_s tz now t then None else Some q)))"

lemma risk_outcome_no_prices [simp]: "risk_outcome (\<lambda>_. None) ratio = Some"
  by (rule ext) (simp add: risk_outcome_def)

lemma risk_turn_get:
  assumes "engine_ok e"
  shows "engine_ok (risk_turn k src now e) \<and> e_tz (risk_turn k src now e) = e_tz e \<and>
    d_get (e_positions (risk_turn k src now e)) =
      (\<lambda>pid. Option.bind (d_get (e_positions e) pid) (turn_outcome k src now (e_tz e)))"
proof -
  let ?ps = "gather_prices src (k_symbols k) []"
  obtain e1 rs where e1: "(if ?ps \<noteq> [] then check_stops_and_liquidation (d_get ?ps) (k_ratio k) now e else (e, Inr [])) = (e1, Inr rs)"
    "engine_ok e1" "e_tz e1 = e_tz e"
    "d_get (e_positions e1) = (\<lambda>pid. Option.bind (d_get (e_positions e) pid) (risk_outcome (d_get ?ps) (k_ratio k)))"
  proof (cases "?ps = []")
    case True
    then show ?thesis by (intro that [of e "[]"]) (simp_all add: assms)
  next
    case False
    then show ?thesis using risk_sweep_get [OF assms, of "d_get ?ps" "k_ratio k" now] that by auto
  qed
  have turn: "risk_turn k src now e = (case k_ttl k of None \<Rightarrow> e1 | Some t \<Rightarrow> fst (check_ttl t now e1))"
    by (simp add: risk_turn_def Let_def e1(1))
  show ?thesis
    using ttl_sweep_get [OF e1(2), of _ now, unfolded e1(3)] e1(2-4)
    by (cases "k_ttl k") (simp_all add: turn turn_outcome_def Option.bind_assoc)
qed

lemma turn_outcome_Some:
  assumes "turn_outcome k src now tz p0 = Some p"
  shows "risk_outcome (d_get (gather_prices src (k_symbols k) [])) (k_ratio k) p0 = Some p"
    and "k_ttl k = Some ttl \<Longrightarrow> p_open_time p = Some t \<Longrightarrow> age_s tz now t < ttl"
proof -
  obtain q where q: "risk_outcome (d_get (gather_prices src (k_symbols k) [])) (k_ratio k) p0 = Some q"
    using assms by (cases "risk_outcome (d_get (gather_prices src (k_symbols k) [])) (k_ratio k) p0")
      (simp_all add: turn_outcome_def)
  then have "q = p"
    using assms by (simp add: turn_outcome_def split: option.splits if_splits)
  with q show "risk_outcome (d_get (gather_prices src (k_symbols k) [])) (k_ratio k) p0 = Some p" by simp
  show "age_s tz now t < ttl" if "k_ttl k = Some ttl" "p_open_time p = Some t"
    using assms that q \<open>q = p\<close> by (simp add: turn_outcome_def split: if_splits)
qed

text \<open>
  C7. One turn of the risk loop on a well-formed engine keeps it well-formed; afterwards no
  open position whose symbol is monitored and priced above zero is under its maintenance margin
  or past its stop or target, no position is older than the time-to-live, and nothing new is
  open. The loop keeps this over any number of turns.
\<close>

theorem risk_turn_correct:
  fixes e :: engine and k :: risk_engine and src :: price_source and now :: datetime
  assumes "engine_ok e"
  defines "e' \<equiv> risk_turn k src now e"
  shows "engine_ok e' \<and>
    (\<forall>pid p. d_get (e_positions e') pid = Some p \<longrightarrow>
       (\<exists>p0. d_get (e_positions e) pid = Some p0 \<and> p_symbol p = p_symbol p0) \<and>
       (\<forall>px. p_symbol p \<in> set (k_symbols k) \<longrightarrow> price_mid src (p_symbol p) = Inr px \<longrightarrow> 0 < px \<longrightarrow>
          maintenance_margin p (k_ratio k) < equity p px \<and> \<not> sl_hit p px \<and> \<not> tp_hit p px) \<and>
       (\<forall>ttl t. k_ttl k = Some ttl \<longrightarrow> p_open_time p = Some t \<longrightarrow> age_s (e_tz e) now t < ttl)) \<and>
    engine_ok (run_risk_loop k turns e)"
proof -
  note t = risk_turn_get [OF assms(1), of k src now]
  have loop: "engine_ok e \<Longrightarrow> engine_ok (run_risk_loop k turns e)" for e
    by (induction k turns e rule: run_risk_loop.induct) (simp_all add: risk_turn_get)
  have "(\<exists>p0. d_get (e_positions e) pid = Some p0 \<and> p_symbol p = p_symbol p0) \<and>
       (\<forall>px. p_symbol p \<in> set (k_symbols k) \<longrightarrow> price_mid src (p_symbol p) = Inr px \<longrightarrow> 0 < px \<longrightarrow>
          maintenance_margin p (k_ratio k) < equity p px \<and> \<not> sl_hit p px \<and> \<not> tp_hit p px) \<and>
       (\<forall>ttl t. k_ttl k = Some ttl \<longrightarrow> p_open_time p = Some t \<longrightarrow> age_s (e_tz e) now t < ttl)"
    if open': "d_get (e_positions e') pid = Some p" for pid p
  proof -
    obtain p0 where p0: "d_get (e_positions e) pid = Some p0" "turn_outcome k src now (e_tz e) p0 = Some p"
      using open' t by (auto simp: e'_def bind_eq_Some_conv)
    then have q: "risk_outcome (d_get (gather_prices src (k_symbols k) [])) (k_ratio k) p0 = Some p"
      and ttl: "\<forall>ttl t. k_ttl k = Some ttl \<longrightarrow> p_open_time p = Some t \<longrightarrow> age_s (e_tz e) now t < ttl"
      using turn_outcome_Some [OF p0(2)] by blast+
    have sym: "p_symbol p = p_symbol p0"
      using q by (auto simp: risk_outcome_def gather_prices_empty split: option.splits if_splits)
    have "maintenance_margin p (k_ratio k) < equity p px \<and> \<not> sl_hit p px \<and> \<not> tp_hit p px"
      if "p_symbol p \<in> set (k_symbols k)" "price_mid src (p_symbol p) = Inr px" "0 < px" for px
    proof -
      have "d_get (gather_prices src (k_symbols k) []) (p_symbol p0) = Some px"
        using that by (simp add: gather_prices_empty sym)
      then show ?thesis using q by (auto simp: risk_outcome_def split: if_splits)
    qed
    with p0(1) sym ttl show ?thesis by blast
  qed
  with t loop [OF assms(1)] show ?thesis by (simp add: e'_def)
qed

definition flat_price :: "pfloat \<Rightarrow> price_source" where
  "flat_price x s = Inr (Some \<lparr>px_symbol = s, px_bid = x, px_ask = x, px_mid = x, px_ts = demo_time 0\<rparr>)"

lemma flat_price_simps [simp]:
  "price_mid (flat_price x) s = Inr x"
  "flat_price x s = Inr (Some px) \<Longrightarrow> px_mid px = x"
  by (auto simp: price_mid_def flat_price_def)

definition demo_risk :: risk_engine where
  "demo_risk = risk_init [''EURUSD''] (1 / 20) None None"

theorem risk_turn_correct_witness:
  "engine_ok demo_open \<and> d_get (e_positions (risk_turn demo_risk (flat_price (1 / 2)) (demo_time 2000) demo_open)) ''paper_a1'' = None"
proof -
  let ?e = "risk_turn demo_risk (flat_price (1 / 2)) (demo_time 2000) demo_open"
  have False if p: "d_get (e_positions ?e) ''paper_a1'' = Some p" for p
  proof -
    obtain p0 where p0: "d_get (e_positions demo_open) ''paper_a1'' = Some p0" "p_symbol p = p_symbol p0"
      using risk_turn_correct [OF demo_open_ok, of demo_risk "flat_price (1 / 2)" "demo_time 2000"] p by blast
    then have "p_symbol p \<in> set (k_symbols demo_risk)" by (simp add: demo_risk_def risk_init_def)
    then have ns: "\<not> sl_hit p (1 / 2)"
      using risk_turn_correct [OF demo_open_ok, of demo_risk "flat_price (1 / 2)" "demo_time 2000"] p
      by simp
    have "turn_outcome demo_risk (flat_price (1 / 2)) (demo_time 2000) (e_tz demo_open) p0 = Some p"
      using risk_turn_get [OF demo_open_ok, of demo_risk "flat_price (1 / 2)" "demo_time 2000"] p p0(1)
      by simp
    note q = turn_outcome_Some(1) [OF this]
    have "p = p0 \<lparr>p_current_price := 1 / 2\<rparr> \<or> p = p0"
      using q by (auto simp: risk_outcome_def gather_prices_empty split: option.splits if_splits)
    then have "sl_hit p (1 / 2)"
      using p0(1) by (auto simp: sl_hit_def)
    with ns show False ..
  qed
  then show ?thesis using demo_open_ok by fastforce
qed

section \<open>Closing while other things happen\<close>

lemma engine_run_trans: "engine_run b k c \<Longrightarrow> engine_run a n b \<Longrightarrow> engine_run a (n + k) c"
proof (induction arbitrary: n rule: engine_run.induct)
  case (run_step b k c j d)
  then show ?case using engine_run.run_step by (metis add.assoc)
qed simp

text \<open>
  C8. Closing through the venue while the engine runs on in the background (the risk loop, other
  orders: any engine run between reading the position and closing it): with prices available
  the call does not raise; it answers \<open>True\<close> exactly when it closed the position itself, and
  then the position has exactly one fill, whose reason is \<open>manual\<close>; when it answers \<open>False\<close>
  it changed nothing and the position is not open.
\<close>

theorem venue_close_interleaved:
  assumes "engine_run (engine_init bal slip tz hub) n e" "engine_run e k (env e)"
    and "\<forall>s. \<exists>px. src s = Inr (Some px)"
  shows "\<exists>e' ok. venue_close src env now pid e = (e', Inr ok) \<and>
    (if ok then filter (\<lambda>f. f_position_id f = internal_id pid) (e_trade_history e') =
                [last (e_trade_history e')] \<and>
              f_close_reason (last (e_trade_history e')) = CR_MANUAL \<and>
              d_get (e_positions (env e)) (internal_id pid) \<noteq> None \<and> d_get (e_positions e') (internal_id pid) = None
     else (e' = env e \<or> e' = e) \<and> d_get (e_positions e') (internal_id pid) = None)"
proof (cases "get_position e (internal_id pid)")
  case None
  then show ?thesis
    by (intro exI [of _ e] exI [of _ False]) (simp add: venue_close_def get_position_def)
next
  case (Some pos)
  obtain px where px: "src (p_symbol pos) = Inr (Some px)" using assms(3) by blast
  let ?mid = "if px_mid px \<noteq> 0 then px_mid px else p_open_price pos"
  let ?iid = "internal_id pid"
  let ?c = "close_position ?iid (''close_'' @ ?iid) ?mid None now CR_MANUAL (env e)"
  have run: "engine_run (engine_init bal slip tz hub) (n + k) (env e)"
    using engine_run_trans [OF assms(2,1)] .
  have inv: "run_inv (env e) (n + k)" by (rule engine_run_inv [OF run run_inv_init])
  then have ok: "engine_ok (env e)" by (simp add: run_inv_def)
  have vc: "venue_close src env now pid e = (case ?c of
      (e1, Inl err) \<Rightarrow> (e1, Inl err) | (e1, Inr res) \<Rightarrow> (e1, Inr (or_success res)))"
    by (simp add: venue_close_def Let_def Some px)
  show ?thesis
  proof (cases "d_get (e_positions (env e)) ?iid")
    case None
    then show ?thesis
      unfolding vc by (intro exI [of _ "env e"] exI [of _ False]) (simp add: close_position_unknown)
  next
    case p: (Some p)
    obtain e' r where c: "?c = (e', Inr r)" "or_success r" "e_positions e' = d_del ?iid (e_positions (env e))"
      "e_trade_history e' = e_trade_history (env e) @
         [close_fill p ?iid (''close_'' @ ?iid) (exit_price (env e) p ?mid) (exit_fee_of p) now CR_MANUAL]"
      by (rule close_position_closable [OF p engine_ok_closable [OF ok p],
            of "''close_'' @ ?iid" ?mid None now CR_MANUAL]) auto
    have "?iid \<in> set (d_keys (e_positions (env e)))" unfolding d_keys_iff using p by simp
    then have "?iid \<notin> set (map f_position_id (e_trade_history (env e)))"
      using run_inv_distinct [OF inv] by auto
    then have "filter (\<lambda>f. f_position_id f = ?iid) (e_trade_history (env e)) = []"
      by (metis (mono_tags, lifting) filter_empty_conv image_eqI set_map)
    moreover have "venue_close src env now pid e = (e', Inr True)"
      unfolding vc c(1) using c(2) by simp
    ultimately show ?thesis
      by (intro exI [of _ e'] exI [of _ True]) (simp add: c(3,4) p close_fill_def)
  qed
qed

theorem venue_close_interleaved_witness:
  "\<exists>e' ok. venue_close (flat_price 2) id (demo_time 3000) ''paper:paper_a1'' demo_open = (e', Inr ok) \<and>
     d_get (e_positions e') ''paper_a1'' = None"
proof -
  have run: "engine_run (engine_init 10000 5 utc None) 1 demo_open"
    using engine_conservation_run by (simp add: demo_engine_def)
  have iid: "internal_id ''paper:paper_a1'' = ''paper_a1''" by (simp add: internal_id_def)
  show ?thesis
    using venue_close_interleaved [OF run, of 0 id "flat_price 2" "demo_time 3000" "''paper:paper_a1''"]
    by (auto simp: iid run_nil flat_price_def split: if_splits)
qed

end
