(* ===== verification/Config.thy ===== *)
theory Config
  imports Prelude PyFloat
begin

text \<open>
  Reading settings from the environment: \<open>os.getenv\<close> as a partial map from names to texts,
  \<open>float(s)\<close> for decimal literals, comma separated symbol lists. Shared by the guards, the
  quality gate and the source policies.
\<close>

type_synonym environ = "string \<rightharpoonup> string"

definition getenv :: "environ \<Rightarrow> string \<Rightarrow> string \<Rightarrow> string" where
  "getenv env key dflt = (case env key of None \<Rightarrow> dflt | Some v \<Rightarrow> v)"

lemma getenv_simps [simp]:
  "env key = None \<Longrightarrow> getenv env key dflt = dflt"
  "env key = Some v \<Longrightarrow> getenv env key dflt = v"
  by (simp_all add: getenv_def)

section \<open>Decimal literals\<close>

text \<open>
  \<open>float(s)\<close> on a decimal literal with an optional sign, fraction and exponent; \<open>None\<close> is
  the \<open>ValueError\<close>. The literals for infinities and not-a-number, underscores inside the
  digits and results outside the exponent range have no value here.
\<close>

definition all_digits :: "string \<Rightarrow> bool" where
  "all_digits s \<longleftrightarrow> list_all is_digit s"

definition digits_value :: "string \<Rightarrow> nat" where
  "digits_value s = foldl (\<lambda>acc c. 10 * acc + (of_char c - 48)) 0 s"

definition unsigned_float :: "string \<Rightarrow> rat option" where
  "unsigned_float s =
     (let ip = takeWhile is_digit s;
          r = dropWhile is_digit s;
          (fp, r2, dot) = (case r of c # t \<Rightarrow>
             if c = CHR ''.'' then (takeWhile is_digit t, dropWhile is_digit t, True) else ([], r, False)
           | [] \<Rightarrow> ([], [], False))
      in if ip = [] \<and> fp = [] then None
         else
           (let m = of_nat (digits_value (ip @ fp)) / 10 ^ length fp in
            case r2 of
              [] \<Rightarrow> Some m
            | c # t \<Rightarrow>
                if c = CHR ''e'' \<or> c = CHR ''E''
                then map_option (\<lambda>k. m * 10 powi k) (py_int t)
                else None))"

definition py_float :: "string \<Rightarrow> pfloat option" where
  "py_float s = (case py_strip s of
     [] \<Rightarrow> None
   | c # r \<Rightarrow>
       if c = CHR ''-'' then map_option (\<lambda>x. rnd (- x)) (unsigned_float r)
       else if c = CHR ''+'' then map_option rnd (unsigned_float r)
       else map_option rnd (unsigned_float (c # r)))"

lemma py_float_is_float: "py_float s = Some x \<Longrightarrow> is_float x"
  by (auto simp: py_float_def split: list.splits if_splits)

definition max0 :: "pfloat \<Rightarrow> pfloat" where
  "max0 x = (if x > 0 then x else 0)"

lemma max0_nonneg [simp]: "0 \<le> max0 x"
  by (simp add: max0_def)

section \<open>Symbol lists\<close>

definition norm_symbol :: "string \<Rightarrow> string" where
  "norm_symbol s = py_upper (py_strip s)"

text \<open>\<open>[s.strip().upper() for s in raw.split(",") if s.strip()]\<close>\<close>

definition parse_symbols :: "string \<Rightarrow> string list" where
  "parse_symbols raw = map norm_symbol (filter (\<lambda>s. py_strip s \<noteq> []) (py_split CHR '','' raw))"

lemma is_space_code: "is_space c \<longleftrightarrow> (of_char c :: nat) \<in> {32} \<union> {9..13} \<union> {28..31}"
proof -
  have "c = CHR '' '' \<longleftrightarrow> (of_char c :: nat) = of_char (CHR '' '')" by (simp only: of_char_eq_iff)
  then show ?thesis by (auto simp: is_space_def)
qed

lemma upper_char_space [simp]: "is_space (upper_char c) = is_space c"
  by (auto simp: is_space_code upper_char_def Let_def)

lemma py_strip_upper: "py_strip (py_upper s) = py_upper (py_strip s)"
proof -
  have "dropWhile is_space (map upper_char t) = map upper_char (dropWhile is_space t)" for t
    by (induction t) auto
  then show ?thesis by (simp add: py_strip_def py_upper_def rev_map)
qed

lemma norm_symbol_idem [simp]: "norm_symbol (norm_symbol s) = norm_symbol s"
  by (simp add: norm_symbol_def py_strip_upper)

lemma parse_symbols_normal: "s \<in> set (parse_symbols raw) \<Longrightarrow> norm_symbol s = s \<and> s \<noteq> []"
  by (auto simp: parse_symbols_def norm_symbol_def py_strip_upper) (simp add: py_upper_def)

end
