(* ===== verification/Quality.thy ===== *)
theory Quality
  imports Config PyTime "HOL-Library.Char_ord" "HOL-Library.List_Lexorder"
begin

text \<open>
  Data quality: the structural report of a candle sequence
  (\<open>application/data/ohlcv_integrity.py\<close>), the fail-closed gate on response headers
  (\<open>quality_gate.py\<close>), the monthly gate (\<open>month_quality.py\<close>), and the source and
  symbol policies (\<open>data_source_policy.py\<close>, \<open>ostium_symbol_policy.py\<close>).
\<close>

section \<open>Structural report\<close>

text \<open>
  A row \<open>[ts, o, h, l, c, v]\<close> is its timestamp and its remaining cells; a cell is a number or
  something that \<open>float\<close> refuses.
\<close>

datatype cell = Num rat | NotNum

type_synonym ohlcv_row = "int \<times> cell list"

record integrity_report =
  ir_count :: int
  ir_duplicates :: int
  ir_gaps :: int
  ir_step_errors :: int
  ir_order_ok :: bool
  ir_ohlc_ok :: bool
  ir_max_gap :: int
  ir_valid :: bool

definition empty_report :: "int \<Rightarrow> integrity_report" where
  "empty_report n = \<lparr>ir_count = n, ir_duplicates = 0, ir_gaps = 0, ir_step_errors = 0, ir_order_ok = True,
     ir_ohlc_ok = True, ir_max_gap = 0, ir_valid = True\<rparr>"

fun cells_ok :: "cell list \<Rightarrow> bool" where
  "cells_ok (Num op # Num h # Num l # Num c # v # r) =
     (\<not> (l > min op c \<or> h < max op c \<or> l > h))"
| "cells_ok _ = False"

definition duplicate_check :: "int set \<Rightarrow> int \<Rightarrow> integrity_report \<Rightarrow> integrity_report" where
  "duplicate_check seen ts r =
     (if ts \<in> seen then r\<lparr>ir_duplicates := ir_duplicates r + 1\<rparr> else r)"

definition order_check :: "int option \<Rightarrow> int \<Rightarrow> integrity_report \<Rightarrow> integrity_report" where
  "order_check prev ts r = (case prev of
     None \<Rightarrow> r
   | Some p \<Rightarrow> if ts \<le> p then r\<lparr>ir_order_ok := False\<rparr> else r)"

definition step_check :: "int option \<Rightarrow> int \<Rightarrow> integrity_report \<Rightarrow> integrity_report" where
  "step_check prev ts r = (case prev of
     None \<Rightarrow> r
   | Some p \<Rightarrow>
       (let delta = ts - p in
        if delta = 60 then r
        else
          (let r1 = r\<lparr>ir_step_errors := ir_step_errors r + 1\<rparr> in
           if delta > 60
           then
             (let gap = (delta - 60) div 60;
                  r2 = (if gap > 0 then r1\<lparr>ir_gaps := ir_gaps r1 + gap\<rparr> else r1)
              in r2\<lparr>ir_max_gap := max (ir_max_gap r2) delta\<rparr>)
           else r1)))"

fun integrity_rows ::
  "int option \<Rightarrow> int set \<Rightarrow> ohlcv_row list \<Rightarrow> integrity_report \<Rightarrow> integrity_report" where
  "integrity_rows prev seen [] r = r"
| "integrity_rows prev seen ((ts, cells) # rows) r =
     (if length cells < 5
      then integrity_rows (Some ts) seen rows (r\<lparr>ir_ohlc_ok := False\<rparr>)
      else
        (let r1 = step_check prev ts (order_check prev ts (duplicate_check seen ts r));
             r2 = (if cells_ok cells then r1 else r1\<lparr>ir_ohlc_ok := False\<rparr>)
         in integrity_rows (Some ts) (insert ts seen) rows r2))"

definition compute_ohlcv_integrity_report :: "ohlcv_row list \<Rightarrow> integrity_report" where
  "compute_ohlcv_integrity_report candles =
     (if candles = [] then empty_report 0
      else
        (let r = integrity_rows None {} candles (empty_report (int (length candles)))
         in r\<lparr>ir_valid := ir_duplicates r = 0 \<and> ir_step_errors r = 0 \<and> ir_order_ok r \<and> ir_ohlc_ok r\<rparr>))"

section \<open>Quality gate\<close>

datatype gate_reason =
    GateOk
  | MissingHeaders
  | TooManyMissing int int
  | GapTooLarge int int
  | LowCompleteness pfloat pfloat
  | ReaderError

record quality_meta =
  q_source :: string
  q_coverage_from :: int
  q_coverage_to :: int
  q_freshness_sec :: int
  q_missing_minutes :: int
  q_max_gap_s :: int
  q_completeness :: pfloat
  q_candles_count :: int

record gate_result =
  g_ok :: bool
  g_reason :: gate_reason
  g_meta :: "quality_meta option"

fun find_header :: "(string, string) dict \<Rightarrow> string \<Rightarrow> string option" where
  "find_header [] key = None"
| "find_header ((k, v) # hs) key = (if py_lower k = py_lower key then Some v else find_header hs key)"

definition parse_int_header :: "(string, string) dict \<Rightarrow> string \<Rightarrow> int \<Rightarrow> int" where
  "parse_int_header headers key dflt = (case find_header headers key of
     None \<Rightarrow> dflt
   | Some raw \<Rightarrow> (case py_int raw of None \<Rightarrow> dflt | Some n \<Rightarrow> n))"

definition parse_str_header :: "(string, string) dict \<Rightarrow> string \<Rightarrow> string \<Rightarrow> string" where
  "parse_str_header headers key dflt = (case find_header headers key of None \<Rightarrow> dflt | Some v \<Rightarrow> v)"

definition gate_completeness :: "int \<Rightarrow> int \<Rightarrow> pfloat" where
  "gate_completeness window missing =
     (if window > 0 then fround 4 (rnd (of_int (window - missing) / of_int window)) else 1)"

definition quality_meta_of :: "int \<Rightarrow> (string, string) dict \<Rightarrow> int \<Rightarrow> quality_meta" where
  "quality_meta_of now_ts headers candles_count =
     (let cfrom = parse_int_header headers ''x-data-coverage-from'' (- 1);
          cto = parse_int_header headers ''x-data-coverage-to'' (- 1);
          missing = parse_int_header headers ''x-data-missing-minutes'' 0;
          window = (if cfrom > 0 \<and> cto > 0 then max 0 ((cto - cfrom) div 60) else 0)
      in \<lparr>q_source = parse_str_header headers ''x-data-source'' ''unknown'',
          q_coverage_from = cfrom, q_coverage_to = cto,
          q_freshness_sec = (if cto > 0 then max 0 (now_ts - cto) else - 1),
          q_missing_minutes = missing,
          q_max_gap_s = parse_int_header headers ''x-data-max-gap-s'' 0,
          q_completeness = gate_completeness window missing,
          q_candles_count = candles_count\<rparr>)"

definition gate_rules :: "quality_meta \<Rightarrow> int \<Rightarrow> pfloat \<Rightarrow> int \<Rightarrow> int \<Rightarrow> gate_reason" where
  "gate_rules m max_freshness_sec min_completeness max_gap_s allowed =
     (if q_coverage_from m < 0 \<or> q_coverage_to m < 0 then MissingHeaders
      else if q_missing_minutes m > allowed then TooManyMissing (q_missing_minutes m) allowed
      else if q_max_gap_s m > max_gap_s then GapTooLarge (q_max_gap_s m) max_gap_s
      else if q_completeness m < min_completeness then LowCompleteness (q_completeness m) min_completeness
      else GateOk)"

definition evaluate_quality_gate ::
  "environ \<Rightarrow> int \<Rightarrow> (string, string) dict \<Rightarrow> int \<Rightarrow> int \<Rightarrow> pfloat \<Rightarrow> int \<Rightarrow> int option \<Rightarrow> gate_result result" where
  "evaluate_quality_gate env now_ts headers candles_count max_freshness_sec min_completeness max_gap_s max_missing =
     sbind (case max_missing of
         Some n \<Rightarrow> Inr n
       | None \<Rightarrow> (case py_int (getenv env ''DATA_QUALITY_MAX_MISSING_MINUTES'' ''1'') of
           None \<Rightarrow> Inl (ValueError ''invalid literal for int'') | Some n \<Rightarrow> Inr n))
       (\<lambda>allowed.
         (let m = quality_meta_of now_ts headers candles_count;
              reason = gate_rules m max_freshness_sec min_completeness max_gap_s allowed
          in Inr \<lparr>g_ok = (reason = GateOk), g_reason = reason, g_meta = Some m\<rparr>))"

text \<open>
  The guard in front of an order: the reader is outside and gives a gate result or fails.
\<close>

definition assert_data_quality_ok ::
  "(string \<Rightarrow> gate_result result) \<Rightarrow> string \<Rightarrow> gate_reason + unit" where
  "assert_data_quality_ok reader symbol = (case reader symbol of
     Inl _ \<Rightarrow> Inl ReaderError
   | Inr gate \<Rightarrow> if g_ok gate then Inr () else Inl (g_reason gate))"

section \<open>Monthly gate\<close>

definition business_days :: "int \<Rightarrow> int" where
  "business_days m = int (length (filter (\<lambda>d. (d + 3) mod 7 < 5) [month_start m .. month_start (m + 1) - 1]))"

definition expected_minutes_1m :: "int \<Rightarrow> int" where
  "expected_minutes_1m m = business_days m * 1440"

record month_thresholds =
  th_ingest :: bool
  th_min_rows :: int
  th_max_flat :: pfloat
  th_min_completeness :: pfloat

datatype month_problem =
    CantReadMetadata
  | NoRows
  | FewRows int
  | FlatRatio pfloat
  | Completeness pfloat
  | RowsVeryLow int

definition check_acceptable :: "month_thresholds \<Rightarrow> int \<Rightarrow> pfloat \<Rightarrow> pfloat \<Rightarrow> bool \<times> month_problem option" where
  "check_acceptable th num_rows completeness flat_ratio =
     (if num_rows = 0 then (False, Some NoRows)
      else if th_ingest th then (True, None)
      else if num_rows < th_min_rows th then (False, Some (FewRows num_rows))
      else if flat_ratio > th_max_flat th then (False, Some (FlatRatio flat_ratio))
      else if completeness < th_min_completeness th then (False, Some (Completeness completeness))
      else (True, None))"

definition check_suspect :: "month_thresholds \<Rightarrow> int \<Rightarrow> pfloat \<Rightarrow> pfloat \<Rightarrow> bool \<times> month_problem list" where
  "check_suspect th num_rows completeness flat_ratio =
     (if th_ingest th then
        (if num_rows > 0 \<and> num_rows < 1000 then (True, [RowsVeryLow num_rows]) else (False, []))
      else
        (let reasons =
           (if 0 < num_rows \<and> num_rows < th_min_rows th then [FewRows num_rows] else []) @
           (if flat_ratio > th_max_flat th then [FlatRatio flat_ratio] else []) @
           (if completeness < th_min_completeness th then [Completeness completeness] else [])
         in if reasons \<noteq> [] then (True, reasons) else (False, [])))"

record month_stats =
  ms_num_rows :: int
  ms_expected_minutes :: int
  ms_completeness :: pfloat
  ms_flat_bars :: int
  ms_flat_ratio :: pfloat
  ms_acceptable :: bool
  ms_reason :: "month_problem option"
  ms_suspect :: bool
  ms_suspect_reason :: "month_problem list"

text \<open>
  The parquet reader is outside: \<open>meta\<close> is the row count it reports (\<open>None\<close> when it fails)
  and \<open>cols\<close> the four price columns, row by row (\<open>None\<close> when they cannot be read).
\<close>

definition flat_bars_of :: "(rat \<times> rat \<times> rat \<times> rat) list \<Rightarrow> int" where
  "flat_bars_of rows = int (length (filter (\<lambda>(op, h, l, c). op = h \<and> h = l \<and> l = c) rows))"

definition rejected_month :: "int \<Rightarrow> month_problem \<Rightarrow> month_stats" where
  "rejected_month expected why = \<lparr>ms_num_rows = 0, ms_expected_minutes = expected, ms_completeness = 0,
     ms_flat_bars = 0, ms_flat_ratio = 0, ms_acceptable = False, ms_reason = Some why,
     ms_suspect = False, ms_suspect_reason = []\<rparr>"

definition compute_month_stats ::
  "month_thresholds \<Rightarrow> int option \<Rightarrow> (rat \<times> rat \<times> rat \<times> rat) list option \<Rightarrow> int \<Rightarrow> month_stats" where
  "compute_month_stats th meta cols m =
     (let expected = expected_minutes_1m m in
      case meta of
        None \<Rightarrow> rejected_month expected CantReadMetadata
      | Some num_rows \<Rightarrow>
          if num_rows = 0 then rejected_month expected NoRows
          else
            (let flat_bars = (case cols of None \<Rightarrow> 0
                | Some rows \<Rightarrow> if int (length rows) < num_rows then 0 else flat_bars_of (take (nat num_rows) rows));
                 flat_ratio = (if num_rows > 0 then fround 6 (rnd (of_int flat_bars / of_int num_rows)) else 0);
                 completeness = (if expected > 0 then fround 6 (rnd (of_int num_rows / of_int expected)) else 1);
                 (acceptable, reason) = check_acceptable th num_rows completeness flat_ratio;
                 (suspect, suspect_reason) = check_suspect th num_rows completeness flat_ratio
             in \<lparr>ms_num_rows = num_rows, ms_expected_minutes = expected, ms_completeness = completeness,
                 ms_flat_bars = flat_bars, ms_flat_ratio = flat_ratio, ms_acceptable = acceptable,
                 ms_reason = reason, ms_suspect = suspect, ms_suspect_reason = suspect_reason\<rparr>))"

section \<open>Source and symbol policies\<close>

record data_policy =
  dp_primary :: string
  dp_fallback :: string
  dp_mixed_allowed :: bool

definition resolve_data_policy ::
  "environ \<Rightarrow> bool \<Rightarrow> (string \<Rightarrow> bool) \<Rightarrow> (string \<Rightarrow> string) \<Rightarrow> string \<Rightarrow> data_policy" where
  "resolve_data_policy env ingest_enabled primary_allowed compat_status symbol =
     (if ingest_enabled \<and> getenv env ''OSTIUM_ENABLED'' ''0'' = ''1''
      then \<lparr>dp_primary = (if primary_allowed symbol then ''ostium_recorded'' else ''primary''),
            dp_fallback = ''dukascopy'', dp_mixed_allowed = primary_allowed symbol\<rparr>
      else \<lparr>dp_primary = ''primary'', dp_fallback = ''dukascopy'',
            dp_mixed_allowed = (compat_status symbol = ''PASS'')\<rparr>)"

definition source_for_header :: "string \<Rightarrow> data_policy option \<Rightarrow> string" where
  "source_for_header raw policy = (case policy of
     None \<Rightarrow> raw
   | Some p \<Rightarrow> if raw = ''primary'' \<and> dp_primary p = ''ostium_recorded'' then ''ostium_recorded'' else raw)"

definition get_ostium_allowlist :: "environ \<Rightarrow> string set" where
  "get_ostium_allowlist env = set (parse_symbols (getenv env ''OSTIUM_SYMBOLS'' ''EURUSD,GBPUSD''))"

definition get_ostium_quarantine :: "environ \<Rightarrow> string set" where
  "get_ostium_quarantine env = set (parse_symbols (getenv env ''OSTIUM_QUARANTINE_SYMBOLS'' []))"

definition get_ostium_ingest_symbols :: "environ \<Rightarrow> string list" where
  "get_ostium_ingest_symbols env = sorted_list_of_set (get_ostium_allowlist env - get_ostium_quarantine env)"

definition is_ostium_quarantined :: "environ \<Rightarrow> string \<Rightarrow> bool" where
  "is_ostium_quarantined env symbol \<longleftrightarrow> py_upper symbol \<in> get_ostium_quarantine env"

definition is_ostium_ingest_allowed :: "environ \<Rightarrow> string \<Rightarrow> bool" where
  "is_ostium_ingest_allowed env symbol \<longleftrightarrow>
     py_upper symbol \<in> get_ostium_allowlist env \<and> py_upper symbol \<notin> get_ostium_quarantine env"

end
