(* ===== verification/Quality_Props.thy ===== *)
theory Quality_Props
  imports Quality
begin

text \<open>Properties of the data quality checks.\<close>

section \<open>Structural report\<close>

definition report_clean :: "integrity_report \<Rightarrow> bool" where
  "report_clean r \<longleftrightarrow> ir_duplicates r = 0 \<and> ir_step_errors r = 0 \<and> ir_order_ok r \<and> ir_ohlc_ok r"

definition counts_nonneg :: "integrity_report \<Rightarrow> bool" where
  "counts_nonneg r \<longleftrightarrow> 0 \<le> ir_duplicates r \<and> 0 \<le> ir_step_errors r"

lemmas check_defs = duplicate_check_def order_check_def step_check_def Let_def

lemma checks_nonneg:
  "counts_nonneg r \<Longrightarrow> counts_nonneg (step_check prev ts (order_check prev ts (duplicate_check seen ts r)))"
  by (auto simp: counts_nonneg_def check_defs split: option.splits)

lemma checks_dirty:
  "counts_nonneg r \<Longrightarrow> \<not> report_clean r \<Longrightarrow>
     \<not> report_clean (step_check prev ts (order_check prev ts (duplicate_check seen ts r)))"
  by (auto simp: counts_nonneg_def report_clean_def check_defs split: option.splits)

lemma set_ohlc_simps [simp]:
  "counts_nonneg (r\<lparr>ir_ohlc_ok := b\<rparr>) = counts_nonneg r"
  "\<not> report_clean (r\<lparr>ir_ohlc_ok := False\<rparr>)"
  by (simp_all add: counts_nonneg_def report_clean_def)

lemma rows_dirty:
  "counts_nonneg r \<Longrightarrow> \<not> report_clean r \<Longrightarrow> \<not> report_clean (integrity_rows prev seen rows r)"
proof (induction prev seen rows r rule: integrity_rows.induct)
  case (2 prev seen ts cells rows r)
  show ?case
  proof (cases "length cells < 5")
    case False
    let ?r1 = "step_check prev ts (order_check prev ts (duplicate_check seen ts r))"
    have "counts_nonneg ?r1" "\<not> report_clean ?r1" using 2 by (simp_all add: checks_nonneg checks_dirty)
    then show ?thesis
      using False 2(2) [OF False refl refl] by (auto simp: Let_def)
  qed (use 2 in simp)
qed simp

lemma cells_ok_length: "cells_ok cells \<Longrightarrow> \<not> length cells < 5"
  by (induction cells rule: cells_ok.induct) auto

lemma rows_clean_iff:
  "counts_nonneg r \<Longrightarrow> report_clean r \<Longrightarrow> \<forall>x \<in> seen. \<exists>p. prev = Some p \<and> x \<le> p \<Longrightarrow>
     report_clean (integrity_rows prev seen rows r) \<longleftrightarrow>
       (\<forall>row \<in> set rows. cells_ok (snd row)) \<and>
       adjacent (\<lambda>a b. b = a + 60) (case_option [] (\<lambda>p. [p]) prev @ map fst rows)"
proof (induction prev seen rows r rule: integrity_rows.induct)
  case (1 prev seen r)
  then show ?case by (cases prev) simp_all
next
  case (2 prev seen ts cells rows r)
  let ?r1 = "step_check prev ts (order_check prev ts (duplicate_check seen ts r))"
  show ?case
  proof (cases "cells_ok cells \<and> (\<forall>p. prev = Some p \<longrightarrow> ts = p + 60)")
    case True
    then have l: "\<not> length cells < 5" using cells_ok_length by blast
    have "ts \<notin> seen" using 2(5) True by force
    then have r1: "?r1 = r" using True by (auto simp: check_defs split: option.splits)
    have seen: "\<forall>x \<in> insert ts seen. \<exists>p. Some ts = Some p \<and> x \<le> p" using 2(5) True by force
    have IH: "report_clean (integrity_rows (Some ts) (insert ts seen) rows r) \<longleftrightarrow>
       (\<forall>row \<in> set rows. cells_ok (snd row)) \<and> adjacent (\<lambda>a b. b = a + 60) (ts # map fst rows)"
      using 2(2) [OF l refl refl] 2(3,4) seen True by (simp add: r1)
    have "integrity_rows prev seen ((ts, cells) # rows) r = integrity_rows (Some ts) (insert ts seen) rows r"
      using True l by (simp add: Let_def r1)
    then show ?thesis using True IH by (cases prev) (simp_all del: integrity_rows.simps)
  next
    case False
    have nn: "counts_nonneg ?r1" using 2(3) by (rule checks_nonneg)
    have "\<not> report_clean (integrity_rows prev seen ((ts, cells) # rows) r)"
    proof (cases "length cells < 5")
      case True
      then show ?thesis using 2(3) by (simp add: rows_dirty)
    next
      case l: False
      have "\<not> report_clean (if cells_ok cells then ?r1 else ?r1\<lparr>ir_ohlc_ok := False\<rparr>)"
        using False 2(3,4)
        by (auto simp: report_clean_def counts_nonneg_def check_defs split: option.splits)
      then show ?thesis using nn l by (simp add: Let_def rows_dirty)
    qed
    moreover have "\<not> ((\<forall>row \<in> set ((ts, cells) # rows). cells_ok (snd row)) \<and>
       adjacent (\<lambda>a b. b = a + 60) (case_option [] (\<lambda>p. [p]) prev @ map fst ((ts, cells) # rows)))"
      using False by (cases prev) auto
    ultimately show ?thesis by blast
  qed
qed

text \<open>
  C5. The report calls a candle sequence valid exactly when every row is complete, numeric and
  satisfies the price invariants, and each timestamp is 60 seconds after the one before it.
\<close>

theorem integrity_valid_iff:
  "ir_valid (compute_ohlcv_integrity_report candles) \<longleftrightarrow>
     (\<forall>row \<in> set candles. cells_ok (snd row)) \<and> adjacent (\<lambda>a b. b = a + 60) (map fst candles)"
proof (cases "candles = []")
  case False
  let ?r = "empty_report (int (length candles))"
  have "counts_nonneg ?r" "report_clean ?r" by (simp_all add: counts_nonneg_def report_clean_def empty_report_def)
  then have "report_clean (integrity_rows None {} candles ?r) \<longleftrightarrow>
     (\<forall>row \<in> set candles. cells_ok (snd row)) \<and> adjacent (\<lambda>a b. b = a + 60) (map fst candles)"
    by (simp add: rows_clean_iff)
  with False show ?thesis by (simp add: compute_ohlcv_integrity_report_def Let_def report_clean_def)
qed (simp add: compute_ohlcv_integrity_report_def empty_report_def)

theorem integrity_valid_iff_witness:
  "ir_valid (compute_ohlcv_integrity_report [(600, [Num 2, Num 3, Num 1, Num 2, Num 0]),
     (660, [Num 2, Num 3, Num 1, Num 2, Num 0])]) \<and>
   \<not> ir_valid (compute_ohlcv_integrity_report [(600, [Num 2, Num 3, Num 1, Num 2, Num 0]),
     (720, [Num 2, Num 3, Num 1, Num 2, Num 0])])"
  by (simp add: integrity_valid_iff)

lemma checks_gaps:
  "ir_gaps (step_check (Some p) ts (order_check (Some p) ts (duplicate_check seen ts r))) =
     ir_gaps r + (if ts - p > 60 then (ts - p - 60) div 60 else 0)"
  "ir_gaps (step_check None ts (order_check None ts (duplicate_check seen ts r))) = ir_gaps r"
  by (simp_all add: check_defs pos_imp_zdiv_pos_iff)

lemma rows_gaps:
  "\<forall>row \<in> set rows. 5 \<le> length (snd row) \<Longrightarrow> sorted_wrt (<) (p # map fst rows) \<Longrightarrow>
     \<forall>row \<in> set rows. (fst row - p) mod 60 = 0 \<Longrightarrow>
     ir_gaps (integrity_rows (Some p) seen rows r) =
       ir_gaps r + (last (p # map fst rows) - p) div 60 - int (length rows)"
proof (induction rows arbitrary: p seen r)
  case (Cons row rows)
  obtain ts cells where row: "row = (ts, cells)" by (cases row)
  let ?r1 = "step_check (Some p) ts (order_check (Some p) ts (duplicate_check seen ts r))"
  have p: "p < ts" "(ts - p) mod 60 = 0" using Cons.prems(2,3) by (auto simp: row)
  then obtain k where k: "ts - p = 60 * k" "0 < k" by (auto simp: mod_eq_0_iff_dvd elim!: dvdE)
  have mods: "(fst x - ts) mod 60 = 0" if "x \<in> set rows" for x
  proof -
    have "60 dvd (fst x - p) - (ts - p)"
      using Cons.prems(3) that p(2) by (intro dvd_diff [of 60 "fst x - p"]) (simp_all add: dvd_eq_mod_eq_0)
    then show ?thesis by (simp add: dvd_eq_mod_eq_0)
  qed
  have "ts - p - 60 = 60 * (k - 1)" using k by simp
  then have "(ts - p - 60) div 60 = k - 1" by simp
  then have g: "ir_gaps ?r1 = ir_gaps r + k - 1"
    using k by (auto simp: checks_gaps)
  have "ir_gaps (integrity_rows (Some p) seen (row # rows) r) =
      ir_gaps (integrity_rows (Some ts) (insert ts seen) rows (if cells_ok cells then ?r1 else ?r1\<lparr>ir_ohlc_ok := False\<rparr>))"
    using Cons.prems(1) by (simp add: row Let_def)
  also have "\<dots> = ir_gaps r + k - 1 + (last (ts # map fst rows) - ts) div 60 - int (length rows)"
    using Cons.IH [of ts] Cons.prems(1,2) mods by (simp add: row g)
  also have "\<dots> = ir_gaps r + (last (ts # map fst rows) - p) div 60 - int (length (row # rows))"
  proof -
    have "last (ts # map fst rows) - p = (last (ts # map fst rows) - ts) + k * 60" using k by simp
    then have "(last (ts # map fst rows) - p) div 60 = (last (ts # map fst rows) - ts) div 60 + k"
      by (simp only: div_mult_self1)
    then show ?thesis by simp
  qed
  finally show ?case by (simp add: row)
qed simp

text \<open>
  On complete rows in strict time order, aligned to whole minutes apart from a common offset,
  the reported gap count is exactly the number of minutes between the first and the last row
  that have no candle.
\<close>

theorem integrity_gap_count:
  fixes candles :: "ohlcv_row list" and first :: ohlcv_row and rest :: "ohlcv_row list"
  assumes "candles = first # rest" "\<forall>row \<in> set candles. 5 \<le> length (snd row)"
    and "sorted_wrt (<) (map fst candles)" "\<forall>row \<in> set candles. (fst row - fst first) mod 60 = 0"
  shows "ir_gaps (compute_ohlcv_integrity_report candles) =
    int (card ({t. fst first \<le> t \<and> t \<le> fst (last candles) \<and> (t - fst first) mod 60 = 0} - fst ` set candles))"
proof -
  obtain ts cells where first: "first = (ts, cells)" by (cases first)
  let ?l = "last (map fst candles)"
  let ?n = "(?l - ts) div 60"
  have l: "?l = fst (last candles)" using assms(1) by (simp add: last_map)
  have "last candles \<in> set candles" using assms(1) by (intro last_in_set) simp
  then have "(?l - ts) mod 60 = 0" using assms(4) by (simp add: l first)
  have lo: "ts \<le> fst row" if "row \<in> set candles" for row
    using assms(3) that by (auto simp: assms(1) first)
  have ge: "ts \<le> ?l" using lo \<open>last candles \<in> set candles\<close> by (simp only: l)
  let ?M = "{t. ts \<le> t \<and> t \<le> ?l \<and> (t - ts) mod 60 = 0}"
  have M: "?M = (\<lambda>k. ts + 60 * k) ` {0..?n}"
  proof (intro set_eqI iffI)
    fix t assume "t \<in> ?M"
    then have "t = ts + 60 * ((t - ts) div 60)" "(t - ts) div 60 \<in> {0..?n}" by (auto intro: zdiv_mono1)
    then show "t \<in> (\<lambda>k. ts + 60 * k) ` {0..?n}" by blast
  next
    fix t assume "t \<in> (\<lambda>k. ts + 60 * k) ` {0..?n}"
    then obtain k where "t = ts + 60 * k" "0 \<le> k" "k \<le> ?n" by auto
    then show "t \<in> ?M" by auto
  qed
  have "card ?M = card {0..?n}" unfolding M by (rule card_image) (simp add: inj_on_def)
  also have "\<dots> = nat (?n + 1)" by simp
  finally have cM: "int (card ?M) = ?n + 1" using ge by (simp add: pos_imp_zdiv_nonneg_iff)
  have fin: "finite ?M" unfolding M by simp
  have sub: "fst ` set candles \<subseteq> ?M"
  proof
    fix t assume t: "t \<in> fst ` set candles"
    have "ts \<le> t" using lo t by auto
    moreover have "t \<le> ?l"
      using t assms(3) by (intro sorted_le_last) (simp_all add: strict_sorted_imp_sorted)
    ultimately show "t \<in> ?M" using assms(4) t by (auto simp: first)
  qed
  have "card (fst ` set candles) = length candles"
    using assms(3) distinct_card [of "map fst candles"] by (simp add: strict_sorted_iff)
  then have "int (card (?M - fst ` set candles)) = ?n + 1 - int (length candles)"
    using card_Diff_subset [OF _ sub] card_mono [OF fin sub] cM by simp
  then have "int (card (?M - fst ` set candles)) = ?n - int (length rest)"
    by (simp only: assms(1) list.size)
  moreover have "ir_gaps (compute_ohlcv_integrity_report candles) = ?n - int (length rest)"
  proof -
    let ?r = "empty_report (int (length candles))"
    let ?r1 = "step_check None ts (order_check None ts (duplicate_check {} ts ?r))"
    have "ir_gaps (compute_ohlcv_integrity_report candles) =
        ir_gaps (integrity_rows (Some ts) {ts} rest (if cells_ok cells then ?r1 else ?r1\<lparr>ir_ohlc_ok := False\<rparr>))"
      using assms(2) by (simp add: compute_ohlcv_integrity_report_def Let_def assms(1) first)
    also have "\<dots> = (last (ts # map fst rest) - ts) div 60 - int (length rest)"
      using rows_gaps [of rest ts] assms(2-4) by (simp add: assms(1) first checks_gaps empty_report_def)
    finally show ?thesis by (simp add: assms(1) first)
  qed
  ultimately show ?thesis unfolding l [symmetric] first fst_conv by (simp only:)
qed

definition demo_rows :: "ohlcv_row list" where
  "demo_rows = map (\<lambda>t. (t, [Num 2, Num 3, Num 1, Num 2, Num 0])) [600, 660, 840]"

theorem integrity_gap_count_witness:
  "ir_gaps (compute_ohlcv_integrity_report demo_rows) = 2 \<and>
   card ({t :: int. 600 \<le> t \<and> t \<le> 840 \<and> (t - 600) mod 60 = 0} - {600, 660, 840}) = 2"
proof -
  let ?row = "\<lambda>t. (t, [Num 2, Num 3, Num 1, Num 2, Num 0])"
  have "ir_gaps (compute_ohlcv_integrity_report demo_rows) = 2" by code_simp
  then show ?thesis
    using integrity_gap_count [of demo_rows "?row 600" "[?row 660, ?row 840]"]
    by (simp add: demo_rows_def)
qed

section \<open>Quality gate\<close>

definition header_int :: "(string, string) dict \<Rightarrow> string \<Rightarrow> int option" where
  "header_int headers key = Option.bind (find_header headers key) py_int"

lemma parse_int_header_int:
  "parse_int_header headers key dflt = (case header_int headers key of None \<Rightarrow> dflt | Some n \<Rightarrow> n)"
  by (simp add: parse_int_header_def header_int_def split: option.splits)

text \<open>The missing minutes and the largest gap a response announces, and its completeness.\<close>

definition announced :: "(string, string) dict \<Rightarrow> string \<Rightarrow> int" where
  "announced headers key = (case header_int headers key of None \<Rightarrow> 0 | Some n \<Rightarrow> n)"

lemma gate_rules_ok: "gate_rules m max_fresh min_comp max_gap allowed = GateOk \<longleftrightarrow>
    0 \<le> q_coverage_from m \<and> 0 \<le> q_coverage_to m \<and> q_missing_minutes m \<le> allowed \<and> q_max_gap_s m \<le> max_gap \<and>
    min_comp \<le> q_completeness m"
  by (auto simp: gate_rules_def)

lemma meta_coverage:
  "0 \<le> q_coverage_from (quality_meta_of now headers n) \<and> 0 \<le> q_coverage_to (quality_meta_of now headers n) \<longleftrightarrow>
    (\<exists>f t. header_int headers ''x-data-coverage-from'' = Some f \<and> 0 \<le> f \<and> header_int headers ''x-data-coverage-to'' = Some t \<and> 0 \<le> t)"
  by (auto simp: quality_meta_of_def Let_def parse_int_header_int split: option.splits)

lemma meta_announced:
  "q_missing_minutes (quality_meta_of now headers n) = announced headers ''x-data-missing-minutes''"
  "q_max_gap_s (quality_meta_of now headers n) = announced headers ''x-data-max-gap-s''"
  by (simp_all add: quality_meta_of_def Let_def parse_int_header_int announced_def)

lemma meta_completeness:
  assumes "header_int headers ''x-data-coverage-from'' = Some f" "header_int headers ''x-data-coverage-to'' = Some t"
  shows "q_completeness (quality_meta_of now headers n) =
    (if 0 < f \<and> f + 60 \<le> t then fround 4 (rnd (of_int ((t - f) div 60 - announced headers ''x-data-missing-minutes'') / of_int ((t - f) div 60)))
     else 1)"
proof (cases "0 < f \<and> f + 60 \<le> t")
  case True
  then have "0 < (t - f) div 60" by (simp add: pos_imp_zdiv_pos_iff)
  then show ?thesis
    using True by (simp add: quality_meta_of_def Let_def parse_int_header_int assms gate_completeness_def announced_def)
next
  case False
  then have "0 < f \<and> 0 < t \<Longrightarrow> max 0 ((t - f) div 60) = 0" by (auto simp: max_def pos_imp_zdiv_pos_iff not_le)
  then show ?thesis
    using False by (auto simp: quality_meta_of_def Let_def parse_int_header_int assms gate_completeness_def)
qed

lemma guard_passes_iff: "assert_data_quality_ok reader symbol = Inr () \<longleftrightarrow> (\<exists>g. reader symbol = Inr g \<and> g_ok g)"
  by (auto simp: assert_data_quality_ok_def split: sum.splits if_splits)

text \<open>
  C6. The order guard over the quality gate is fail-closed. An order passes exactly when the limit of
  missing minutes is known (the argument, or the environment, which must hold an integer), both
  coverage headers are present, are integers and are not negative, the announced missing minutes and
  largest gap are within their limits, and the completeness of the announced window is at least the
  required one; a header that is absent or unreadable announces 0. Neither the clock nor the
  freshness limit is in the condition: the parameter is described as failing old data that has gaps,
  but the code accepts data of any age whose gaps are within the other limits. A reader that fails, and a
  gate that does not pass, stop the order with the reason.
\<close>

theorem quality_gate_fail_closed:
  "(assert_data_quality_ok (\<lambda>_. evaluate_quality_gate env now headers n_rows max_fresh min_comp max_gap max_missing) symbol = Inr () \<longleftrightarrow>
     (\<exists>f t allowed. header_int headers ''x-data-coverage-from'' = Some f \<and> 0 \<le> f \<and>
      header_int headers ''x-data-coverage-to'' = Some t \<and> 0 \<le> t \<and>
      (case max_missing of Some n \<Rightarrow> Some n | None \<Rightarrow> py_int (getenv env ''DATA_QUALITY_MAX_MISSING_MINUTES'' ''1'')) = Some allowed \<and>
      announced headers ''x-data-missing-minutes'' \<le> allowed \<and> announced headers ''x-data-max-gap-s'' \<le> max_gap \<and>
      min_comp \<le> (if 0 < f \<and> f + 60 \<le> t
        then fround 4 (rnd (of_int ((t - f) div 60 - announced headers ''x-data-missing-minutes'') / of_int ((t - f) div 60)))
        else 1))) \<and>
   (assert_data_quality_ok reader symbol = Inl reason \<longleftrightarrow>
     (\<exists>e. reader symbol = Inl e) \<and> reason = ReaderError \<or> (\<exists>g. reader symbol = Inr g \<and> \<not> g_ok g \<and> reason = g_reason g))"
proof -
  let ?m = "quality_meta_of now headers n_rows"
  let ?allowed = "case max_missing of Some n \<Rightarrow> Some n | None \<Rightarrow> py_int (getenv env ''DATA_QUALITY_MAX_MISSING_MINUTES'' ''1'')"
  have gate: "(\<exists>g. evaluate_quality_gate env now headers n_rows max_fresh min_comp max_gap max_missing = Inr g \<and> g_ok g) \<longleftrightarrow>
      (\<exists>allowed. ?allowed = Some allowed \<and> gate_rules ?m max_fresh min_comp max_gap allowed = GateOk)"
    by (auto simp: evaluate_quality_gate_def Let_def split: option.splits)
  have "gate_rules ?m max_fresh min_comp max_gap allowed = GateOk \<longleftrightarrow>
    (\<exists>f t. header_int headers ''x-data-coverage-from'' = Some f \<and> 0 \<le> f \<and> header_int headers ''x-data-coverage-to'' = Some t \<and> 0 \<le> t \<and>
      announced headers ''x-data-missing-minutes'' \<le> allowed \<and> announced headers ''x-data-max-gap-s'' \<le> max_gap \<and>
      min_comp \<le> (if 0 < f \<and> f + 60 \<le> t
        then fround 4 (rnd (of_int ((t - f) div 60 - announced headers ''x-data-missing-minutes'') / of_int ((t - f) div 60)))
        else 1))" for allowed
    using meta_coverage [of now headers n_rows] meta_completeness [of headers _ _ now n_rows]
    unfolding gate_rules_ok meta_announced by fastforce
  then have "assert_data_quality_ok (\<lambda>_. evaluate_quality_gate env now headers n_rows max_fresh min_comp max_gap max_missing) symbol = Inr () \<longleftrightarrow>
     (\<exists>f t allowed. header_int headers ''x-data-coverage-from'' = Some f \<and> 0 \<le> f \<and>
      header_int headers ''x-data-coverage-to'' = Some t \<and> 0 \<le> t \<and> ?allowed = Some allowed \<and>
      announced headers ''x-data-missing-minutes'' \<le> allowed \<and> announced headers ''x-data-max-gap-s'' \<le> max_gap \<and>
      min_comp \<le> (if 0 < f \<and> f + 60 \<le> t
        then fround 4 (rnd (of_int ((t - f) div 60 - announced headers ''x-data-missing-minutes'') / of_int ((t - f) div 60)))
        else 1))"
    unfolding guard_passes_iff gate by blast
  moreover have "assert_data_quality_ok reader symbol = Inl reason \<longleftrightarrow>
     (\<exists>e. reader symbol = Inl e) \<and> reason = ReaderError \<or> (\<exists>g. reader symbol = Inr g \<and> \<not> g_ok g \<and> reason = g_reason g)"
    by (auto simp: assert_data_quality_ok_def split: sum.splits)
  ultimately show ?thesis by blast
qed

definition demo_headers :: "(string, string) dict" where
  "demo_headers = [(''X-Data-Coverage-From'', ''600''), (''X-Data-Coverage-To'', ''6600''),
     (''X-Data-Missing-Minutes'', ''1'')]"

lemma demo_header_values:
  "header_int demo_headers ''x-data-coverage-from'' = Some 600"
  "header_int demo_headers ''x-data-coverage-to'' = Some 6600"
  "announced demo_headers ''x-data-missing-minutes'' = 1"
  "announced demo_headers ''x-data-max-gap-s'' = 0"
  "py_int ''1'' = Some 1"
  "49 \<le> fround 4 (rnd (99 / 100)) * 50"
  by code_simp+

text \<open>A response with one missing minute passes, and fails once none is allowed.\<close>

theorem quality_gate_fail_closed_witness:
  "assert_data_quality_ok (\<lambda>_. evaluate_quality_gate (\<lambda>_. None) 9999 demo_headers 10 60 (98 / 100) 120 None) ''EURUSD'' = Inr () \<and>
   assert_data_quality_ok (\<lambda>_. evaluate_quality_gate (\<lambda>_. None) 9999 demo_headers 10 60 (98 / 100) 120 (Some 0)) ''EURUSD'' \<noteq> Inr ()"
  using quality_gate_fail_closed [of "\<lambda>_. None" 9999 demo_headers 10 60 "98 / 100" 120 None "''EURUSD''"]
    quality_gate_fail_closed [of "\<lambda>_. None" 9999 demo_headers 10 60 "98 / 100" 120 "Some 0" "''EURUSD''"]
  by (simp add: demo_header_values)

text \<open>
  The gate never looks at the age of the data: neither the clock nor the freshness limit
  changes whether a response passes or why it fails. Data of any age with a tolerated number of
  missing minutes passes.
\<close>

theorem quality_gate_ignores_freshness:
  "map_sum id (\<lambda>g. (g_ok g, g_reason g))
     (evaluate_quality_gate env now headers n_rows max_fresh min_comp max_gap allowed) =
   map_sum id (\<lambda>g. (g_ok g, g_reason g))
     (evaluate_quality_gate env now' headers n_rows max_fresh' min_comp max_gap allowed)"
proof -
  have "gate_rules (quality_meta_of now headers n_rows) max_fresh min_comp max_gap k =
      gate_rules (quality_meta_of now' headers n_rows) max_fresh' min_comp max_gap k" for k
    by (simp add: gate_rules_def quality_meta_of_def Let_def)
  then show ?thesis
    by (cases allowed) (auto simp: evaluate_quality_gate_def Let_def sbind_def split: option.splits sum.splits)
qed

section \<open>Monthly gate\<close>

lemma weekday_filter_7:
  fixes a :: int
  shows "length (filter (\<lambda>d. (d + 3) mod 7 < 5) [a..a + 6]) = 5"
proof -
  have l: "[a..a + 6] = [a, a + 1, a + 2, a + 3, a + 4, a + 5, a + 6]"
    by (simp add: upto_rec1)
  define q r where "q = (a + 3) div 7" and "r = (a + 3) mod 7"
  then have a: "a + 3 = 7 * q + r" and r: "0 \<le> r" "r < 7" by simp_all
  have e: "(a + k + 3) mod 7 = (r + k) mod 7" for k
  proof -
    have "a + k + 3 = (r + k) + q * 7" using a by simp
    then show ?thesis by (simp only: mod_mult_self1)
  qed
  have f: "(filter (\<lambda>d. (d + 3) mod 7 < 5) [a, a + 1, a + 2, a + 3, a + 4, a + 5, a + 6]) =
      map (\<lambda>k. a + k) (filter (\<lambda>k. (r + k) mod 7 < 5) [0, 1, 2, 3, 4, 5, 6])"
  proof -
    have "[a, a + 1, a + 2, a + 3, a + 4, a + 5, a + 6] = map (\<lambda>k. a + k) [0, 1, 2, 3, 4, 5, 6]" by simp
    then show ?thesis by (simp only: filter_map o_def e)
  qed
  have "r \<in> {0, 1, 2, 3, 4, 5, 6}" using r by auto
  then show ?thesis unfolding l f length_map by (elim insertE; simp)
qed

lemma business_days_bounds: "20 \<le> business_days m \<and> business_days m \<le> 23"
proof -
  let ?P = "\<lambda>d :: int. (d + 3) mod 7 < 5"
  let ?a = "month_start m" and ?b = "month_start (m + 1) - 1"
  have len: "?a + 27 \<le> ?b" "?b \<le> ?a + 30" using month_start_step [of m] by simp_all
  have four: "length (filter ?P [?a..?a + 27]) = 20"
  proof -
    have "[?a..?a + 27] = [?a..?a + 6] @ [?a + 7..?a + 13] @ [?a + 14..?a + 20] @ [?a + 21..?a + 27]"
      using upto_split2 [of ?a "?a + 6" "?a + 27"] upto_split2 [of "?a + 7" "?a + 13" "?a + 27"]
        upto_split2 [of "?a + 14" "?a + 20" "?a + 27"] by (simp add: ac_simps)
    then show ?thesis
      using weekday_filter_7 [of ?a] weekday_filter_7 [of "?a + 7"] weekday_filter_7 [of "?a + 14"]
        weekday_filter_7 [of "?a + 21"] by (simp add: ac_simps)
  qed
  have "[?a..?b] = [?a..?a + 27] @ [?a + 28..?b]"
    using upto_split2 [of ?a "?a + 27" ?b] len by (simp add: ac_simps)
  moreover have "length (filter ?P [?a + 28..?b]) \<le> 3"
    using length_filter_le [of ?P "[?a + 28..?b]"] len by simp
  ultimately show ?thesis using four by (simp add: business_days_def)
qed

text \<open>
  The monthly gate: a month has between 28800 and 33120 expected minutes, so the
  completeness ratio is always a true quotient. In integrity mode a month with rows is
  acceptable exactly when it is not suspect; in ingest mode every month with rows is acceptable.
\<close>

theorem month_gate_correct:
  fixes th :: month_thresholds and cols :: "(rat \<times> rat \<times> rat \<times> rat) list option" and m :: int
  assumes "0 < rows"
  defines "s \<equiv> compute_month_stats th (Some rows) cols m"
  shows "28800 \<le> ms_expected_minutes s \<and> ms_expected_minutes s \<le> 33120 \<and>
    ms_completeness s = fround 6 (rnd (of_int rows / of_int (ms_expected_minutes s))) \<and>
    (ms_acceptable s \<longleftrightarrow> th_ingest th \<or> \<not> ms_suspect s) \<and>
    (ms_reason s = None \<longleftrightarrow> ms_acceptable s)"
proof -
  have exp: "28800 \<le> expected_minutes_1m m" "expected_minutes_1m m \<le> 33120"
    using business_days_bounds [of m] by (simp_all add: expected_minutes_1m_def)
  let ?c = "fround 6 (rnd (of_int rows / of_int (expected_minutes_1m m)))"
  let ?fb = "case cols of None \<Rightarrow> 0 | Some xs \<Rightarrow>
      if int (length xs) < rows then 0 else flat_bars_of (take (nat rows) xs)"
  let ?f = "fround 6 (rnd (of_int ?fb / of_int rows))"
  have s: "ms_expected_minutes s = expected_minutes_1m m" "ms_completeness s = ?c"
    "ms_acceptable s = fst (check_acceptable th rows ?c ?f)" "ms_reason s = snd (check_acceptable th rows ?c ?f)"
    "ms_suspect s = fst (check_suspect th rows ?c ?f)"
    using assms(1) exp by (simp_all add: s_def compute_month_stats_def Let_def split_def)
  have "fst (check_acceptable th rows c f) \<longleftrightarrow> th_ingest th \<or> \<not> fst (check_suspect th rows c f)"
    and "snd (check_acceptable th rows c f) = None \<longleftrightarrow> fst (check_acceptable th rows c f)" for c f
    using assms(1) by (auto simp: check_acceptable_def check_suspect_def Let_def)
  then show ?thesis unfolding s using exp by blast
qed

theorem month_gate_correct_witness:
  "28800 \<le> ms_expected_minutes (compute_month_stats
     \<lparr>th_ingest = True, th_min_rows = 10000, th_max_flat = 1 / 20, th_min_completeness = 1 / 2\<rparr> (Some 20000) None 24245)"
  using month_gate_correct [of 20000
      "\<lparr>th_ingest = True, th_min_rows = 10000, th_max_flat = 1 / 20, th_min_completeness = 1 / 2\<rparr>" None 24245]
  by simp

section \<open>Symbol policy\<close>

text \<open>
  The symbols to ingest are listed in strictly increasing order, without blanks or lower case
  letters, and a symbol is allowed for ingestion exactly when its upper case form is listed; a
  quarantined symbol never is.
\<close>

theorem ingest_symbols_correct:
  "sorted_wrt (<) (get_ostium_ingest_symbols env) \<and>
   (\<forall>s \<in> set (get_ostium_ingest_symbols env). norm_symbol s = s \<and> s \<noteq> [] \<and> is_ostium_ingest_allowed env s) \<and>
   (is_ostium_ingest_allowed env symbol \<longleftrightarrow> py_upper symbol \<in> set (get_ostium_ingest_symbols env)) \<and>
   \<not> (is_ostium_ingest_allowed env symbol \<and> is_ostium_quarantined env symbol)"
proof -
  have fin: "finite (get_ostium_allowlist env - get_ostium_quarantine env)"
    by (simp add: get_ostium_allowlist_def)
  have set: "set (get_ostium_ingest_symbols env) = get_ostium_allowlist env - get_ostium_quarantine env"
    using fin by (simp add: get_ostium_ingest_symbols_def)
  have norm: "norm_symbol s = s \<and> s \<noteq> []" if "s \<in> get_ostium_allowlist env" for s
    using that parse_symbols_normal by (simp add: get_ostium_allowlist_def)
  have up: "py_upper s = s" if "norm_symbol s = s" for s
    using that by (metis norm_symbol_def py_upper_idem)
  show ?thesis
    using set norm up
    by (auto simp: is_ostium_ingest_allowed_def is_ostium_quarantined_def get_ostium_ingest_symbols_def)
qed

theorem ingest_symbols_correct_witness:
  "is_ostium_ingest_allowed (\<lambda>_. None) ''eurusd'' \<and> \<not> is_ostium_ingest_allowed (\<lambda>_. None) ''XAUUSD''"
proof -
  have "is_ostium_ingest_allowed (\<lambda>_. None) ''eurusd'' \<and> \<not> is_ostium_ingest_allowed (\<lambda>_. None) ''XAUUSD''"
    by code_simp
  then show ?thesis using ingest_symbols_correct [of "\<lambda>_. None" "''eurusd''"] by blast
qed

end
