(* ===== verification/Guards.thy ===== *)
theory Guards
  imports Quality PaperVenue
begin

text \<open>
  The guards in front of an order: the live trading limits
  (\<open>application/config/live_guards_config.py\<close>, \<open>application/services/live_guards.py\<close>), the
  canary routing (\<open>canary_router.py\<close>) and the single position guard (\<open>position_guard.py\<close>).
\<close>

datatype exceeded_limit =
    MaxOpenPositions int int
  | MaxNotional pfloat pfloat
  | MaxCollateral pfloat pfloat
  | MaxLeverage pfloat pfloat
  | SymbolNotAllowed string

datatype trade_error =
    LiveTradingDisabled
  | RiskLimitExceeded exceeded_limit
  | DataQualityBad string gate_reason
  | PositionAlreadyOpen string string string
  | AdapterNotAvailable
  | VenueNotConfigured string "string list"
  | VenueError py_error

section \<open>Settings\<close>

definition enable_live_trading_from_env :: "environ \<Rightarrow> bool" where
  "enable_live_trading_from_env env \<longleftrightarrow> py_strip (getenv env ''ENABLE_LIVE_TRADING'' ''0'') = ''1''"

definition max_open_positions_from_env :: "environ \<Rightarrow> int" where
  "max_open_positions_from_env env =
     (case py_int (py_strip (getenv env ''MAX_OPEN_POSITIONS'' ''1'')) of None \<Rightarrow> 1 | Some n \<Rightarrow> max 0 n)"

definition float_setting :: "environ \<Rightarrow> string \<Rightarrow> string \<Rightarrow> pfloat \<Rightarrow> pfloat" where
  "float_setting env key dflt fallback =
     (case py_float (py_strip (getenv env key dflt)) of None \<Rightarrow> fallback | Some x \<Rightarrow> max0 x)"

definition max_notional_usdc_from_env :: "environ \<Rightarrow> pfloat" where
  "max_notional_usdc_from_env env = float_setting env ''MAX_NOTIONAL_USDC'' ''0'' 0"

definition max_collateral_usd_from_env :: "environ \<Rightarrow> pfloat" where
  "max_collateral_usd_from_env env = float_setting env ''MAX_COLLATERAL_USD'' ''50.0'' 50"

definition max_leverage_from_env :: "environ \<Rightarrow> pfloat" where
  "max_leverage_from_env env = float_setting env ''MAX_LEVERAGE'' ''10.0'' 10"

definition live_symbol_allowlist_from_env :: "environ \<Rightarrow> string list" where
  "live_symbol_allowlist_from_env env =
     (let raw = py_strip (getenv env ''LIVE_SYMBOL_ALLOWLIST'' ''EURUSD,XAUUSD'')
      in if raw = [] then [] else parse_symbols raw)"

section \<open>Live guards\<close>

definition is_live_mode :: "string \<Rightarrow> bool" where
  "is_live_mode mode \<longleftrightarrow> py_lower mode = ''live''"

definition assert_live_trading_enabled :: "environ \<Rightarrow> string \<Rightarrow> trade_error + unit" where
  "assert_live_trading_enabled env mode =
     (if \<not> is_live_mode mode then Inr ()
      else if enable_live_trading_from_env env then Inr () else Inl LiveTradingDisabled)"

definition assert_risk_limits_ok :: "environ \<Rightarrow> position list \<Rightarrow> pfloat \<Rightarrow> trade_error + unit" where
  "assert_risk_limits_ok env positions requested_notional =
     (let max_pos = max_open_positions_from_env env;
          max_notional = max_notional_usdc_from_env env
      in if int (length positions) \<ge> max_pos
         then Inl (RiskLimitExceeded (MaxOpenPositions max_pos (int (length positions))))
         else if max_notional > 0 \<and> requested_notional > max_notional
         then Inl (RiskLimitExceeded (MaxNotional requested_notional max_notional))
         else Inr ())"

definition assert_order_caps_ok :: "environ \<Rightarrow> pfloat \<Rightarrow> pfloat \<Rightarrow> trade_error + unit" where
  "assert_order_caps_ok env collateral leverage =
     (let cap_col = max_collateral_usd_from_env env;
          cap_lev = max_leverage_from_env env
      in if cap_col > 0 \<and> collateral > cap_col then Inl (RiskLimitExceeded (MaxCollateral collateral cap_col))
         else if cap_lev > 0 \<and> leverage > cap_lev then Inl (RiskLimitExceeded (MaxLeverage leverage cap_lev))
         else Inr ())"

definition assert_symbol_allowed :: "environ \<Rightarrow> string \<Rightarrow> trade_error + unit" where
  "assert_symbol_allowed env symbol =
     (let allowed = live_symbol_allowlist_from_env env
      in if allowed = [] then Inr ()
         else if norm_symbol symbol \<notin> set (map norm_symbol allowed)
         then Inl (RiskLimitExceeded (SymbolNotAllowed (norm_symbol symbol)))
         else Inr ())"

section \<open>Canary routing\<close>

definition canary_mode_from_env :: "environ \<Rightarrow> string" where
  "canary_mode_from_env env = py_lower (py_strip (getenv env ''TRADING_CANARY_MODE'' ''paper''))"

definition canary_symbols_from_env :: "environ \<Rightarrow> string list" where
  "canary_symbols_from_env env =
     (let raw = py_strip (getenv env ''OSTIUM_CANARY_SYMBOLS'' [])
      in if raw = [] then [] else parse_symbols raw)"

definition resolve_effective_venue :: "environ \<Rightarrow> string \<Rightarrow> string \<Rightarrow> string" where
  "resolve_effective_venue env requested_venue symbol =
     (if requested_venue \<noteq> ''ostium'' then requested_venue
      else
        (let mode = canary_mode_from_env env;
             symbols = canary_symbols_from_env env
         in if mode = ''ostium'' then ''ostium''
            else if mode = ''split''
            then (if symbols = [] \<or> norm_symbol symbol \<in> set symbols then ''ostium'' else ''paper'')
            else ''paper''))"

section \<open>Single position guard\<close>

definition guard_position_id :: "position \<Rightarrow> string" where
  "guard_position_id p =
     (if py_truthy_str (p_venue_position_id p) then the (p_venue_position_id p)
      else if position_id p \<noteq> [] then position_id p else ''unknown'')"

definition assert_no_open_position_for_symbol ::
  "position list \<Rightarrow> string \<Rightarrow> string \<Rightarrow> trade_error + unit" where
  "assert_no_open_position_for_symbol positions symbol venue =
     (case find (\<lambda>p. norm_symbol (p_symbol p) = norm_symbol symbol) positions of
        None \<Rightarrow> Inr ()
      | Some p \<Rightarrow> Inl (PositionAlreadyOpen (norm_symbol symbol) venue (guard_position_id p)))"

section \<open>What a passing guard guarantees\<close>

lemma live_enabled_iff:
  "assert_live_trading_enabled env mode = Inr u \<longleftrightarrow> is_live_mode mode \<longrightarrow> enable_live_trading_from_env env"
  by (simp add: assert_live_trading_enabled_def)

lemma order_caps_iff:
  "assert_order_caps_ok env collateral leverage = Inr u \<longleftrightarrow>
     (0 < max_collateral_usd_from_env env \<longrightarrow> collateral \<le> max_collateral_usd_from_env env) \<and>
     (0 < max_leverage_from_env env \<longrightarrow> leverage \<le> max_leverage_from_env env)"
  by (auto simp: assert_order_caps_ok_def Let_def)

lemma allowlist_normal:
  "s \<in> set (live_symbol_allowlist_from_env env) \<Longrightarrow> norm_symbol s = s"
  using parse_symbols_normal by (auto simp: live_symbol_allowlist_from_env_def Let_def split: if_splits)

lemma symbol_allowed_iff:
  "assert_symbol_allowed env symbol = Inr u \<longleftrightarrow>
     live_symbol_allowlist_from_env env = [] \<or> norm_symbol symbol \<in> set (live_symbol_allowlist_from_env env)"
proof -
  have "set (map norm_symbol (live_symbol_allowlist_from_env env)) = set (live_symbol_allowlist_from_env env)"
    using allowlist_normal by force
  then show ?thesis by (auto simp: assert_symbol_allowed_def Let_def)
qed

lemma no_open_position_iff:
  "assert_no_open_position_for_symbol positions symbol venue = Inr u \<longleftrightarrow>
     norm_symbol symbol \<notin> set (map (norm_symbol \<circ> p_symbol) positions)"
proof (cases "find (\<lambda>p. norm_symbol (p_symbol p) = norm_symbol symbol) positions")
  case None
  then have "norm_symbol symbol \<notin> set (map (norm_symbol \<circ> p_symbol) positions)"
    by (auto simp: find_None_iff)
  with None show ?thesis by (simp add: assert_no_open_position_for_symbol_def)
next
  case (Some p)
  then have "p \<in> set positions" "norm_symbol (p_symbol p) = norm_symbol symbol"
    by (auto simp: find_Some_iff)
  then have "norm_symbol symbol \<in> set (map (norm_symbol \<circ> p_symbol) positions)" by force
  with Some show ?thesis by (simp add: assert_no_open_position_for_symbol_def)
qed

text \<open>The router never leaves the requested venue for anything but the paper venue.\<close>

lemma effective_venue_cases:
  "resolve_effective_venue env venue symbol = venue \<or>
     (venue = ''ostium'' \<and> resolve_effective_venue env venue symbol = ''paper'')"
  by (simp add: resolve_effective_venue_def Let_def)

end
