(* ===== verification/Operations.thy ===== *)
theory Operations
  imports Guards
begin

text \<open>
  The operation store, \<open>application/services/operation_service.py\<close>: an in-memory dictionary of
  operations with an append-only log, from which a restarted service rebuilds the dictionary.
  The order services rely on it through the locale \<open>operation_store\<close>.
\<close>

datatype op_status = InProgress | Confirmed | Failed | Pending

record operation =
  op_id :: string
  op_kind :: string
  op_venue :: string
  op_symbol :: string
  op_position_id :: string
  op_tx_hash :: string
  op_status :: op_status
  op_created_at :: int
  op_last_update :: int
  op_error :: "trade_error option"

text \<open>
  A line of the log is a complete operation, or \<open>None\<close> for a line that does not parse. An
  append that fails (\<open>disk = False\<close>) is only logged.
\<close>

record op_service =
  os_store :: "(string, operation) dict"
  os_file :: "operation option list"

definition op_service_init :: "operation option list \<Rightarrow> op_service" where
  "op_service_init file = \<lparr>os_store = [], os_file = file\<rparr>"

definition op_append :: "bool \<Rightarrow> operation \<Rightarrow> op_service \<Rightarrow> op_service" where
  [op_defs]: "op_append disk op s = (if disk then s\<lparr>os_file := os_file s @ [Some op]\<rparr> else s)"

definition REHYDRATE_MAX_LINES :: nat where
  "REHYDRATE_MAX_LINES = 5000"

definition rehydrate :: "op_service \<Rightarrow> op_service" where
  "rehydrate s =
     (let lines = os_file s;
          tail = (if length lines > REHYDRATE_MAX_LINES then drop (length lines - REHYDRATE_MAX_LINES) lines
                  else lines)
      in s\<lparr>os_store := fold (\<lambda>line st. case line of
             None \<Rightarrow> st
           | Some op \<Rightarrow> if op_id op \<noteq> [] then d_set (op_id op) op st else st) tail (os_store s)\<rparr>)"

definition op_create ::
  "bool \<Rightarrow> int \<Rightarrow> string \<Rightarrow> string \<Rightarrow> string \<Rightarrow> string \<Rightarrow> string \<Rightarrow> op_service \<Rightarrow> op_service" where
  [op_defs]: "op_create disk now oid kind venue symbol pid s =
     (let op = \<lparr>op_id = oid, op_kind = kind, op_venue = venue, op_symbol = symbol, op_position_id = pid,
                op_tx_hash = [], op_status = InProgress, op_created_at = now, op_last_update = now,
                op_error = None\<rparr>
      in op_append disk op (s\<lparr>os_store := d_set oid op (os_store s)\<rparr>))"

definition updated_op ::
  "int \<Rightarrow> op_status \<Rightarrow> string \<Rightarrow> string \<Rightarrow> trade_error option \<Rightarrow> operation \<Rightarrow> operation" where
  [op_defs]: "updated_op now status pid tx err op = op\<lparr>
     op_last_update := now, op_status := status,
     op_position_id := (if pid \<noteq> [] then pid else op_position_id op),
     op_tx_hash := (if tx \<noteq> [] then tx else op_tx_hash op),
     op_error := (case err of None \<Rightarrow> op_error op | Some m \<Rightarrow> Some m)\<rparr>"

definition op_update ::
  "bool \<Rightarrow> int \<Rightarrow> string \<Rightarrow> op_status \<Rightarrow> string \<Rightarrow> string \<Rightarrow> trade_error option \<Rightarrow> op_service \<Rightarrow> op_service" where
  [op_defs]: "op_update disk now oid status pid tx err s = (case d_get (os_store s) oid of
     None \<Rightarrow> s
   | Some op \<Rightarrow>
       (let op' = updated_op now status pid tx err op
        in op_append disk op' (s\<lparr>os_store := d_set oid op' (os_store s)\<rparr>)))"

definition op_get :: "op_service \<Rightarrow> string \<Rightarrow> operation option" where
  [op_defs]: "op_get s oid = d_get (os_store s) oid"

definition op_has :: "op_service \<Rightarrow> string \<Rightarrow> bool" where
  [op_defs]: "op_has s oid \<longleftrightarrow> d_has (os_store s) oid"

section \<open>The contract of an operation store\<close>

text \<open>
  What the order services use: creating an operation makes it findable and in progress, updating
  changes the status of that operation alone, and no call makes an operation disappear.
\<close>

locale operation_store =
  fixes create :: "string \<Rightarrow> string \<Rightarrow> string \<Rightarrow> string \<Rightarrow> string \<Rightarrow> 'o \<Rightarrow> 'o"
    and update :: "string \<Rightarrow> op_status \<Rightarrow> string \<Rightarrow> string \<Rightarrow> trade_error option \<Rightarrow> 'o \<Rightarrow> 'o"
    and get :: "'o \<Rightarrow> string \<Rightarrow> operation option"
  assumes get_create_same: "\<exists>op. get (create oid kind venue symbol pid s) oid = Some op \<and>
      op_status op = InProgress \<and> op_kind op = kind \<and> op_error op = None"
    and get_create_other: "oid' \<noteq> oid \<Longrightarrow> get (create oid kind venue symbol pid s) oid' = get s oid'"
    and get_update_same: "get s oid = Some op \<Longrightarrow>
      \<exists>op'. get (update oid st pid tx err s) oid = Some op' \<and> op_status op' = st \<and> op_kind op' = op_kind op \<and>
        (\<forall>m. err = Some m \<longrightarrow> op_error op' = Some m)"
    and get_update_other: "oid' \<noteq> oid \<or> get s oid = None \<Longrightarrow> get (update oid st pid tx err s) oid' = get s oid'"
begin

lemma create_known: "get (create oid kind venue symbol pid s) oid \<noteq> None"
  using get_create_same by (metis option.distinct(1))

lemma known_create: "get s oid \<noteq> None \<Longrightarrow> get (create oid2 kind venue symbol pid s) oid \<noteq> None"
  by (cases "oid = oid2") (use create_known get_create_other in auto)

lemma known_update: "get s oid \<noteq> None \<longleftrightarrow> get (update oid2 st pid tx err s) oid \<noteq> None"
proof (cases "oid \<noteq> oid2 \<or> get s oid2 = None")
  case True
  then show ?thesis using get_update_other by (metis (full_types))
next
  case False
  then obtain op where "get s oid = Some op" "oid = oid2" by auto
  then show ?thesis using get_update_same [of s oid op st pid tx err] by auto
qed

text \<open>An operation that is created and then settled ends in the settled status.\<close>

lemma settle_after_create:
  "\<exists>op. get (update oid st pid tx err (create oid kind venue symbol pid0 s)) oid = Some op \<and>
     op_status op = st \<and> op_kind op = kind"
  using get_create_same [of oid kind venue symbol pid0 s] get_update_same by blast

end

interpretation ops: operation_store "op_create disk now" "op_update disk now" op_get
  for disk now
  by unfold_locales (auto simp: op_defs Let_def split: option.splits)

section \<open>Restarting\<close>

text \<open>
  A run of the service from an empty store: creations under fresh identifiers that are not
  empty, and updates, with a working disk.
\<close>

inductive op_run :: "op_service \<Rightarrow> bool" where
  op_run_init: "op_run (op_service_init [])"
| op_run_create: "op_run s \<Longrightarrow> oid \<noteq> [] \<Longrightarrow> op_get s oid = None \<Longrightarrow>
     op_run (op_create True now oid kind venue symbol pid s)"
| op_run_update: "op_run s \<Longrightarrow> op_run (op_update True now oid st pid tx err s)"

inductive_cases op_run_cases: "op_run s"

definition replay :: "operation option list \<Rightarrow> (string, operation) dict \<Rightarrow> (string, operation) dict" where
  "replay lines st = fold (\<lambda>line st. case line of
     None \<Rightarrow> st | Some op \<Rightarrow> if op_id op \<noteq> [] then d_set (op_id op) op st else st) lines st"

lemma replay_append: "replay (xs @ ys) st = replay ys (replay xs st)"
  by (simp add: replay_def)

lemma replay_snoc: "op_id op \<noteq> [] \<Longrightarrow> replay (xs @ [Some op]) st = d_set (op_id op) op (replay xs st)"
  by (simp add: replay_def)

definition op_log_inv :: "op_service \<Rightarrow> bool" where
  [inv_defs]: "op_log_inv s \<longleftrightarrow> replay (os_file s) [] = os_store s \<and>
     (\<forall>(k, op) \<in> set (os_store s). op_id op = k \<and> k \<noteq> []) \<and> dict_wf (os_store s) \<and>
     (\<forall>line \<in> set (os_file s). \<exists>op. line = Some op \<and> op_id op \<noteq> [])"

lemma op_log_inv_set:
  assumes "op_log_inv s" "op_id op = oid" "oid \<noteq> []"
  shows "op_log_inv (op_append True op (s\<lparr>os_store := d_set oid op (os_store s)\<rparr>))"
  using assms d_set_all [of "os_store s" "\<lambda>(k, op). op_id op = k \<and> k \<noteq> []" oid op]
  by (simp add: op_log_inv_def op_append_def replay_snoc)

lemma op_run_log_inv: "op_run s \<Longrightarrow> op_log_inv s"
proof (induction rule: op_run.induct)
  case op_run_init
  then show ?case by (simp add: op_log_inv_def op_service_init_def replay_def)
next
  case (op_run_create s oid now kind venue symbol pid)
  then show ?case unfolding op_create_def Let_def by (intro op_log_inv_set) simp_all
next
  case (op_run_update s now oid st pid tx err)
  show ?case
  proof (cases "d_get (os_store s) oid")
    case (Some op)
    then have "op_id op = oid" "oid \<noteq> []"
      using op_run_update.IH by (auto simp: op_log_inv_def dest!: d_get_in)
    then have "op_log_inv (op_append True (updated_op now st pid tx err op)
        (s\<lparr>os_store := d_set oid (updated_op now st pid tx err op) (os_store s)\<rparr>))"
      by (intro op_log_inv_set [OF op_run_update.IH]) (simp_all add: updated_op_def)
    then show ?thesis using Some by (simp add: op_update_def Let_def)
  qed (use op_run_update.IH in \<open>simp add: op_update_def\<close>)
qed

lemma rehydrate_replay:
  "os_store (rehydrate (op_service_init file)) =
     replay (drop (length file - REHYDRATE_MAX_LINES) file) []"
  by (simp add: rehydrate_def replay_def op_service_init_def Let_def)

lemma replay_get:
  "d_get (replay lines st) oid =
     (case find (\<lambda>line. \<exists>op. line = Some op \<and> op_id op = oid \<and> oid \<noteq> []) (rev lines) of
        Some (Some op) \<Rightarrow> Some op | _ \<Rightarrow> d_get st oid)"
  by (induction lines rule: rev_induct) (auto simp: replay_def split: option.splits)

end
