(* ===== verification/Trading.thy ===== *)
theory Trading
  imports Operations PaperVenue_Inv
begin

text \<open>
  The trading core (\<open>application/trading/trading_core.py\<close>), the best-effort reconciliation
  after an order (\<open>application/services/reconcile.py\<close>) and the order services
  (\<open>order_open_service.py\<close>, \<open>order_close_service.py\<close>). The venue is an adapter over a state
  type \<open>'s\<close>, the operation store a port over a state type \<open>'o\<close>.
\<close>

section \<open>Requests and results\<close>

record open_req =
  oq_venue :: string
  oq_symbol :: string
  oq_side :: string
  oq_collateral :: pfloat
  oq_leverage :: pfloat
  oq_sl_price :: "pfloat option"
  oq_tp_price :: "pfloat option"
  oq_client_order_id :: "string option"

record close_req =
  cq_venue :: string
  cq_position_id :: string
  cq_percent :: pfloat
  cq_client_close_id :: "string option"

record order_open_result =
  oo_success :: bool
  oo_position_id :: string
  oo_order_id :: string
  oo_executed_price :: pfloat
  oo_executed_size :: pfloat
  oo_tx_hash :: string

datatype reconcile_log = ReconcileOk string | ReconcileWarn string

record 's trading_core =
  tc_factory :: "(string \<Rightarrow> 's adapter option) option"
  tc_reader :: "(string \<Rightarrow> gate_result result) option"
  tc_known_venues :: "string list"
  tc_mode :: string
  tc_env :: environ

section \<open>Reconciliation after an order\<close>

definition venue_id_text :: "position \<Rightarrow> string" where
  "venue_id_text p = (if py_truthy_str (p_venue_position_id p) then the (p_venue_position_id p) else [])"

definition id_matches :: "string \<Rightarrow> position \<Rightarrow> bool" where
  "id_matches pid_norm p \<longleftrightarrow> pid_norm \<noteq> [] \<and> venue_id_text p \<noteq> [] \<and> py_in pid_norm (venue_id_text p)"

definition reconcile_open :: "position list \<Rightarrow> string \<Rightarrow> string \<Rightarrow> reconcile_log" where
  "reconcile_open positions pid symbol =
     (if list_ex (\<lambda>p. id_matches (py_strip pid) p \<or> norm_symbol (p_symbol p) = norm_symbol symbol) positions
      then ReconcileOk pid else ReconcileWarn pid)"

definition reconcile_close :: "position list \<Rightarrow> string \<Rightarrow> reconcile_log" where
  "reconcile_close positions pid =
     (if list_ex (id_matches (py_strip pid)) positions then ReconcileWarn pid else ReconcileOk pid)"

section \<open>Trading core\<close>

definition get_adapter :: "'s trading_core \<Rightarrow> string \<Rightarrow> trade_error + 's adapter" where
  "get_adapter core venue = (case tc_factory core of
     None \<Rightarrow> Inl AdapterNotAvailable
   | Some factory \<Rightarrow> (case factory venue of
       Some ad \<Rightarrow> Inr ad
     | None \<Rightarrow> Inl (VenueNotConfigured venue (filter (\<lambda>v. factory v \<noteq> None) (tc_known_venues core)))))"

definition gate_guard :: "'s trading_core \<Rightarrow> string \<Rightarrow> trade_error + unit" where
  "gate_guard core symbol = (case tc_reader core of
     None \<Rightarrow> Inr ()
   | Some reader \<Rightarrow> (case assert_data_quality_ok reader symbol of
       Inl reason \<Rightarrow> Inl (DataQualityBad symbol reason) | Inr _ \<Rightarrow> Inr ()))"

definition live_guard :: "'s trading_core \<Rightarrow> open_req \<Rightarrow> trade_error + unit" where
  "live_guard core req =
     (if is_live_mode (tc_mode core)
      then sbind (assert_live_trading_enabled (tc_env core) (tc_mode core)) (\<lambda>_.
           sbind (assert_order_caps_ok (tc_env core) (oq_collateral req) (oq_leverage req)) (\<lambda>_.
           assert_symbol_allowed (tc_env core) (oq_symbol req)))
      else Inr ())"

definition open_args_of :: "open_req \<Rightarrow> open_args" where
  "open_args_of req = \<lparr>oa_symbol = oq_symbol req, oa_is_long = (py_lower (oq_side req) = ''long''),
     oa_collateral = oq_collateral req, oa_leverage = oq_leverage req, oa_sl_price = oq_sl_price req,
     oa_tp_price = oq_tp_price req, oa_client_order_id = oq_client_order_id req\<rparr>"

definition normal_position_id :: "string \<Rightarrow> string \<Rightarrow> string" where
  "normal_position_id venue pid =
     (if pid \<noteq> [] \<and> venue = ''paper'' \<and> CHR '':'' \<notin> set pid then ''paper:'' @ pid else pid)"

definition opt_or :: "'a \<Rightarrow> 'a option \<Rightarrow> 'a" where
  "opt_or d v = (case v of None \<Rightarrow> d | Some x \<Rightarrow> x)"

definition open_result_of :: "string \<Rightarrow> order_result \<Rightarrow> order_open_result" where
  "open_result_of pid r = \<lparr>oo_success = or_success r, oo_position_id = pid,
     oo_order_id = opt_or [] (or_order_id r), oo_executed_price = opt_or 0 (or_executed_price r),
     oo_executed_size = opt_or 0 (or_executed_size r), oo_tx_hash = opt_or [] (or_tx_hash r)\<rparr>"

text \<open>The guards in the order the code runs them; \<open>s\<close> is only read.\<close>

definition open_guards :: "'s trading_core \<Rightarrow> open_req \<Rightarrow> 's \<Rightarrow> trade_error + 's adapter" where
  "open_guards core req s =
     (let venue = resolve_effective_venue (tc_env core) (oq_venue req) (oq_symbol req) in
      sbind (gate_guard core (oq_symbol req)) (\<lambda>_.
      sbind (live_guard core req) (\<lambda>_.
      sbind (get_adapter core venue) (\<lambda>ad.
      sbind (assert_no_open_position_for_symbol (ad_positions ad s) (oq_symbol req) venue) (\<lambda>_.
      Inr ad)))))"

definition open_order ::
  "'s trading_core \<Rightarrow> open_req \<Rightarrow> 's \<Rightarrow> 's \<times> (trade_error + order_open_result) \<times> reconcile_log list" where
  "open_order core req s = (case open_guards core req s of
     Inl err \<Rightarrow> (s, Inl err, [])
   | Inr ad \<Rightarrow> (case ad_open ad (open_args_of req) s of
       (s', Inl err) \<Rightarrow> (s', Inl (VenueError err), [])
     | (s', Inr r) \<Rightarrow>
         (let venue = resolve_effective_venue (tc_env core) (oq_venue req) (oq_symbol req);
              pid = normal_position_id venue (or_position_id r)
          in (s', Inr (open_result_of pid r), [reconcile_open (ad_positions ad s') pid (oq_symbol req)]))))"

definition close_position_id :: "close_req \<Rightarrow> string" where
  "close_position_id req =
     (if CHR '':'' \<notin> set (cq_position_id req) \<and> cq_venue req = ''lighter''
      then ''lighter:'' @ cq_position_id req else cq_position_id req)"

definition close_order ::
  "'s trading_core \<Rightarrow> close_req \<Rightarrow> 's \<Rightarrow> 's \<times> (trade_error + bool) \<times> reconcile_log list" where
  "close_order core req s = (case sbind
       (if is_live_mode (tc_mode core) then assert_live_trading_enabled (tc_env core) (tc_mode core) else Inr ())
       (\<lambda>_. get_adapter core (cq_venue req)) of
     Inl err \<Rightarrow> (s, Inl err, [])
   | Inr ad \<Rightarrow> (case ad_close ad (close_position_id req) s of
       (s', Inl err) \<Rightarrow> (s', Inl (VenueError err), [])
     | (s', Inr ok) \<Rightarrow> (s', Inr ok, [reconcile_close (ad_positions ad s') (close_position_id req)])))"

section \<open>Order services\<close>

record 'o op_port =
  po_create :: "string \<Rightarrow> string \<Rightarrow> string \<Rightarrow> string \<Rightarrow> string \<Rightarrow> 'o \<Rightarrow> 'o"
  po_update :: "string \<Rightarrow> op_status \<Rightarrow> string \<Rightarrow> string \<Rightarrow> trade_error option \<Rightarrow> 'o \<Rightarrow> 'o"
  po_get :: "'o \<Rightarrow> string \<Rightarrow> operation option"

definition op_service_port :: "bool \<Rightarrow> int \<Rightarrow> op_service op_port" where
  "op_service_port disk now = \<lparr>po_create = op_create disk now, po_update = op_update disk now, po_get = op_get\<rparr>"

lemma op_service_port_simps [simp]:
  "po_create (op_service_port disk now) = op_create disk now"
  "po_update (op_service_port disk now) = op_update disk now"
  "po_get (op_service_port disk now) = op_get"
  by (simp_all add: op_service_port_def)

text \<open>
  The state the order services share with the venue: the venue's state, the operation store, the
  two idempotency caches and the background tasks that were started and have not run yet.
\<close>

record ('s, 'o) order_state =
  st_venue :: 's
  st_ops :: 'o
  st_open_cache :: "(string, string) dict"
  st_close_cache :: "(string \<times> string \<times> string, bool) dict"
  st_open_tasks :: "(string \<times> open_req) list"
  st_close_tasks :: "(string \<times> close_req) list"

definition client_id :: "string option \<Rightarrow> string" where
  "client_id c = (case c of None \<Rightarrow> [] | Some s \<Rightarrow> s)"

definition get_cached_open :: "'o op_port \<Rightarrow> string \<Rightarrow> ('s, 'o) order_state \<Rightarrow> string option" where
  "get_cached_open port cid st =
     (if cid = [] then None
      else (case d_get (st_open_cache st) cid of
        None \<Rightarrow> None
      | Some oid \<Rightarrow> if po_get port (st_ops st) oid \<noteq> None then Some oid else None))"

definition fast_ack_open ::
  "'o op_port \<Rightarrow> string \<Rightarrow> open_req \<Rightarrow> ('s, 'o) order_state \<Rightarrow> ('s, 'o) order_state \<times> string" where
  "fast_ack_open port new_oid body st =
     (let cid = py_strip (client_id (oq_client_order_id body)) in
      case get_cached_open port cid st of
        Some oid \<Rightarrow> (st, oid)
      | None \<Rightarrow>
          (st\<lparr>st_ops := po_create port new_oid ''open'' (oq_venue body) (oq_symbol body) [] (st_ops st),
              st_open_cache := (if cid \<noteq> [] then d_set cid new_oid (st_open_cache st) else st_open_cache st),
              st_open_tasks := st_open_tasks st @ [(new_oid, body)]\<rparr>, new_oid))"

text \<open>The background task of an opening: any exception ends in the operation's status.\<close>

definition run_open_operation ::
  "'s trading_core \<Rightarrow> 'o op_port \<Rightarrow> string \<Rightarrow> open_req \<Rightarrow> ('s, 'o) order_state \<Rightarrow> ('s, 'o) order_state" where
  "run_open_operation core port oid body st =
     (case open_order core body (st_venue st) of
        (s', Inr res, _) \<Rightarrow> st\<lparr>st_venue := s',
          st_ops := po_update port oid Confirmed (oo_position_id res) (oo_tx_hash res) None (st_ops st)\<rparr>
      | (s', Inl err, _) \<Rightarrow> st\<lparr>st_venue := s', st_ops := po_update port oid Failed [] [] (Some err) (st_ops st)\<rparr>)"

definition run_next_open ::
  "'s trading_core \<Rightarrow> 'o op_port \<Rightarrow> ('s, 'o) order_state \<Rightarrow> ('s, 'o) order_state" where
  "run_next_open core port st = (case st_open_tasks st of
     [] \<Rightarrow> st
   | (oid, body) # ts \<Rightarrow> run_open_operation core port oid body (st\<lparr>st_open_tasks := ts\<rparr>))"

definition cached_close :: "close_req \<Rightarrow> ('s, 'o) order_state \<Rightarrow> bool option" where
  "cached_close body st =
     (let cid = client_id (cq_client_close_id body) in
      if cid = [] then None else d_get (st_close_cache st) (cq_venue body, cq_position_id body, cid))"

definition cache_close ::
  "close_req \<Rightarrow> bool \<Rightarrow> ('s, 'o) order_state \<Rightarrow> ('s, 'o) order_state" where
  "cache_close body ok st =
     (let cid = client_id (cq_client_close_id body) in
      if cid = [] then st
      else st\<lparr>st_close_cache := d_set (cq_venue body, cq_position_id body, cid) ok (st_close_cache st)\<rparr>)"

definition run_close ::
  "'s trading_core \<Rightarrow> 'o op_port \<Rightarrow> string \<Rightarrow> close_req \<Rightarrow> ('s, 'o) order_state
     \<Rightarrow> ('s, 'o) order_state \<times> (trade_error + bool)" where
  "run_close core port oid body st =
     (case close_order core body (st_venue st) of
        (s', Inr ok, _) \<Rightarrow>
          (cache_close body ok (st\<lparr>st_venue := s',
             st_ops := po_update port oid Confirmed (cq_position_id body) [] None (st_ops st)\<rparr>), Inr ok)
      | (s', Inl err, _) \<Rightarrow>
          (st\<lparr>st_venue := s', st_ops := po_update port oid Failed [] [] (Some err) (st_ops st)\<rparr>, Inl err))"

datatype close_response = Completed bool | Raised trade_error | Accepted string

text \<open>
  \<open>close_with_timeout\<close>: \<open>in_time\<close> says whether the task finished before the timeout; when it
  did not, it goes on in the background.
\<close>

definition close_with_timeout ::
  "'s trading_core \<Rightarrow> 'o op_port \<Rightarrow> bool \<Rightarrow> string \<Rightarrow> close_req \<Rightarrow> ('s, 'o) order_state
     \<Rightarrow> ('s, 'o) order_state \<times> close_response" where
  "close_with_timeout core port in_time new_oid body st = (case cached_close body st of
     Some ok \<Rightarrow> (st, Completed ok)
   | None \<Rightarrow>
       (let st1 = st\<lparr>st_ops := po_create port new_oid ''close'' (cq_venue body) [] (cq_position_id body) (st_ops st)\<rparr>
        in if in_time
           then (case run_close core port new_oid body st1 of
                   (st2, Inr ok) \<Rightarrow> (st2, Completed ok)
                 | (st2, Inl err) \<Rightarrow> (st2, Raised err))
           else (st1\<lparr>st_ops := po_update port new_oid Pending (cq_position_id body) [] None (st_ops st1),
                     st_close_tasks := st_close_tasks st1 @ [(new_oid, body)]\<rparr>, Accepted new_oid)))"

definition run_next_close ::
  "'s trading_core \<Rightarrow> 'o op_port \<Rightarrow> ('s, 'o) order_state \<Rightarrow> ('s, 'o) order_state" where
  "run_next_close core port st = (case st_close_tasks st of
     [] \<Rightarrow> st
   | (oid, body) # ts \<Rightarrow> fst (run_close core port oid body (st\<lparr>st_close_tasks := ts\<rparr>)))"

section \<open>What the guards guarantee\<close>

lemma open_guards_Inr:
  assumes "open_guards core req s = Inr ad"
  shows "gate_guard core (oq_symbol req) = Inr ()" "live_guard core req = Inr ()"
    "get_adapter core (resolve_effective_venue (tc_env core) (oq_venue req) (oq_symbol req)) = Inr ad"
    "norm_symbol (oq_symbol req) \<notin> set (map (norm_symbol \<circ> p_symbol) (ad_positions ad s))"
  using assms by (auto simp: open_guards_def Let_def sbind_eq_Inr no_open_position_iff)

lemma get_adapter_Inr:
  "get_adapter core venue = Inr ad \<longleftrightarrow> (\<exists>factory. tc_factory core = Some factory \<and> factory venue = Some ad)"
  by (auto simp: get_adapter_def split: option.splits)

lemma live_guard_Inr:
  "live_guard core req = Inr () \<longleftrightarrow> (is_live_mode (tc_mode core) \<longrightarrow>
     enable_live_trading_from_env (tc_env core) \<and>
     (0 < max_collateral_usd_from_env (tc_env core) \<longrightarrow> oq_collateral req \<le> max_collateral_usd_from_env (tc_env core)) \<and>
     (0 < max_leverage_from_env (tc_env core) \<longrightarrow> oq_leverage req \<le> max_leverage_from_env (tc_env core)) \<and>
     (live_symbol_allowlist_from_env (tc_env core) = [] \<or>
       norm_symbol (oq_symbol req) \<in> set (live_symbol_allowlist_from_env (tc_env core))))"
  by (auto simp: live_guard_def sbind_eq_Inr live_enabled_iff order_caps_iff symbol_allowed_iff)

lemma gate_guard_Inr:
  "gate_guard core symbol = Inr () \<longleftrightarrow>
     (\<forall>reader. tc_reader core = Some reader \<longrightarrow> (\<exists>gate. reader symbol = Inr gate \<and> g_ok gate))"
  by (auto simp: gate_guard_def assert_data_quality_ok_def split: option.splits sum.splits)

lemma open_order_Inr:
  assumes "open_order core req s = (s', Inr res, lg)"
  obtains ad r where "open_guards core req s = Inr ad" "ad_open ad (open_args_of req) s = (s', Inr r)"
    "oo_success res = or_success r"
    "oo_position_id res = normal_position_id
       (resolve_effective_venue (tc_env core) (oq_venue req) (oq_symbol req)) (or_position_id r)"
  using assms
  by (auto simp: open_order_def Let_def open_result_of_def split: sum.splits prod.splits)

lemma internal_normal_id:
  "internal_id (normal_position_id venue (paper_pid uid)) = paper_pid uid"
  using internal_id_engine [of uid] internal_id_paper [of "paper_pid uid"]
  by (simp add: normal_position_id_def del: append_Cons append.simps)

section \<open>The core over any venue\<close>

text \<open>
  A core that trades on one venue only, whatever the venue: no operation of the core makes two
  open positions share a symbol.
\<close>

definition only_adapter :: "'s trading_core \<Rightarrow> 's adapter \<Rightarrow> bool" where
  "only_adapter core ad \<longleftrightarrow> (\<forall>venue ad'. get_adapter core venue = Inr ad' \<longrightarrow> ad' = ad)"

context venue_positions
begin

lemma open_order_distinct:
  assumes "inv s" "distinct (map (norm_symbol \<circ> p_symbol) (ad_positions ad s))" "only_adapter core ad"
    and "admissible (open_args_of req) s" "norm_symbol (csym (oq_symbol req)) = norm_symbol (oq_symbol req)"
    and "open_order core req s = (s', r, lg)"
  shows "inv s' \<and> distinct (map (norm_symbol \<circ> p_symbol) (ad_positions ad s'))"
proof (cases "open_guards core req s")
  case (Inl err)
  with assms show ?thesis by (simp add: open_order_def)
next
  case (Inr ad')
  note g = open_guards_Inr [OF Inr]
  have ad: "ad' = ad" using assms(3) g(3) unfolding only_adapter_def by blast
  obtain r0 where o: "ad_open ad (open_args_of req) s = (s', r0)"
    using assms(6) Inr by (auto simp: open_order_def ad Let_def split: sum.splits prod.splits)
  show ?thesis
    by (rule open_distinct_symbols [OF assms(1) o assms(4,2)])
      (use g(4) assms(5) in \<open>simp add: ad open_args_of_def\<close>)
qed

lemma close_order_distinct:
  assumes "inv s" "distinct (map (norm_symbol \<circ> p_symbol) (ad_positions ad s))" "only_adapter core ad"
    and "close_order core req s = (s', r, lg)"
  shows "inv s' \<and> distinct (map (norm_symbol \<circ> p_symbol) (ad_positions ad s'))"
proof (cases "\<exists>b. ad_close ad (close_position_id req) s = (s', b)")
  case True
  with close_distinct_symbols assms(1,2) show ?thesis by blast
next
  case False
  then have "s' = s"
    using assms(3,4) unfolding only_adapter_def
    by (auto simp: close_order_def sbind_def split: sum.splits prod.splits if_splits)
  with assms(1,2) show ?thesis by simp
qed

end

end
