(* ===== verification/Trading_Props.thy ===== *)
theory Trading_Props
  imports Trading PaperVenue_Props
begin

text \<open>Properties of the trading core, the operation store and the order services.\<close>

section \<open>Guards\<close>

text \<open>
  C9. Nothing reaches a venue unless every guard agrees: when opening an order changes the venue
  or returns a result, the venue used is the requested one or the paper venue in its place, the
  data quality gate (if a reader is wired) answered and passed, in live mode the kill switch is
  on and the order is within the collateral and leverage caps and the symbol allowlist, and no
  position for the symbol (up to case and blanks) was open there.
\<close>

theorem open_order_guarded:
  fixes core :: "'s trading_core" and req :: open_req and s :: 's
  assumes "open_order core req s = (s', r, lg)" "s' \<noteq> s \<or> (\<exists>res. r = Inr res)"
  shows "\<exists>factory ad v. tc_factory core = Some factory \<and> factory v = Some ad \<and>
    (v = oq_venue req \<or> oq_venue req = ''ostium'' \<and> v = ''paper'') \<and>
    norm_symbol (oq_symbol req) \<notin> set (map (norm_symbol \<circ> p_symbol) (ad_positions ad s)) \<and>
    (\<forall>reader. tc_reader core = Some reader \<longrightarrow> (\<exists>gate. reader (oq_symbol req) = Inr gate \<and> g_ok gate)) \<and>
    (is_live_mode (tc_mode core) \<longrightarrow> enable_live_trading_from_env (tc_env core) \<and>
       (0 < max_collateral_usd_from_env (tc_env core) \<longrightarrow> oq_collateral req \<le> max_collateral_usd_from_env (tc_env core)) \<and>
       (0 < max_leverage_from_env (tc_env core) \<longrightarrow> oq_leverage req \<le> max_leverage_from_env (tc_env core)) \<and>
       (live_symbol_allowlist_from_env (tc_env core) = [] \<or>
          norm_symbol (oq_symbol req) \<in> set (live_symbol_allowlist_from_env (tc_env core))))"
proof -
  obtain ad where ad: "open_guards core req s = Inr ad"
    using assms by (cases "open_guards core req s") (auto simp: open_order_def)
  note g = open_guards_Inr [OF ad]
  then show ?thesis
    using effective_venue_cases [of "tc_env core" "oq_venue req" "oq_symbol req"]
    unfolding get_adapter_Inr live_guard_Inr gate_guard_Inr by blast
qed

section \<open>A trading desk on the paper venue\<close>

definition paper_core ::
  "environ \<Rightarrow> (string \<Rightarrow> gate_result result) option \<Rightarrow> string \<Rightarrow> engine adapter \<Rightarrow> engine trading_core" where
  "paper_core env reader mode ad = \<lparr>tc_factory = Some (\<lambda>v. if v = ''paper'' then Some ad else None),
     tc_reader = reader, tc_known_venues = [''paper'', ''ostium'', ''lighter'', ''gtrade''],
     tc_mode = mode, tc_env = env\<rparr>"

lemma paper_core_adapter:
  "get_adapter (paper_core env reader mode ad) v = Inr ad' \<Longrightarrow> ad' = ad \<and> v = ''paper''"
  by (auto simp: get_adapter_Inr paper_core_def split: if_splits)

text \<open>
  The desk: openings and closings, each completed before the next, interleaved with turns of the
  risk loop, from an empty account.
\<close>

inductive desk_run :: "engine \<Rightarrow> bool" where
  desk_init: "desk_run (engine_init bal slip tz hub)"
| desk_open: "desk_run e \<Longrightarrow> venue_admissible src uid (open_args_of req) e \<Longrightarrow>
     open_order (paper_core env reader mode (paper_adapter src id now uid ac)) req e = (e', r, lg) \<Longrightarrow> desk_run e'"
| desk_close: "desk_run e \<Longrightarrow>
     close_order (paper_core env reader mode (paper_adapter src id now uid ac)) creq e = (e', b, lg) \<Longrightarrow> desk_run e'"
| desk_risk: "desk_run e \<Longrightarrow> desk_run (risk_turn k src now e)"

lemma distinct_values_iff:
  assumes "dict_wf d"
  shows "distinct (map g (d_values d)) \<longleftrightarrow>
    (\<forall>k1 k2 v1 v2. d_get d k1 = Some v1 \<longrightarrow> d_get d k2 = Some v2 \<longrightarrow> g v1 = g v2 \<longrightarrow> k1 = k2)"
proof -
  have dd: "distinct d" using assms distinct_map by (auto simp: dict_wf_def)
  have "distinct (map g (d_values d)) \<longleftrightarrow> inj_on (g \<circ> snd) (set d)"
    using dd distinct_map [of "g \<circ> snd" d] by simp
  also have "\<dots> \<longleftrightarrow> (\<forall>(k1, v1) \<in> set d. \<forall>(k2, v2) \<in> set d. g v1 = g v2 \<longrightarrow> k1 = k2)"
  proof
    assume "inj_on (g \<circ> snd) (set d)"
    then show "\<forall>(k1, v1) \<in> set d. \<forall>(k2, v2) \<in> set d. g v1 = g v2 \<longrightarrow> k1 = k2"
      by (fastforce simp: inj_on_def)
  next
    assume a: "\<forall>(k1, v1) \<in> set d. \<forall>(k2, v2) \<in> set d. g v1 = g v2 \<longrightarrow> k1 = k2"
    show "inj_on (g \<circ> snd) (set d)"
    proof (rule inj_onI, clarify)
      fix k1 v1 k2 v2
      assume m: "(k1, v1) \<in> set d" "(k2, v2) \<in> set d" "(g \<circ> snd) (k1, v1) = (g \<circ> snd) (k2, v2)"
      then have "k1 = k2" using a by fastforce
      moreover from this have "v1 = v2"
        using m d_in_get [OF assms] by (metis option.inject)
      ultimately show "k1 = k2 \<and> v1 = v2" by simp
    qed
  qed
  finally show ?thesis using d_in_iff_get [OF assms] by fastforce
qed

definition desk_inv :: "engine \<Rightarrow> bool" where
  [inv_defs]: "desk_inv e \<longleftrightarrow> venue_inv e \<and> distinct (map (norm_symbol \<circ> p_symbol) (get_all_positions e))"

lemma risk_outcome_symbol: "risk_outcome prices ratio p = Some q \<Longrightarrow> p_symbol q = p_symbol p"
  by (auto simp: risk_outcome_def split: option.splits if_splits)

lemma risk_turn_desk_inv:
  assumes "desk_inv e"
  shows "desk_inv (risk_turn k src now e)"
proof -
  let ?e' = "risk_turn k src now e"
  have ok: "engine_ok e" using assms by (simp add: inv_defs)
  note t = risk_turn_get [OF ok, of k src now]
  have sub: "\<exists>p. d_get (e_positions e) pid = Some p \<and> p_symbol q = p_symbol p"
    if q: "d_get (e_positions ?e') pid = Some q" for pid q
  proof -
    obtain p where p: "d_get (e_positions e) pid = Some p" "turn_outcome k src now (e_tz e) p = Some q"
      using q by (auto simp: t bind_eq_Some_conv)
    then show ?thesis using turn_outcome_Some(1) risk_outcome_symbol by blast
  qed
  have "[] \<notin> set (d_keys (e_positions ?e'))"
    using assms sub unfolding desk_inv_def venue_inv_def d_keys_iff by fastforce
  moreover have "distinct (map (norm_symbol \<circ> p_symbol) (get_all_positions ?e'))"
    using assms sub engine_ok_dict_wf [OF ok] engine_ok_dict_wf [of ?e'] t
    unfolding desk_inv_def get_all_positions_def by (simp add: distinct_values_iff del: map_map) (metis comp_apply)
  ultimately show ?thesis using t by (simp add: inv_defs)
qed

lemma paper_core_only: "only_adapter (paper_core env reader mode ad) ad"
  unfolding only_adapter_def using paper_core_adapter by metis

lemma open_order_desk_inv:
  assumes "desk_inv e" "venue_admissible src uid (open_args_of req) e"
    and "open_order (paper_core env reader mode (paper_adapter src id now uid ac)) req e = (e', r, lg)"
  shows "desk_inv e'"
  using paper.open_order_distinct [OF _ _ paper_core_only _ _ assms(3)] assms(1,2) by (simp add: desk_inv_def)

lemma close_order_desk_inv:
  assumes "desk_inv e"
    and "close_order (paper_core env reader mode (paper_adapter src id now uid ac)) creq e = (e', b, lg)"
  shows "desk_inv e'"
  using paper.close_order_distinct [OF _ _ paper_core_only assms(2)] assms(1) by (simp add: desk_inv_def)

lemma desk_run_inv: "desk_run e \<Longrightarrow> desk_inv e"
proof (induction rule: desk_run.induct)
  case (desk_init bal slip tz hub)
  then show ?case by (simp add: inv_defs get_all_positions_def) (simp add: engine_init_def)
qed (blast intro: open_order_desk_inv close_order_desk_inv risk_turn_desk_inv)+

text \<open>
  C10. One position per symbol: however openings (each completed before the next starts),
  closings and risk loop turns are mixed on the paper venue, no two open positions ever have
  the same symbol up to case and blanks.
\<close>

theorem one_position_per_symbol:
  assumes "desk_run e"
  shows "distinct (map (\<lambda>p. norm_symbol (p_symbol p)) (get_all_positions e)) \<and>
    distinct (map position_id (get_all_positions e))"
proof -
  have "desk_inv e" using assms by (rule desk_run_inv)
  then show ?thesis
    using paper.ids_distinct [of e] by (simp add: desk_inv_def o_def)
qed

section \<open>A concrete desk\<close>

definition desk_order :: open_req where
  "desk_order = \<lparr>oq_venue = ''paper'', oq_symbol = ''EURUSD'', oq_side = ''long'', oq_collateral = 100,
     oq_leverage = 10, oq_sl_price = None, oq_tp_price = None, oq_client_order_id = Some ''c1''\<rparr>"

definition desk_core :: "(engine \<Rightarrow> engine) \<Rightarrow> string \<Rightarrow> engine trading_core" where
  "desk_core env uid = paper_core (\<lambda>_. None) None ''paper'' (paper_adapter (flat_price 2) env (demo_time 1000) uid [])"

lemma desk_core_adapter: "get_adapter (desk_core env uid) ''paper'' =
    Inr (paper_adapter (flat_price 2) env (demo_time 1000) uid [])"
  by (simp add: get_adapter_def desk_core_def paper_core_def)

lemma desk_core_guards:
  assumes "''EURUSD'' \<notin> set (map (norm_symbol \<circ> p_symbol) (get_all_positions e))"
    and "oq_venue req = ''paper''" "oq_symbol req = ''EURUSD''"
  shows "open_guards (desk_core env uid) req e = Inr (paper_adapter (flat_price 2) env (demo_time 1000) uid [])"
proof -
  have n: "norm_symbol ''EURUSD'' = ''EURUSD''" by code_simp
  have m: "\<not> is_live_mode ''paper''" by code_simp
  have "assert_no_open_position_for_symbol (get_all_positions e) ''EURUSD'' v = Inr ()" for v
    using assms(1) by (simp add: no_open_position_iff n)
  then show ?thesis
    unfolding open_guards_def
    by (simp add: assms(2,3) resolve_effective_venue_def desk_core_adapter)
       (simp add: desk_core_def paper_core_def gate_guard_def live_guard_def m)
qed

lemma desk_order_simps [simp]:
  "oq_venue desk_order = ''paper''" "oq_symbol desk_order = ''EURUSD''"
  "oq_client_order_id desk_order = Some ''c1''" "oq_collateral desk_order = 100" "oq_leverage desk_order = 10"
  by (simp_all add: desk_order_def)

lemma desk_core_open:
  assumes "''EURUSD'' \<notin> set (map (norm_symbol \<circ> p_symbol) (get_all_positions e))" "100 \<le> e_balance (env e)"
  shows "\<exists>res lg. open_order (desk_core env uid) desk_order e =
      (fst (open_position (open_request (open_args_of desk_order)) ''c1'' 2 None (demo_time 1000) uid (env e)), Inr res, lg)
    \<and> oo_success res"
proof -
  let ?o = "open_position (open_request (open_args_of desk_order)) ''c1'' 2 None (demo_time 1000) uid (env e)"
  have cm: "for_gtrade_symbol (rq_symbol (open_request (open_args_of desk_order))) = Inr eurusd_fees"
    by (simp add: open_request_def open_args_of_def desk_order_def for_gtrade_symbol_eurusd)
  have "rq_collateral (open_request (open_args_of desk_order)) \<le> e_balance (env e)"
    using assms(2) by (simp add: open_request_def open_args_of_def desk_order_def)
  then have suc: "or_success (snd ?o)" by (rule open_position_accepted(1) [OF _ cm])
  have "venue_open (flat_price 2) env (demo_time 1000) uid [] (open_args_of desk_order) e =
      (fst ?o, Inr ((snd ?o)\<lparr>or_fees_breakdown := None\<rparr>))"
    using suc by (simp add: venue_open_def flat_price_def Let_def split_def py_truthy_str_def
        open_args_of_def desk_order_def)
  then show ?thesis
    using suc by (simp add: open_order_def desk_core_guards [OF assms(1) desk_order_simps(1,2)] Let_def open_result_of_def)
qed

lemma demo_engine_empty [simp]: "get_all_positions demo_engine = []" "e_positions demo_engine = []"
  "e_balance demo_engine = 10000" "e_trade_history demo_engine = []"
  by (simp_all add: get_all_positions_def demo_engine_def engine_init_def)

theorem open_order_guarded_witness:
  "\<exists>e' res lg. open_order (desk_core id ''a1'') desk_order demo_engine = (e', Inr res, lg) \<and>
     tc_factory (desk_core id ''a1'') \<noteq> None"
proof -
  obtain e' res lg where o: "open_order (desk_core id ''a1'') desk_order demo_engine = (e', Inr res, lg)"
    using desk_core_open [of demo_engine id "''a1''"] by auto
  have "e' \<noteq> demo_engine \<or> (\<exists>q. (Inr res :: trade_error + order_open_result) = Inr q)" by blast
  with open_order_guarded [OF o this] o show ?thesis by blast
qed

definition desk_engine :: "string \<Rightarrow> engine \<Rightarrow> engine" where
  "desk_engine uid e = fst (open_order (desk_core id uid) desk_order e)"

lemma desk_order_ok: "order_ok (open_request (open_args_of desk_order)) 2 demo_engine"
  unfolding order_ok_def
  by (intro conjI powi_minus_1000_le)
    (simp_all add: open_request_def open_args_of_def desk_order_def demo_engine_def engine_init_def)

theorem one_position_per_symbol_witness:
  "desk_run (desk_engine ''a1'' demo_engine) \<and>
   distinct (map (\<lambda>p. norm_symbol (p_symbol p)) (get_all_positions (desk_engine ''a1'' demo_engine)))"
proof -
  obtain e' res lg where o: "open_order (desk_core id ''a1'') desk_order demo_engine = (e', Inr res, lg)"
    using desk_core_open [of demo_engine id "''a1''"] by auto
  have adm: "venue_admissible (flat_price 2) ''a1'' (open_args_of desk_order) demo_engine"
    using desk_order_ok by (auto simp: venue_admissible_def fresh_uid_def flat_price_def)
  have "desk_run demo_engine" unfolding demo_engine_def by (rule desk_init)
  then have run: "desk_run e'" by (rule desk_open [OF _ adm o [unfolded desk_core_def]])
  then show ?thesis using one_position_per_symbol [OF run] by (simp add: desk_engine_def o)
qed

text \<open>
  The single position guard is not atomic: the guard reads the open positions before the
  venue waits for a price, so two identical openings that overlap both pass the guard, both
  succeed, and leave two open positions in the same symbol.
\<close>

theorem single_position_guard_race:
  "\<exists>e' res lg. open_order (desk_core (desk_engine ''b2'') ''a1'') desk_order demo_engine = (e', Inr res, lg) \<and>
     oo_success res \<and> map p_symbol (get_all_positions e') = [''EURUSD'', ''EURUSD'']"
proof -
  let ?req = "open_request (open_args_of desk_order)"
  let ?e1 = "fst (open_position ?req ''c1'' 2 None (demo_time 1000) ''b2'' demo_engine)"
  let ?e2 = "fst (open_position ?req ''c1'' 2 None (demo_time 1000) ''a1'' ?e1)"
  have cm: "for_gtrade_symbol (rq_symbol ?req) = Inr eurusd_fees"
    by (simp add: open_request_def open_args_of_def desk_order_def for_gtrade_symbol_eurusd)
  have req: "rq_collateral ?req = 100" "rq_leverage ?req = 10" "rq_symbol ?req = ''EURUSD''"
    by (simp_all add: open_request_def open_args_of_def desk_order_def)
  have e1: "desk_engine ''b2'' demo_engine = ?e1"
    using desk_core_open [of demo_engine id "''b2''"] by (auto simp: desk_engine_def)
  have aff: "rq_collateral ?req \<le> e_balance demo_engine" by (simp add: req)
  note acc = open_position_accepted [OF aff cm, of "''c1''" 2 None "demo_time 1000" "''b2''"]
  have "e_balance ?e1 = fsub 10000 (fadd 100 (of_total_entry_cost (calculate_open_fees eurusd_fees (fmul 100 10))))"
    by (simp add: acc(5) req)
  also have "100 \<le> \<dots>" by code_simp
  finally have bal: "100 \<le> e_balance ?e1" .
  have aff2: "rq_collateral ?req \<le> e_balance ?e1" using bal by (simp add: req)
  note acc2 = open_position_accepted [OF aff2 cm, of "''c1''" 2 None "demo_time 1000" "''a1''"]
  have "map p_symbol (get_all_positions ?e2) = [''EURUSD'', ''EURUSD'']"
    unfolding get_all_positions_def acc2(4) acc(4) by (simp add: paper_pid_def new_position_def req)
  moreover have "100 \<le> e_balance (desk_engine ''b2'' demo_engine)" using bal by (simp add: e1)
  ultimately show ?thesis
    using desk_core_open [of demo_engine "desk_engine ''b2''" "''a1''"] unfolding e1 by auto
qed

section \<open>Restarting the operation store\<close>

lemma find_append_found: "find P (xs @ ys) = (case find P xs of Some x \<Rightarrow> Some x | None \<Rightarrow> find P ys)"
  by (induction xs) auto

text \<open>
  C11. A restarted operation service knows what the old one knew: after any run with a working
  disk, rebuilding from the log gives the very same store while the log has at most 5000 lines,
  and with a longer log every operation written among the last 5000 lines is restored in its
  latest state and no other operation appears.
\<close>

theorem rehydrate_recovers:
  assumes "op_run s"
  defines "s' \<equiv> rehydrate (op_service_init (os_file s))"
  shows "(length (os_file s) \<le> 5000 \<longrightarrow> os_store s' = os_store s) \<and>
    (\<forall>oid. op_get s' oid =
       (if \<exists>op. Some op \<in> set (drop (length (os_file s) - 5000) (os_file s)) \<and> op_id op = oid
        then op_get s oid else None))"
proof -
  let ?f = "os_file s" and ?n = "length (os_file s) - 5000"
  have inv: "op_log_inv s" by (rule op_run_log_inv [OF assms(1)])
  have s': "os_store s' = replay (drop ?n ?f) []"
    by (simp add: s'_def rehydrate_replay REHYDRATE_MAX_LINES_def)
  have st: "replay ?f [] = os_store s" using inv by (simp add: op_log_inv_def)
  have "op_get s' oid = (if \<exists>op. Some op \<in> set (drop ?n ?f) \<and> op_id op = oid then op_get s oid else None)" for oid
  proof -
    let ?P = "\<lambda>line. \<exists>op. line = Some op \<and> op_id op = oid \<and> oid \<noteq> []"
    have tail: "op_get s' oid = (case find ?P (rev (drop ?n ?f)) of Some (Some op) \<Rightarrow> Some op | _ \<Rightarrow> None)"
      by (simp add: op_get_def s' replay_get split: option.splits)
    have all: "op_get s oid = (case find ?P (rev ?f) of Some (Some op) \<Rightarrow> Some op | _ \<Rightarrow> None)"
      by (simp add: op_get_def flip: st) (simp add: replay_get split: option.splits)
    have "rev ?f = rev (drop ?n ?f) @ rev (take ?n ?f)"
      by (metis append_take_drop_id rev_append)
    then have split: "find ?P (rev ?f) = (case find ?P (rev (drop ?n ?f)) of
        Some x \<Rightarrow> Some x | None \<Rightarrow> find ?P (rev (take ?n ?f)))"
      by (simp only: find_append_found)
    show ?thesis
    proof (cases "find ?P (rev (drop ?n ?f))")
      case None
      have "\<not> (\<exists>op. Some op \<in> set (drop ?n ?f) \<and> op_id op = oid)"
      proof
        assume "\<exists>op. Some op \<in> set (drop ?n ?f) \<and> op_id op = oid"
        then obtain op where op: "Some op \<in> set (drop ?n ?f)" "op_id op = oid" by blast
        then have "oid \<noteq> []" using inv by (auto simp: op_log_inv_def dest!: in_set_dropD)
        with op None show False by (auto simp: find_None_iff)
      qed
      then show ?thesis by (simp only: tail None option.case if_False)
    next
      case (Some line)
      then obtain op where op: "line = Some op" "op_id op = oid" "line \<in> set (drop ?n ?f)"
        using find_SomeD [OF Some] by auto
      have "op_get s' oid = Some op" unfolding tail Some op(1) by simp
      moreover have "op_get s oid = Some op" unfolding all split Some op(1) by simp
      moreover have "\<exists>op. Some op \<in> set (drop ?n ?f) \<and> op_id op = oid" using op by blast
      ultimately show ?thesis by simp
    qed
  qed
  moreover have "os_store s' = os_store s" if "length ?f \<le> 5000"
    using that by (simp add: s' st)
  ultimately show ?thesis by blast
qed

definition demo_ops :: op_service where
  "demo_ops = op_update True 7 ''o1'' Confirmed ''p1'' [] None
     (op_create True 5 ''o1'' ''open'' ''paper'' ''EURUSD'' [] (op_service_init []))"

lemma demo_ops_run: "op_run demo_ops"
  unfolding demo_ops_def
  by (intro op_run_update op_run_create op_run_init) (simp_all add: op_get_def op_service_init_def)

theorem rehydrate_recovers_witness:
  "op_run demo_ops \<and> os_store (rehydrate (op_service_init (os_file demo_ops))) = os_store demo_ops \<and>
   map_option op_status (op_get demo_ops ''o1'') = Some Confirmed"
  using rehydrate_recovers [OF demo_ops_run] demo_ops_run
  by (simp add: demo_ops_def op_defs op_service_init_def Let_def)

section \<open>Idempotent acknowledgements\<close>

definition op_cached :: "string \<Rightarrow> string \<Rightarrow> ('s, op_service) order_state \<Rightarrow> bool" where
  "op_cached cid oid st \<longleftrightarrow> d_get (st_open_cache st) cid = Some oid \<and> op_get (st_ops st) oid \<noteq> None"

text \<open>Any call of the order services, with any clock and any state of the disk.\<close>

inductive service_run :: "('s, op_service) order_state \<Rightarrow> ('s, op_service) order_state \<Rightarrow> bool" where
  service_nil: "service_run st st"
| service_ack: "service_run st st1 \<Longrightarrow>
     service_run st (fst (fast_ack_open (op_service_port disk now) oid body st1))"
| service_open: "service_run st st1 \<Longrightarrow> service_run st (run_next_open core (op_service_port disk now) st1)"
| service_close: "service_run st st1 \<Longrightarrow>
     service_run st (fst (close_with_timeout core (op_service_port disk now) in_time oid cbody st1))"
| service_close_task: "service_run st st1 \<Longrightarrow> service_run st (run_next_close core (op_service_port disk now) st1)"

lemma op_cached_ack:
  assumes "op_cached cid oid st" "cid \<noteq> []"
  shows "op_cached cid oid (fst (fast_ack_open (op_service_port disk now) oid' body st))"
  using assms ops.known_create
  by (auto simp: fast_ack_open_def get_cached_open_def op_cached_def Let_def split: option.splits)

lemma op_cached_run_open:
  "op_cached cid oid st \<Longrightarrow> op_cached cid oid (run_next_open core (op_service_port disk now) st)"
  using ops.known_update
  by (auto simp: run_next_open_def run_open_operation_def op_cached_def split: list.splits prod.splits sum.splits)

lemma op_cached_run_close:
  "op_cached cid oid st \<Longrightarrow> op_cached cid oid (fst (run_close core (op_service_port disk now) o' body st))"
  using ops.known_update
  by (auto simp: run_close_def cache_close_def op_cached_def Let_def split: prod.splits sum.splits)

lemma op_cached_close:
  assumes "op_cached cid oid st"
  shows "op_cached cid oid (fst (close_with_timeout core (op_service_port disk now) in_time o' body st))"
proof (cases "cached_close body st")
  case None
  let ?st1 = "st\<lparr>st_ops := op_create disk now o' ''close'' (cq_venue body) [] (cq_position_id body) (st_ops st)\<rparr>"
  have c1: "op_cached cid oid ?st1" using assms ops.known_create by (auto simp: op_cached_def)
  have "fst (close_with_timeout core (op_service_port disk now) in_time o' body st) =
      (if in_time then fst (run_close core (op_service_port disk now) o' body ?st1)
       else ?st1\<lparr>st_ops := op_update disk now o' Pending (cq_position_id body) [] None (st_ops ?st1),
                 st_close_tasks := st_close_tasks ?st1 @ [(o', body)]\<rparr>)"
    using None by (simp add: close_with_timeout_def Let_def split: prod.splits sum.splits)
  then show ?thesis
    using op_cached_run_close [OF c1] c1 ops.known_update by (auto simp: op_cached_def)
qed (use assms in \<open>simp add: close_with_timeout_def\<close>)

lemma op_cached_run: "service_run st st1 \<Longrightarrow> op_cached cid oid st \<Longrightarrow> cid \<noteq> [] \<Longrightarrow> op_cached cid oid st1"
proof (induction rule: service_run.induct)
  case (service_close_task st st1 core disk now)
  have t: "op_cached cid oid (st1\<lparr>st_close_tasks := ts\<rparr>)" for ts
    using service_close_task by (simp add: op_cached_def)
  show ?case
    using op_cached_run_close [OF t] service_close_task
    by (auto simp: run_next_close_def split: list.splits)
qed (simp_all add: op_cached_ack op_cached_run_open op_cached_close)

text \<open>
  C12. Opening is idempotent in the client order id: once an opening with a (non-blank) client
  order id was acknowledged, then whatever the services do afterwards, a further request with
  that id gets the same operation and changes nothing, so no second background task starts.
\<close>

theorem fast_ack_open_idempotent:
  assumes "py_strip (client_id (oq_client_order_id body)) \<noteq> []"
    and "py_strip (client_id (oq_client_order_id retry)) = py_strip (client_id (oq_client_order_id body))"
    and "fast_ack_open (op_service_port disk now) new_oid body st = (st1, oid)" "service_run st1 st2"
  shows "fast_ack_open (op_service_port disk' now') new_oid' retry st2 = (st2, oid)"
proof -
  let ?cid = "py_strip (client_id (oq_client_order_id body))"
  have "op_cached ?cid oid st1"
    using assms(1,3) ops.create_known [of disk now]
    by (auto simp: fast_ack_open_def get_cached_open_def op_cached_def Let_def split: option.splits if_splits)
  then have "op_cached ?cid oid st2" using op_cached_run [OF assms(4)] assms(1) by blast
  then show ?thesis
    using assms(1,2) by (auto simp: fast_ack_open_def get_cached_open_def op_cached_def Let_def)
qed

definition demo_state :: "engine \<Rightarrow> (engine, op_service) order_state" where
  "demo_state e = \<lparr>st_venue = e, st_ops = op_service_init [], st_open_cache = [], st_close_cache = [],
     st_open_tasks = [], st_close_tasks = []\<rparr>"

theorem fast_ack_open_idempotent_witness:
  "\<exists>st1. fast_ack_open (op_service_port True 1) ''o1'' desk_order (demo_state demo_engine) = (st1, ''o1'') \<and>
     fast_ack_open (op_service_port True 9) ''o2'' desk_order st1 = (st1, ''o1'')"
proof -
  have c1: "py_strip ''c1'' = ''c1''" by code_simp
  then have cid: "py_strip (client_id (oq_client_order_id desk_order)) \<noteq> []" by (simp add: client_id_def)
  obtain st1 where a: "fast_ack_open (op_service_port True 1) ''o1'' desk_order (demo_state demo_engine) = (st1, ''o1'')"
    by (simp add: fast_ack_open_def client_id_def c1 get_cached_open_def demo_state_def Let_def)
  show ?thesis
    using fast_ack_open_idempotent [OF cid refl a service_nil, of True 9 "''o2''"] a by blast
qed

text \<open>
  A refused opening ends confirmed: when the venue answers without success (no balance, no
  price, no fees for the symbol), the background task still records the operation as confirmed
  and leaves its error as it was, so a client polling the operation cannot tell.
\<close>

theorem refused_open_confirmed:
  assumes "open_order core body (st_venue st) = (s', Inr res, lg)" "\<not> oo_success res"
    and "op_get (st_ops st) oid = Some op"
  shows "\<exists>op'. op_get (st_ops (run_open_operation core (op_service_port disk now) oid body st)) oid = Some op' \<and>
    op_status op' = Confirmed \<and> op_error op' = op_error op"
  using assms by (simp add: run_open_operation_def op_defs Let_def)

definition big_order :: open_req where
  "big_order = desk_order\<lparr>oq_collateral := 20000\<rparr>"

theorem refused_open_confirmed_witness:
  "\<exists>op'. op_get (st_ops (run_open_operation (desk_core id ''a1'') (op_service_port True 2) ''o1'' big_order
       (fst (fast_ack_open (op_service_port True 1) ''o1'' big_order (demo_state demo_engine))))) ''o1'' = Some op' \<and>
     op_status op' = Confirmed"
proof -
  let ?st = "fst (fast_ack_open (op_service_port True 1) ''o1'' big_order (demo_state demo_engine))"
  have v: "st_venue ?st = demo_engine" and o: "\<exists>op. op_get (st_ops ?st) ''o1'' = Some op"
    by (simp_all add: fast_ack_open_def get_cached_open_def demo_state_def op_defs Let_def)
  have big: "oq_venue big_order = ''paper''" "oq_symbol big_order = ''EURUSD''" "oq_collateral big_order = 20000"
    "oq_client_order_id big_order = Some ''c1''"
    by (simp_all add: big_order_def)
  have g: "open_guards (desk_core id ''a1'') big_order demo_engine =
      Inr (paper_adapter (flat_price 2) id (demo_time 1000) ''a1'' [])"
    by (rule desk_core_guards [OF _ big(1,2)]) simp
  let ?o = "open_position (open_request (open_args_of big_order)) ''c1'' 2 None (demo_time 1000) ''a1'' demo_engine"
  have "rq_collateral (open_request (open_args_of big_order)) > e_balance demo_engine"
    by (simp add: open_request_def open_args_of_def big)
  then have f: "\<not> or_success (snd ?o)" using open_position_rejected by blast
  have "venue_open (flat_price 2) id (demo_time 1000) ''a1'' [] (open_args_of big_order) demo_engine = (fst ?o, Inr (snd ?o))"
    using f by (simp add: venue_open_def flat_price_def Let_def split_def py_truthy_str_def big
        open_args_of_def [of big_order])
  then have "\<exists>s' res lg. open_order (desk_core id ''a1'') big_order demo_engine = (s', Inr res, lg) \<and> \<not> oo_success res"
    using f by (simp add: open_order_def g Let_def open_result_of_def)
  then show ?thesis
    using refused_open_confirmed [of "desk_core id ''a1''" big_order ?st] o unfolding v by blast
qed

section \<open>Closing twice\<close>

definition close_key :: "close_req \<Rightarrow> string \<times> string \<times> string" where
  "close_key body = (cq_venue body, cq_position_id body, client_id (cq_client_close_id body))"

definition close_settled :: "string \<times> string \<times> string \<Rightarrow> bool \<Rightarrow> ('s, op_service) order_state \<Rightarrow> bool" where
  "close_settled key ok st \<longleftrightarrow> d_get (st_close_cache st) key = Some ok \<and>
     (\<forall>(oid, b) \<in> set (st_close_tasks st). close_key b \<noteq> key)"

lemma run_close_state:
  "st_close_tasks (fst (run_close core port oid body st)) = st_close_tasks st"
  "close_key body \<noteq> key \<Longrightarrow>
     d_get (st_close_cache (fst (run_close core port oid body st))) key = d_get (st_close_cache st) key"
  by (auto simp: run_close_def cache_close_def close_key_def Let_def split: prod.splits sum.splits)

lemma cached_close_key:
  "cached_close body st = (if client_id (cq_client_close_id body) = [] then None
     else d_get (st_close_cache st) (close_key body))"
  by (simp add: cached_close_def close_key_def Let_def)

lemma close_settled_close:
  assumes "close_settled key ok st" "snd (snd key) \<noteq> []"
  shows "close_settled key ok (fst (close_with_timeout core port in_time oid body st))"
proof (cases "cached_close body st")
  case None
  then have k: "close_key body \<noteq> key"
    using assms by (auto simp: cached_close_key close_settled_def close_key_def split: if_splits)
  let ?st1 = "st\<lparr>st_ops := po_create port oid ''close'' (cq_venue body) [] (cq_position_id body) (st_ops st)\<rparr>"
  have "fst (close_with_timeout core port in_time oid body st) =
      (if in_time then fst (run_close core port oid body ?st1)
       else ?st1\<lparr>st_ops := po_update port oid Pending (cq_position_id body) [] None (st_ops ?st1),
                 st_close_tasks := st_close_tasks ?st1 @ [(oid, body)]\<rparr>)"
    using None by (simp add: close_with_timeout_def Let_def split: prod.splits sum.splits)
  then show ?thesis
    using assms k by (simp add: close_settled_def run_close_state)
qed (use assms in \<open>simp add: close_with_timeout_def\<close>)

lemma close_settled_run:
  "service_run st st1 \<Longrightarrow> close_settled key ok st \<Longrightarrow> snd (snd key) \<noteq> [] \<Longrightarrow> close_settled key ok st1"
proof (induction rule: service_run.induct)
  case (service_ack st st1 disk now oid body)
  then show ?case by (auto simp: close_settled_def fast_ack_open_def Let_def split: option.splits)
next
  case (service_open st st1 core disk now)
  then show ?case
    by (auto simp: close_settled_def run_next_open_def run_open_operation_def
        split: list.splits prod.splits sum.splits)
next
  case (service_close_task st st1 core disk now)
  then show ?case
    by (auto simp: close_settled_def run_next_close_def run_close_state split: list.splits)
qed (simp_all add: close_settled_close)

text \<open>
  Closing is idempotent once it has completed: when a close with a client close id finished
  in time and no earlier attempt of the same close is still running in the background, then
  whatever the services do afterwards, repeating it gives the same answer and reaches neither
  the venue nor the operation store.
\<close>

theorem close_idempotent:
  assumes "client_id (cq_client_close_id body) \<noteq> []"
    and "close_with_timeout core (op_service_port disk now) in_time oid body st = (st1, Completed ok)"
    and "\<forall>(o', b) \<in> set (st_close_tasks st). close_key b \<noteq> close_key body" "service_run st1 st2"
  shows "close_with_timeout core' (op_service_port disk' now') in_time' oid' body st2 = (st2, Completed ok)"
proof -
  have "close_settled (close_key body) ok st1"
  proof (cases "cached_close body st")
    case None
    let ?st1 = "st\<lparr>st_ops := op_create disk now oid ''close'' (cq_venue body) [] (cq_position_id body) (st_ops st)\<rparr>"
    have r: "in_time" "run_close core (op_service_port disk now) oid body ?st1 = (st1, Inr ok)"
      using assms(2) None by (auto simp: close_with_timeout_def Let_def split: if_splits prod.splits sum.splits)
    have "d_get (st_close_cache st1) (close_key body) = Some ok"
      using r(2) assms(1)
      by (auto simp: run_close_def cache_close_def close_key_def Let_def split: prod.splits sum.splits)
    moreover have "st_close_tasks st1 = st_close_tasks st"
      using run_close_state(1) [of core "op_service_port disk now" oid body ?st1] r(2) by simp
    ultimately show ?thesis using assms(3) by (simp add: close_settled_def)
  next
    case (Some c)
    then show ?thesis
      using assms(1-3) by (simp add: close_with_timeout_def close_settled_def cached_close_key)
  qed
  then have "close_settled (close_key body) ok st2"
    using close_settled_run [OF assms(4)] assms(1) by (simp add: close_key_def)
  then show ?thesis
    using assms(1) by (simp add: close_with_timeout_def cached_close_key close_settled_def)
qed

definition desk_close_req :: close_req where
  "desk_close_req = \<lparr>cq_venue = ''paper'', cq_position_id = ''paper:paper_a1'', cq_percent = 100,
     cq_client_close_id = Some ''k1''\<rparr>"

lemma desk_close_order:
  "\<exists>lg. close_order (desk_core id ''z'') desk_close_req e =
     (fst (venue_close (flat_price 2) id (demo_time 1000) ''paper:paper_a1'' e),
      map_sum VenueError id (snd (venue_close (flat_price 2) id (demo_time 1000) ''paper:paper_a1'' e)), lg)"
proof -
  have m: "\<not> is_live_mode (tc_mode (desk_core id ''z''))"
    by (simp add: desk_core_def paper_core_def is_live_mode_def py_lower_def lower_char_def Let_def)
  have "close_position_id desk_close_req = ''paper:paper_a1''" "cq_venue desk_close_req = ''paper''"
    by (simp_all add: close_position_id_def desk_close_req_def)
  then show ?thesis
    by (simp add: close_order_def m desk_core_adapter split: prod.splits sum.splits)
qed

lemma desk_close_open:
  "\<exists>e'. venue_close (flat_price 2) id (demo_time 1000) ''paper:paper_a1'' demo_open = (e', Inr True) \<and> e_positions e' = []"
proof -
  have iid: "internal_id ''paper:paper_a1'' = ''paper_a1''" by (simp add: internal_id_def)
  show ?thesis
    by (rule close_position_closable [OF demo_position_get engine_ok_closable [OF demo_open_ok demo_position_get],
          of "''close_paper_a1''" 2 None "demo_time 1000" CR_MANUAL])
      (simp add: venue_close_def iid get_position_def flat_price_def Let_def demo_open_positions)
qed

lemma desk_close_none:
  "e_positions e = [] \<Longrightarrow> venue_close (flat_price 2) id (demo_time 1000) ''paper:paper_a1'' e = (e, Inr False)"
  by (simp add: venue_close_def get_position_def Let_def)

lemma desk_close_timeout:
  assumes "d_get (st_close_cache st) (close_key desk_close_req) = None"
    and "venue_close (flat_price 2) id (demo_time 1000) ''paper:paper_a1'' (st_venue st) = (e', Inr ok)"
  shows "\<exists>st1. close_with_timeout (desk_core id ''z'') port True oid desk_close_req st = (st1, Completed ok) \<and>
    st_venue st1 = e' \<and> d_get (st_close_cache st1) (close_key desk_close_req) = Some ok \<and>
    st_close_tasks st1 = st_close_tasks st"
proof -
  obtain lg where "close_order (desk_core id ''z'') desk_close_req (st_venue st) = (e', Inr ok, lg)"
    using desk_close_order [of "st_venue st"] assms(2) by auto
  then show ?thesis
    using assms(1)
    by (simp add: close_with_timeout_def cached_close_key Let_def run_close_def cache_close_def close_key_def)
       (simp add: desk_close_req_def client_id_def)
qed

lemma demo_state_cache: "d_get (st_close_cache (demo_state e)) key = None"
  by (simp add: demo_state_def)

theorem close_idempotent_witness:
  "\<exists>st1. close_with_timeout (desk_core id ''z'') (op_service_port True 1) True ''o1'' desk_close_req (demo_state demo_open)
       = (st1, Completed True) \<and>
     close_with_timeout (desk_core id ''z'') (op_service_port True 2) True ''o2'' desk_close_req st1 = (st1, Completed True)"
proof -
  obtain e' where "venue_close (flat_price 2) id (demo_time 1000) ''paper:paper_a1'' (st_venue (demo_state demo_open)) = (e', Inr True)"
    using desk_close_open by (auto simp: demo_state_def)
  then obtain st1 where c: "close_with_timeout (desk_core id ''z'') (op_service_port True 1) True ''o1''
      desk_close_req (demo_state demo_open) = (st1, Completed True)"
    using desk_close_timeout [OF demo_state_cache] by blast
  have "client_id (cq_client_close_id desk_close_req) \<noteq> []" by (simp add: desk_close_req_def client_id_def)
  then show ?thesis
    using close_idempotent [OF _ c _ service_nil, of "desk_core id ''z''" True 2 True "''o2''"] c
    by (simp add: demo_state_def)
qed

text \<open>
  A close that times out is not protected by its client close id: the retry closes the
  position and answers success, then the first attempt, still running, finds nothing to close
  and overwrites the remembered answer, so that from then on the same request answers failure.
\<close>

theorem close_retry_overwritten:
  "\<exists>st1 st2 st3. close_with_timeout (desk_core id ''z'') (op_service_port True 1) False ''o1'' desk_close_req (demo_state demo_open)
       = (st1, Accepted ''o1'') \<and>
     close_with_timeout (desk_core id ''z'') (op_service_port True 2) True ''o2'' desk_close_req st1 = (st2, Completed True) \<and>
     run_next_close (desk_core id ''z'') (op_service_port True 3) st2 = st3 \<and>
     close_with_timeout (desk_core id ''z'') (op_service_port True 4) True ''o3'' desk_close_req st3 = (st3, Completed False)"
proof -
  let ?key = "close_key desk_close_req" and ?core = "desk_core id ''z''"
  have cid: "client_id (cq_client_close_id desk_close_req) \<noteq> []" by (simp add: desk_close_req_def client_id_def)
  obtain st1 where st1: "close_with_timeout ?core (op_service_port True 1) False ''o1'' desk_close_req (demo_state demo_open)
      = (st1, Accepted ''o1'')" "st_venue st1 = demo_open" "d_get (st_close_cache st1) ?key = None"
      "st_close_tasks st1 = [(''o1'', desk_close_req)]"
    by (simp add: close_with_timeout_def cached_close_key demo_state_def Let_def)
  obtain e' where e': "venue_close (flat_price 2) id (demo_time 1000) ''paper:paper_a1'' (st_venue st1) = (e', Inr True)"
    "e_positions e' = []" using desk_close_open st1(2) by auto
  obtain st2 where st2: "close_with_timeout ?core (op_service_port True 2) True ''o2'' desk_close_req st1 = (st2, Completed True)"
    "st_venue st2 = e'" "st_close_tasks st2 = [(''o1'', desk_close_req)]"
    using desk_close_timeout [OF st1(3) e'(1), of "op_service_port True 2" "''o2''"] st1(4) by metis
  obtain lg where co: "close_order ?core desk_close_req e' = (e', Inr False, lg)"
    using desk_close_order [of e'] desk_close_none [OF e'(2)] by auto
  let ?st3 = "run_next_close ?core (op_service_port True 3) st2"
  have "d_get (st_close_cache ?st3) ?key = Some False"
    using cid by (simp add: run_next_close_def st2(2,3) run_close_def co cache_close_def close_key_def Let_def)
  then have "close_with_timeout ?core (op_service_port True 4) True ''o3'' desk_close_req ?st3 = (?st3, Completed False)"
    using cid by (simp add: close_with_timeout_def cached_close_key)
  with st1(1) st2(1) show ?thesis by blast
qed

text \<open>
  The check after a close on the paper venue cannot fail: the identifier it searches for
  carries the venue prefix, which no open position's own identifier contains, so it reports
  success even when the very position is still open.
\<close>

theorem reconcile_close_blind:
  assumes "\<forall>p \<in> set positions. CHR '':'' \<notin> set (venue_id_text p)"
  shows "reconcile_close positions (''paper:'' @ pid) = ReconcileOk (''paper:'' @ pid)"
proof -
  have "\<not> id_matches (py_strip (''paper:'' @ pid)) p" if "p \<in> set positions" for p
  proof
    assume m: "id_matches (py_strip (''paper:'' @ pid)) p"
    have "CHR '':'' \<in> set (py_strip (''paper:'' @ pid))"
    proof -
      let ?s = "''paper:'' @ pid"
      have "dropWhile is_space ?s = ?s" by (simp add: is_space_def)
      moreover have "CHR '':'' \<in> set (dropWhile is_space (rev pid @ rev ''paper:''))"
      proof (cases "\<forall>c \<in> set (rev pid). is_space c")
        case True
        have "dropWhile is_space (rev pid @ rev ''paper:'') = dropWhile is_space (rev ''paper:'')"
          by (rule dropWhile_append2) (use True in blast)
        then show ?thesis by (simp only:) (simp add: is_space_def)
      next
        case False
        then show ?thesis by (auto simp: dropWhile_append1)
      qed
      ultimately show ?thesis by (simp add: py_strip_def)
    qed
    moreover have "set (py_strip (''paper:'' @ pid)) \<subseteq> set (venue_id_text p)"
      using m by (auto simp: id_matches_def py_in_iff)
    ultimately show False using assms that by blast
  qed
  then show ?thesis by (auto simp: reconcile_close_def list_ex_iff)
qed

theorem reconcile_close_blind_witness:
  "get_all_positions demo_open = [demo_position] \<and>
   reconcile_close (get_all_positions demo_open) ''paper:paper_a1'' = ReconcileOk ''paper:paper_a1''"
proof -
  have p: "get_all_positions demo_open = [demo_position]" by (simp add: get_all_positions_def demo_open_positions)
  have "venue_id_text demo_position = ''paper_a1''"
    by (simp add: venue_id_text_def demo_position_def new_position_def py_truthy_str_def)
  then show ?thesis using reconcile_close_blind [of "[demo_position]" "''paper_a1''"] by (simp add: p)
qed

end
