(* ===== verification/GapValidator.thy ===== *)
theory GapValidator
  imports Models
begin

text \<open>
  Gap detection and validation of stored candles,
  \<open>infrastructure/storage/gap_validator.py\<close>: gaps, the validation report, the quick
  integrity check, and the splitting of gaps into ranges to fetch.
\<close>

section \<open>Gaps\<close>

record gap =
  gap_start :: datetime
  gap_end :: datetime
  gap_count :: int

fun gaps_between :: "candle list \<Rightarrow> gap list" where
  "gaps_between (c # d # cs) =
     (let expected_next = dt_add (c_ts c) minute_us in
      (if dt_less expected_next (c_ts d)
       then [\<lparr>gap_start = expected_next, gap_end = c_ts d, gap_count = minutes_between expected_next (c_ts d)\<rparr>]
       else []) @ gaps_between (d # cs))"
| "gaps_between cs = []"

definition gap_before :: "datetime \<Rightarrow> datetime \<Rightarrow> gap list" where
  "gap_before start first =
     (let n = minutes_between start first in
      if dt_less start first \<and> n > 0
      then [\<lparr>gap_start = start, gap_end = first, gap_count = n\<rparr>] else [])"

definition gap_after :: "datetime \<Rightarrow> datetime \<Rightarrow> gap list" where
  "gap_after final stop =
     (let gs = dt_add final minute_us; n = minutes_between gs stop in
      if dt_less final (dt_add stop (- minute_us)) \<and> n > 0
      then [\<lparr>gap_start = gs, gap_end = stop, gap_count = n\<rparr>] else [])"

definition find_gaps :: "candle list \<Rightarrow> datetime \<Rightarrow> datetime \<Rightarrow> gap list" where
  "find_gaps candles start stop =
     (if candles = [] then [\<lparr>gap_start = start, gap_end = stop, gap_count = minutes_between start stop\<rparr>]
      else gap_before start (c_ts (hd candles)) @ gaps_between candles @ gap_after (c_ts (last candles)) stop)"

section \<open>Validation\<close>

record validation_report =
  vr_symbol :: string
  vr_start :: datetime
  vr_end :: datetime
  vr_actual :: int
  vr_expected :: int
  vr_missing :: int
  vr_coverage :: pfloat
  vr_has_gaps :: bool
  vr_has_duplicates :: bool
  vr_is_sorted :: bool
  vr_gaps :: "gap list"
  vr_step_errors :: int
  vr_duplicates :: int

definition is_valid :: "validation_report \<Rightarrow> bool" where
  "is_valid r \<longleftrightarrow> \<not> vr_has_gaps r \<and> \<not> vr_has_duplicates r \<and> vr_is_sorted r \<and> vr_step_errors r = 0"

text \<open>The size of \<open>set(timestamps)\<close>, with the equality of datetimes.\<close>

fun unique_count :: "datetime list \<Rightarrow> nat" where
  "unique_count [] = 0"
| "unique_count (t # ts) = (if list_ex (dt_eq t) ts then 0 else 1) + unique_count ts"

fun strictly_sorted :: "candle list \<Rightarrow> bool" where
  "strictly_sorted (c # d # cs) = (\<not> dt_le (c_ts d) (c_ts c) \<and> strictly_sorted (d # cs))"
| "strictly_sorted cs = True"

fun step_errors :: "candle list \<Rightarrow> int" where
  "step_errors (c # d # cs) = (if dt_sub (c_ts d) (c_ts c) \<noteq> minute_us then 1 else 0) + step_errors (d # cs)"
| "step_errors cs = 0"

definition percent :: "int \<Rightarrow> int \<Rightarrow> pfloat" where
  "percent actual expected =
     (if expected > 0 then fmul (rnd (of_int actual / of_int expected)) 100 else 0)"

definition validate :: "candle list \<Rightarrow> datetime \<Rightarrow> datetime \<Rightarrow> string \<Rightarrow> validation_report" where
  "validate candles start stop symbol =
     (let expected = minutes_between start stop in
      if candles = []
      then \<lparr>vr_symbol = symbol, vr_start = start, vr_end = stop, vr_actual = 0, vr_expected = expected,
            vr_missing = expected, vr_coverage = 0, vr_has_gaps = True, vr_has_duplicates = False,
            vr_is_sorted = True, vr_gaps = [\<lparr>gap_start = start, gap_end = stop, gap_count = expected\<rparr>],
            vr_step_errors = 0, vr_duplicates = 0\<rparr>
      else
        (let actual = int (length candles);
             unique = int (unique_count (map c_ts candles));
             gaps = find_gaps candles start stop
         in \<lparr>vr_symbol = symbol, vr_start = start, vr_end = stop, vr_actual = actual, vr_expected = expected,
             vr_missing = max 0 (expected - actual), vr_coverage = percent actual expected,
             vr_has_gaps = (gaps \<noteq> []), vr_has_duplicates = (actual \<noteq> unique),
             vr_is_sorted = strictly_sorted candles, vr_gaps = gaps, vr_step_errors = step_errors candles,
             vr_duplicates = (if actual \<noteq> unique then actual - unique else 0)\<rparr>))"

text \<open>
  \<open>check_integrity\<close>. Reading a candle's range cannot raise, so the third check never fires.
\<close>

datatype integrity_error = NotSortedAt nat | DuplicateTimestamps

fun first_unsorted :: "nat \<Rightarrow> candle list \<Rightarrow> nat option" where
  "first_unsorted i (c # d # cs) = (if dt_le (c_ts d) (c_ts c) then Some i else first_unsorted (i + 1) (d # cs))"
| "first_unsorted i cs = None"

definition check_integrity :: "candle list \<Rightarrow> integrity_error + unit" where
  "check_integrity candles = (case first_unsorted 0 candles of
     Some i \<Rightarrow> Inl (NotSortedAt i)
   | None \<Rightarrow> if length candles \<noteq> unique_count (map c_ts candles) then Inl DuplicateTimestamps else Inr ())"

section \<open>Ranges to fetch\<close>

text \<open>The \<open>while\<close> loop that cuts a large gap; it may run forever, which is \<open>None\<close>.\<close>

partial_function (option) chunk_gap :: "int \<Rightarrow> datetime \<Rightarrow> datetime \<Rightarrow> (datetime \<times> datetime) list option" where
  "chunk_gap chunk current stop =
     (if dt_less current stop
      then
        (let nxt = dt_add current (chunk * minute_us);
             chunk_end = (if dt_less stop nxt then stop else nxt)
         in Option.bind (chunk_gap chunk chunk_end stop) (\<lambda>rs. Some ((current, chunk_end) # rs)))
      else Some [])"

fun get_missing_ranges :: "gap list \<Rightarrow> int \<Rightarrow> (datetime \<times> datetime) list option" where
  "get_missing_ranges [] chunk = Some []"
| "get_missing_ranges (g # gs) chunk =
     Option.bind (if gap_count g \<le> chunk then Some [(gap_start g, gap_end g)]
                  else chunk_gap chunk (gap_start g) (gap_end g))
       (\<lambda>rs. Option.bind (get_missing_ranges gs chunk) (\<lambda>rest. Some (rs @ rest)))"

section \<open>Minutes as integers\<close>

text \<open>
  On UTC datetimes at whole minutes the algorithms compute with minute numbers. \<open>int_gaps\<close> is
  the reference: what is missing from \<open>[s, e)\<close> given the sorted minutes present.
\<close>

definition grid :: "int \<Rightarrow> datetime" where
  "grid m = utc_dt (m * minute_us)"

lemma grid_simps [simp]:
  "dt_less (grid a) (grid b) \<longleftrightarrow> a < b" "dt_le (grid a) (grid b) \<longleftrightarrow> a \<le> b" "dt_eq (grid a) (grid b) \<longleftrightarrow> a = b"
  "dt_sub (grid a) (grid b) = (a - b) * minute_us" "minutes_between (grid a) (grid b) = b - a"
  "grid a = grid b \<longleftrightarrow> a = b"
proof -
  show "minutes_between (grid a) (grid b) = b - a"
    using trunc_div_mult [of minute_us "b - a"] by (simp add: minutes_between_def grid_def algebra_simps)
qed (simp_all add: grid_def algebra_simps)

lemma grid_add [simp]:
  "dt_add (grid a) minute_us = grid (a + 1)" "dt_add (grid a) (- minute_us) = grid (a - 1)"
  "dt_add (grid a) (k * minute_us) = grid (a + k)"
  by (simp_all add: grid_def algebra_simps)

fun int_gaps :: "int \<Rightarrow> int list \<Rightarrow> int \<Rightarrow> (int \<times> int) list" where
  "int_gaps s [] e = (if s < e then [(s, e)] else [])"
| "int_gaps s (m # ms) e = (if s < m then [(s, m)] else []) @ int_gaps (m + 1) ms e"

definition grid_gap :: "int \<times> int \<Rightarrow> gap" where
  "grid_gap ab = \<lparr>gap_start = grid (fst ab), gap_end = grid (snd ab), gap_count = snd ab - fst ab\<rparr>"

lemma map_c_ts_Cons: "map c_ts cs = map grid (m # ms) \<longleftrightarrow>
    (\<exists>c cs'. cs = c # cs' \<and> c_ts c = grid m \<and> map c_ts cs' = map grid ms)"
  by (cases cs) auto

lemma gap_before_grid [simp]:
  "gap_before (grid s) (grid m) = (if s < m then [grid_gap (s, m)] else [])"
  by (simp add: gap_before_def grid_gap_def)

lemma gap_after_grid [simp]:
  "gap_after (grid m) (grid e) = (if m + 1 < e then [grid_gap (m + 1, e)] else [])"
  by (simp add: gap_after_def grid_gap_def Let_def)

lemma gaps_tail:
  assumes "map c_ts cs = map grid (m # ms)" "\<forall>x \<in> set (m # ms). x < e"
  shows "gaps_between cs @ gap_after (c_ts (last cs)) (grid e) = map grid_gap (int_gaps (m + 1) ms e)"
  using assms
proof (induction ms arbitrary: cs m)
  case Nil
  then show ?case by (auto simp: map_c_ts_Cons)
next
  case (Cons m2 ms)
  then obtain c d cs' where cs: "cs = c # d # cs'" "c_ts c = grid m" "c_ts d = grid m2" "map c_ts cs' = map grid ms"
    by (auto simp: map_c_ts_Cons)
  have "map c_ts (d # cs') = map grid (m2 # ms)" "\<forall>x \<in> set (m2 # ms). x < e"
    using cs Cons.prems(2) by simp_all
  from Cons.IH [OF this]
  have "gaps_between (d # cs') @ gap_after (c_ts (last cs)) (grid e) = map grid_gap (int_gaps (m2 + 1) ms e)"
    by (simp add: cs(1))
  then show ?case by (simp add: cs(1-3) Let_def) (simp add: grid_gap_def)
qed

lemma find_gaps_grid:
  assumes "map c_ts cs = map grid ms" "\<forall>x \<in> set ms. x < e" "s < e"
  shows "find_gaps cs (grid s) (grid e) = map grid_gap (int_gaps s ms e)"
proof (cases ms)
  case Nil
  then show ?thesis using assms by (simp add: find_gaps_def grid_gap_def)
next
  case (Cons m ms')
  then obtain c cs' where cs: "cs = c # cs'" "c_ts c = grid m" using assms(1) by (auto simp: map_c_ts_Cons)
  have t: "map c_ts cs = map grid (m # ms')" "\<forall>x \<in> set (m # ms'). x < e" using assms(1,2) Cons by simp_all
  show ?thesis
    using gaps_tail [OF t] cs by (simp add: find_gaps_def Cons)
qed

lemma int_gaps_bounds:
  assumes "\<forall>x \<in> set ms. s \<le> x \<and> x < e" "sorted_wrt (<) ms" "(a, b) \<in> set (int_gaps s ms e)"
  shows "s \<le> a \<and> a < b \<and> b \<le> e"
  using assms
proof (induction ms arbitrary: s)
  case (Cons m ms)
  show ?case
  proof (cases "(a, b) \<in> set (int_gaps (m + 1) ms e)")
    case True
    then show ?thesis using Cons.IH [of "m + 1"] Cons.prems(1,2) by fastforce
  next
    case False
    then show ?thesis using Cons.prems by (auto split: if_splits)
  qed
qed (auto split: if_splits)

lemma int_gaps_cover:
  assumes "\<forall>x \<in> set ms. s \<le> x \<and> x < e" "sorted_wrt (<) ms"
  shows "(\<exists>(a, b) \<in> set (int_gaps s ms e). a \<le> t \<and> t < b) \<longleftrightarrow> s \<le> t \<and> t < e \<and> t \<notin> set ms"
  using assms
proof (induction ms arbitrary: s)
  case (Cons m ms)
  have "(\<exists>(a, b) \<in> set (int_gaps (m + 1) ms e). a \<le> t \<and> t < b) \<longleftrightarrow> m + 1 \<le> t \<and> t < e \<and> t \<notin> set ms"
    using Cons.prems by (intro Cons.IH) auto
  then show ?case using Cons.prems by (auto split: if_splits)
qed auto

lemma int_gaps_sum:
  assumes "\<forall>x \<in> set ms. s \<le> x \<and> x < e" "sorted_wrt (<) ms" "s \<le> e"
  shows "(\<Sum>ab \<leftarrow> int_gaps s ms e. snd ab - fst ab) = e - s - int (length ms)"
  using assms
proof (induction ms arbitrary: s)
  case (Cons m ms)
  have "(\<Sum>ab \<leftarrow> int_gaps (m + 1) ms e. snd ab - fst ab) = e - (m + 1) - int (length ms)"
    using Cons.prems by (intro Cons.IH) auto
  then show ?case using Cons.prems by auto
qed auto

lemma int_gaps_disjoint:
  assumes "\<forall>x \<in> set ms. s \<le> x \<and> x < e" "sorted_wrt (<) ms"
  shows "sorted_wrt (\<lambda>ab cd. snd ab < fst cd) (int_gaps s ms e)"
  using assms
proof (induction ms arbitrary: s)
  case (Cons m ms)
  have p: "\<forall>x \<in> set ms. m + 1 \<le> x \<and> x < e" "sorted_wrt (<) ms" using Cons.prems by auto
  show ?case
    using Cons.IH [OF p] int_gaps_bounds [OF p] by fastforce
qed auto

lemma int_gaps_minutes:
  assumes "sorted_wrt (<) ms" "\<forall>x \<in> set ms. s \<le> x \<and> x < e"
  shows "concat (map (\<lambda>(x, y). [x..y - 1]) (int_gaps s ms e)) = filter (\<lambda>t. t \<notin> set ms) [s..e - 1]"
  using assms
proof (induction ms arbitrary: s)
  case (Cons m ms)
  have sm: "s \<le> m" "m < e" and p: "sorted_wrt (<) ms" "\<forall>x \<in> set ms. m + 1 \<le> x \<and> x < e"
    using Cons.prems by auto
  have "[s..e - 1] = [s..m - 1] @ m # [m + 1..e - 1]"
    using sm upto_split3 [of s m "e - 1"] by simp
  moreover have "filter (\<lambda>t. t \<notin> set (m # ms)) [s..m - 1] = [s..m - 1]"
    using p(2) by (intro filter_True) fastforce
  moreover have "filter (\<lambda>t. t \<notin> set (m # ms)) [m + 1..e - 1] = filter (\<lambda>t. t \<notin> set ms) [m + 1..e - 1]"
    by (rule filter_cong) auto
  ultimately show ?case using Cons.IH [OF p] sm by (cases "s < m") simp_all
qed simp

lemma int_gaps_empty:
  "\<forall>x \<in> set ms. x < e \<Longrightarrow> adjacent (\<lambda>a b. b = a + 1) ms \<Longrightarrow> ms \<noteq> [] \<Longrightarrow> s \<le> hd ms \<Longrightarrow>
     int_gaps s ms e = [] \<longleftrightarrow> ms = [s..e - 1]"
proof (induction ms arbitrary: s)
  case (Cons m ms)
  show ?case
  proof (cases ms)
    case Nil
    show ?thesis using Cons.prems by (auto simp: Nil upto_rec1 [of s] upto_Nil)
  next
    case (Cons m2 ms2)
    have "int_gaps (m + 1) ms e = [] \<longleftrightarrow> ms = [m + 1..e - 1]"
      using Cons.IH [of "m + 1"] Cons.prems Cons by auto
    then show ?thesis using Cons.prems by (auto simp: upto_rec1 [of s])
  qed
qed simp

section \<open>Cutting gaps\<close>

lemma chunk_grid:
  assumes "0 < k" "a \<le> b"
  shows "\<exists>rs. chunk_gap k (grid a) (grid b) = Some (map (\<lambda>(x, y). (grid x, grid y)) rs) \<and>
    (\<forall>(x, y) \<in> set rs. x < y \<and> y - x \<le> k) \<and> concat (map (\<lambda>(x, y). [x..y - 1]) rs) = [a..b - 1]"
  using assms(2)
proof (induction "nat (b - a)" arbitrary: a rule: less_induct)
  case less
  show ?case
  proof (cases "a < b")
    case False
    then show ?thesis by (intro exI [of _ "[]"]) (simp add: chunk_gap.simps)
  next
    case True
    define c where "c = min (a + k) b"
    have c: "a < c" "c \<le> b" "c - a \<le> k" using True assms(1) by (auto simp: c_def)
    obtain rs where rs: "chunk_gap k (grid c) (grid b) = Some (map (\<lambda>(x, y). (grid x, grid y)) rs)"
      "\<forall>(x, y) \<in> set rs. x < y \<and> y - x \<le> k" "concat (map (\<lambda>(x, y). [x..y - 1]) rs) = [c..b - 1]"
      using less.hyps [of c] c by auto
    have "(if dt_less (grid b) (grid (a + k)) then grid b else grid (a + k)) = grid c"
      by (auto simp: c_def min_def)
    then have "chunk_gap k (grid a) (grid b) = Some (map (\<lambda>(x, y). (grid x, grid y)) ((a, c) # rs))"
      using True rs(1) by (subst chunk_gap.simps) (simp add: Let_def)
    moreover have "[a..b - 1] = [a..c - 1] @ [c..b - 1]"
      using upto_split1 [of a c "b - 1"] c by (cases "c < b") simp_all
    ultimately show ?thesis using rs(2,3) c by (intro exI [of _ "(a, c) # rs"]) simp
  qed
qed

lemma chunk_gap_forward:
  "chunk_gap k (grid a) (grid b) = Some rs \<Longrightarrow> a < b \<Longrightarrow> 0 < k"
proof (induction rs arbitrary: a)
  case Nil
  then show ?case by (subst (asm) chunk_gap.simps) (auto simp: Let_def bind_eq_Some_conv)
next
  case (Cons r rs)
  show ?case
  proof (rule ccontr)
    assume k: "\<not> 0 < k"
    then have "\<not> b < a + k" using Cons.prems(2) by simp
    with Cons.prems have "chunk_gap k (grid (a + k)) (grid b) = Some rs"
      by (subst (asm) chunk_gap.simps) (auto simp: Let_def bind_eq_Some_conv)
    with Cons.IH [of "a + k"] Cons.prems(2) k show False by simp
  qed
qed

lemma chunk_diverges: "a < b \<Longrightarrow> k \<le> 0 \<Longrightarrow> chunk_gap k (grid a) (grid b) = None"
  using chunk_gap_forward [of k a b] by (cases "chunk_gap k (grid a) (grid b)") auto

end
