(* ===== verification/CsvStore.thy ===== *)
theory CsvStore
  imports GapValidator
begin

text \<open>
  The file based candle store, \<open>infrastructure/storage/csv_store.py\<close>.

  A store is the dictionary of its files. The path \<open>root/broker/symbol/zone/YYYY/MM.csv\<close> of a
  file is its symbol and the number of its month (12 * year + month - 1): the other parts are
  fixed for a store. A file is the list of its lines, a line the list of its fields, an empty
  list a blank line. A call holds the lock of a file from reading it to replacing it, so each
  pass over a file is one step; the temporary file and the rename make the step all or nothing,
  and \<open>disk_ok\<close> says for which files it succeeds.
\<close>

section \<open>Files\<close>

type_synonym file_key = "string \<times> int"
type_synonym csv_files = "(file_key, csv_field list list) dict"

definition csv_file_path :: "string \<Rightarrow> datetime \<Rightarrow> file_key" where
  "csv_file_path symbol dt = (symbol, dt_month dt)"

text \<open>
  \<open>sort(key=lambda c: c.timestamp)\<close>: stable, with the comparison of datetimes.
\<close>

fun insert_candle :: "candle \<Rightarrow> candle list \<Rightarrow> candle list" where
  "insert_candle c [] = [c]"
| "insert_candle c (d # ds) = (if dt_less (c_ts d) (c_ts c) then d # insert_candle c ds else c # d # ds)"

definition sort_candles :: "candle list \<Rightarrow> candle list" where
  "sort_candles cs = foldr insert_candle cs []"

fun parse_lines :: "string \<Rightarrow> csv_field list list \<Rightarrow> candle list" where
  "parse_lines symbol [] = []"
| "parse_lines symbol (l # ls) =
     (if l = [] then parse_lines symbol ls
      else (case from_csv_row symbol l of
              Inl e \<Rightarrow> parse_lines symbol ls
            | Inr c \<Rightarrow> c # parse_lines symbol ls))"

definition read_csv_file :: "csv_files \<Rightarrow> file_key \<Rightarrow> string \<Rightarrow> candle list" where
  "read_csv_file files key symbol =
     (case d_get files key of None \<Rightarrow> [] | Some ls \<Rightarrow> sort_candles (parse_lines symbol ls))"

definition write_csv_file :: "(file_key \<Rightarrow> bool) \<Rightarrow> file_key \<Rightarrow> candle list \<Rightarrow> csv_files \<Rightarrow> csv_files \<times> unit result" where
  "write_csv_file disk_ok key candles files =
     (if disk_ok key then (d_set key (map to_csv_row candles) files, Inr ())
      else (files, Inl (OtherError ''OSError'')))"

section \<open>Writing\<close>

definition csv_append :: "(file_key \<Rightarrow> bool) \<Rightarrow> candle \<Rightarrow> csv_files \<Rightarrow> csv_files \<times> bool result" where
  "csv_append disk_ok c files =
     (if \<not> c_closed c then (files, Inl (ValueError ''Cannot append open candle''))
      else
        (let key = csv_file_path (c_symbol c) (c_ts c);
             existing = read_csv_file files key (c_symbol c)
         in if list_ex (\<lambda>d. dt_eq (c_ts d) (c_ts c)) existing then (files, Inr False)
            else (case write_csv_file disk_ok key (sort_candles (existing @ [c])) files of
                    (files', Inl e) \<Rightarrow> (files', Inl e)
                  | (files', Inr u) \<Rightarrow> (files', Inr True))))"

text \<open>\<open>d[c.timestamp] = c\<close> on the values of a dictionary keyed by timestamp.\<close>

fun put_candle :: "candle \<Rightarrow> candle list \<Rightarrow> candle list" where
  "put_candle c [] = [c]"
| "put_candle c (d # ds) = (if dt_eq (c_ts d) (c_ts c) then c # ds else d # put_candle c ds)"

definition group_by_month :: "candle list \<Rightarrow> (int, candle list) dict" where
  "group_by_month cs = fold (\<lambda>c d. let k = dt_month (c_ts c) in
     d_set k ((case d_get d k of None \<Rightarrow> [] | Some l \<Rightarrow> l) @ [c]) d) cs []"

fun patch_months :: "(file_key \<Rightarrow> bool) \<Rightarrow> (int, candle list) dict \<Rightarrow> int \<Rightarrow> csv_files \<Rightarrow> csv_files \<times> int result" where
  "patch_months disk_ok [] written files = (files, Inr written)"
| "patch_months disk_ok ((m, cs) # rest) written files =
     (let symbol = c_symbol (hd cs);
          existing = fold put_candle (read_csv_file files (symbol, m) symbol) [];
          merged = sort_candles (fold put_candle cs existing)
      in case write_csv_file disk_ok (symbol, m) merged files of
           (files', Inl e) \<Rightarrow> (files', Inl e)
         | (files', Inr u) \<Rightarrow> patch_months disk_ok rest (written + int (length cs)) files')"

definition csv_patch :: "(file_key \<Rightarrow> bool) \<Rightarrow> candle list \<Rightarrow> csv_files \<Rightarrow> csv_files \<times> int result" where
  "csv_patch disk_ok cs files =
     (if cs = [] then (files, Inr 0) else patch_months disk_ok (group_by_month cs) 0 files)"

section \<open>Reading\<close>

text \<open>
  The first of the next month; after December 9999 there is none and \<open>replace\<close> raises, which
  also bounds the loop.
\<close>

definition next_month :: "datetime \<Rightarrow> datetime result" where
  "next_month d = (if dt_month d \<ge> 119999 then Inl (ValueError ''year 10000 is out of range'')
     else Inr (d\<lparr>dt_wall := month_start (dt_month d + 1) * day_us\<rparr>))"

lemma dt_month_start [simp]: "dt_month (d\<lparr>dt_wall := month_start i * day_us\<rparr>) = i"
  by (simp add: dt_month_def dt_day_def)

function read_months :: "csv_files \<Rightarrow> string \<Rightarrow> datetime \<Rightarrow> datetime \<Rightarrow> datetime \<Rightarrow> candle list result" where
  "read_months files symbol start stop current =
     (if dt_less current stop
      then
        (let found = filter (\<lambda>c. dt_le start (c_ts c) \<and> dt_less (c_ts c) stop)
               (read_csv_file files (csv_file_path symbol current) symbol)
         in case next_month current of
              Inl e \<Rightarrow> Inl e
            | Inr next \<Rightarrow> sbind (read_months files symbol start stop next) (\<lambda>rest. Inr (found @ rest)))
      else Inr [])"
  by pat_completeness auto
termination
  by (relation "measure (\<lambda>(files, symbol, start, stop, current). nat (120000 - dt_month current))")
    (auto simp: next_month_def split: if_splits)

declare read_months.simps [simp del]

definition csv_read_range :: "csv_files \<Rightarrow> string \<Rightarrow> datetime \<Rightarrow> datetime \<Rightarrow> bool \<Rightarrow> candle_range result" where
  "csv_read_range files symbol start stop validate_gaps =
     sbind (read_months files symbol start stop (floor_month start)) (\<lambda>cs.
       let r = \<lparr>r_symbol = symbol, r_start = start, r_end = stop, r_candles = cs,
                r_is_complete = True, r_missing_count = 0\<rparr>
       in Inr (if validate_gaps then fst (validate_completeness r) else r))"

text \<open>The twelve months back from the present one; \<open>now\<close> is in the store's zone.\<close>

fun last_in_months :: "nat \<Rightarrow> csv_files \<Rightarrow> string \<Rightarrow> int \<Rightarrow> datetime option" where
  "last_in_months 0 files symbol m = None"
| "last_in_months (Suc n) files symbol m =
     (case read_csv_file files (symbol, m) symbol of
        [] \<Rightarrow> last_in_months n files symbol (m - 1)
      | c # cs \<Rightarrow> Some (c_ts (last (c # cs))))"

definition csv_last_timestamp :: "datetime \<Rightarrow> csv_files \<Rightarrow> string \<Rightarrow> datetime option" where
  "csv_last_timestamp now files symbol = last_in_months 12 files symbol (dt_month now)"

definition csv_count_stored :: "csv_files \<Rightarrow> string \<Rightarrow> int" where
  "csv_count_stored files symbol =
     sum_list (map (\<lambda>(k, ls). if fst k = symbol then int (length (filter (\<lambda>l. l \<noteq> []) ls)) else 0) files)"

text \<open>Years and months of the symbol's files in order (years have four digits).\<close>

fun first_in_months :: "csv_files \<Rightarrow> string \<Rightarrow> int list \<Rightarrow> datetime option" where
  "first_in_months files symbol [] = None"
| "first_in_months files symbol (m # ms) =
     (case read_csv_file files (symbol, m) symbol of
        [] \<Rightarrow> first_in_months files symbol ms
      | c # cs \<Rightarrow> Some (c_ts c))"

definition symbol_months :: "csv_files \<Rightarrow> string \<Rightarrow> int list" where
  "symbol_months files symbol = sort (map snd (filter (\<lambda>k. fst k = symbol) (d_keys files)))"

definition csv_earliest_timestamp :: "csv_files \<Rightarrow> string \<Rightarrow> datetime option" where
  "csv_earliest_timestamp files symbol = first_in_months files symbol (symbol_months files symbol)"

definition csv_coverage :: "csv_files \<Rightarrow> string \<Rightarrow> datetime \<Rightarrow> datetime \<Rightarrow> (int \<times> int \<times> pfloat) result" where
  "csv_coverage files symbol start stop =
     sbind (csv_read_range files symbol start stop True) (\<lambda>r.
       Inr (range_count r, range_expected_count r, percent (range_count r) (range_expected_count r)))"

definition replace_day_1 :: "datetime \<Rightarrow> datetime" where
  "replace_day_1 d = d\<lparr>dt_wall := month_start (dt_month d) * day_us + dt_wall d mod day_us\<rparr>"

definition csv_validate_integrity ::
    "datetime \<Rightarrow> csv_files \<Rightarrow> string \<Rightarrow> datetime option \<Rightarrow> datetime option \<Rightarrow> bool result" where
  "csv_validate_integrity now files symbol start_opt stop_opt =
     (let stop = (case stop_opt of None \<Rightarrow> now | Some t \<Rightarrow> t);
          start = (case start_opt of None \<Rightarrow> replace_day_1 stop | Some t \<Rightarrow> t)
      in sbind (csv_read_range files symbol start stop True) (\<lambda>r.
           if \<not> r_is_complete r then Inl (ValueError ''Data has gaps'')
           else if \<not> strictly_sorted (r_candles r) then Inl (ValueError ''Timestamps not sorted'')
           else if length (r_candles r) \<noteq> unique_count (map c_ts (r_candles r))
                then Inl (ValueError ''Duplicate timestamps found'')
           else Inr True))"

end
