(* ===== verification/CsvStore_Inv.thy ===== *)
theory CsvStore_Inv
  imports CsvStore
begin

text \<open>
  The candle store as a map from symbols and instants to candles, and what every operation does
  to that map, for candles stamped in UTC at whole seconds.
\<close>

section \<open>Candles as a map\<close>

definition instant :: "candle \<Rightarrow> int" where
  "instant c = dt_epoch (c_ts c)"

definition good_candle :: "string \<Rightarrow> candle \<Rightarrow> bool" where
  "good_candle symb c \<longleftrightarrow> candle_ok c \<and> c_symbol c = symb \<and> c_closed c \<and> (\<exists>s. c_ts c = utc_dt (s * second_us))"

definition month_at :: "int \<Rightarrow> int" where
  "month_at u = month_of_day (u div day_us)"

lemma dt_month_utc [simp]: "dt_month (utc_dt u) = month_at u"
  by (simp add: dt_month_def dt_day_def month_at_def)

lemma good_candle_ts: "good_candle symb c \<Longrightarrow> c_ts c = utc_dt (instant c)"
  by (auto simp: good_candle_def instant_def)

lemma good_candle_symbol: "good_candle symb c \<Longrightarrow> c_symbol c = symb"
  by (simp add: good_candle_def)

lemma month_at_bounds:
  "month_start (month_at u) * day_us \<le> u" "u < month_start (month_at u + 1) * day_us"
proof -
  note s = month_of_day_spec [of "u div day_us"]
  have "month_start (month_at u) * day_us \<le> u div day_us * day_us" using s by (simp add: month_at_def)
  also have "\<dots> \<le> u" by (simp add: minus_mod_eq_div_mult [symmetric])
  finally show "month_start (month_at u) * day_us \<le> u" .
  have "u < (u div day_us + 1) * day_us"
    using minus_mod_eq_div_mult [of u day_us] pos_mod_bound [of day_us u] by (simp add: algebra_simps)
  also have "\<dots> \<le> month_start (month_at u + 1) * day_us" using s by (simp add: month_at_def)
  finally show "u < month_start (month_at u + 1) * day_us" .
qed

lemma month_at_ge_iff: "i \<le> month_at u \<longleftrightarrow> month_start i * day_us \<le> u"
proof
  assume "i \<le> month_at u"
  then have "month_start i \<le> month_start (month_at u)" by (rule month_start_mono)
  with month_at_bounds(1) [of u] show "month_start i * day_us \<le> u" by simp
next
  assume a: "month_start i * day_us \<le> u"
  show "i \<le> month_at u"
  proof (rule ccontr)
    assume "\<not> i \<le> month_at u"
    then have "month_start (month_at u + 1) \<le> month_start i" by (intro month_start_mono) simp
    with month_at_bounds(2) [of u] a show False by simp
  qed
qed

lemma month_at_mono: "u \<le> v \<Longrightarrow> month_at u \<le> month_at v"
  unfolding month_at_ge_iff using month_at_bounds(1) [of u] by linarith

definition candle_map :: "candle list \<Rightarrow> int \<Rightarrow> candle option" where
  "candle_map cs = map_of (map (\<lambda>c. (instant c, c)) cs)"

lemma candle_map_simps [simp]:
  "candle_map [] = Map.empty" "candle_map (c # cs) = (candle_map cs)(instant c \<mapsto> c)"
  by (simp_all add: candle_map_def)

lemma candle_map_append [simp]: "candle_map (cs @ ds) = candle_map ds ++ candle_map cs"
  by (simp add: candle_map_def)

lemma candle_map_SomeD: "candle_map cs u = Some c \<Longrightarrow> c \<in> set cs \<and> instant c = u"
  by (auto simp: candle_map_def dest: map_of_SomeD)

lemma candle_map_iff:
  "distinct (map instant cs) \<Longrightarrow> candle_map cs u = Some c \<longleftrightarrow> c \<in> set cs \<and> instant c = u"
  by (subst candle_map_def, subst map_of_eq_Some_iff) (auto simp: comp_def)

lemma candle_map_None_iff: "candle_map cs u = None \<longleftrightarrow> u \<notin> instant ` set cs"
  by (auto simp: candle_map_def map_of_eq_None_iff image_image)

lemma candle_map_cong:
  assumes "distinct (map instant cs)" "distinct (map instant ds)" "set cs = set ds"
  shows "candle_map cs = candle_map ds"
proof
  fix u show "candle_map cs u = candle_map ds u"
    using candle_map_iff [OF assms(1), of u] candle_map_iff [OF assms(2), of u] assms(3)
    by (metis not_Some_eq)
qed

lemma candle_map_filter_month:
  "candle_map (filter (\<lambda>c. month_at (instant c) = month_at u) cs) u = candle_map cs u"
  by (induction cs) auto

definition utc_stamped :: "candle list \<Rightarrow> bool" where
  "utc_stamped cs \<longleftrightarrow> (\<forall>c \<in> set cs. c_ts c = utc_dt (instant c))"

lemma utc_stamped_simps [simp]:
  "utc_stamped []" "utc_stamped (c # cs) \<longleftrightarrow> c_ts c = utc_dt (instant c) \<and> utc_stamped cs"
  "utc_stamped (cs @ ds) \<longleftrightarrow> utc_stamped cs \<and> utc_stamped ds"
  by (auto simp: utc_stamped_def)

lemma good_utc_stamped: "\<forall>c \<in> set cs. good_candle symb c \<Longrightarrow> utc_stamped cs"
  by (auto simp: utc_stamped_def dest: good_candle_ts)

lemma insert_candle_utc:
  "utc_stamped (c # ds) \<Longrightarrow> insert_candle c ds = insort_key instant c ds"
  by (induction ds) auto

lemma sort_candles_utc: "utc_stamped cs \<Longrightarrow> sort_candles cs = sort_key instant cs"
proof (induction cs)
  case (Cons c cs)
  have "utc_stamped (c # sort_key instant cs)" using Cons.prems by (auto simp: utc_stamped_def)
  from insert_candle_utc [OF this] Cons show ?case by (simp add: sort_candles_def sort_key_def)
qed (simp add: sort_candles_def)

lemma sort_key_sorted_id: "sorted_wrt (<) (map f cs) \<Longrightarrow> sort_key f cs = (cs :: candle list)"
  for f :: "candle \<Rightarrow> int"
  by (rule sort_key_id_if_sorted) (simp add: strict_sorted_iff)

lemma put_candle_utc:
  assumes "utc_stamped (c # cs)" "distinct (map instant cs)"
  shows "candle_map (put_candle c cs) = (candle_map cs)(instant c \<mapsto> c) \<and>
    instant ` set (put_candle c cs) = insert (instant c) (instant ` set cs) \<and>
    distinct (map instant (put_candle c cs)) \<and> set (put_candle c cs) \<subseteq> insert c (set cs)"
  using assms by (induction cs) auto

lemma put_candles_utc:
  assumes "utc_stamped cs" "utc_stamped ds" "distinct (map instant ds)"
  shows "candle_map (fold put_candle cs ds) = candle_map ds ++ candle_map (rev cs) \<and>
    distinct (map instant (fold put_candle cs ds)) \<and> set (fold put_candle cs ds) \<subseteq> set ds \<union> set cs"
  using assms
proof (induction cs arbitrary: ds)
  case (Cons c cs)
  have u: "utc_stamped (c # ds)" "utc_stamped cs" using Cons.prems by simp_all
  note p = put_candle_utc [OF u(1) Cons.prems(3)]
  have "utc_stamped (put_candle c ds)" using p u(1) by (auto simp: utc_stamped_def)
  from Cons.IH [OF u(2) this] p have
    "candle_map (fold put_candle (c # cs) ds) = candle_map ds ++ candle_map (rev (c # cs))"
    by (simp add: map_add_def fun_eq_iff split: option.splits)
  with Cons.IH [OF u(2) \<open>utc_stamped (put_candle c ds)\<close>] p show ?case by auto
qed simp

section \<open>Well-formed stores\<close>

definition file_ok :: "string \<Rightarrow> int \<Rightarrow> csv_field list list \<Rightarrow> bool" where
  "file_ok symb m ls \<longleftrightarrow> (\<exists>cs. ls = map to_csv_row cs \<and> sorted_wrt (<) (map instant cs) \<and>
     (\<forall>c \<in> set cs. good_candle symb c \<and> month_at (instant c) = m))"

definition files_ok :: "csv_files \<Rightarrow> bool" where
  [inv_defs]: "files_ok files \<longleftrightarrow> dict_wf files \<and>
  (\<forall>(k, ls) \<in> set files. file_ok (fst k) (snd k) ls)"

definition store_map :: "csv_files \<Rightarrow> string \<Rightarrow> int \<Rightarrow> candle option" where
  "store_map files symb u = candle_map (read_csv_file files (symb, month_at u) symb) u"

lemma files_ok_Nil [simp]: "files_ok []"
  by (simp add: inv_defs)

lemma parse_lines_rows:
  "\<forall>c \<in> set cs. good_candle symb c \<Longrightarrow> parse_lines symb (map to_csv_row cs) = cs"
proof (induction cs)
  case (Cons c cs)
  then have "from_csv_row symb (to_csv_row c) = Inr c"
    using csv_row_roundtrip [of c] by (auto simp: good_candle_def)
  moreover have "to_csv_row c \<noteq> []" by (simp add: to_csv_row_def)
  ultimately show ?case using Cons by simp
qed simp

lemma read_rows:
  assumes "sorted_wrt (<) (map instant cs)" "\<forall>c \<in> set cs. good_candle symb c"
  shows "sort_candles (parse_lines symb (map to_csv_row cs)) = cs"
  using assms by (simp add: parse_lines_rows sort_candles_utc good_utc_stamped sort_key_sorted_id)

lemma read_file_ok:
  assumes "files_ok files"
  shows "sorted_wrt (<) (map instant (read_csv_file files (symb, m) symb))"
    and "c \<in> set (read_csv_file files (symb, m) symb) \<Longrightarrow> good_candle symb c \<and> month_at (instant c) = m"
proof -
  have "sorted_wrt (<) (map instant (read_csv_file files (symb, m) symb)) \<and>
    (\<forall>c \<in> set (read_csv_file files (symb, m) symb). good_candle symb c \<and> month_at (instant c) = m)"
  proof (cases "d_get files (symb, m)")
    case (Some ls)
    have "file_ok symb m ls" using assms d_get_in [OF Some] by (fastforce simp: inv_defs)
    then obtain cs where "ls = map to_csv_row cs" "sorted_wrt (<) (map instant cs)"
      "\<forall>c \<in> set cs. good_candle symb c \<and> month_at (instant c) = m"
      by (auto simp: file_ok_def)
    with Some show ?thesis by (simp add: read_csv_file_def read_rows)
  qed (simp add: read_csv_file_def)
  then show "sorted_wrt (<) (map instant (read_csv_file files (symb, m) symb))"
    and "c \<in> set (read_csv_file files (symb, m) symb) \<Longrightarrow> good_candle symb c \<and> month_at (instant c) = m"
    by blast+
qed

lemma read_file_distinct: "files_ok files \<Longrightarrow> distinct (map instant (read_csv_file files (symb, m) symb))"
  using read_file_ok(1) by (simp add: strict_sorted_iff)

lemma store_map_iff:
  "files_ok files \<Longrightarrow> store_map files symb u = Some c \<longleftrightarrow>
     c \<in> set (read_csv_file files (symb, month_at u) symb) \<and> instant c = u"
  by (simp add: store_map_def candle_map_iff read_file_distinct)

lemma store_map_good:
  "files_ok files \<Longrightarrow> store_map files symb u = Some c \<Longrightarrow> good_candle symb c \<and> instant c = u"
  by (auto simp: store_map_iff dest: read_file_ok(2))

text \<open>Replacing one file by sorted candles of its month.\<close>

lemma rewrite_file:
  assumes "files_ok files" "sorted_wrt (<) (map instant cs)"
    "\<forall>c \<in> set cs. good_candle symb c \<and> month_at (instant c) = m"
  shows "files_ok (d_set (symb, m) (map to_csv_row cs) files)"
    and "store_map (d_set (symb, m) (map to_csv_row cs) files) s u =
      (if s = symb \<and> month_at u = m then candle_map cs u else store_map files s u)"
proof -
  have "file_ok symb m (map to_csv_row cs)" using assms(2,3) by (auto simp: file_ok_def)
  then have "\<forall>(k, ls) \<in> set (d_set (symb, m) (map to_csv_row cs) files). file_ok (fst k) (snd k) ls"
    using assms(1) by (intro d_set_all) (auto simp: inv_defs)
  then show "files_ok (d_set (symb, m) (map to_csv_row cs) files)"
    using assms(1) by (simp add: inv_defs)
  show "store_map (d_set (symb, m) (map to_csv_row cs) files) s u =
      (if s = symb \<and> month_at u = m then candle_map cs u else store_map files s u)"
    using assms(2,3) by (auto simp: store_map_def read_csv_file_def read_rows)
qed

lemma sort_good:
  assumes "distinct (map instant cs)" "\<forall>c \<in> set cs. good_candle symb c"
  shows "sorted_wrt (<) (map instant (sort_candles cs))" "set (sort_candles cs) = set cs"
    "candle_map (sort_candles cs) = candle_map cs"
proof -
  have s: "sort_candles cs = sort_key instant cs"
    using assms(2) by (intro sort_candles_utc good_utc_stamped)
  have d: "distinct (map instant (sort_key instant cs))" using assms(1) by (simp add: distinct_map)
  then show "sorted_wrt (<) (map instant (sort_candles cs))" by (simp add: s strict_sorted_iff)
  show "set (sort_candles cs) = set cs" by (simp add: s)
  show "candle_map (sort_candles cs) = candle_map cs"
    unfolding s using d assms(1) by (intro candle_map_cong) simp_all
qed

end
