(* ===== verification/CsvStore_Ops.thy ===== *)
theory CsvStore_Ops
  imports CsvStore_Inv
begin

text \<open>What appending, patching and reading do to the map of a candle store.\<close>

section \<open>Appending\<close>

lemma month_good: "good_candle symb c \<Longrightarrow> csv_file_path (c_symbol c) (c_ts c) = (symb, month_at (instant c))"
  by (metis csv_file_path_def dt_month_utc good_candle_symbol good_candle_ts)

lemma present_iff:
  assumes "files_ok files" "good_candle symb c"
  shows "list_ex (\<lambda>d. dt_eq (c_ts d) (c_ts c)) (read_csv_file files (symb, month_at (instant c)) symb) \<longleftrightarrow>
    store_map files symb (instant c) \<noteq> None"
proof -
  have "dt_eq (c_ts d) (c_ts c) \<longleftrightarrow> instant d = instant c"
    if "d \<in> set (read_csv_file files (symb, month_at (instant c)) symb)" for d
    using read_file_ok(2) [OF assms(1) that] assms(2) by (metis dt_utc_simps(4) good_candle_ts)
  then show ?thesis
    using candle_map_None_iff [of "read_csv_file files (symb, month_at (instant c)) symb" "instant c"]
    by (auto simp: list_ex_iff store_map_def image_iff)
qed

lemma csv_append_map:
  assumes "files_ok files" "good_candle symb c"
  shows "case csv_append disk_ok c files of
      (files', Inr True) \<Rightarrow> store_map files symb (instant c) = None \<and> files_ok files' \<and>
        (\<forall>s u. store_map files' s u = (if s = symb \<and> u = instant c then Some c else store_map files s u))
    | (files', Inr False) \<Rightarrow> store_map files symb (instant c) \<noteq> None \<and> files' = files
    | (files', Inl e) \<Rightarrow> \<not> disk_ok (symb, month_at (instant c)) \<and> files' = files"
proof -
  let ?m = "month_at (instant c)"
  let ?cs = "read_csv_file files (symb, ?m) symb"
  have sc: "c_symbol c = symb" "c_closed c" using assms(2) by (simp_all add: good_candle_def)
  have p: "csv_file_path symb (c_ts c) = (symb, ?m)" using month_good [OF assms(2)] sc by simp
  show ?thesis
  proof (cases "store_map files symb (instant c)")
    case (Some d)
    then show ?thesis using present_iff [OF assms] by (simp add: csv_append_def Let_def sc p)
  next
    case None
    have g: "\<forall>d \<in> set (?cs @ [c]). good_candle symb d \<and> month_at (instant d) = ?m"
      using assms(2) read_file_ok(2) [OF assms(1)] by auto
    have "instant c \<notin> instant ` set ?cs" using None by (simp add: store_map_def candle_map_None_iff)
    then have d: "distinct (map instant (?cs @ [c]))"
      using read_file_distinct [OF assms(1)] by auto
    note s = sort_good [OF d, of symb]
    have w: "sorted_wrt (<) (map instant (sort_candles (?cs @ [c])))"
      "\<forall>d \<in> set (sort_candles (?cs @ [c])). good_candle symb d \<and> month_at (instant d) = ?m"
      "candle_map (sort_candles (?cs @ [c])) = candle_map (?cs @ [c])"
      using s g by blast+
    note r = rewrite_file [OF assms(1) w(1,2)]
    show ?thesis
    proof (cases "disk_ok (symb, ?m)")
      case True
      have m: "candle_map (?cs @ [c]) u = (if u = instant c then Some c else candle_map ?cs u)" for u
        using None by (auto simp: map_add_def store_map_def split: option.splits)
      have "store_map (d_set (symb, ?m) (map to_csv_row (sort_candles (?cs @ [c]))) files) s u =
          (if s = symb \<and> u = instant c then Some c else store_map files s u)" for s u
        unfolding r(2) w(3) m by (auto simp: store_map_def)
      then show ?thesis
        using True present_iff [OF assms] None r(1) by (simp add: csv_append_def Let_def sc p write_csv_file_def)
    next
      case False
      then show ?thesis
        using present_iff [OF assms] None by (simp add: csv_append_def Let_def sc p write_csv_file_def)
    qed
  qed
qed

section \<open>Patching\<close>

definition groups_step :: "candle \<Rightarrow> (int, candle list) dict \<Rightarrow> (int, candle list) dict" where
  "groups_step c d = (let k = dt_month (c_ts c) in
     d_set k ((case d_get d k of None \<Rightarrow> [] | Some l \<Rightarrow> l) @ [c]) d)"

lemma group_by_month_snoc: "group_by_month (cs @ [c]) = groups_step c (group_by_month cs)"
  by (simp add: group_by_month_def groups_step_def Let_def)

lemma groups_wf: "dict_wf (group_by_month cs)"
  by (induction cs rule: rev_induct) (simp_all add: group_by_month_snoc groups_step_def Let_def, simp add: group_by_month_def)

lemma groups_get:
  "d_get (group_by_month cs) m =
     (let g = filter (\<lambda>c. dt_month (c_ts c) = m) cs in if g = [] then None else Some g)"
proof (induction cs rule: rev_induct)
  case (snoc c cs)
  then show ?case by (cases "m = dt_month (c_ts c)") (simp_all add: group_by_month_snoc groups_step_def Let_def)
qed (simp add: group_by_month_def)

lemma sum_lengths_set:
  "dict_wf d \<Longrightarrow> sum_list (map (\<lambda>x. length (snd x)) (d_set k ((case d_get d k of None \<Rightarrow> [] | Some l \<Rightarrow> l) @ [c]) d)) =
     Suc (sum_list (map (\<lambda>x. length (snd x)) d))"
proof (induction d)
  case (Cons x d)
  then show ?case by (cases x) (simp add: dict_wf_def)
qed simp

lemma groups_total: "sum_list (map (\<lambda>x. length (snd x)) (group_by_month cs)) = length cs"
proof (induction cs rule: rev_induct)
  case (snoc c cs)
  then show ?case
    using sum_lengths_set [OF groups_wf, of "dt_month (c_ts c)" cs c]
    by (simp add: group_by_month_snoc groups_step_def Let_def)
qed (simp add: group_by_month_def)

text \<open>One month of a patch.\<close>

lemma patch_month_map:
  assumes "files_ok files" "cs \<noteq> []" "\<forall>c \<in> set cs. good_candle symb c \<and> month_at (instant c) = m"
  defines "merged \<equiv> sort_candles (fold put_candle cs (fold put_candle (read_csv_file files (symb, m) symb) []))"
  shows "files_ok (d_set (symb, m) (map to_csv_row merged) files)"
    and "store_map (d_set (symb, m) (map to_csv_row merged) files) s u =
      (if s = symb \<and> month_at u = m then (store_map files symb ++ candle_map (rev cs)) u else store_map files s u)"
proof -
  let ?cs = "read_csv_file files (symb, m) symb"
  have g: "\<forall>c \<in> set ?cs. good_candle symb c \<and> month_at (instant c) = m"
    using read_file_ok(2) [OF assms(1)] by blast
  have u: "utc_stamped ?cs" "utc_stamped cs" using g assms(3) by (blast intro: good_utc_stamped)+
  note e = put_candles_utc [OF u(1), of "[]", simplified]
  let ?ex = "fold put_candle ?cs []"
  have ue: "utc_stamped ?ex" using e u(1) by (auto simp: utc_stamped_def)
  have me: "candle_map ?ex = candle_map ?cs"
    using e read_file_distinct [OF assms(1), of symb m]
    by (simp add: candle_map_cong [of "rev ?cs" ?cs] rev_map [symmetric])
  note p = put_candles_utc [OF u(2) ue conjunct1 [OF conjunct2 [OF e]]]
  let ?new = "fold put_candle cs ?ex"
  have gn: "\<forall>c \<in> set ?new. good_candle symb c \<and> month_at (instant c) = m"
    using p e g assms(3) by blast
  note s = sort_good [of ?new symb]
  have w: "sorted_wrt (<) (map instant merged)" "\<forall>c \<in> set merged. good_candle symb c \<and> month_at (instant c) = m"
    "candle_map merged = candle_map ?cs ++ candle_map (rev cs)"
    unfolding merged_def using s p gn me by (simp_all del: candle_map_append)
  note r = rewrite_file [OF assms(1) w(1,2)]
  show "files_ok (d_set (symb, m) (map to_csv_row merged) files)" by (rule r(1))
  show "store_map (d_set (symb, m) (map to_csv_row merged) files) s u =
      (if s = symb \<and> month_at u = m then (store_map files symb ++ candle_map (rev cs)) u else store_map files s u)"
    unfolding r(2) w(3) by (auto simp: map_add_def store_map_def split: option.splits)
qed

text \<open>
  The months of a patch in turn: each is written in full or not at all, and the call fails at
  the first month that cannot be written.
\<close>

lemma patch_months_map:
  assumes "files_ok files" "dict_wf gs"
    and "\<forall>(m, cs) \<in> set gs. cs \<noteq> [] \<and> (\<forall>c \<in> set cs. good_candle symb c \<and> month_at (instant c) = m)"
  shows "\<exists>files' n. patch_months disk_ok gs written files =
      (files', if n = length gs then Inr (written + int (sum_list (map (\<lambda>x. length (snd x)) gs)))
               else Inl (OtherError ''OSError'')) \<and>
    files_ok files' \<and> n \<le> length gs \<and> (\<forall>i < n. disk_ok (symb, fst (gs ! i))) \<and>
    (n < length gs \<longrightarrow> \<not> disk_ok (symb, fst (gs ! n))) \<and>
    (\<forall>s u. store_map files' s u =
      (if s = symb then (case d_get (take n gs) (month_at u) of
          None \<Rightarrow> store_map files symb u
        | Some cs \<Rightarrow> (store_map files symb ++ candle_map (rev cs)) u)
       else store_map files s u))"
  using assms
proof (induction gs arbitrary: files written)
  case Nil
  then show ?case by (intro exI [of _ files] exI [of _ 0]) simp
next
  case (Cons g gs)
  obtain m cs where g: "g = (m, cs)" by (cases g)
  have cs: "cs \<noteq> []" "\<forall>c \<in> set cs. good_candle symb c \<and> month_at (instant c) = m"
    using Cons.prems(3) by (simp_all add: g)
  then have sy: "c_symbol (hd cs) = symb" using good_candle_symbol by (cases cs) auto
  note pm = patch_month_map [OF Cons.prems(1) cs]
  let ?merged = "sort_candles (fold put_candle cs (fold put_candle (read_csv_file files (symb, m) symb) []))"
  let ?files1 = "d_set (symb, m) (map to_csv_row ?merged) files"
  show ?case
  proof (cases "disk_ok (symb, m)")
    case False
    then show ?thesis
      using Cons.prems(1) by (intro exI [of _ files] exI [of _ 0]) (simp add: g sy Let_def write_csv_file_def)
  next
    case True
    have fresh: "m \<notin> set (d_keys gs)" "dict_wf gs" using Cons.prems(2) by (simp_all add: g dict_wf_def)
    obtain files' n where ih: "patch_months disk_ok gs (written + int (length cs)) ?files1 =
        (files', if n = length gs then Inr (written + int (length cs) + int (sum_list (map (\<lambda>x. length (snd x)) gs)))
                 else Inl (OtherError ''OSError''))"
      "files_ok files'" "n \<le> length gs" "\<forall>i < n. disk_ok (symb, fst (gs ! i))"
      "n < length gs \<longrightarrow> \<not> disk_ok (symb, fst (gs ! n))"
      "\<forall>s u. store_map files' s u =
        (if s = symb then (case d_get (take n gs) (month_at u) of
            None \<Rightarrow> store_map ?files1 symb u
          | Some cs \<Rightarrow> (store_map ?files1 symb ++ candle_map (rev cs)) u)
         else store_map ?files1 s u)"
      using Cons.IH [OF pm(1) fresh(2), of "written + int (length cs)"] Cons.prems(3) by auto
    have none: "d_get (take n gs) m = None"
      using fresh(1) by (auto simp: map_of_eq_None_iff dest: in_set_takeD)
    have "store_map files' s u =
        (if s = symb then (case d_get (take (Suc n) (g # gs)) (month_at u) of
            None \<Rightarrow> store_map files symb u
          | Some cs \<Rightarrow> (store_map files symb ++ candle_map (rev cs)) u)
         else store_map files s u)" for s u
      unfolding ih(6) [rule_format] map_add_def pm(2) by (auto simp: g none split: option.splits)
    moreover have "\<forall>i < Suc n. disk_ok (symb, fst ((g # gs) ! i))"
      using ih(4) True by (auto simp: g less_Suc_eq_0_disj)
    ultimately show ?thesis
      using ih(1,2,3,5) True
      by (intro exI [of _ files'] exI [of _ "Suc n"]) (simp add: g sy Let_def write_csv_file_def)
  qed
qed

section \<open>Reading\<close>

lemma next_month_utc:
  "i < 119999 \<Longrightarrow> next_month (utc_dt (month_start i * day_us)) = Inr (utc_dt (month_start (i + 1) * day_us))"
proof -
  assume "i < 119999"
  moreover have "month_at (month_start i * day_us) = i" by (simp add: month_at_def)
  moreover have "utc_dt a\<lparr>dt_wall := b\<rparr> = utc_dt b" for a b by (simp add: utc_dt_def)
  ultimately show ?thesis by (simp add: next_month_def)
qed

lemma floor_month_utc: "floor_month (utc_dt u) = utc_dt (month_start (month_at u) * day_us)"
proof -
  have "utc_dt a\<lparr>dt_wall := b\<rparr> = utc_dt b" for a b by (simp add: utc_dt_def)
  then show ?thesis by (simp add: floor_month_def)
qed

text \<open>
  The loop over the months from month \<open>i\<close> on collects, in order, the candles of the range that
  are not older than that month.
\<close>

lemma read_months_map:
  assumes "files_ok files" "stop \<le> month_start 119999 * day_us"
  shows "\<exists>cs. read_months files symb (utc_dt start) (utc_dt stop) (utc_dt (month_start i * day_us)) = Inr cs \<and>
    sorted_wrt (<) (map instant cs) \<and>
    (\<forall>c. c \<in> set cs \<longleftrightarrow> (\<exists>u. store_map files symb u = Some c \<and> start \<le> u \<and> u < stop \<and> month_start i * day_us \<le> u))"
proof (induction "nat (120000 - i)" arbitrary: i rule: less_induct)
  case less
  show ?case
  proof (cases "month_start i * day_us < stop")
    case False
    then show ?thesis by (auto simp: read_months.simps)
  next
    case True
    have i: "i < 119999"
    proof (rule ccontr)
      assume "\<not> i < 119999"
      then have "month_start 119999 \<le> month_start i" by (intro month_start_mono) simp
      with True assms(2) show False by simp
    qed
    obtain cs where cs: "read_months files symb (utc_dt start) (utc_dt stop) (utc_dt (month_start (i + 1) * day_us)) = Inr cs"
      "sorted_wrt (<) (map instant cs)"
      "\<forall>c. c \<in> set cs \<longleftrightarrow> (\<exists>u. store_map files symb u = Some c \<and> start \<le> u \<and> u < stop \<and> month_start (i + 1) * day_us \<le> u)"
      using less.hyps [of "i + 1"] i by auto
    let ?all = "read_csv_file files (symb, i) symb"
    define found where "found = filter (\<lambda>c. dt_le (utc_dt start) (c_ts c) \<and> dt_less (c_ts c) (utc_dt stop)) ?all"
    have fd: "c \<in> set found \<longleftrightarrow> (\<exists>u. store_map files symb u = Some c \<and> start \<le> u \<and> u < stop \<and> month_at u = i)" for c
    proof -
      have "c \<in> set ?all \<Longrightarrow> c_ts c = utc_dt (instant c) \<and> month_at (instant c) = i"
        using read_file_ok(2) [OF assms(1)] good_candle_ts by blast
      then show ?thesis by (auto simp: found_def store_map_iff [OF assms(1)])
    qed
    have "csv_file_path symb (utc_dt (month_start i * day_us)) = (symb, i)"
      by (simp add: csv_file_path_def month_at_def)
    then have r: "read_months files symb (utc_dt start) (utc_dt stop) (utc_dt (month_start i * day_us)) = Inr (found @ cs)"
      using True cs(1) next_month_utc [OF i] by (subst read_months.simps) (simp add: Let_def found_def)
    have split: "month_start i * day_us \<le> u \<longleftrightarrow> month_at u = i \<or> month_start (i + 1) * day_us \<le> u" for u
      unfolding month_at_ge_iff [symmetric] by auto
    have "sorted_wrt (<) (map instant found)"
      using read_file_ok(1) [OF assms(1), of symb i] unfolding found_def
      by (simp add: sorted_wrt_map sorted_wrt_filter)
    moreover have "instant c < instant d" if "c \<in> set found" "d \<in> set cs" for c d
    proof -
      have "month_at (instant c) = i" "month_start (i + 1) * day_us \<le> instant d"
        using that fd cs(3) store_map_good [OF assms(1)] by auto
      then show ?thesis using month_at_bounds(2) [of "instant c"] by simp
    qed
    ultimately have "sorted_wrt (<) (map instant (found @ cs))"
      using cs(2) by (auto simp: sorted_wrt_append)
    moreover have "c \<in> set (found @ cs) \<longleftrightarrow>
        (\<exists>u. store_map files symb u = Some c \<and> start \<le> u \<and> u < stop \<and> month_start i * day_us \<le> u)" for c
      unfolding split using fd cs(3) by auto
    ultimately show ?thesis using r by blast
  qed
qed

lemma csv_read_range_map:
  assumes "files_ok files" "stop \<le> month_start 119999 * day_us"
  shows "\<exists>r. csv_read_range files symb (utc_dt start) (utc_dt stop) gaps = Inr r \<and>
    r_symbol r = symb \<and> r_start r = utc_dt start \<and> r_end r = utc_dt stop \<and>
    sorted_wrt (<) (map instant (r_candles r)) \<and>
    (\<forall>c. c \<in> set (r_candles r) \<longleftrightarrow> (\<exists>u. store_map files symb u = Some c \<and> start \<le> u \<and> u < stop)) \<and>
    (gaps \<longrightarrow> r_missing_count r = max 0 (range_expected_count r - range_count r) \<and>
      (r_is_complete r \<longleftrightarrow> r_missing_count r = 0))"
proof -
  obtain cs where "read_months files symb (utc_dt start) (utc_dt stop) (floor_month (utc_dt start)) = Inr cs"
    "sorted_wrt (<) (map instant cs)"
    "\<forall>c. c \<in> set cs \<longleftrightarrow> (\<exists>u. store_map files symb u = Some c \<and> start \<le> u \<and> u < stop \<and> month_start (month_at start) * day_us \<le> u)"
    using read_months_map [OF assms, of symb start "month_at start"] by (auto simp: floor_month_utc)
  moreover have "month_start (month_at start) * day_us \<le> u" if "start \<le> u" for u
    using month_at_bounds(1) [of start] that by linarith
  ultimately show ?thesis
    by (cases gaps) (auto simp: csv_read_range_def Let_def validate_completeness_def range_count_def range_expected_count_def)
qed

section \<open>The newest and the oldest candle\<close>

lemma last_in_months_map:
  assumes "files_ok files"
  shows "case last_in_months n files symb m of
      None \<Rightarrow> \<forall>u. m - int n < month_at u \<and> month_at u \<le> m \<longrightarrow> store_map files symb u = None
    | Some t \<Rightarrow> \<exists>u. t = utc_dt u \<and> store_map files symb u \<noteq> None \<and> m - int n < month_at u \<and> month_at u \<le> m \<and>
        (\<forall>v. store_map files symb v \<noteq> None \<and> month_at v \<le> m \<longrightarrow> v \<le> u)"
proof (induction n arbitrary: m)
  case (Suc n)
  let ?cs = "read_csv_file files (symb, m) symb"
  have miss: "?cs = [] \<Longrightarrow> month_at u = m \<Longrightarrow> store_map files symb u = None" for u
    by (simp add: store_map_def)
  show ?case
  proof (cases ?cs)
    case Nil
    have le: "month_at u \<le> m \<longleftrightarrow> month_at u = m \<or> month_at u \<le> m - 1" for u by auto
    have lt: "m - int (Suc n) = m - 1 - int n" by simp
    show ?thesis
    proof (cases "last_in_months n files symb (m - 1)")
      case None
      then show ?thesis using Suc.IH [of "m - 1"] Nil miss unfolding lt by (auto simp: le)
    next
      case (Some t)
      then obtain u where u: "t = utc_dt u" "store_map files symb u \<noteq> None" "m - 1 - int n < month_at u"
        "month_at u \<le> m - 1" "\<forall>v. store_map files symb v \<noteq> None \<and> month_at v \<le> m - 1 \<longrightarrow> v \<le> u"
        using Suc.IH [of "m - 1"] by auto
      have "\<forall>v. store_map files symb v \<noteq> None \<and> month_at v \<le> m \<longrightarrow> v \<le> u"
        using u(5) miss [OF Nil] by (metis le)
      then show ?thesis using Nil Some u by auto
    qed
  next
    case (Cons c cs)
    let ?c = "last ?cs"
    have l: "?c \<in> set ?cs" using Cons by simp
    note g = read_file_ok(2) [OF assms l]
    have s: "store_map files symb (instant ?c) = Some ?c"
      using l g by (simp add: store_map_iff [OF assms])
    have "v \<le> instant ?c" if v: "store_map files symb v \<noteq> None" "month_at v \<le> m" for v
    proof (cases "month_at v = m")
      case True
      then obtain d where "d \<in> set ?cs" "instant d = v" using v(1) by (auto simp: store_map_iff [OF assms])
      then show ?thesis using read_file_ok(1) [OF assms, of symb m]
        by (metis (no_types, lifting) Cons last_map list.map_disc_iff image_eqI list.distinct(1) list.set_map
            sorted_le_last strict_sorted_iff)
    next
      case False
      show ?thesis
      proof (rule ccontr)
        assume "\<not> v \<le> instant ?c"
        then have "month_at (instant ?c) \<le> month_at v" by (intro month_at_mono) simp
        with False v(2) g show False by simp
      qed
    qed
    then have "\<exists>u. c_ts ?c = utc_dt u \<and> store_map files symb u \<noteq> None \<and> m - int (Suc n) < month_at u \<and>
        month_at u \<le> m \<and> (\<forall>v. store_map files symb v \<noteq> None \<and> month_at v \<le> m \<longrightarrow> v \<le> u)"
      using g s good_candle_ts by (intro exI [of _ "instant ?c"]) auto
    then show ?thesis by (simp add: Cons)
  qed
qed auto

lemma first_in_months_map:
  assumes "files_ok files" "sorted ms"
  shows "case first_in_months files symb ms of
      None \<Rightarrow> \<forall>u. month_at u \<in> set ms \<longrightarrow> store_map files symb u = None
    | Some t \<Rightarrow> \<exists>u. t = utc_dt u \<and> store_map files symb u \<noteq> None \<and>
        (\<forall>v. store_map files symb v \<noteq> None \<and> month_at v \<in> set ms \<longrightarrow> u \<le> v)"
  using assms(2)
proof (induction ms)
  case (Cons m ms)
  let ?cs = "read_csv_file files (symb, m) symb"
  have miss: "?cs = [] \<Longrightarrow> month_at u = m \<Longrightarrow> store_map files symb u = None" for u
    by (simp add: store_map_def)
  show ?case
  proof (cases ?cs)
    case Nil
    have ms: "sorted ms" using Cons.prems by simp
    show ?thesis
    proof (cases "first_in_months files symb ms")
      case None
      then show ?thesis using Cons.IH [OF ms] miss [OF Nil] Nil by auto
    next
      case (Some t)
      then obtain u where u: "t = utc_dt u" "store_map files symb u \<noteq> None"
        "\<forall>v. store_map files symb v \<noteq> None \<and> month_at v \<in> set ms \<longrightarrow> u \<le> v"
        using Cons.IH [OF ms] by auto
      have "\<forall>v. store_map files symb v \<noteq> None \<and> month_at v \<in> set (m # ms) \<longrightarrow> u \<le> v"
        using u(3) miss [OF Nil] by (metis set_ConsD)
      then show ?thesis using Nil Some u(1,2) by auto
    qed
  next
    case (Cons c cs)
    have l: "c \<in> set ?cs" using Cons by simp
    note g = read_file_ok(2) [OF assms(1) l]
    have s: "store_map files symb (instant c) = Some c" using l g by (simp add: store_map_iff [OF assms(1)])
    have "instant c \<le> v" if v: "store_map files symb v \<noteq> None" "month_at v \<in> set (m # ms)" for v
    proof (cases "month_at v = m")
      case True
      then obtain d where "d \<in> set ?cs" "instant d = v" using v(1) by (auto simp: store_map_iff [OF assms(1)])
      then show ?thesis using read_file_ok(1) [OF assms(1), of symb m] Cons by auto
    next
      case False
      then have "m \<le> month_at v" using v(2) \<open>sorted (m # ms)\<close> by auto
      with False have "m + 1 \<le> month_at v" by simp
      then have "month_start (m + 1) * day_us \<le> v" by (simp add: month_at_ge_iff)
      then show ?thesis using month_at_bounds(2) [of "instant c"] g by simp
    qed
    then have "\<exists>u. c_ts c = utc_dt u \<and> store_map files symb u \<noteq> None \<and>
        (\<forall>v. store_map files symb v \<noteq> None \<and> month_at v \<in> set (m # ms) \<longrightarrow> u \<le> v)"
      using g s good_candle_ts by (intro exI [of _ "instant c"]) auto
    then show ?thesis by (simp add: Cons)
  qed
qed simp

lemma month_in_symbol_months:
  "store_map files symb u \<noteq> None \<Longrightarrow> month_at u \<in> set (symbol_months files symb)"
proof -
  assume "store_map files symb u \<noteq> None"
  then have "read_csv_file files (symb, month_at u) symb \<noteq> []" by (auto simp: store_map_def)
  then obtain ls where "d_get files (symb, month_at u) = Some ls" by (auto simp: read_csv_file_def split: option.splits)
  then have "(symb, month_at u) \<in> set (d_keys files)" using d_keys_iff [of "(symb, month_at u)" files] by simp
  then show ?thesis by (force simp: symbol_months_def)
qed

lemma csv_earliest_map:
  assumes "files_ok files"
  shows "case csv_earliest_timestamp files symb of
      None \<Rightarrow> store_map files symb = Map.empty
    | Some t \<Rightarrow> \<exists>u. t = utc_dt u \<and> store_map files symb u \<noteq> None \<and> (\<forall>v. store_map files symb v \<noteq> None \<longrightarrow> u \<le> v)"
proof -
  have s: "sorted (symbol_months files symb)" by (simp add: symbol_months_def)
  note f = first_in_months_map [OF assms s, of symb, folded csv_earliest_timestamp_def]
  show ?thesis
  proof (cases "csv_earliest_timestamp files symb")
    case None
    then have "store_map files symb u = None" for u
      using f month_in_symbol_months [of files symb u] by (cases "store_map files symb u") simp_all
    then show ?thesis using None by (simp add: fun_eq_iff)
  next
    case (Some t)
    then show ?thesis using f month_in_symbol_months [of files symb] by auto
  qed
qed

end
