(* ===== verification/StoreContract.thy ===== *)
theory StoreContract
  imports CsvStore_Ops
begin

text \<open>
  The interface \<open>ICandleStore\<close> (\<open>domain/interfaces/candle_store.py\<close>): the operations the
  services call, as a record of functions on a store state, and what they rely on, as a locale.
  The CSV store satisfies it while its disk accepts every write.
\<close>

record 's store_ops =
  so_read_range :: "'s \<Rightarrow> string \<Rightarrow> datetime \<Rightarrow> datetime \<Rightarrow> candle_range result"
  so_append :: "candle \<Rightarrow> 's \<Rightarrow> 's \<times> bool result"
  so_patch :: "candle list \<Rightarrow> 's \<Rightarrow> 's \<times> int result"
  so_last_timestamp :: "'s \<Rightarrow> string \<Rightarrow> datetime option"

section \<open>Ranges at whole minutes\<close>

text \<open>The number of the minute a candle is stamped with.\<close>

definition minute_of :: "candle \<Rightarrow> int" where
  "minute_of c = instant c div minute_us"

definition aligned :: "candle list \<Rightarrow> bool" where
  "aligned cs \<longleftrightarrow> (\<forall>c \<in> set cs. c_ts c = grid (minute_of c))"

lemma aligned_simps [simp]:
  "aligned []" "aligned (c # cs) \<longleftrightarrow> c_ts c = grid (minute_of c) \<and> aligned cs"
  by (simp_all add: aligned_def)

lemma good_aligned: "good_candle symb c \<Longrightarrow> instant c mod minute_us = 0 \<Longrightarrow> c_ts c = grid (minute_of c)"
  by (metis add.right_neutral div_mult_mod_eq good_candle_ts grid_def minute_of_def)

lemma minute_of_grid: "c_ts c = grid m \<Longrightarrow> minute_of c = m \<and> instant c = m * minute_us"
  by (simp add: minute_of_def instant_def grid_def)

lemma aligned_instant: "aligned cs \<Longrightarrow> c \<in> set cs \<Longrightarrow> instant c = minute_of c * minute_us"
  using minute_of_grid [of c "minute_of c"] unfolding aligned_def by blast

lemma aligned_map: "aligned cs \<Longrightarrow> map c_ts cs = map grid (map minute_of cs)"
  by (simp add: aligned_def)

lemma aligned_strict:
  "aligned cs \<Longrightarrow> sorted_wrt (<) (map instant cs) \<Longrightarrow> sorted_wrt (<) (map minute_of cs)"
proof (induction cs)
  case (Cons c cs)
  have "instant d = minute_of d * minute_us" if "d \<in> set (c # cs)" for d
    using aligned_instant [OF Cons.prems(1) that] .
  then show ?case using Cons by auto
qed simp

text \<open>A sorted, aligned list inside a range has at most one candle per minute.\<close>

lemma minutes_complete:
  assumes "sorted_wrt (<) ms" "\<forall>m \<in> set ms. a \<le> m \<and> m < b" "a \<le> b"
  shows "int (length ms) \<le> b - a \<and> (int (length ms) = b - a \<longleftrightarrow> set ms = {a..<b})"
proof -
  have d: "card (set ms) = length ms" using assms(1) by (simp add: strict_sorted_iff distinct_card)
  have s: "set ms \<subseteq> {a..<b}" using assms(2) by auto
  have c: "card {a..<b} = nat (b - a)" by simp
  have "card (set ms) = card {a..<b} \<Longrightarrow> set ms = {a..<b}" using s by (intro card_subset_eq) simp_all
  then show ?thesis using card_mono [OF _ s] d c assms(3) by auto
qed

section \<open>The contract\<close>

text \<open>
  The contract: a store is a map from symbols and instants to candles. It is stated for candles
  and ranges in UTC; \<open>horizon\<close> bounds the instants that can be asked for.
\<close>

locale candle_store =
  fixes wf :: "'s \<Rightarrow> bool"
    and contents :: "'s \<Rightarrow> string \<Rightarrow> int \<Rightarrow> candle option"
    and ops :: "'s store_ops"
    and horizon :: int
  assumes contents_good: "wf s \<Longrightarrow> contents s symb u = Some c \<Longrightarrow> good_candle symb c \<and> instant c = u"
    and read_law: "wf s \<Longrightarrow> stop \<le> horizon \<Longrightarrow>
      \<exists>r. so_read_range ops s symb (utc_dt start) (utc_dt stop) = Inr r \<and>
        r_start r = utc_dt start \<and> r_end r = utc_dt stop \<and>
        sorted_wrt (<) (map instant (r_candles r)) \<and>
        (\<forall>c. c \<in> set (r_candles r) \<longleftrightarrow> (\<exists>u. contents s symb u = Some c \<and> start \<le> u \<and> u < stop)) \<and>
        r_missing_count r = max 0 (range_expected_count r - range_count r) \<and>
        (r_is_complete r \<longleftrightarrow> r_missing_count r = 0)"
    and append_law: "wf s \<Longrightarrow> good_candle symb c \<Longrightarrow>
      (contents s symb (instant c) = None \<longrightarrow>
        (\<exists>s'. so_append ops c s = (s', Inr True) \<and> wf s' \<and>
          (\<forall>y u. contents s' y u = (if y = symb \<and> u = instant c then Some c else contents s y u)))) \<and>
      (contents s symb (instant c) \<noteq> None \<longrightarrow> so_append ops c s = (s, Inr False))"
    and patch_law: "wf s \<Longrightarrow> cs \<noteq> [] \<Longrightarrow> \<forall>c \<in> set cs. good_candle symb c \<Longrightarrow>
      \<exists>s'. so_patch ops cs s = (s', Inr (int (length cs))) \<and> wf s' \<and>
        (\<forall>y u. contents s' y u =
          (if y = symb then (contents s symb ++ candle_map (rev cs)) u else contents s y u))"
    and last_law: "wf s \<Longrightarrow> so_last_timestamp ops s symb = Some t \<Longrightarrow>
      \<exists>u. t = utc_dt u \<and> contents s symb u \<noteq> None"
begin

text \<open>Patching twice with the same candles is patching once.\<close>

lemma patch_idem:
  assumes "wf s" "cs \<noteq> []" "\<forall>c \<in> set cs. good_candle symb c"
  shows "\<exists>s1 s2. so_patch ops cs s = (s1, Inr (int (length cs))) \<and>
    so_patch ops cs s1 = (s2, Inr (int (length cs))) \<and> contents s2 = contents s1"
proof -
  obtain s1 where s1: "so_patch ops cs s = (s1, Inr (int (length cs)))" "wf s1"
    "\<forall>y u. contents s1 y u = (if y = symb then (contents s symb ++ candle_map (rev cs)) u else contents s y u)"
    using patch_law [OF assms] by blast
  obtain s2 where s2: "so_patch ops cs s1 = (s2, Inr (int (length cs)))"
    "\<forall>y u. contents s2 y u = (if y = symb then (contents s1 symb ++ candle_map (rev cs)) u else contents s1 y u)"
    using patch_law [OF s1(2) assms(2,3)] by blast
  have "contents s2 y u = contents s1 y u" for y u
    using s1(3) s2(2) by (simp add: map_add_def split: option.splits)
  then show ?thesis using s1(1) s2(1) by blast
qed

text \<open>What is read of a range after a patch of that symbol.\<close>

lemma read_after_patch:
  assumes "wf s" "cs \<noteq> []" "\<forall>c \<in> set cs. good_candle symb c" "stop \<le> horizon"
  shows "\<exists>s' r. so_patch ops cs s = (s', Inr (int (length cs))) \<and>
    so_read_range ops s' symb (utc_dt start) (utc_dt stop) = Inr r \<and>
    (\<forall>c. c \<in> set (r_candles r) \<longleftrightarrow>
      (\<exists>u. (contents s symb ++ candle_map (rev cs)) u = Some c \<and> start \<le> u \<and> u < stop))"
proof -
  obtain s' where s': "so_patch ops cs s = (s', Inr (int (length cs)))" "wf s'"
    "\<forall>y u. contents s' y u = (if y = symb then (contents s symb ++ candle_map (rev cs)) u else contents s y u)"
    using patch_law [OF assms(1-3)] by blast
  with read_law [OF s'(2) assms(4), of symb start] show ?thesis by auto
qed

text \<open>A range of whole minutes of a symbol whose candles are all at whole minutes.\<close>

lemma read_minutes:
  assumes "wf s" "a \<le> b" "b * minute_us \<le> horizon" "\<forall>u. contents s symb u \<noteq> None \<longrightarrow> u mod minute_us = 0"
  shows "\<exists>r ms. so_read_range ops s symb (grid a) (grid b) = Inr r \<and>
    sorted_wrt (<) (map instant (r_candles r)) \<and>
    (\<forall>c. c \<in> set (r_candles r) \<longleftrightarrow> (\<exists>u. contents s symb u = Some c \<and> a * minute_us \<le> u \<and> u < b * minute_us)) \<and>
    map c_ts (r_candles r) = map grid ms \<and> sorted_wrt (<) ms \<and>
    (\<forall>m. m \<in> set ms \<longleftrightarrow> a \<le> m \<and> m < b \<and> contents s symb (m * minute_us) \<noteq> None) \<and>
    (r_is_complete r \<longleftrightarrow> set ms = {a..<b})"
proof -
  obtain r where r: "so_read_range ops s symb (grid a) (grid b) = Inr r"
    "r_start r = grid a" "r_end r = grid b" "sorted_wrt (<) (map instant (r_candles r))"
    "\<forall>c. c \<in> set (r_candles r) \<longleftrightarrow> (\<exists>u. contents s symb u = Some c \<and> a * minute_us \<le> u \<and> u < b * minute_us)"
    "r_missing_count r = max 0 (range_expected_count r - range_count r)"
    "r_is_complete r \<longleftrightarrow> r_missing_count r = 0"
    using read_law [OF assms(1,3), of symb "a * minute_us"] by (auto simp: grid_def)
  let ?ms = "map minute_of (r_candles r)"
  have g: "good_candle symb c \<and> contents s symb (instant c) = Some c" if "c \<in> set (r_candles r)" for c
    using r(5) that contents_good [OF assms(1)] by blast
  then have al: "aligned (r_candles r)"
    unfolding aligned_def using assms(4) good_aligned by (metis option.discI)
  have inst: "instant c = minute_of c * minute_us" if "c \<in> set (r_candles r)" for c
    using al that aligned_instant by blast
  note ms = aligned_strict [OF al r(4)]
  have mb: "\<forall>m \<in> set ?ms. a \<le> m \<and> m < b" using r(5) inst g contents_good [OF assms(1)] by fastforce
  have set_ms: "m \<in> set ?ms \<longleftrightarrow> a \<le> m \<and> m < b \<and> contents s symb (m * minute_us) \<noteq> None" for m
  proof
    assume "m \<in> set ?ms"
    then show "a \<le> m \<and> m < b \<and> contents s symb (m * minute_us) \<noteq> None" using mb inst g by force
  next
    assume m: "a \<le> m \<and> m < b \<and> contents s symb (m * minute_us) \<noteq> None"
    then obtain c where c: "contents s symb (m * minute_us) = Some c" by auto
    then have "instant c = m * minute_us" using contents_good [OF assms(1)] by blast
    then have "minute_of c = m" by (simp add: minute_of_def)
    moreover have "c \<in> set (r_candles r)" using r(5) c m by auto
    ultimately show "m \<in> set ?ms" by force
  qed
  have "range_expected_count r = b - a" "range_count r = int (length ?ms)"
    by (simp_all add: range_expected_count_def range_count_def r(2,3))
  then have "r_is_complete r \<longleftrightarrow> set ?ms = {a..<b}"
    using minutes_complete [OF ms mb assms(2)] unfolding r(6,7) by linarith
  then show ?thesis using r(1,4,5) aligned_map [OF al] ms set_ms by blast
qed

end

section \<open>The CSV store\<close>

definition csv_ops :: "datetime \<Rightarrow> (file_key \<Rightarrow> bool) \<Rightarrow> csv_files store_ops" where
  "csv_ops now disk_ok = \<lparr>so_read_range = (\<lambda>files symbol start stop. csv_read_range files symbol start stop True),
     so_append = csv_append disk_ok, so_patch = csv_patch disk_ok,
     so_last_timestamp = csv_last_timestamp now\<rparr>"

lemma csv_ops_simps [simp]:
  "so_read_range (csv_ops now d) files symbol start stop = csv_read_range files symbol start stop True"
  "so_append (csv_ops now d) = csv_append d" "so_patch (csv_ops now d) = csv_patch d"
  "so_last_timestamp (csv_ops now d) = csv_last_timestamp now"
  by (simp_all add: csv_ops_def)

lemma groups_good:
  assumes "\<forall>c \<in> set cs. good_candle symb c" "(m, g) \<in> set (group_by_month cs)"
  shows "g \<noteq> [] \<and> (\<forall>c \<in> set g. good_candle symb c \<and> month_at (instant c) = m)"
proof -
  have "d_get (group_by_month cs) m = Some g" using assms(2) groups_wf by (rule d_in_get [rotated])
  then have g: "g \<noteq> []" "g = filter (\<lambda>c. dt_month (c_ts c) = m) cs"
    by (auto simp: groups_get Let_def split: if_splits)
  have "month_at (instant c) = dt_month (c_ts c)" if "c \<in> set cs" for c
    using assms(1) that by (metis dt_month_utc good_candle_ts)
  with g assms(1) show ?thesis by auto
qed

lemma csv_patch_map:
  assumes "files_ok files" "\<forall>c \<in> set cs. good_candle symb c"
  shows "\<exists>files' n. csv_patch disk_ok cs files =
      (files', if n = length (group_by_month cs) then Inr (int (length cs)) else Inl (OtherError ''OSError'')) \<and>
    files_ok files' \<and> n \<le> length (group_by_month cs) \<and>
    (\<forall>i < n. disk_ok (symb, fst (group_by_month cs ! i))) \<and>
    (n < length (group_by_month cs) \<longrightarrow> \<not> disk_ok (symb, fst (group_by_month cs ! n))) \<and>
    (\<forall>s u. store_map files' s u =
      (if s = symb \<and> month_at u \<in> set (d_keys (take n (group_by_month cs)))
       then (store_map files symb ++ candle_map (rev cs)) u else store_map files s u))"
proof (cases "cs = []")
  case True
  then show ?thesis
    using assms(1) by (intro exI [of _ files] exI [of _ 0]) (simp add: csv_patch_def group_by_month_def)
next
  case False
  let ?gs = "group_by_month cs"
  have gs: "\<forall>(m, g) \<in> set ?gs. g \<noteq> [] \<and> (\<forall>c \<in> set g. good_candle symb c \<and> month_at (instant c) = m)"
    using groups_good [OF assms(2)] by blast
  obtain files' n where p: "patch_months disk_ok ?gs 0 files =
      (files', if n = length ?gs then Inr (int (length cs)) else Inl (OtherError ''OSError''))"
    "files_ok files'" "n \<le> length ?gs" "\<forall>i < n. disk_ok (symb, fst (?gs ! i))"
    "n < length ?gs \<longrightarrow> \<not> disk_ok (symb, fst (?gs ! n))"
    "\<forall>s u. store_map files' s u =
      (if s = symb then (case d_get (take n ?gs) (month_at u) of
          None \<Rightarrow> store_map files symb u
        | Some cs \<Rightarrow> (store_map files symb ++ candle_map (rev cs)) u)
       else store_map files s u)"
    using patch_months_map [OF assms(1) groups_wf gs, of disk_ok 0, unfolded groups_total add_0]
    by (elim exE conjE) (rule that)
  have "store_map files' s u =
      (if s = symb \<and> month_at u \<in> set (d_keys (take n ?gs))
       then (store_map files symb ++ candle_map (rev cs)) u else store_map files s u)" for s u
  proof (cases "d_get (take n ?gs) (month_at u)")
    case None
    then have "month_at u \<notin> set (d_keys (take n ?gs))" by (simp add: map_of_eq_None_iff)
    then show ?thesis using None p(6) by auto
  next
    case (Some g)
    then have mem: "(month_at u, g) \<in> set (take n ?gs)" by (rule d_get_in)
    then have k: "month_at u \<in> set (d_keys (take n ?gs))" by force
    have "d_get ?gs (month_at u) = Some g" using mem groups_wf by (intro d_in_get) (auto dest: in_set_takeD)
    then have g: "g = filter (\<lambda>c. dt_month (c_ts c) = month_at u) cs"
      by (auto simp: groups_get Let_def split: if_splits)
    have "dt_month (c_ts c) = month_at (instant c)" if "c \<in> set cs" for c
      using assms(2) that by (metis dt_month_utc good_candle_ts)
    then have "rev g = filter (\<lambda>c. month_at (instant c) = month_at u) (rev cs)"
      unfolding g rev_filter by (intro filter_cong) auto
    then have "candle_map (rev g) u = candle_map (rev cs) u" by (simp add: candle_map_filter_month)
    then show ?thesis unfolding p(6) [rule_format] using Some k by (simp add: map_add_def)
  qed
  then show ?thesis using p(1-5) False by (auto simp: csv_patch_def)
qed

interpretation csv: candle_store files_ok store_map "csv_ops now (\<lambda>_. True)" "month_start 119999 * day_us"
proof
  fix s symb u c assume "files_ok s" "store_map s symb u = Some c"
  then show "good_candle symb c \<and> instant c = u" by (rule store_map_good)
next
  fix s symb start stop assume "files_ok s" "stop \<le> month_start 119999 * day_us"
  from csv_read_range_map [OF this, of symb start True]
  show "\<exists>r. so_read_range (csv_ops now (\<lambda>_. True)) s symb (utc_dt start) (utc_dt stop) = Inr r \<and>
        r_start r = utc_dt start \<and> r_end r = utc_dt stop \<and>
        sorted_wrt (<) (map instant (r_candles r)) \<and>
        (\<forall>c. c \<in> set (r_candles r) \<longleftrightarrow> (\<exists>u. store_map s symb u = Some c \<and> start \<le> u \<and> u < stop)) \<and>
        r_missing_count r = max 0 (range_expected_count r - range_count r) \<and>
        (r_is_complete r \<longleftrightarrow> r_missing_count r = 0)" by auto
next
  fix s symb c assume "files_ok s" "good_candle symb c"
  from csv_append_map [OF this, of "\<lambda>_. True"]
  show "(store_map s symb (instant c) = None \<longrightarrow>
        (\<exists>s'. so_append (csv_ops now (\<lambda>_. True)) c s = (s', Inr True) \<and> files_ok s' \<and>
          (\<forall>y u. store_map s' y u = (if y = symb \<and> u = instant c then Some c else store_map s y u)))) \<and>
      (store_map s symb (instant c) \<noteq> None \<longrightarrow> so_append (csv_ops now (\<lambda>_. True)) c s = (s, Inr False))"
    by (auto split: prod.splits sum.splits bool.splits)
next
  fix s :: csv_files and cs :: "candle list" and symb
  assume a: "files_ok s" "\<forall>c \<in> set cs. good_candle symb c"
  obtain s' n where p: "csv_patch (\<lambda>_. True) cs s =
      (s', if n = length (group_by_month cs) then Inr (int (length cs)) else Inl (OtherError ''OSError''))"
    "files_ok s'" "n = length (group_by_month cs)"
    "\<forall>y u. store_map s' y u =
      (if y = symb \<and> month_at u \<in> set (d_keys (take n (group_by_month cs)))
       then (store_map s symb ++ candle_map (rev cs)) u else store_map s y u)"
    using csv_patch_map [OF a, of "\<lambda>_. True"] by auto
  have "store_map s' y u = (if y = symb then (store_map s symb ++ candle_map (rev cs)) u else store_map s y u)" for y u
  proof (cases "month_at u \<in> set (d_keys (group_by_month cs))")
    case True
    then show ?thesis using p(3,4) by simp
  next
    case False
    then have none: "d_get (group_by_month cs) (month_at u) = None" by (simp add: map_of_eq_None_iff)
    have "candle_map (rev cs) u = None"
    proof (rule ccontr)
      assume "candle_map (rev cs) u \<noteq> None"
      then obtain c where c: "c \<in> set cs" "instant c = u" by (auto dest: candle_map_SomeD)
      then have "dt_month (c_ts c) = month_at u" using a(2) by (metis dt_month_utc good_candle_ts)
      with none c(1) show False by (auto simp: groups_get Let_def filter_empty_conv split: if_splits)
    qed
    then show ?thesis using p(3,4) False by (simp add: map_add_def)
  qed
  then show "\<exists>s'. so_patch (csv_ops now (\<lambda>_. True)) cs s = (s', Inr (int (length cs))) \<and> files_ok s' \<and>
      (\<forall>y u. store_map s' y u = (if y = symb then (store_map s symb ++ candle_map (rev cs)) u else store_map s y u))"
    using p(1-3) by auto
next
  fix s symb t assume a: "files_ok s" "so_last_timestamp (csv_ops now (\<lambda>_. True)) s symb = Some t"
  from last_in_months_map [OF a(1), where n = 12 and symb = symb and m = "dt_month now"] a(2)
  show "\<exists>u. t = utc_dt u \<and> store_map s symb u \<noteq> None" by (auto simp: csv_last_timestamp_def)
qed

end
