(* ===== verification/DataMetrics.thy ===== *)
theory DataMetrics
  imports Prelude
begin

text \<open>
  Counters and gate values per symbol of the data layer
  (\<open>application/data/data_layer_metrics.py\<close>) and the record of the last repair
  (\<open>application/api/repair_stats.py\<close>). Every method takes the lock for its whole body.
\<close>

datatype symbol_state = ACTIVE | DEGRADED

record symbol_metrics =
  sm_candles_written :: int
  sm_gaps_detected :: int
  sm_gaps_repaired :: int
  sm_last_candle_ts :: "int option"
  sm_state :: symbol_state
  sm_duplicates :: int
  sm_ts_step_errors :: int
  sm_stale_seconds :: int
  sm_missing_minutes_24h :: int
  sm_max_gap_s :: int
  sm_degrade_reason :: "string option"
  sm_market_open :: bool
  sm_market_state_reason :: string
  sm_expected_open_minutes_24h :: int
  sm_observed_open_minutes_24h :: int

definition new_symbol_metrics :: symbol_metrics where
  "new_symbol_metrics = \<lparr>sm_candles_written = 0, sm_gaps_detected = 0, sm_gaps_repaired = 0,
     sm_last_candle_ts = None, sm_state = ACTIVE, sm_duplicates = 0, sm_ts_step_errors = 0,
     sm_stale_seconds = 0, sm_missing_minutes_24h = 0, sm_max_gap_s = 0, sm_degrade_reason = None,
     sm_market_open = True, sm_market_state_reason = ''open'', sm_expected_open_minutes_24h = 1440,
     sm_observed_open_minutes_24h = 0\<rparr>"

record layer_metrics =
  lm_by_symbol :: "(string, symbol_metrics) dict"
  lm_ws_reconnects :: int

definition layer_metrics_init :: layer_metrics where
  "layer_metrics_init = \<lparr>lm_by_symbol = [], lm_ws_reconnects = 0\<rparr>"

definition get_or_create :: "layer_metrics \<Rightarrow> string \<Rightarrow> symbol_metrics" where
  "get_or_create lm symbol =
     (case d_get (lm_by_symbol lm) symbol of None \<Rightarrow> new_symbol_metrics | Some m \<Rightarrow> m)"

text \<open>The object that is found or created is changed in place.\<close>

definition with_symbol :: "string \<Rightarrow> (symbol_metrics \<Rightarrow> symbol_metrics) \<Rightarrow> layer_metrics \<Rightarrow> layer_metrics" where
  "with_symbol symbol f lm =
     lm\<lparr>lm_by_symbol := d_set symbol (f (get_or_create lm symbol)) (lm_by_symbol lm)\<rparr>"

definition inc_candles_written :: "string \<Rightarrow> int \<Rightarrow> int option \<Rightarrow> layer_metrics \<Rightarrow> layer_metrics" where
  [op_defs]: "inc_candles_written symbol n last_ts =
     with_symbol symbol (\<lambda>m.
       let m' = m\<lparr>sm_candles_written := sm_candles_written m + n\<rparr> in
       if last_ts \<noteq> None then m'\<lparr>sm_last_candle_ts := last_ts\<rparr> else m')"

definition inc_gaps_detected :: "string \<Rightarrow> int \<Rightarrow> layer_metrics \<Rightarrow> layer_metrics" where
  [op_defs]: "inc_gaps_detected symbol n = with_symbol symbol (\<lambda>m. m\<lparr>sm_gaps_detected := sm_gaps_detected m + n\<rparr>)"

definition inc_gaps_repaired :: "string \<Rightarrow> int \<Rightarrow> layer_metrics \<Rightarrow> layer_metrics" where
  [op_defs]: "inc_gaps_repaired symbol n = with_symbol symbol (\<lambda>m. m\<lparr>sm_gaps_repaired := sm_gaps_repaired m + n\<rparr>)"

definition inc_ws_reconnects :: "layer_metrics \<Rightarrow> layer_metrics" where
  [op_defs]: "inc_ws_reconnects lm = lm\<lparr>lm_ws_reconnects := lm_ws_reconnects lm + 1\<rparr>"

definition set_symbol_state ::
    "string \<Rightarrow> symbol_state \<Rightarrow> string option \<Rightarrow> int \<Rightarrow> int \<Rightarrow> int \<Rightarrow> int \<Rightarrow> int \<Rightarrow> layer_metrics \<Rightarrow> layer_metrics" where
  [op_defs]: "set_symbol_state symbol state reason duplicates step_errs stale missing max_gap =
     with_symbol symbol (\<lambda>m. m\<lparr>sm_state := state, sm_degrade_reason := reason, sm_duplicates := duplicates,
       sm_ts_step_errors := step_errs, sm_stale_seconds := stale, sm_missing_minutes_24h := missing,
       sm_max_gap_s := max_gap\<rparr>)"

abbreviation keep :: "'a option \<Rightarrow> 'a \<Rightarrow> 'a" where
  "keep opt old \<equiv> (case opt of None \<Rightarrow> old | Some x \<Rightarrow> x)"

definition update_gate_metrics ::
    "string \<Rightarrow> int option \<Rightarrow> int option \<Rightarrow> int option \<Rightarrow> int option \<Rightarrow> bool option \<Rightarrow> string option \<Rightarrow>
     int option \<Rightarrow> int option \<Rightarrow> layer_metrics \<Rightarrow> layer_metrics" where
  [op_defs]: "update_gate_metrics symbol last_ts stale missing max_gap market reason expected observed =
     with_symbol symbol (\<lambda>m. m\<lparr>
       sm_last_candle_ts := (if last_ts \<noteq> None then last_ts else sm_last_candle_ts m),
       sm_stale_seconds := keep stale (sm_stale_seconds m),
       sm_missing_minutes_24h := keep missing (sm_missing_minutes_24h m),
       sm_max_gap_s := keep max_gap (sm_max_gap_s m),
       sm_market_open := keep market (sm_market_open m),
       sm_market_state_reason := keep reason (sm_market_state_reason m),
       sm_expected_open_minutes_24h := keep expected (sm_expected_open_minutes_24h m),
       sm_observed_open_minutes_24h := keep observed (sm_observed_open_minutes_24h m)\<rparr>)"

lemma get_or_create_with [simp]:
  "get_or_create (with_symbol s f lm) t = (if t = s then f (get_or_create lm s) else get_or_create lm t)"
  by (simp add: get_or_create_def with_symbol_def)

lemma with_symbol_wf: "dict_wf (lm_by_symbol lm) \<Longrightarrow> dict_wf (lm_by_symbol (with_symbol s f lm))"
  by (simp add: with_symbol_def)

text \<open>A counter of one symbol is touched by no operation on another symbol.\<close>

lemma metrics_frame:
  assumes "t \<noteq> s"
  shows "get_or_create (inc_candles_written s n ts lm) t = get_or_create lm t"
    and "get_or_create (inc_gaps_detected s n lm) t = get_or_create lm t"
    and "get_or_create (inc_gaps_repaired s n lm) t = get_or_create lm t"
    and "get_or_create (set_symbol_state s st r a b c d e lm) t = get_or_create lm t"
    and "get_or_create (update_gate_metrics s o1 o2 o3 o4 o5 o6 o7 o8 lm) t = get_or_create lm t"
  using assms by (simp_all add: op_defs)

section \<open>The last repair\<close>

record 'ts repair_stats =
  rs_at :: "'ts option"
  rs_filled :: int
  rs_symbol :: "string option"

definition repair_stats_init :: "'ts repair_stats" where
  "repair_stats_init = \<lparr>rs_at = None, rs_filled = 0, rs_symbol = None\<rparr>"

definition record_repair :: "'ts \<Rightarrow> string \<Rightarrow> int \<Rightarrow> 'ts repair_stats" where
  "record_repair now symbol filled = \<lparr>rs_at = Some now, rs_filled = filled, rs_symbol = Some symbol\<rparr>"

definition get_last_repair :: "'ts repair_stats \<Rightarrow> 'ts option \<times> int \<times> string option" where
  "get_last_repair r = (rs_at r, rs_filled r, rs_symbol r)"

end
