(* ===== verification/Backfill.thy ===== *)
theory Backfill
  imports StoreContract DataMetrics
begin

text \<open>
  The backfill service, \<open>application/services/backfill_service.py\<close>: it reads a range, finds its
  gaps, fetches them from a provider and patches the store.

  The store is any implementation of \<^typ>\<open>'s store_ops\<close>. The provider (Dukascopy) is the function
  \<open>fetch\<close>, an argument, whose \<open>Inl\<close> is an exception. While a fetch is awaited other tasks run:
  \<open>env\<close> is what they do to the store.
\<close>

record 's backfill_world =
  bw_store :: 's
  bw_repair :: "datetime repair_stats"
  bw_metrics :: "layer_metrics option"

record backfill_config =
  bc_symbols :: "string list"
  bc_corrective_window :: int
  bc_interval :: int

type_synonym provider = "string \<Rightarrow> datetime \<Rightarrow> datetime \<Rightarrow> candle list result"
type_synonym 's interference = "string \<Rightarrow> gap \<Rightarrow> 's \<Rightarrow> 's"

section \<open>One symbol\<close>

text \<open>The body of the loop over the gaps: every exception is logged and the loop goes on.\<close>

definition fill_gap ::
    "'s store_ops \<Rightarrow> provider \<Rightarrow> 's interference \<Rightarrow> string \<Rightarrow> gap \<Rightarrow> 's \<times> int \<Rightarrow> 's \<times> int" where
  "fill_gap ops fetch env symbol g st =
     (let store = env symbol g (fst st); total = snd st in
      case fetch symbol (gap_start g) (gap_end g) of
        Inl e \<Rightarrow> (store, total)
      | Inr cs \<Rightarrow>
          if cs = [] then (store, total)
          else (case so_patch ops cs store of
                  (store', Inl e) \<Rightarrow> (store', total)
                | (store', Inr written) \<Rightarrow> (store', total + written)))"

definition fill_gaps ::
    "'s store_ops \<Rightarrow> provider \<Rightarrow> 's interference \<Rightarrow> string \<Rightarrow> gap list \<Rightarrow> 's \<Rightarrow> 's \<times> int" where
  "fill_gaps ops fetch env symbol gaps store = fold (fill_gap ops fetch env symbol) gaps (store, 0)"

text \<open>The range after the defaults and the alignment; \<open>None\<close> when there are no data to start from.\<close>

definition backfill_range ::
    "'s store_ops \<Rightarrow> backfill_config \<Rightarrow> datetime \<Rightarrow> 's \<Rightarrow> string \<Rightarrow> datetime option \<Rightarrow> datetime option \<Rightarrow>
     (datetime \<times> datetime) option" where
  "backfill_range ops cfg now store symbol start_opt stop_opt =
     (let stop = (case stop_opt of None \<Rightarrow> now | Some t \<Rightarrow> t) in
      case start_opt of
        Some t \<Rightarrow> Some (floor_minute t, floor_minute stop)
      | None \<Rightarrow>
          (case so_last_timestamp ops store symbol of
             None \<Rightarrow> None
           | Some last_ts \<Rightarrow>
               Some (floor_minute (dt_add last_ts (- (bc_corrective_window cfg * minute_us))), floor_minute stop)))"

text \<open>The clock is read once per call; the repair is stamped with it in UTC.\<close>

definition backfill_symbol ::
    "'s store_ops \<Rightarrow> provider \<Rightarrow> 's interference \<Rightarrow> backfill_config \<Rightarrow> datetime \<Rightarrow> string \<Rightarrow>
     datetime option \<Rightarrow> datetime option \<Rightarrow> 's backfill_world \<Rightarrow> 's backfill_world \<times> int result" where
  "backfill_symbol ops fetch env cfg now symbol start_opt stop_opt w =
     (case backfill_range ops cfg now (bw_store w) symbol start_opt stop_opt of
        None \<Rightarrow> (w, Inr 0)
      | Some (start, stop) \<Rightarrow>
          (case so_read_range ops (bw_store w) symbol start stop of
             Inl e \<Rightarrow> (w, Inl e)
           | Inr r \<Rightarrow>
               if r_is_complete r then (w, Inr 0)
               else
                 (let gaps = find_gaps (r_candles r) start stop;
                      m1 = map_option (inc_gaps_detected symbol (r_missing_count r)) (bw_metrics w);
                      (store', total) = fill_gaps ops fetch env symbol gaps (bw_store w)
                  in (\<lparr>bw_store = store',
                       bw_repair = (if total > 0 then record_repair (astimezone utc now) symbol total else bw_repair w),
                       bw_metrics = (if total > 0 then map_option (inc_gaps_repaired symbol total) m1 else m1)\<rparr>,
                      Inr total))))"

section \<open>The service\<close>

text \<open>All symbols in turn; a symbol that raises is skipped. The result is the total filled.\<close>

fun backfill_all ::
    "'s store_ops \<Rightarrow> provider \<Rightarrow> 's interference \<Rightarrow> backfill_config \<Rightarrow> datetime \<Rightarrow> string list \<Rightarrow>
     's backfill_world \<Rightarrow> 's backfill_world \<times> int" where
  "backfill_all ops fetch env cfg now [] w = (w, 0)"
| "backfill_all ops fetch env cfg now (symbol # symbols) w =
     (let (w1, r) = backfill_symbol ops fetch env cfg now symbol None None w;
          (w2, total) = backfill_all ops fetch env cfg now symbols w1
      in (w2, (case r of Inl e \<Rightarrow> 0 | Inr n \<Rightarrow> n) + total))"

record backfill_service =
  bs_running :: bool
  bs_task :: bool

definition backfill_service_init :: backfill_service where
  "backfill_service_init = \<lparr>bs_running = False, bs_task = False\<rparr>"

definition backfill_start ::
    "'s store_ops \<Rightarrow> provider \<Rightarrow> 's interference \<Rightarrow> backfill_config \<Rightarrow> bool \<Rightarrow> datetime \<Rightarrow>
     backfill_service \<Rightarrow> 's backfill_world \<Rightarrow> backfill_service \<times> 's backfill_world" where
  "backfill_start ops fetch env cfg available now svc w =
     (if bs_running svc then (svc, w)
      else
        (let svc1 = svc\<lparr>bs_running := True\<rparr> in
         if \<not> available then (svc1, w)
         else (svc1\<lparr>bs_task := True\<rparr>, fst (backfill_all ops fetch env cfg now (bc_symbols cfg) w))))"

text \<open>\<open>stop\<close> cancels the task and waits for it; the attribute keeps the finished task.\<close>

definition backfill_stop :: "backfill_service \<Rightarrow> backfill_service" where
  "backfill_stop svc = (if \<not> bs_running svc then svc else svc\<lparr>bs_running := False\<rparr>)"

text \<open>
  The periodic loop: one element per time the sleep ends, with whether the service is still
  running and the time it is. (\<open>_run_backfill_for_all_symbols\<close> catches everything, so the loop's
  own handler is never entered.)
\<close>

fun periodic_backfill ::
    "'s store_ops \<Rightarrow> provider \<Rightarrow> 's interference \<Rightarrow> backfill_config \<Rightarrow> (bool \<times> datetime) list \<Rightarrow>
     's backfill_world \<Rightarrow> 's backfill_world" where
  "periodic_backfill ops fetch env cfg [] w = w"
| "periodic_backfill ops fetch env cfg ((running, now) # wakeups) w =
     (if \<not> running then w
      else periodic_backfill ops fetch env cfg wakeups
             (fst (backfill_all ops fetch env cfg now (bc_symbols cfg) w)))"

end
