(* ===== verification/CandleBuilder.thy ===== *)
theory CandleBuilder
  imports Models
begin

text \<open>
  The candle builder, \<open>infrastructure/builders/candle_builder.py\<close>: it folds price ticks into
  one-minute candles and emits a candle when a tick of a later minute arrives. The reference is
  the list of blocks of ticks; the builder's state is an abstraction of the newest block.
\<close>

section \<open>State and operations\<close>

record builder =
  b_symbol :: string
  b_tz :: tzinfo
  b_minute :: "datetime option"
  b_open :: "pfloat option"
  b_high :: "pfloat option"
  b_low :: "pfloat option"
  b_close :: "pfloat option"
  b_volume :: pfloat
  b_ticks :: nat

definition builder_init :: "string \<Rightarrow> tzinfo \<Rightarrow> builder" where
  "builder_init symbol tz = \<lparr>b_symbol = symbol, b_tz = tz, b_minute = None, b_open = None, b_high = None,
     b_low = None, b_close = None, b_volume = 0, b_ticks = 0\<rparr>"

definition has_data :: "builder \<Rightarrow> bool" where
  "has_data b \<longleftrightarrow> 0 < b_ticks b"

definition minute_boundary :: "tzinfo \<Rightarrow> datetime \<Rightarrow> datetime" where
  "minute_boundary tz ts = floor_minute (case dt_tz ts of
     None \<Rightarrow> ts\<lparr>dt_tz := Some tz\<rparr> | Some _ \<Rightarrow> astimezone tz ts)"

definition clear_builder :: "datetime option \<Rightarrow> builder \<Rightarrow> builder" where
  "clear_builder m b = b\<lparr>b_minute := m, b_open := None, b_high := None, b_low := None, b_close := None,
     b_volume := 0, b_ticks := 0\<rparr>"

definition builder_reset :: "builder \<Rightarrow> builder" where
  "builder_reset b = clear_builder None b"

definition start_new_minute :: "datetime \<Rightarrow> builder \<Rightarrow> builder" where
  "start_new_minute m b = clear_builder (Some m) b"

definition update_ohlc :: "tick \<Rightarrow> builder \<Rightarrow> builder" where
  "update_ohlc t b =
     (let price = t_price t;
          b1 = (case b_open b of
             None \<Rightarrow> b\<lparr>b_open := Some price, b_high := Some price, b_low := Some price, b_close := Some price\<rparr>
           | Some _ \<Rightarrow> b\<lparr>b_high := map_option (\<lambda>h. max h price) (b_high b),
                        b_low := map_option (\<lambda>l. min l price) (b_low b), b_close := Some price\<rparr>);
          b2 = (case t_volume t of None \<Rightarrow> b1 | Some v \<Rightarrow> b1\<lparr>b_volume := fadd (b_volume b1) v\<rparr>)
      in b2\<lparr>b_ticks := b_ticks b2 + 1\<rparr>)"

text \<open>
  \<open>_finalize\<close>. A builder with data has all its fields set (invariant below); the model gives
  the \<open>TypeError\<close> of the candle constructor otherwise.
\<close>

definition builder_finalize :: "builder \<Rightarrow> candle option result" where
  "builder_finalize b =
     (if \<not> has_data b then Inr None
      else (case (b_minute b, b_open b, b_high b, b_low b, b_close b) of
        (Some m, Some op, Some h, Some l, Some c) \<Rightarrow>
          sbind (candle_post_init \<lparr>c_symbol = b_symbol b, c_ts = m, c_open = op, c_high = h, c_low = l,
             c_close = c, c_volume = b_volume b, c_closed = True\<rparr>) (\<lambda>x. Inr (Some x))
      | _ \<Rightarrow> Inl (OtherError ''TypeError'')))"

definition on_tick :: "tick \<Rightarrow> builder \<Rightarrow> builder \<times> candle option result" where
  "on_tick t b =
     (if t_symbol t \<noteq> b_symbol b then (b, Inr None)
      else
        (let m = minute_boundary (b_tz b) (t_ts t);
             later = (case b_minute b of None \<Rightarrow> False | Some m0 \<Rightarrow> dt_less m0 m);
             closed_candle = (if later then builder_finalize b else Inr None)
         in case closed_candle of
              Inl err \<Rightarrow> (b, Inl err)
            | Inr c \<Rightarrow>
                (update_ohlc t (if b_minute b = None \<or> later then start_new_minute m b else b), Inr c)))"

definition finalize_current :: "builder \<Rightarrow> candle option result" where
  "finalize_current b = builder_finalize b"

definition get_current_minute :: "builder \<Rightarrow> datetime option" where
  "get_current_minute b = b_minute b"

text \<open>A stream of ticks: the state reached and the candles emitted, until an exception.\<close>

fun feed :: "tick list \<Rightarrow> builder \<Rightarrow> candle list \<Rightarrow> builder \<times> candle list result" where
  "feed [] b out = (b, Inr out)"
| "feed (t # ts) b out = (case on_tick t b of
     (b', Inl err) \<Rightarrow> (b', Inl err)
   | (b', Inr None) \<Rightarrow> feed ts b' out
   | (b', Inr (Some c)) \<Rightarrow> feed ts b' (out @ [c]))"

section \<open>Reference: blocks of ticks\<close>

text \<open>
  The ticks of the builder's symbol fall into blocks: a tick of a strictly later minute than the
  current block's starts a new block, any other tick joins the current one. The newest block is
  first in the list.
\<close>

definition add_to_blocks ::
  "tzinfo \<Rightarrow> tick \<Rightarrow> (datetime \<times> tick list) list \<Rightarrow> (datetime \<times> tick list) list" where
  "add_to_blocks tz t bs =
     (let m = minute_boundary tz (t_ts t) in
      case bs of
        [] \<Rightarrow> [(m, [t])]
      | (m0, ts) # rest \<Rightarrow> if dt_less m0 m then (m, [t]) # bs else (m0, ts @ [t]) # rest)"

definition blocks :: "string \<Rightarrow> tzinfo \<Rightarrow> tick list \<Rightarrow> (datetime \<times> tick list) list" where
  "blocks symbol tz ts = fold (add_to_blocks tz) (filter (\<lambda>t. t_symbol t = symbol) ts) []"

definition total_volume :: "tick list \<Rightarrow> pfloat" where
  "total_volume ts = fold (\<lambda>t v. case t_volume t of None \<Rightarrow> v | Some x \<Rightarrow> fadd v x) ts 0"

definition block_candle :: "string \<Rightarrow> datetime \<times> tick list \<Rightarrow> candle" where
  "block_candle symbol blk = (let prices = map t_price (snd blk) in
     \<lparr>c_symbol = symbol, c_ts = fst blk, c_open = hd prices, c_high = Max (set prices),
      c_low = Min (set prices), c_close = last prices, c_volume = total_volume (snd blk), c_closed = True\<rparr>)"

section \<open>The builder refines the blocks\<close>

definition volumes_ok :: "tick list \<Rightarrow> bool" where
  "volumes_ok ts \<longleftrightarrow> (\<forall>t \<in> set ts. \<forall>v. t_volume t = Some v \<longrightarrow> 0 \<le> v)"

text \<open>The state of a builder whose current block is \<open>(m, ts)\<close>.\<close>

definition builds :: "datetime \<times> tick list \<Rightarrow> builder \<Rightarrow> bool" where
  "builds blk b \<longleftrightarrow> snd blk \<noteq> [] \<and> b_ticks b = length (snd blk) \<and> b_minute b = Some (fst blk) \<and>
     b_open b = Some (t_price (hd (snd blk))) \<and> b_high b = Some (Max (t_price ` set (snd blk))) \<and>
     b_low b = Some (Min (t_price ` set (snd blk))) \<and> b_close b = Some (t_price (last (snd blk))) \<and>
     b_volume b = total_volume (snd blk)"

lemma total_volume_snoc: "total_volume (ts @ [t]) =
    (case t_volume t of None \<Rightarrow> total_volume ts | Some v \<Rightarrow> fadd (total_volume ts) v)"
  by (simp add: total_volume_def split: option.split)

lemma total_volume_nonneg: "volumes_ok ts \<Longrightarrow> 0 \<le> total_volume ts"
proof (induction ts rule: rev_induct)
  case (snoc t ts)
  then have "0 \<le> total_volume ts" by (simp add: volumes_ok_def)
  with snoc.prems show ?case
    by (auto simp: total_volume_snoc volumes_ok_def fadd_nonneg split: option.splits)
qed (simp add: total_volume_def)

lemma update_builds:
  assumes "builds (m, ts) b"
  shows "builds (m, ts @ [t]) (update_ohlc t b)"
proof -
  have fin: "finite (t_price ` set ts)" "t_price ` set ts \<noteq> {}" using assms by (simp_all add: builds_def)
  have mm: "Max (insert (t_price t) (t_price ` set ts)) = max (Max (t_price ` set ts)) (t_price t)"
    "Min (insert (t_price t) (t_price ` set ts)) = min (Min (t_price ` set ts)) (t_price t)"
    using fin by (simp_all add: max.commute min.commute)
  show ?thesis
    using assms by (simp add: builds_def update_ohlc_def Let_def total_volume_snoc mm split: option.splits)
qed

lemma start_builds: "builds (m, [t]) (update_ohlc t (start_new_minute m b))"
  by (simp add: builds_def update_ohlc_def start_new_minute_def clear_builder_def Let_def
      total_volume_def split: option.splits)

lemma update_ohlc_fixed [simp]:
  "b_symbol (update_ohlc t b) = b_symbol b" "b_tz (update_ohlc t b) = b_tz b"
  "b_symbol (start_new_minute m b) = b_symbol b" "b_tz (start_new_minute m b) = b_tz b"
  by (simp_all add: update_ohlc_def start_new_minute_def clear_builder_def Let_def split: option.splits)

lemma block_candle_ok:
  assumes "snd blk \<noteq> []" "volumes_ok (snd blk)"
  shows "candle_ok (block_candle symbol blk)"
proof -
  have "hd (snd blk) \<in> set (snd blk)" "last (snd blk) \<in> set (snd blk)" using assms(1) by simp_all
  then show ?thesis
    using assms by (auto simp: candle_ok_def block_candle_def Let_def total_volume_nonneg hd_map last_map
        intro!: Max_ge Min_le order_trans [OF Min_le Max_ge])
qed

lemma builds_finalize:
  assumes "builds blk b" "volumes_ok (snd blk)"
  shows "builder_finalize b = Inr (Some (block_candle (b_symbol b) blk))"
proof -
  have ne: "snd blk \<noteq> []" using assms(1) by (simp add: builds_def)
  have "candle_post_init (block_candle (b_symbol b) blk) = Inr (block_candle (b_symbol b) blk)"
    using block_candle_ok [OF ne assms(2)] by (simp add: candle_post_init_Inr)
  then show ?thesis
    using assms(1) ne
    by (simp add: builder_finalize_def builds_def has_data_def block_candle_def Let_def hd_map last_map)
qed

text \<open>The state after blocks \<open>bs\<close>, newest first.\<close>

definition builder_state :: "string \<Rightarrow> tzinfo \<Rightarrow> (datetime \<times> tick list) list \<Rightarrow> builder \<Rightarrow> bool" where
  [inv_defs]: "builder_state symbol tz bs b \<longleftrightarrow> b_symbol b = symbol \<and> b_tz b = tz \<and>
     (case bs of [] \<Rightarrow> b_minute b = None \<and> b_ticks b = 0 | blk # _ \<Rightarrow> builds blk b)"

lemma builder_state_init: "builder_state symbol tz [] (builder_init symbol tz)"
  by (simp add: builder_state_def builder_init_def)

lemma on_tick_state:
  assumes "builder_state symbol tz bs b" "\<forall>blk \<in> set bs. volumes_ok (snd blk)" "t_symbol t = symbol"
  shows "builder_state symbol tz (add_to_blocks tz t bs) (fst (on_tick t b)) \<and>
    snd (on_tick t b) = Inr (if bs \<noteq> [] \<and> length bs < length (add_to_blocks tz t bs)
      then Some (block_candle symbol (hd bs)) else None)"
proof (cases bs)
  case Nil
  then show ?thesis
    using assms by (simp add: on_tick_def builder_state_def add_to_blocks_def Let_def start_builds)
next
  case (Cons blk rest)
  obtain m0 ts where blk: "blk = (m0, ts)" by (cases blk)
  have b: "builds (m0, ts) b" "b_symbol b = symbol" "b_tz b = tz" "b_minute b = Some m0"
    using assms(1) by (simp_all add: builder_state_def Cons blk builds_def)
  show ?thesis
  proof (cases "dt_less m0 (minute_boundary tz (t_ts t))")
    case True
    then show ?thesis
      using assms(2,3) b builds_finalize [OF b(1)]
      by (simp add: on_tick_def builder_state_def add_to_blocks_def Let_def start_builds Cons blk)
  next
    case False
    then show ?thesis
      using assms(3) b update_builds [OF b(1)]
      by (simp add: on_tick_def builder_state_def add_to_blocks_def Let_def Cons blk)
  qed
qed

lemma add_to_blocks_Cons:
  "bs \<noteq> [] \<Longrightarrow> tl (add_to_blocks tz t bs) = (if length bs < length (add_to_blocks tz t bs) then bs else tl bs)"
  by (cases bs) (auto simp: add_to_blocks_def Let_def split: prod.splits)

lemma add_to_blocks_volumes:
  "\<forall>blk \<in> set bs. volumes_ok (snd blk) \<Longrightarrow> volumes_ok [t] \<Longrightarrow>
     \<forall>blk \<in> set (add_to_blocks tz t bs). volumes_ok (snd blk)"
  by (cases bs) (auto simp: add_to_blocks_def Let_def volumes_ok_def)

lemma add_to_blocks_ne [simp]: "add_to_blocks tz t bs \<noteq> []"
  by (cases bs) (auto simp: add_to_blocks_def Let_def split: if_splits)

lemma feed_blocks_gen:
  assumes "builder_state symbol tz bs b" "\<forall>blk \<in> set bs. volumes_ok (snd blk)" "volumes_ok ts"
    and "out = map (block_candle symbol) (rev (tl bs))"
  shows "let bs' = fold (add_to_blocks tz) (filter (\<lambda>t. t_symbol t = symbol) ts) bs in
    builder_state symbol tz bs' (fst (feed ts b out)) \<and>
    snd (feed ts b out) = Inr (map (block_candle symbol) (rev (tl bs'))) \<and>
    (\<forall>blk \<in> set bs'. volumes_ok (snd blk))"
  using assms
proof (induction ts arbitrary: bs b out)
  case (Cons t ts)
  have v: "volumes_ok [t]" "volumes_ok ts" using Cons.prems(3) by (simp_all add: volumes_ok_def)
  show ?case
  proof (cases "t_symbol t = symbol")
    case False
    then have "on_tick t b = (b, Inr None)" using Cons.prems(1) by (simp add: on_tick_def builder_state_def)
    with False Cons.IH [OF Cons.prems(1,2) v(2) Cons.prems(4)] show ?thesis by (simp add: Let_def)
  next
    case True
    let ?bs = "add_to_blocks tz t bs"
    note st = on_tick_state [OF Cons.prems(1,2) True]
    obtain b' where b': "on_tick t b = (b', Inr (if bs \<noteq> [] \<and> length bs < length ?bs
        then Some (block_candle symbol (hd bs)) else None))" "builder_state symbol tz ?bs b'"
      using st by (cases "on_tick t b") simp
    let ?out = "map (block_candle symbol) (rev (tl ?bs))"
    have out: "?out = (if bs \<noteq> [] \<and> length bs < length ?bs then out @ [block_candle symbol (hd bs)] else out)"
    proof (cases bs)
      case Nil
      then show ?thesis using Cons.prems(4) by (simp add: add_to_blocks_def Let_def)
    next
      case (Cons blk rest)
      then show ?thesis using \<open>out = _\<close> add_to_blocks_Cons [of bs tz t] by simp
    qed
    have "feed (t # ts) b out = feed ts b' ?out" unfolding out by (simp add: b'(1))
    then show ?thesis
      using Cons.IH [OF b'(2) add_to_blocks_volumes [OF Cons.prems(2) v(1)] v(2) refl] True by simp
  qed
qed (simp add: Let_def)

lemma feed_blocks:
  assumes "volumes_ok ts"
  shows "builder_state symbol tz (blocks symbol tz ts) (fst (feed ts (builder_init symbol tz) []))"
    and "snd (feed ts (builder_init symbol tz) []) = Inr (map (block_candle symbol) (rev (tl (blocks symbol tz ts))))"
    and "\<forall>blk \<in> set (blocks symbol tz ts). volumes_ok (snd blk)"
  using feed_blocks_gen [OF builder_state_init [of symbol tz] _ assms, of "[]"]
  by (simp_all add: blocks_def Let_def)

end
