(* ===== verification/CandleBuilder_Props.thy ===== *)
theory CandleBuilder_Props
  imports CandleBuilder
begin

text \<open>Properties of the candle builder: what it emits, against a reference over the times of the ticks.\<close>

lemma blocks_invariant:
  "adjacent (\<lambda>newer older. dt_less older newer) (map fst bs) \<Longrightarrow>
     adjacent (\<lambda>newer older. dt_less older newer) (map fst (add_to_blocks tz t bs)) \<and>
     concat (map snd (rev (add_to_blocks tz t bs))) = concat (map snd (rev bs)) @ [t]"
proof (cases bs)
  case (Cons blk rest)
  assume "adjacent (\<lambda>newer older. dt_less older newer) (map fst bs)"
  then show ?thesis by (cases rest) (auto simp: Cons add_to_blocks_def Let_def split: prod.splits)
qed (simp add: add_to_blocks_def Let_def)

lemma add_to_blocks_nonempty:
  "\<forall>blk \<in> set bs. snd blk \<noteq> [] \<Longrightarrow> \<forall>blk \<in> set (add_to_blocks tz t bs). snd blk \<noteq> []"
  by (cases bs) (auto simp: add_to_blocks_def Let_def)

lemma floor_less:
  fixes w m J :: int
  assumes "0 < m" "w < m * J"
  shows "w - w mod m \<le> m * (J - 1)"
proof -
  have "w - w mod m = m * (w div m)" by (simp add: minus_mod_eq_mult_div)
  moreover from this have "m * (w div m) < m * J" using assms pos_mod_sign [of m w] by linarith
  then have "w div m \<le> J - 1" using assms(1) by simp
  ultimately show ?thesis using assms(1) by simp
qed

lemma blocks_order_content:
  "adjacent (\<lambda>newer older. dt_less older newer) (map fst (blocks symbol tz ts)) \<and>
   concat (map snd (rev (blocks symbol tz ts))) = filter (\<lambda>t. t_symbol t = symbol) ts"
proof -
  let ?R = "\<lambda>newer older. dt_less older newer"
  have "adjacent ?R (map fst (fold (add_to_blocks tz) us [])) \<and>
      concat (map snd (rev (fold (add_to_blocks tz) us []))) = us" for us
  proof (induction us rule: rev_induct)
    case (snoc t us)
    then show ?case
      using blocks_invariant [of "fold (add_to_blocks tz) us []" tz t] by (simp del: map_map rev_map)
  qed simp
  then show ?thesis by (simp add: blocks_def)
qed

lemma ne_blocks: "\<forall>blk \<in> set (blocks symbol tz ts). snd blk \<noteq> []"
proof -
  have "\<forall>blk \<in> set (fold (add_to_blocks tz) us []). snd blk \<noteq> []" for us
    by (induction us rule: rev_induct) (simp_all add: add_to_blocks_nonempty)
  then show ?thesis by (simp add: blocks_def)
qed

section \<open>Reference: minutes and running minutes\<close>

text \<open>
  The reference uses the times of the ticks alone. The minute of a tick is the minute of its time on
  the builder's clock; its running minute is the latest minute up to it in the stream. The running
  minutes of a stream in order are its minutes; the running minute of a late tick is the minute of
  the ticks it arrives among.
\<close>

definition minute_no :: "tzinfo \<Rightarrow> tick \<Rightarrow> int" where
  "minute_no tz t = dt_wall (minute_boundary tz (t_ts t))"

definition running_minutes :: "tzinfo \<Rightarrow> tick list \<Rightarrow> int list" where
  "running_minutes tz us = map (\<lambda>n. Max (minute_no tz ` set (take (Suc n) us))) [0..<length us]"

definition minutes_seen :: "tzinfo \<Rightarrow> tick list \<Rightarrow> int list" where
  "minutes_seen tz us = sorted_list_of_set (set (running_minutes tz us))"

definition ticks_of :: "tzinfo \<Rightarrow> tick list \<Rightarrow> int \<Rightarrow> tick list" where
  "ticks_of tz us m = map fst (filter (\<lambda>x. snd x = m) (zip us (running_minutes tz us)))"

definition minute_candle :: "string \<Rightarrow> tzinfo \<Rightarrow> tick list \<Rightarrow> int \<Rightarrow> candle" where
  "minute_candle symbol tz us m =
     (let ts = ticks_of tz us m in block_candle symbol (minute_boundary tz (t_ts (hd ts)), ts))"

lemma running_minutes_length [simp]: "length (running_minutes tz us) = length us"
  by (simp add: running_minutes_def)

lemma running_minutes_snoc:
  "running_minutes tz (us @ [t]) = running_minutes tz us @ [Max (minute_no tz ` set (us @ [t]))]"
  by (simp add: running_minutes_def)

lemma ticks_of_snoc:
  "ticks_of tz (us @ [t]) m = ticks_of tz us m @ (if Max (minute_no tz ` set (us @ [t])) = m then [t] else [])"
  by (simp add: ticks_of_def running_minutes_snoc)

lemma running_minutes_max:
  assumes "us \<noteq> []"
  shows "Max (minute_no tz ` set us) \<in> set (running_minutes tz us)"
    "\<forall>m \<in> set (running_minutes tz us). m \<le> Max (minute_no tz ` set us)"
proof -
  have "running_minutes tz us ! (length us - 1) = Max (minute_no tz ` set us)"
    using assms by (simp add: running_minutes_def)
  moreover have "length us - 1 < length (running_minutes tz us)" using assms by simp
  ultimately show "Max (minute_no tz ` set us) \<in> set (running_minutes tz us)" by (metis nth_mem)
  have "Max (minute_no tz ` set (take (Suc n) us)) \<le> Max (minute_no tz ` set us)" for n
    using assms by (intro Max_mono) (auto dest: in_set_takeD)
  then show "\<forall>m \<in> set (running_minutes tz us). m \<le> Max (minute_no tz ` set us)"
    by (auto simp: running_minutes_def)
qed

lemma sorted_list_of_set_max:
  fixes m :: int
  assumes "finite A" "\<forall>a \<in> A. a < m"
  shows "sorted_list_of_set (insert m A) = sorted_list_of_set A @ [m]"
proof -
  have "sorted (sorted_list_of_set A @ [m])" "distinct (sorted_list_of_set A @ [m])"
    using assms by (auto simp: sorted_append less_imp_le)
  moreover have "set (sorted_list_of_set A @ [m]) = insert m A" using assms(1) by simp
  ultimately show ?thesis by (metis sorted_list_of_set.idem_if_sorted_distinct)
qed

lemma minute_boundary_zone: "map_option tz_name (dt_tz (minute_boundary tz d)) = Some (tz_name tz)"
proof -
  have "map_option tz_name (dt_tz (astimezone tz d)) = Some (tz_name tz)"
    unfolding astimezone_def by (split if_split) (simp add: fromtimestamp_def)
  then show ?thesis by (cases "dt_tz d") (simp_all add: minute_boundary_def floor_minute_def)
qed

lemma minute_no_less: "dt_less (minute_boundary tz (t_ts t)) (minute_boundary tz (t_ts u)) \<longleftrightarrow> minute_no tz t < minute_no tz u"
proof -
  have "same_tz (minute_boundary tz (t_ts t)) (minute_boundary tz (t_ts u))"
    by (simp only: same_tz_def minute_boundary_zone)
  then show ?thesis by (simp add: dt_less_def dt_sub_def minute_no_def)
qed

lemma last_minute:
  assumes "us \<noteq> []"
  shows "minutes_seen tz us = sorted_list_of_set (set (running_minutes tz us) - {Max (minute_no tz ` set us)}) @ [Max (minute_no tz ` set us)]"
proof -
  let ?M = "Max (minute_no tz ` set us)" and ?R = "set (running_minutes tz us)"
  have eq: "insert ?M (?R - {?M}) = ?R" using running_minutes_max(1) [OF assms, of tz] by auto
  have "\<forall>a \<in> ?R - {?M}. a < ?M" using running_minutes_max(2) [OF assms, of tz] by force
  then have "sorted_list_of_set (insert ?M (?R - {?M})) = sorted_list_of_set (?R - {?M}) @ [?M]"
    by (intro sorted_list_of_set_max finite_Diff finite_set)
  then show ?thesis unfolding eq minutes_seen_def .
qed

lemma add_to_newest:
  "add_to_blocks tz t ((m0, ts) # rest) =
    (if dt_less m0 (minute_boundary tz (t_ts t)) then (minute_boundary tz (t_ts t), [t]) # (m0, ts) # rest else (m0, ts @ [t]) # rest)"
  by (simp add: add_to_blocks_def Let_def)

text \<open>The blocks are the ticks of the minutes seen.\<close>

lemma blocks_minutes:
  "fold (add_to_blocks tz) us [] =
     rev (map (\<lambda>m. (minute_boundary tz (t_ts (hd (ticks_of tz us m))), ticks_of tz us m)) (minutes_seen tz us)) \<and>
   (\<forall>m \<in> set (running_minutes tz us). ticks_of tz us m \<noteq> [] \<and> minute_no tz (hd (ticks_of tz us m)) = m)"
proof (induction us rule: rev_induct)
  case Nil
  then show ?case by (simp add: minutes_seen_def running_minutes_def)
next
  case (snoc t us)
  let ?f = "\<lambda>us m. (minute_boundary tz (t_ts (hd (ticks_of tz us m))), ticks_of tz us m)"
  show ?case
  proof (cases "us = []")
    case True
    then show ?thesis
      by (simp add: minutes_seen_def running_minutes_def ticks_of_def add_to_blocks_def minute_no_def Let_def)
  next
    case False
    let ?M = "Max (minute_no tz ` set us)" and ?n = "minute_no tz t"
    let ?A = "set (running_minutes tz us) - {?M}"
    have M: "Max (minute_no tz ` set (us @ [t])) = max ?n ?M" using False by simp
    note run = running_minutes_snoc [of tz us t, unfolded M] and tick = ticks_of_snoc [of tz us t, unfolded M]
    have ne: "ticks_of tz us ?M \<noteq> []" "minute_no tz (hd (ticks_of tz us ?M)) = ?M"
      using snoc.IH running_minutes_max(1) [OF False] by blast+
    have less: "dt_less (minute_boundary tz (t_ts (hd (ticks_of tz us ?M)))) (minute_boundary tz (t_ts t)) \<longleftrightarrow> ?M < ?n"
      unfolding minute_no_less ne(2) ..
    have bs: "fold (add_to_blocks tz) us [] = ?f us ?M # rev (map (?f us) (sorted_list_of_set ?A))"
      using snoc.IH unfolding last_minute [OF False] by simp
    show ?thesis
    proof (cases "?M < ?n")
      case True
      then have new: "?n \<notin> set (running_minutes tz us)" using running_minutes_max(2) [OF False, of tz] by force
      have keep: "ticks_of tz (us @ [t]) m = ticks_of tz us m" if "m \<in> set (running_minutes tz us)" for m
        using tick [of m] that new True by auto
      have none: "ticks_of tz us ?n = []"
        using new by (auto simp: ticks_of_def filter_empty_conv dest: set_zip_rightD)
      have seen: "minutes_seen tz (us @ [t]) = minutes_seen tz us @ [?n]"
      proof -
        have "\<forall>a \<in> set (running_minutes tz us). a < ?n" using running_minutes_max(2) [OF False, of tz] True by force
        then have "sorted_list_of_set (insert ?n (set (running_minutes tz us))) = minutes_seen tz us @ [?n]"
          unfolding minutes_seen_def by (intro sorted_list_of_set_max) simp_all
        moreover have "set (running_minutes tz (us @ [t])) = insert ?n (set (running_minutes tz us))"
          using True by (simp add: run max_def)
        ultimately show ?thesis by (simp only: minutes_seen_def)
      qed
      have same: "map (?f (us @ [t])) (minutes_seen tz us) = map (?f us) (minutes_seen tz us)"
        using keep by (simp add: minutes_seen_def)
      have "fold (add_to_blocks tz) (us @ [t]) [] = ?f (us @ [t]) ?n # rev (map (?f us) (minutes_seen tz us))"
      proof -
        have "fold (add_to_blocks tz) us [] = rev (map (?f us) (minutes_seen tz us))" using snoc.IH by blast
        moreover have "ticks_of tz (us @ [t]) ?n = [t]" using tick [of ?n] none True by (simp add: max_def)
        moreover have "fold (add_to_blocks tz) (us @ [t]) [] = (minute_boundary tz (t_ts t), [t]) # fold (add_to_blocks tz) us []"
          using less True by (simp only: fold_append fold.simps comp_apply id_apply bs add_to_newest if_True)
        ultimately show ?thesis by (simp only: list.sel)
      qed
      then show ?thesis
        using snoc.IH keep tick [of ?n] none True unfolding seen run by (auto simp: same max_def simp flip: rev_map)
    next
      case False
      then have mx: "max ?n ?M = ?M" by (simp add: max_def)
      have set: "set (running_minutes tz (us @ [t])) = set (running_minutes tz us)"
        using running_minutes_max(1) [OF \<open>us \<noteq> []\<close>] by (auto simp: run mx)
      then have seen: "minutes_seen tz (us @ [t]) = minutes_seen tz us" by (simp add: minutes_seen_def)
      have tM: "ticks_of tz (us @ [t]) m = ticks_of tz us m @ (if m = ?M then [t] else [])" for m
        using tick [of m] by (auto simp: mx)
      have same: "map (?f (us @ [t])) (sorted_list_of_set ?A) = map (?f us) (sorted_list_of_set ?A)"
        by (simp add: tM)
      have "fold (add_to_blocks tz) (us @ [t]) [] = ?f (us @ [t]) ?M # rev (map (?f us) (sorted_list_of_set ?A))"
        using bs less False ne(1) by (simp add: add_to_newest tM)
      then show ?thesis
        unfolding seen set last_minute [OF \<open>us \<noteq> []\<close>] using snoc.IH ne
        by (auto simp: same tM simp flip: rev_map)
    qed
  qed
qed

lemma in_order_minutes:
  assumes "sorted (map (minute_no tz) us)"
  shows "running_minutes tz us = map (minute_no tz) us" "ticks_of tz us m = filter (\<lambda>t. minute_no tz t = m) us"
proof -
  show run: "running_minutes tz us = map (minute_no tz) us" using assms
  proof (induction us rule: rev_induct)
    case (snoc t us)
    have "Max (minute_no tz ` set (us @ [t])) = minute_no tz t"
      by (rule Max_eqI) (use snoc.prems in \<open>auto simp: sorted_append\<close>)
    then show ?case using snoc by (simp add: running_minutes_snoc sorted_append)
  qed (simp add: running_minutes_def)
  have "map fst (filter (\<lambda>x. snd x = m) (zip us (map f us))) = filter (\<lambda>t. f t = m) us" for f :: "tick \<Rightarrow> int"
    by (induction us) auto
  then show "ticks_of tz us m = filter (\<lambda>t. minute_no tz t = m) us" by (simp add: ticks_of_def run)
qed

text \<open>The candles of a stream, with the newest.\<close>

definition minute_candles :: "string \<Rightarrow> tzinfo \<Rightarrow> tick list \<Rightarrow> candle list" where
  "minute_candles symbol tz ts =
     (let us = filter (\<lambda>t. t_symbol t = symbol) ts in map (minute_candle symbol tz us) (minutes_seen tz us))"

lemma blocks_candles: "map (block_candle symbol) (rev (blocks symbol tz ts)) = minute_candles symbol tz ts"
  using blocks_minutes [of tz "filter (\<lambda>t. t_symbol t = symbol) ts"]
  by (simp add: blocks_def minute_candles_def minute_candle_def rev_map comp_def Let_def)

lemma emitted_candles: "map (block_candle symbol) (rev (tl (blocks symbol tz ts))) = butlast (minute_candles symbol tz ts)"
  unfolding blocks_candles [symmetric] by (cases "blocks symbol tz ts") (simp_all add: butlast_append)

text \<open>
  C13. Against a reference over the times of the ticks: for any stream of ticks with non-negative
  volumes, every tick of the builder's symbol belongs to its running minute, the latest minute up to
  it in the stream. The builder emits, in order, the candle of every minute seen but the newest (first
  and last price, extremes, total volume of its ticks), and \<open>finalize_current\<close> gives the candle of
  the newest, or nothing before the first tick. No tick is lost. For ticks in order the candles are
  those of the distinct minutes, each from the ticks of that minute. A late tick is neither
  dropped nor given a candle of its own, it is counted in the newest minute: the description of
  \<open>on_tick\<close> closes the candle for any different minute, the code only for a later one. The builder
  never raises, every candle satisfies the candle invariant, and candle timestamps strictly increase.
\<close>

theorem builder_minute_candles:
  fixes symbol :: string and tz :: tzinfo and ts :: "tick list"
  assumes "volumes_ok ts"
  defines "us \<equiv> filter (\<lambda>t. t_symbol t = symbol) ts"
  defines "candles \<equiv> map (minute_candle symbol tz us) (minutes_seen tz us)"
  shows "(\<exists>b. feed ts (builder_init symbol tz) [] = (b, Inr (butlast candles)) \<and>
      finalize_current b = Inr (if us = [] then None else Some (last candles))) \<and>
    (candles = [] \<longleftrightarrow> us = []) \<and> concat (map (ticks_of tz us) (minutes_seen tz us)) = us \<and>
    (sorted (map (minute_no tz) us) \<longrightarrow> minutes_seen tz us = sorted_list_of_set (minute_no tz ` set us) \<and>
      (\<forall>m. ticks_of tz us m = filter (\<lambda>t. minute_no tz t = m) us)) \<and>
    list_all candle_ok candles \<and> adjacent (\<lambda>a b. dt_less (c_ts a) (c_ts b)) candles"
proof -
  let ?bs = "blocks symbol tz ts" and ?R = "\<lambda>newer older. dt_less older newer"
  have candles: "candles = map (block_candle symbol) (rev ?bs)" "candles = minute_candles symbol tz ts"
    unfolding blocks_candles by (simp_all add: candles_def us_def minute_candles_def Let_def)
  obtain b where f: "feed ts (builder_init symbol tz) [] = (b, Inr (butlast candles))" "builder_state symbol tz ?bs b"
    using feed_blocks(1,2) [OF assms(1), of symbol tz] unfolding emitted_candles candles(2) by (metis prod.collapse)
  note vol = feed_blocks(3) [OF assms(1), of symbol tz]
  note inv = blocks_order_content [of symbol tz ts]
  have nil: "?bs = [] \<longleftrightarrow> us = []" using inv blocks_minutes [of tz us] ne_blocks
    by (auto simp: blocks_def us_def)
  have fin: "finalize_current b = Inr (if us = [] then None else Some (last candles))"
  proof (cases ?bs)
    case Nil
    with f(2) nil show ?thesis by (simp add: finalize_current_def builder_state_def builder_finalize_def has_data_def)
  next
    case (Cons blk rest)
    then have "builds blk b" "volumes_ok (snd blk)" "b_symbol b = symbol" "last candles = block_candle symbol blk"
      using f(2) vol by (simp_all add: builder_state_def candles(1))
    with Cons nil show ?thesis by (simp add: finalize_current_def builds_finalize)
  qed
  have "list_all candle_ok candles"
    using ne_blocks [of symbol tz ts] vol by (auto simp: candles(1) list_all_iff block_candle_ok)
  moreover have "adjacent (\<lambda>a b. dt_less (c_ts a) (c_ts b)) candles"
    using inv by (simp add: candles(1) adjacent_map adjacent_rev block_candle_def Let_def)
  moreover have "concat (map (ticks_of tz us) (minutes_seen tz us)) = us"
    using inv blocks_minutes [of tz us] by (simp add: blocks_def us_def [symmetric] comp_def)
  ultimately show ?thesis
    using f(1) fin nil in_order_minutes [of tz us] candles(1) by (auto simp: minutes_seen_def)
qed

definition demo_tick :: "int \<Rightarrow> pfloat \<Rightarrow> tick" where
  "demo_tick sec price = \<lparr>t_symbol = ''EURUSD'', t_price = price, t_ts = utc_dt (sec * second_us), t_volume = Some 1\<rparr>"

lemma demo_tick_simps [simp]:
  "t_symbol (demo_tick s x) = ''EURUSD''" "t_price (demo_tick s x) = x"
  "t_ts (demo_tick s x) = utc_dt (s * second_us)" "t_volume (demo_tick s x) = Some 1"
  by (simp_all add: demo_tick_def)

text \<open>The third tick arrives late, after a tick of the next minute, and is counted there.\<close>

theorem builder_minute_candles_witness:
  "\<exists>b c. feed [demo_tick 5 2, demo_tick 61 4, demo_tick 50 3, demo_tick 121 5] (builder_init ''EURUSD'' utc) []
      = (b, Inr [c, block_candle ''EURUSD'' (utc_dt 60000000, [demo_tick 61 4, demo_tick 50 3])]) \<and>
    c_open c = 2 \<and> c_close c = 2"
proof -
  let ?ts = "[demo_tick 5 2, demo_tick 61 4, demo_tick 50 3, demo_tick 121 5]"
  have v: "volumes_ok ?ts" by (simp add: volumes_ok_def)
  have b: "minute_boundary utc (utc_dt u) = utc_dt (u - u mod minute_us)" for u
    by (simp add: minute_boundary_def astimezone_def)
  have r: "running_minutes utc ?ts = [0, 60000000, 60000000, 120000000]"
    by (simp add: running_minutes_def minute_no_def b upt_rec)
  then have "minutes_seen utc ?ts = [0, 60000000, 120000000]" by (simp add: minutes_seen_def)
  moreover have "ticks_of utc ?ts 0 = [demo_tick 5 2]" "ticks_of utc ?ts 60000000 = [demo_tick 61 4, demo_tick 50 3]"
    unfolding ticks_of_def r by simp_all
  ultimately show ?thesis
    using builder_minute_candles [OF v, of "''EURUSD''" utc] by (auto simp: minute_candle_def block_candle_def Let_def b)
qed

section \<open>Daylight saving\<close>

text \<open>
  At the autumn clock change the builder stalls for an hour: minutes are compared by wall
  clock in the builder's own zone, so after the last minute before the change no tick of the
  following hour starts a new minute. All of them go into the candle of that one minute, and no
  candle is emitted.
\<close>

theorem builder_stalls_at_fall_back:
  fixes T :: int and b :: builder and ts :: "tick list"
  assumes "T mod 3600000000 = 0" "b_tz b = switch_zone name T (- 14400000000) (- 18000000000)" "name \<noteq> ''UTC''"
    and "b_minute b = Some (minute_boundary (b_tz b) (utc_dt (T - minute_us)))"
    and "\<forall>t \<in> set ts. \<exists>u. t_ts t = utc_dt u \<and> T \<le> u \<and> u < T + 3600000000"
  shows "\<exists>b'. feed ts b out = (b', Inr out) \<and> b_minute b' = b_minute b"
  using assms(2-)
proof (induction ts arbitrary: b)
  case (Cons t ts)
  let ?z = "switch_zone name T (- 14400000000) (- 18000000000)"
  obtain k where k: "T = 3600000000 * k" using assms(1) by (auto simp: mod_eq_0_iff_dvd elim: dvdE)
  obtain u where u: "t_ts t = utc_dt u" "T \<le> u" "u < T + 3600000000" using Cons.prems(4) by auto
  have az: "astimezone ?z (utc_dt v) = fromtimestamp ?z v" for v
    using Cons.prems(2) by (simp add: astimezone_def switch_zone_def) (simp add: utc_def)
  have tzs: "dt_tz (utc_dt v) = Some utc" for v by simp
  have m0: "minute_boundary ?z (utc_dt (T - minute_us)) =
      \<lparr>dt_wall = T - minute_us - 14400000000, dt_fold = False, dt_tz = Some ?z\<rparr>"
  proof -
    have "T - minute_us - 14400000000 = minute_us * (60 * k - 241)" by (simp add: k)
    then have "(T - minute_us - 14400000000) mod minute_us = 0" by (simp only: mod_mult_self1_is_0)
    then show ?thesis
      by (simp add: minute_boundary_def az floor_minute_def fromtimestamp_def) (simp add: switch_zone_def)
  qed
  have mt: "dt_tz (minute_boundary ?z (utc_dt u)) = Some ?z"
    "dt_wall (minute_boundary ?z (utc_dt u)) \<le> T - minute_us - 14400000000"
  proof -
    show "dt_tz (minute_boundary ?z (utc_dt u)) = Some ?z"
      by (simp add: minute_boundary_def az floor_minute_def fromtimestamp_def)
    have w: "dt_wall (minute_boundary ?z (utc_dt u)) = (u - 18000000000) - (u - 18000000000) mod minute_us"
      using u(2) by (simp add: minute_boundary_def az floor_minute_def fromtimestamp_def) (simp add: switch_zone_def)
    have "(u - 18000000000) - (u - 18000000000) mod minute_us \<le> T - minute_us - 14400000000"
      using floor_less [of minute_us "u - 18000000000" "60 * k - 240"] u(3) by (simp add: k)
    then show "dt_wall (minute_boundary ?z (utc_dt u)) \<le> T - minute_us - 14400000000" by (simp only: w)
  qed
  have nl: "\<not> dt_less (minute_boundary ?z (utc_dt (T - minute_us))) (minute_boundary ?z (utc_dt u))"
    using mt by (simp add: m0 dt_less_def dt_sub_def same_tz_def)
  obtain b1 where b1: "on_tick t b = (b1, Inr None)" "b_minute b1 = b_minute b" "b_tz b1 = b_tz b"
  proof (cases "t_symbol t = b_symbol b")
    case True
    have "on_tick t b = (update_ohlc t b, Inr None)"
      using True nl Cons.prems(1,3) by (simp add: on_tick_def Let_def u(1))
    moreover have "b_minute (update_ohlc t b) = b_minute b"
      by (simp add: update_ohlc_def Let_def split: option.splits)
    ultimately show ?thesis using that by simp
  next
    case False
    then show ?thesis using that by (simp add: on_tick_def)
  qed
  show ?case using Cons.IH [of b1] Cons.prems b1 by simp
qed simp

definition fall_2024 :: int where
  "fall_2024 = 1730613600000000"

definition ny_2024 :: tzinfo where
  "ny_2024 = switch_zone ''America/New_York'' fall_2024 (- 14400000000) (- 18000000000)"

theorem builder_stalls_at_fall_back_witness:
  "\<exists>b b'. feed [demo_tick 1730613545 2] (builder_init ''EURUSD'' ny_2024) [] = (b, Inr []) \<and>
     feed [demo_tick 1730613600 3, demo_tick 1730615400 5, demo_tick 1730617199 7] b [] = (b', Inr [])"
proof -
  let ?t = "demo_tick 1730613545 2"
  obtain b where b: "feed [?t] (builder_init ''EURUSD'' ny_2024) [] = (b, Inr [])"
    "b_minute b = Some (minute_boundary ny_2024 (t_ts ?t))" "b_tz b = ny_2024"
  proof
    show "feed [?t] (builder_init ''EURUSD'' ny_2024) [] =
        (update_ohlc ?t (start_new_minute (minute_boundary ny_2024 (t_ts ?t)) (builder_init ''EURUSD'' ny_2024)), Inr [])"
      by (simp add: on_tick_def builder_init_def Let_def)
  qed (simp_all add: update_ohlc_def start_new_minute_def clear_builder_def builder_init_def Let_def)
  have az: "astimezone ny_2024 (utc_dt v) = fromtimestamp ny_2024 v" for v
    by (simp add: astimezone_def ny_2024_def switch_zone_def) (simp add: utc_def)
  have mb: "minute_boundary ny_2024 (utc_dt v) = floor_minute (fromtimestamp ny_2024 v)" for v
    by (simp add: minute_boundary_def az)
  have m: "minute_boundary ny_2024 (t_ts ?t) = minute_boundary ny_2024 (utc_dt (fall_2024 - minute_us))"
    by (simp add: mb floor_minute_def fromtimestamp_def) (simp add: ny_2024_def switch_zone_def fall_2024_def)
  have T: "fall_2024 mod 3600000000 = 0" by (simp add: fall_2024_def)
  have z: "b_tz b = switch_zone ''America/New_York'' fall_2024 (- 14400000000) (- 18000000000)"
    using b(3) by (simp add: ny_2024_def)
  have bm: "b_minute b = Some (minute_boundary (b_tz b) (utc_dt (fall_2024 - minute_us)))"
    by (simp only: b(2,3) m)
  have "\<exists>b'. feed [demo_tick 1730613600 3, demo_tick 1730615400 5, demo_tick 1730617199 7] b [] = (b', Inr []) \<and>
      b_minute b' = b_minute b"
    by (rule builder_stalls_at_fall_back [OF T z _ bm]) (simp_all add: fall_2024_def)
  with b(1) show ?thesis by blast
qed

end
