(* ===== verification/GapValidator_Props.thy ===== *)
theory GapValidator_Props
  imports GapValidator
begin

text \<open>Properties of gap detection, validation and the ranges to fetch.\<close>

lemma unique_count_grid: "unique_count (map grid ms) = card (set ms)"
proof (induction ms)
  case (Cons m ms)
  have "list_ex (dt_eq (grid m)) (map grid ms) \<longleftrightarrow> m \<in> set ms" by (auto simp: list_ex_iff)
  with Cons show ?case by (simp add: insert_absorb)
qed simp

lemma unique_count_le: "unique_count ts \<le> length ts"
  by (induction ts) auto

lemma strictly_sorted_grid:
  "map c_ts cs = map grid ms \<Longrightarrow> strictly_sorted cs \<longleftrightarrow> sorted_wrt (<) ms"
proof (induction cs arbitrary: ms rule: strictly_sorted.induct)
  case (1 c d cs)
  then obtain a b ms' where m: "ms = a # b # ms'" "c_ts c = grid a" "c_ts d = grid b" "map c_ts cs = map grid ms'"
    by (auto simp: Cons_eq_map_conv)
  have "strictly_sorted (d # cs) \<longleftrightarrow> sorted_wrt (<) (b # ms')" by (rule 1(1)) (simp add: m)
  then show ?case by (fastforce simp: m(1-3))
qed (auto simp: Cons_eq_map_conv)

lemma first_unsorted_None: "first_unsorted i cs = None \<longleftrightarrow> strictly_sorted cs"
  by (induction i cs rule: first_unsorted.induct) auto

lemma step_errors_grid:
  "map c_ts cs = map grid ms \<Longrightarrow> 0 \<le> step_errors cs \<and> (step_errors cs = 0 \<longleftrightarrow> adjacent (\<lambda>a b. b = a + 1) ms)"
proof (induction cs arbitrary: ms rule: step_errors.induct)
  case (1 c d cs)
  then obtain a b ms' where m: "ms = a # b # ms'" "c_ts c = grid a" "c_ts d = grid b" "map c_ts (d # cs) = map grid (b # ms')"
    by (auto simp: Cons_eq_map_conv)
  have "(b - a) * minute_us = minute_us \<longleftrightarrow> b = a + 1" by auto
  then show ?case using 1(1) [OF m(4)] by (auto simp: m(1-3))
qed (auto simp: Cons_eq_map_conv)

lemma adjacent_Suc_sorted: "adjacent (\<lambda>a b. b = a + 1) ms \<Longrightarrow> sorted_wrt (<) (ms :: int list)"
proof (induction ms)
  case (Cons m ms)
  then show ?case by (cases ms) (auto simp: sorted_wrt2)
qed simp

lemma adjacent_Suc_upto: "adjacent (\<lambda>a b. b = a + 1) [s..e]"
proof (induction "nat (e - s + 1)" arbitrary: s)
  case (Suc n)
  then have "adjacent (\<lambda>a b. b = a + 1) [s + 1..e]" by simp
  moreover have "[s..e] = s # [s + 1..e]" using Suc by (simp add: upto_rec1)
  moreover have "[s + 1..e] = [] \<or> [s + 1..e] = (s + 1) # [s + 1 + 1..e]"
    by (cases "s + 1 \<le> e") (simp_all add: upto_rec1)
  ultimately show ?case by fastforce
qed simp

text \<open>
  C14. On candles stamped at distinct whole UTC minutes of \<open>[s, e)\<close>, in order, the gaps found are
  exactly the maximal runs of missing minutes: in order, not touching, inside the range, covering
  every minute without a candle and no other, and their counts add up to the number of candles
  missing.
\<close>

theorem find_gaps_exact:
  fixes cs :: "candle list" and ms :: "int list" and s e :: int
  assumes "map c_ts cs = map grid ms" "sorted_wrt (<) ms" "\<forall>m \<in> set ms. s \<le> m \<and> m < e" "s < e"
  shows "\<exists>gs. find_gaps cs (grid s) (grid e) = map grid_gap gs \<and>
    sorted_wrt (\<lambda>ab cd. snd ab < fst cd) gs \<and>
    (\<forall>(a, b) \<in> set gs. s \<le> a \<and> a < b \<and> b \<le> e) \<and>
    (\<forall>t. (\<exists>(a, b) \<in> set gs. a \<le> t \<and> t < b) \<longleftrightarrow> s \<le> t \<and> t < e \<and> t \<notin> set ms) \<and>
    sum_list (map gap_count (find_gaps cs (grid s) (grid e))) = e - s - int (length ms)"
proof (intro exI conjI)
  have m: "\<forall>m \<in> set ms. m < e" using assms(3) by blast
  show f: "find_gaps cs (grid s) (grid e) = map grid_gap (int_gaps s ms e)"
    by (rule find_gaps_grid [OF assms(1) m assms(4)])
  show "sorted_wrt (\<lambda>ab cd. snd ab < fst cd) (int_gaps s ms e)"
    by (rule int_gaps_disjoint [OF assms(3,2)])
  show "\<forall>(a, b) \<in> set (int_gaps s ms e). s \<le> a \<and> a < b \<and> b \<le> e"
    using int_gaps_bounds [OF assms(3,2)] by blast
  show "\<forall>t. (\<exists>(a, b) \<in> set (int_gaps s ms e). a \<le> t \<and> t < b) \<longleftrightarrow> s \<le> t \<and> t < e \<and> t \<notin> set ms"
    using int_gaps_cover [OF assms(3,2)] by blast
  have "map gap_count (map grid_gap xs) = map (\<lambda>ab. snd ab - fst ab) xs" for xs
    by (induction xs) (simp_all add: grid_gap_def)
  then show "sum_list (map gap_count (find_gaps cs (grid s) (grid e))) = e - s - int (length ms)"
    unfolding f using int_gaps_sum [OF assms(3,2)] assms(4) by (simp del: map_map)
qed

definition demo_candle :: "int \<Rightarrow> pfloat \<Rightarrow> candle" where
  "demo_candle m price = \<lparr>c_symbol = ''EURUSD'', c_ts = grid m, c_open = price, c_high = price,
     c_low = price, c_close = price, c_volume = 1, c_closed = True\<rparr>"

lemma demo_candle_simps [simp]:
  "c_ts (demo_candle m x) = grid m" "c_symbol (demo_candle m x) = ''EURUSD''"
  "c_closed (demo_candle m x)" "c_close (demo_candle m x) = x" "candle_ok (demo_candle m x)"
  by (simp_all add: demo_candle_def candle_ok_def)

theorem find_gaps_exact_witness:
  "sum_list (map gap_count (find_gaps [demo_candle 11 1, demo_candle 14 1] (grid 10) (grid 20))) = 8"
  using find_gaps_exact [of "[demo_candle 11 1, demo_candle 14 1]" "[11, 14]" 10 20] by auto

text \<open>
  On candles stamped at whole UTC minutes of \<open>[s, e)\<close>, in any order and with any repetitions,
  the validation report is valid exactly when the candles are one per minute of the range in
  order; then nothing is missing and every minute expected is there. The quick integrity check
  accepts exactly the strictly increasing sequences, and it never reports duplicates: they are
  reported as an ordering error first.
\<close>

theorem validate_valid_iff:
  fixes cs :: "candle list" and ms :: "int list" and s e :: int
  assumes "map c_ts cs = map grid ms" "\<forall>m \<in> set ms. s \<le> m \<and> m < e" "s < e"
  shows "(is_valid (validate cs (grid s) (grid e) symbol) \<longleftrightarrow> ms = [s..e - 1]) \<and>
    (is_valid (validate cs (grid s) (grid e) symbol) \<longrightarrow>
       vr_missing (validate cs (grid s) (grid e) symbol) = 0 \<and>
       vr_actual (validate cs (grid s) (grid e) symbol) = vr_expected (validate cs (grid s) (grid e) symbol)) \<and>
    (check_integrity cs = Inr () \<longleftrightarrow> sorted_wrt (<) ms) \<and>
    check_integrity cs \<noteq> Inl DuplicateTimestamps"
proof -
  let ?r = "validate cs (grid s) (grid e) symbol"
  have len: "length cs = length ms" using arg_cong [OF assms(1), of length] by simp
  have m: "\<forall>m \<in> set ms. m < e" using assms(2) by blast
  have u: "sorted_wrt (<) ms \<Longrightarrow> unique_count (map c_ts cs) = length ms"
    by (simp add: assms(1) unique_count_grid strict_sorted_iff distinct_card)
  have valid: "is_valid ?r \<longleftrightarrow> ms = [s..e - 1]"
  proof (cases "ms = []")
    case True
    then show ?thesis using len assms(3) by (auto simp: validate_def is_valid_def Let_def)
  next
    case False
    then have "is_valid ?r \<longleftrightarrow> int_gaps s ms e = [] \<and> adjacent (\<lambda>a b. b = a + 1) ms"
      using len u adjacent_Suc_sorted [of ms]
      by (auto simp: validate_def is_valid_def Let_def find_gaps_grid [OF assms(1) m assms(3)]
          strictly_sorted_grid [OF assms(1)] step_errors_grid [OF assms(1)])
    moreover have "s \<le> hd ms" using False assms(2) by (cases ms) auto
    then have "adjacent (\<lambda>a b. b = a + 1) ms \<Longrightarrow> int_gaps s ms e = [] \<longleftrightarrow> ms = [s..e - 1]"
      using False by (intro int_gaps_empty [OF m]) auto
    ultimately show ?thesis using adjacent_Suc_upto [of s "e - 1"] by blast
  qed
  have "ms = [s..e - 1] \<Longrightarrow> vr_missing ?r = 0 \<and> vr_actual ?r = vr_expected ?r"
    using len assms(3) by (auto simp: validate_def Let_def)
  moreover have "check_integrity cs = Inr () \<longleftrightarrow> sorted_wrt (<) ms" "check_integrity cs \<noteq> Inl DuplicateTimestamps"
    using u len first_unsorted_None [of 0 cs]
    by (auto simp: check_integrity_def strictly_sorted_grid [OF assms(1)] split: option.splits)
  ultimately show ?thesis using valid by blast
qed

theorem validate_valid_iff_witness:
  "is_valid (validate [demo_candle 3 1, demo_candle 4 2] (grid 3) (grid 5) ''EURUSD'') \<and>
   \<not> is_valid (validate [demo_candle 4 1, demo_candle 3 2] (grid 3) (grid 5) ''EURUSD'') \<and>
   check_integrity [demo_candle 3 1, demo_candle 3 2] \<noteq> Inr ()"
proof -
  have u: "[3..4] = [3, 4::int]" by (simp add: upto.simps)
  show ?thesis
    using validate_valid_iff [of "[demo_candle 3 1, demo_candle 4 2]" "[3, 4]" 3 5 "''EURUSD''"]
      validate_valid_iff [of "[demo_candle 4 1, demo_candle 3 2]" "[4, 3]" 3 5 "''EURUSD''"]
      validate_valid_iff [of "[demo_candle 3 1, demo_candle 3 2]" "[3, 3]" 3 5 "''EURUSD''"] u by simp
qed

section \<open>Ranges to fetch\<close>




end
