(* ===== verification/CsvStore_Props.thy ===== *)
theory CsvStore_Props
  imports StoreContract CandleBuilder_Props GapValidator_Props
begin

text \<open>Properties of the CSV candle store.\<close>

text \<open>
  C16. Writing to a store of UTC candles is updating a map from symbols and instants to candles.
  A patch overrides the map with the given candles, later ones winning, and reports their number;
  other symbols are never touched. If the disk refuses a file the call fails, but the months
  written before stay written: every month is updated completely or not at all. Appending adds a
  candle exactly when its instant is free, and otherwise, or on a refused write, changes nothing.
  All of this keeps the files sorted, without duplicates, and each candle in the file of its month.
\<close>

theorem csv_writes_refine_map:
  fixes files :: csv_files and cs :: "candle list" and c :: candle
  assumes "files_ok files" "\<forall>d \<in> set cs. good_candle symb d" "good_candle symb c"
  shows "(\<exists>files' r. csv_patch disk_ok cs files = (files', r) \<and> files_ok files' \<and>
      (\<forall>s u. s \<noteq> symb \<longrightarrow> store_map files' s u = store_map files s u) \<and>
      (\<forall>m. (\<forall>u. month_at u = m \<longrightarrow> store_map files' symb u = (store_map files symb ++ candle_map (rev cs)) u) \<or>
           (\<forall>u. month_at u = m \<longrightarrow> store_map files' symb u = store_map files symb u)) \<and>
      (case r of
         Inr n \<Rightarrow> n = int (length cs) \<and> store_map files' symb = store_map files symb ++ candle_map (rev cs)
       | Inl e \<Rightarrow> \<exists>d \<in> set cs. \<not> disk_ok (symb, month_at (instant d)))) \<and>
    (\<exists>files' r. csv_append disk_ok c files = (files', r) \<and> files_ok files' \<and>
      (case r of
         Inr True \<Rightarrow> store_map files symb (instant c) = None \<and>
           store_map files' symb = (store_map files symb)(instant c \<mapsto> c)
       | Inr False \<Rightarrow> store_map files symb (instant c) \<noteq> None \<and> files' = files
       | Inl e \<Rightarrow> \<not> disk_ok (symb, month_at (instant c)) \<and> files' = files))"
proof
  let ?gs = "group_by_month cs"
  obtain files' n where p: "csv_patch disk_ok cs files =
      (files', if n = length ?gs then Inr (int (length cs)) else Inl (OtherError ''OSError''))"
    "files_ok files'" "n \<le> length ?gs" "n < length ?gs \<longrightarrow> \<not> disk_ok (symb, fst (?gs ! n))"
    "\<forall>s u. store_map files' s u =
      (if s = symb \<and> month_at u \<in> set (d_keys (take n ?gs))
       then (store_map files symb ++ candle_map (rev cs)) u else store_map files s u)"
    using csv_patch_map [OF assms(1,2), of disk_ok] by blast
  have months: "(\<forall>u. month_at u = m \<longrightarrow> store_map files' symb u = (store_map files symb ++ candle_map (rev cs)) u) \<or>
      (\<forall>u. month_at u = m \<longrightarrow> store_map files' symb u = store_map files symb u)" for m
    using p(5) by (cases "m \<in> set (d_keys (take n ?gs))") auto
  have full: "store_map files' symb = store_map files symb ++ candle_map (rev cs)" if n: "n = length ?gs"
  proof
    fix u
    show "store_map files' symb u = (store_map files symb ++ candle_map (rev cs)) u"
    proof (cases "candle_map (rev cs) u")
      case None
      then show ?thesis using p(5) by (simp add: map_add_def)
    next
      case (Some d)
      then have "d \<in> set cs" "instant d = u" by (auto dest: candle_map_SomeD)
      then have "filter (\<lambda>c. dt_month (c_ts c) = month_at u) cs \<noteq> []"
        using assms(2) by (force simp: filter_empty_conv dest: good_candle_ts)
      then have "month_at u \<in> set (d_keys ?gs)" by (simp add: d_keys_iff groups_get Let_def del: set_map)
      then show ?thesis using p(5) n by simp
    qed
  qed
  have fail: "\<exists>d \<in> set cs. \<not> disk_ok (symb, month_at (instant d))" if n: "n \<noteq> length ?gs"
  proof -
    have l: "n < length ?gs" using n p(3) by simp
    obtain m g where mg: "?gs ! n = (m, g)" by (cases "?gs ! n")
    then have mem: "(m, g) \<in> set ?gs" using l nth_mem by metis
    then have "g \<noteq> [] \<and> (\<forall>c \<in> set g. good_candle symb c \<and> month_at (instant c) = m)"
      using groups_good [OF assms(2)] by blast
    moreover have "set g \<subseteq> set cs"
      using d_in_get [OF groups_wf mem] by (auto simp: groups_get Let_def split: if_splits)
    moreover have "\<not> disk_ok (symb, m)" using p(4) l mg by simp
    ultimately show ?thesis by (cases g) auto
  qed
  show "\<exists>files' r. csv_patch disk_ok cs files = (files', r) \<and> files_ok files' \<and>
      (\<forall>s u. s \<noteq> symb \<longrightarrow> store_map files' s u = store_map files s u) \<and>
      (\<forall>m. (\<forall>u. month_at u = m \<longrightarrow> store_map files' symb u = (store_map files symb ++ candle_map (rev cs)) u) \<or>
           (\<forall>u. month_at u = m \<longrightarrow> store_map files' symb u = store_map files symb u)) \<and>
      (case r of
         Inr n \<Rightarrow> n = int (length cs) \<and> store_map files' symb = store_map files symb ++ candle_map (rev cs)
       | Inl e \<Rightarrow> \<exists>d \<in> set cs. \<not> disk_ok (symb, month_at (instant d)))"
    using p(1,2,5) months full fail by (cases "n = length ?gs") auto
next
  note a = csv_append_map [OF assms(1,3), of disk_ok]
  show "\<exists>files' r. csv_append disk_ok c files = (files', r) \<and> files_ok files' \<and>
      (case r of
         Inr True \<Rightarrow> store_map files symb (instant c) = None \<and>
           store_map files' symb = (store_map files symb)(instant c \<mapsto> c)
       | Inr False \<Rightarrow> store_map files symb (instant c) \<noteq> None \<and> files' = files
       | Inl e \<Rightarrow> \<not> disk_ok (symb, month_at (instant c)) \<and> files' = files)"
    using a assms(1) by (cases "csv_append disk_ok c files") (auto simp: fun_eq_iff split: sum.splits bool.splits)
qed

lemma demo_candle_good [simp]: "good_candle ''EURUSD'' (demo_candle m x)"
proof -
  have "grid m = utc_dt ((m * 60) * second_us)" by (simp add: grid_def)
  then show ?thesis by (auto simp: good_candle_def)
qed

lemma demo_candle_instant [simp]: "instant (demo_candle m x) = m * minute_us" "minute_of (demo_candle m x) = m"
  using minute_of_grid [of "demo_candle m x" m] by simp_all

theorem csv_writes_refine_map_witness:
  "\<exists>files. csv_patch (\<lambda>_. True) [demo_candle 5 1, demo_candle 7 2, demo_candle 5 3] [] = (files, Inr 3) \<and>
     store_map files ''EURUSD'' (5 * minute_us) = Some (demo_candle 5 3)"
  using csv_writes_refine_map [of "[]" "[demo_candle 5 1, demo_candle 7 2, demo_candle 5 3]" "''EURUSD''"
      "demo_candle 5 1" "\<lambda>_. True"]
  by (auto split: sum.splits)

text \<open>
  C17. Reading a range of a store of UTC candles gives exactly the stored candles of \<open>[start, stop)\<close>,
  in strictly increasing order, whatever months it spans. If all candles of the symbol are stamped
  at whole minutes, a range of whole minutes is complete, and passes the integrity check, exactly
  when every minute of it has a candle. The earliest timestamp is the smallest stored instant; the
  last timestamp is the largest of those in the twelve months up to the present one, and a
  symbol whose data are older than that looks empty.
\<close>

theorem csv_reads_correct:
  fixes files :: csv_files and a b :: int
  assumes "files_ok files" "a \<le> b" "b * minute_us \<le> month_start 119999 * day_us"
    and "\<forall>u. store_map files symb u \<noteq> None \<longrightarrow> u mod minute_us = 0"
  shows "(\<exists>r. csv_read_range files symb (grid a) (grid b) True = Inr r \<and>
      sorted_wrt (<) (map instant (r_candles r)) \<and>
      (\<forall>c. c \<in> set (r_candles r) \<longleftrightarrow> (\<exists>u. store_map files symb u = Some c \<and> a * minute_us \<le> u \<and> u < b * minute_us)) \<and>
      (r_is_complete r \<longleftrightarrow> (\<forall>m \<in> {a..<b}. store_map files symb (m * minute_us) \<noteq> None))) \<and>
    (csv_validate_integrity now files symb (Some (grid a)) (Some (grid b)) = Inr True \<longleftrightarrow>
      (\<forall>m \<in> {a..<b}. store_map files symb (m * minute_us) \<noteq> None)) \<and>
    (case csv_earliest_timestamp files symb of
       None \<Rightarrow> store_map files symb = Map.empty
     | Some t \<Rightarrow> \<exists>u. t = utc_dt u \<and> store_map files symb u \<noteq> None \<and> (\<forall>v. store_map files symb v \<noteq> None \<longrightarrow> u \<le> v)) \<and>
    (case csv_last_timestamp now files symb of
       None \<Rightarrow> \<forall>u. dt_month now - 12 < month_at u \<and> month_at u \<le> dt_month now \<longrightarrow> store_map files symb u = None
     | Some t \<Rightarrow> \<exists>u. t = utc_dt u \<and> store_map files symb u \<noteq> None \<and>
         (\<forall>v. store_map files symb v \<noteq> None \<and> month_at v \<le> dt_month now \<longrightarrow> v \<le> u))"
proof -
  obtain r ms where r: "csv_read_range files symb (grid a) (grid b) True = Inr r"
    "sorted_wrt (<) (map instant (r_candles r))"
    "\<forall>c. c \<in> set (r_candles r) \<longleftrightarrow> (\<exists>u. store_map files symb u = Some c \<and> a * minute_us \<le> u \<and> u < b * minute_us)"
    "map c_ts (r_candles r) = map grid ms" "sorted_wrt (<) ms"
    "\<forall>m. m \<in> set ms \<longleftrightarrow> a \<le> m \<and> m < b \<and> store_map files symb (m * minute_us) \<noteq> None"
    "r_is_complete r \<longleftrightarrow> set ms = {a..<b}"
    using csv.read_minutes [OF assms] by auto
  have comp: "r_is_complete r \<longleftrightarrow> (\<forall>m \<in> {a..<b}. store_map files symb (m * minute_us) \<noteq> None)"
    using r(6,7) by auto
  have "strictly_sorted (r_candles r)" using strictly_sorted_grid [OF r(4)] r(5) by simp
  moreover have "length (r_candles r) = unique_count (map c_ts (r_candles r))"
    using r(5) distinct_card [of ms] map_eq_imp_length_eq [OF r(4)]
    by (simp add: r(4) unique_count_grid strict_sorted_iff)
  ultimately have "csv_validate_integrity now files symb (Some (grid a)) (Some (grid b)) = Inr True \<longleftrightarrow> r_is_complete r"
    by (simp add: csv_validate_integrity_def r(1))
  then have integrity: "csv_validate_integrity now files symb (Some (grid a)) (Some (grid b)) = Inr True \<longleftrightarrow>
      (\<forall>m \<in> {a..<b}. store_map files symb (m * minute_us) \<noteq> None)"
    by (simp only: comp)
  have latest: "case csv_last_timestamp now files symb of
       None \<Rightarrow> \<forall>u. dt_month now - 12 < month_at u \<and> month_at u \<le> dt_month now \<longrightarrow> store_map files symb u = None
     | Some t \<Rightarrow> \<exists>u. t = utc_dt u \<and> store_map files symb u \<noteq> None \<and>
         (\<forall>v. store_map files symb v \<noteq> None \<and> month_at v \<le> dt_month now \<longrightarrow> v \<le> u)"
    using last_in_months_map [OF assms(1), where n = 12 and symb = symb and m = "dt_month now"]
    by (auto simp: csv_last_timestamp_def split: option.splits)
  show ?thesis
    by (intro conjI exI [of _ r] r(1,2,3) comp integrity latest csv_earliest_map assms(1))
qed

lemma early_horizon: "b \<le> 1000 \<Longrightarrow> b * minute_us \<le> month_start 119999 * day_us"
proof -
  assume "b \<le> 1000"
  then have "b * minute_us \<le> 1000 * minute_us" by simp
  also have "\<dots> \<le> month_start 119999 * day_us"
    by (simp add: month_start_def days_before_year_def days_before_month_def is_leap_def)
  finally show ?thesis .
qed

lemma store_map_empty [simp]: "store_map [] symb = Map.empty"
  by (simp add: fun_eq_iff store_map_def read_csv_file_def)

theorem csv_reads_correct_witness:
  "\<exists>files. csv_patch (\<lambda>_. True) [demo_candle 3 1, demo_candle 4 2] [] = (files, Inr 2) \<and>
     csv_validate_integrity (utc_dt 0) files ''EURUSD'' (Some (grid 3)) (Some (grid 5)) = Inr True \<and>
     csv_validate_integrity (utc_dt 0) files ''EURUSD'' (Some (grid 3)) (Some (grid 6)) \<noteq> Inr True"
proof -
  let ?cs = "[demo_candle 3 1, demo_candle 4 2]"
  obtain files where f: "csv_patch (\<lambda>_. True) ?cs [] = (files, Inr 2)" "files_ok files"
    "store_map files ''EURUSD'' = candle_map (rev ?cs)"
    using csv.patch_law [of "[]" ?cs "''EURUSD''"] by (auto simp: fun_eq_iff)
  have al: "\<forall>u. store_map files ''EURUSD'' u \<noteq> None \<longrightarrow> u mod minute_us = 0"
    by (simp add: f(3))
  have "\<forall>m \<in> {3..<5}. store_map files ''EURUSD'' (m * minute_us) \<noteq> None"
    by (auto simp: f(3))
  moreover have "\<not> (\<forall>m \<in> {3..<6}. store_map files ''EURUSD'' (m * minute_us) \<noteq> None)"
    by (intro notI) (drule bspec [where x = 5], simp_all add: f(3))
  ultimately show ?thesis
    using csv_reads_correct [OF f(2) _ early_horizon al, of 3 5 "utc_dt 0"]
      csv_reads_correct [OF f(2) _ early_horizon al, of 3 6 "utc_dt 0"] f(1) by simp
qed

section \<open>Time zones\<close>

text \<open>
  Files are chosen by the month on the clock of whatever zone a timestamp carries. A candle
  stamped in another zone where it is still (or already) another month than in UTC goes to that
  month's file: reading its minute with UTC timestamps finds nothing, and appending the same
  instant stamped in UTC succeeds, so the store holds it twice.
\<close>

theorem csv_store_splits_by_zone:
  fixes c :: candle and u :: int and z :: tzinfo
  assumes "tz_ok z" "c_ts c = fromtimestamp z u" "u = s * second_us" "candle_ok c" "c_closed c"
    and "dt_month (c_ts c) \<noteq> month_at u"
    and "month_at u < 119999" "u + minute_us \<le> month_start (month_at u + 1) * day_us"
  shows "\<exists>files files2 r. csv_append (\<lambda>_. True) c [] = (files, Inr True) \<and>
    csv_read_range files (c_symbol c) (utc_dt u) (utc_dt (u + minute_us)) True = Inr r \<and> r_candles r = [] \<and>
    csv_append (\<lambda>_. True) (c\<lparr>c_ts := utc_dt u\<rparr>) files = (files2, Inr True) \<and>
    csv_count_stored files2 (c_symbol c) = 2"
proof -
  let ?symb = "c_symbol c" and ?m = "month_at u"
  let ?files = "[((?symb, dt_month (c_ts c)), [to_csv_row c])]"
  let ?files2 = "[((?symb, dt_month (c_ts c)), [to_csv_row c]), ((?symb, ?m), [to_csv_row (c\<lparr>c_ts := utc_dt u\<rparr>)])]"
  have a1: "csv_append (\<lambda>_. True) c [] = (?files, Inr True)"
    using assms(5) by (simp add: csv_append_def csv_file_path_def read_csv_file_def write_csv_file_def sort_candles_def)
  have none: "read_csv_file ?files (?symb, ?m) ?symb = []" using assms(6) by (simp add: read_csv_file_def)
  have nl: "\<not> month_start (?m + 1) * day_us < u + minute_us" using assms(8) by simp
  have fl: "floor_month (utc_dt u) = utc_dt (month_start ?m * day_us)" by (rule floor_month_utc)
  have path: "csv_file_path ?symb (utc_dt (month_start ?m * day_us)) = (?symb, ?m)"
    by (simp add: csv_file_path_def month_at_def)
  have "month_start ?m * day_us < u + minute_us" using month_at_bounds(1) [of u] by simp
  then have "read_months ?files ?symb (utc_dt u) (utc_dt (u + minute_us)) (utc_dt (month_start ?m * day_us)) = Inr []"
    using next_month_utc [OF assms(7)] nl none
    by (subst read_months.simps) (simp add: path Let_def, subst read_months.simps, simp)
  then have r: "\<exists>r. csv_read_range ?files ?symb (utc_dt u) (utc_dt (u + minute_us)) True = Inr r \<and> r_candles r = []"
    by (simp add: csv_read_range_def fl Let_def validate_completeness_def)
  have a2: "csv_append (\<lambda>_. True) (c\<lparr>c_ts := utc_dt u\<rparr>) ?files = (?files2, Inr True)"
    using assms(5,6) none
    by (simp add: csv_append_def csv_file_path_def write_csv_file_def sort_candles_def)
  have "csv_count_stored ?files2 ?symb = 2" by (simp add: csv_count_stored_def to_csv_row_def)
  with a1 a2 r show ?thesis by blast
qed

definition summer_candle :: candle where
  "summer_candle = \<lparr>c_symbol = ''XAUUSD'', c_ts = fromtimestamp ny_2024 1722474000000000, c_open = 1, c_high = 1,
     c_low = 1, c_close = 1, c_volume = 0, c_closed = True\<rparr>"

theorem csv_store_splits_by_zone_witness:
  "\<exists>files r. csv_append (\<lambda>_. True) summer_candle [] = (files, Inr True) \<and>
     csv_read_range files ''XAUUSD'' (utc_dt 1722474000000000) (utc_dt 1722474060000000) True = Inr r \<and> r_candles r = []"
proof -
  have w: "dt_wall (c_ts summer_candle) = 1722459600000000"
    by (simp add: summer_candle_def fromtimestamp_def ny_2024_def switch_zone_def fall_2024_def)
  have m: "month_start 24294 = 19905" "month_start 24295 = 19936" "month_start 24296 = 19967"
    by (simp_all add: month_start_def days_before_year_def days_before_month_def is_leap_def eval_nat_numeral)
  have mu: "month_at 1722474000000000 = 24295"
    using month_of_day_le_iff [of 19936 24295] month_of_day_ge_iff [of 24295 19936] m by (simp add: month_at_def)
  have mc: "dt_month (c_ts summer_candle) = 24294"
    using month_of_day_le_iff [of 19935 24294] month_of_day_ge_iff [of 24294 19935] m by (simp add: dt_month_def dt_day_def w)
  have "\<exists>files files2 r. csv_append (\<lambda>_. True) summer_candle [] = (files, Inr True) \<and>
    csv_read_range files (c_symbol summer_candle) (utc_dt 1722474000000000) (utc_dt (1722474000000000 + minute_us)) True = Inr r \<and>
    r_candles r = [] \<and>
    csv_append (\<lambda>_. True) (summer_candle\<lparr>c_ts := utc_dt 1722474000000000\<rparr>) files = (files2, Inr True) \<and>
    csv_count_stored files2 (c_symbol summer_candle) = 2"
    by (rule csv_store_splits_by_zone [where z = ny_2024 and s = 1722474000])
      (simp_all add: mu mc m, simp_all add: ny_2024_def summer_candle_def candle_ok_def)
  then show ?thesis by (auto simp: summer_candle_def)
qed

end
