(* ===== verification/Backfill_Props.thy ===== *)
theory Backfill_Props
  imports Backfill CsvStore_Props
begin

text \<open>
  Properties of the backfill service, proved inside the candle store contract and instantiated
  at the CSV store.
\<close>

section \<open>What a fill adds\<close>

text \<open>The candles the provider returns for a list of gaps; a failing fetch returns none.\<close>

definition supplied :: "provider \<Rightarrow> string \<Rightarrow> (int \<times> int) list \<Rightarrow> candle list" where
  "supplied fetch symb gs = concat (map (\<lambda>(x, y).
     case fetch symb (grid x) (grid y) of Inl e \<Rightarrow> [] | Inr cs \<Rightarrow> cs) gs)"

text \<open>The provider stays inside the gap it is asked for.\<close>

definition honest :: "provider \<Rightarrow> string \<Rightarrow> bool" where
  "honest fetch symb \<longleftrightarrow> (\<forall>x y cs. fetch symb (grid x) (grid y) = Inr cs \<longrightarrow>
     (\<forall>c \<in> set cs. good_candle symb c \<and> instant c mod minute_us = 0 \<and> x \<le> minute_of c \<and> minute_of c < y))"

definition gap_free :: "provider \<Rightarrow> string \<Rightarrow> bool" where
  "gap_free fetch symb \<longleftrightarrow> (\<forall>x y. x < y \<longrightarrow>
     (\<exists>cs. fetch symb (grid x) (grid y) = Inr cs \<and> minute_of ` set cs = {x..<y}))"

text \<open>Every fetch inside \<open>[a, b)\<close> that covers the minute \<open>m\<close> brings it.\<close>

definition supplies :: "provider \<Rightarrow> string \<Rightarrow> int \<Rightarrow> int \<Rightarrow> int \<Rightarrow> bool" where
  "supplies fetch symb a b m \<longleftrightarrow> (\<forall>x y. a \<le> x \<and> x \<le> m \<and> m < y \<and> y \<le> b \<longrightarrow>
     (\<exists>cs. fetch symb (grid x) (grid y) = Inr cs \<and> m \<in> minute_of ` set cs))"

lemma gap_free_supplies: "gap_free fetch symb \<Longrightarrow> supplies fetch symb a b m"
  unfolding gap_free_def supplies_def by (metis atLeastLessThan_iff order.strict_trans1)

lemma supplied_Cons: "supplied fetch symb ((x, y) # gs) =
    (case fetch symb (grid x) (grid y) of Inl e \<Rightarrow> [] | Inr cs \<Rightarrow> cs) @ supplied fetch symb gs"
  by (simp add: supplied_def)

lemma supplied_honest:
  assumes "honest fetch symb" "c \<in> set (supplied fetch symb gs)"
  shows "good_candle symb c \<and> instant c mod minute_us = 0 \<and> (\<exists>(x, y) \<in> set gs. x \<le> minute_of c \<and> minute_of c < y)"
proof -
  obtain x y where xy: "(x, y) \<in> set gs" "c \<in> set (case fetch symb (grid x) (grid y) of Inl e \<Rightarrow> [] | Inr cs \<Rightarrow> cs)"
    using assms(2) by (auto simp: supplied_def)
  then obtain cs where "fetch symb (grid x) (grid y) = Inr cs" "c \<in> set cs"
    by (cases "fetch symb (grid x) (grid y)") auto
  with assms(1) xy(1) show ?thesis unfolding honest_def by blast
qed

lemma floor_minute_grid [simp]: "floor_minute (grid m) = grid m"
  by (simp add: grid_def)

context candle_store
begin

lemma fill_gaps_contents:
  assumes "wf s" "\<forall>c \<in> set (supplied fetch symb gs). good_candle symb c"
  shows "\<exists>s'. fold (fill_gap ops fetch (\<lambda>_ _ s. s) symb) (map grid_gap gs) (s, t) =
      (s', t + int (length (supplied fetch symb gs))) \<and> wf s' \<and>
    (\<forall>y u. contents s' y u =
      (if y = symb then (contents s symb ++ candle_map (rev (supplied fetch symb gs))) u else contents s y u))"
  using assms
proof (induction gs arbitrary: s t)
  case Nil
  then show ?case by (auto simp: supplied_def)
next
  case (Cons g gs)
  obtain x y where g: "g = (x, y)" by (cases g)
  let ?new = "case fetch symb (grid x) (grid y) of Inl e \<Rightarrow> [] | Inr cs \<Rightarrow> cs"
  have good: "\<forall>c \<in> set ?new. good_candle symb c" "\<forall>c \<in> set (supplied fetch symb gs). good_candle symb c"
    using Cons.prems(2) by (auto simp: g supplied_Cons)
  obtain s1 where s1: "fill_gap ops fetch (\<lambda>_ _ s. s) symb (grid_gap g) (s, t) = (s1, t + int (length ?new))" "wf s1"
    "\<forall>z u. contents s1 z u = (if z = symb then (contents s symb ++ candle_map (rev ?new)) u else contents s z u)"
  proof (cases "?new = []")
    case True
    then have "fill_gap ops fetch (\<lambda>_ _ s. s) symb (grid_gap g) (s, t) = (s, t + int (length ?new))"
      by (auto simp: g fill_gap_def grid_gap_def Let_def split: sum.splits)
    moreover have "\<forall>z u. contents s z u = (if z = symb then (contents s symb ++ candle_map (rev ?new)) u else contents s z u)"
      unfolding True by simp
    ultimately show ?thesis using that Cons.prems(1) by blast
  next
    case False
    from patch_law [OF Cons.prems(1) False good(1)] obtain s1 where
      "so_patch ops ?new s = (s1, Inr (int (length ?new)))" "wf s1"
      "\<forall>z u. contents s1 z u = (if z = symb then (contents s symb ++ candle_map (rev ?new)) u else contents s z u)"
      by blast
    with False that show ?thesis by (auto simp: g fill_gap_def grid_gap_def Let_def split: sum.splits)
  qed
  from Cons.IH [OF s1(2) good(2), of "t + int (length ?new)"] obtain s2 where
    "fold (fill_gap ops fetch (\<lambda>_ _ s. s) symb) (map grid_gap gs) (s1, t + int (length ?new)) =
      (s2, t + int (length ?new) + int (length (supplied fetch symb gs)))" "wf s2"
    "\<forall>z u. contents s2 z u =
      (if z = symb then (contents s1 symb ++ candle_map (rev (supplied fetch symb gs))) u else contents s1 z u)"
    by blast
  moreover have "contents s1 symb = contents s symb ++ candle_map (rev ?new)" using s1(3) by (simp add: fun_eq_iff)
  ultimately show ?case using s1(1,3) by (simp add: g supplied_Cons add.assoc del: candle_map_append) (simp add: map_add_assoc)
qed

lemma backfill_contents:
  assumes "wf (bw_store w)" "a < b" "b * minute_us \<le> horizon" "honest fetch symb"
    and "\<forall>u. contents (bw_store w) symb u \<noteq> None \<longrightarrow> u mod minute_us = 0"
  shows "\<exists>w' n. backfill_symbol ops fetch (\<lambda>_ _ s. s) cfg now symb (Some (grid a)) (Some (grid b)) w = (w', Inr n) \<and>
    wf (bw_store w') \<and>
    (\<forall>y u. contents (bw_store w) y u \<noteq> None \<or> y \<noteq> symb \<or> u < a * minute_us \<or> b * minute_us \<le> u \<longrightarrow>
       contents (bw_store w') y u = contents (bw_store w) y u) \<and>
    (\<forall>u. contents (bw_store w') symb u \<noteq> None \<longrightarrow> u mod minute_us = 0) \<and>
    (\<forall>m \<in> {a..<b}. supplies fetch symb a b m \<longrightarrow> contents (bw_store w') symb (m * minute_us) \<noteq> None)"
proof -
  obtain r ms where r: "so_read_range ops (bw_store w) symb (grid a) (grid b) = Inr r"
    "map c_ts (r_candles r) = map grid ms" "sorted_wrt (<) ms"
    "\<forall>m. m \<in> set ms \<longleftrightarrow> a \<le> m \<and> m < b \<and> contents (bw_store w) symb (m * minute_us) \<noteq> None"
    "r_is_complete r \<longleftrightarrow> set ms = {a..<b}"
    using read_minutes [OF assms(1) _ assms(3,5), of a] assms(2) by auto
  have range: "backfill_range ops cfg now (bw_store w) symb (Some (grid a)) (Some (grid b)) = Some (grid a, grid b)"
    by (simp add: backfill_range_def)
  show ?thesis
  proof (cases "r_is_complete r")
    case True
    then have "\<forall>m \<in> {a..<b}. contents (bw_store w) symb (m * minute_us) \<noteq> None" using r(4,5) by auto
    then show ?thesis using True r(1) range assms(1,5) by (auto simp: backfill_symbol_def)
  next
    case False
    let ?gs = "int_gaps a ms b"
    let ?sup = "supplied fetch symb ?gs"
    have mb: "\<forall>m \<in> set ms. a \<le> m \<and> m < b" "\<forall>m \<in> set ms. m < b" using r(4) by auto
    have gaps: "find_gaps (r_candles r) (grid a) (grid b) = map grid_gap ?gs"
      by (rule find_gaps_grid [OF r(2) mb(2) assms(2)])
    note sup = supplied_honest [OF assms(4)]
    have cover: "(\<exists>(x, y) \<in> set ?gs. x \<le> t \<and> t < y) \<longleftrightarrow> a \<le> t \<and> t < b \<and> t \<notin> set ms" for t
      by (rule int_gaps_cover [OF mb(1) r(3)])
    have supc: "a \<le> minute_of c \<and> minute_of c < b \<and> contents (bw_store w) symb (instant c) = None \<and>
        instant c = minute_of c * minute_us" if "c \<in> set ?sup" for c
    proof -
      have i: "instant c = minute_of c * minute_us"
        using sup [OF that] by (metis add.right_neutral div_mult_mod_eq minute_of_def)
      have "a \<le> minute_of c \<and> minute_of c < b \<and> minute_of c \<notin> set ms" using sup [OF that] cover by blast
      with r(4) i show ?thesis by simp
    qed
    obtain s' where s': "fill_gaps ops fetch (\<lambda>_ _ s. s) symb (map grid_gap ?gs) (bw_store w) = (s', int (length ?sup))"
      "wf s'" "\<forall>y u. contents s' y u =
        (if y = symb then (contents (bw_store w) symb ++ candle_map (rev ?sup)) u else contents (bw_store w) y u)"
      using fill_gaps_contents [OF assms(1), of fetch symb ?gs 0] sup by (auto simp: fill_gaps_def)
    have new: "contents s' symb u = (if \<exists>c \<in> set ?sup. instant c = u then candle_map (rev ?sup) u
        else contents (bw_store w) symb u)" for u
      using s'(3) candle_map_None_iff [of "rev ?sup" u] by (auto simp: map_add_def split: option.splits)
    have old: "contents s' y u = contents (bw_store w) y u"
      if "contents (bw_store w) y u \<noteq> None \<or> y \<noteq> symb \<or> u < a * minute_us \<or> b * minute_us \<le> u" for y u
    proof (cases "y = symb")
      case True
      then have "\<not> (\<exists>c \<in> set ?sup. instant c = u)" using that supc by fastforce
      then show ?thesis using new True by simp
    qed (use s'(3) in simp)
    have al: "\<forall>u. contents s' symb u \<noteq> None \<longrightarrow> u mod minute_us = 0"
      using new assms(5) sup by metis
    have full: "contents s' symb (m * minute_us) \<noteq> None" if gf: "supplies fetch symb a b m" and m: "m \<in> {a..<b}" for m
    proof (cases "m \<in> set ms")
      case True
      then show ?thesis using r(4) old by simp
    next
      case False
      then obtain x y where g: "(x, y) \<in> set ?gs" "x \<le> m" "m < y" using cover [of m] m by auto
      have "a \<le> x" "y - 1 < b"
        using cover [of x] cover [of "y - 1"] g by fastforce+
      then obtain cs where cs: "fetch symb (grid x) (grid y) = Inr cs" "m \<in> minute_of ` set cs"
        using gf g(2,3) unfolding supplies_def by (metis int_one_le_iff_zero_less zle_diff1_eq zless_imp_add1_zle diff_add_cancel)
      then obtain c where c: "c \<in> set cs" "minute_of c = m" by blast
      then have "c \<in> set ?sup" using g(1) cs(1) by (force simp: supplied_def)
      then have "m * minute_us \<in> instant ` set (rev ?sup)" using supc c(2) by force
      then show ?thesis using new candle_map_None_iff [of "rev ?sup" "m * minute_us"] by auto
    qed
    let ?m1 = "map_option (inc_gaps_detected symb (r_missing_count r)) (bw_metrics w)"
    let ?w' = "\<lparr>bw_store = s',
      bw_repair = (if int (length ?sup) > 0 then record_repair (astimezone utc now) symb (int (length ?sup)) else bw_repair w),
      bw_metrics = (if int (length ?sup) > 0 then map_option (inc_gaps_repaired symb (int (length ?sup))) ?m1 else ?m1)\<rparr>"
    have "backfill_symbol ops fetch (\<lambda>_ _ s. s) cfg now symb (Some (grid a)) (Some (grid b)) w = (?w', Inr (int (length ?sup)))"
      unfolding backfill_symbol_def range using False r(1) s'(1) by (simp add: gaps Let_def)
    then show ?thesis using s'(2) old al full by (intro exI [of _ ?w'] exI [of _ "int (length ?sup)"]) simp
  qed
qed

text \<open>A range in which every minute is stored is left alone.\<close>

lemma backfill_complete_noop:
  assumes "wf (bw_store w)" "a \<le> b" "b * minute_us \<le> horizon"
    and "\<forall>u. contents (bw_store w) symb u \<noteq> None \<longrightarrow> u mod minute_us = 0"
    and "\<forall>m \<in> {a..<b}. contents (bw_store w) symb (m * minute_us) \<noteq> None"
  shows "backfill_symbol ops fetch env cfg now symb (Some (grid a)) (Some (grid b)) w = (w, Inr 0)"
proof -
  obtain r ms where "so_read_range ops (bw_store w) symb (grid a) (grid b) = Inr r"
    "\<forall>m. m \<in> set ms \<longleftrightarrow> a \<le> m \<and> m < b \<and> contents (bw_store w) symb (m * minute_us) \<noteq> None"
    "r_is_complete r \<longleftrightarrow> set ms = {a..<b}"
    using read_minutes [OF assms(1-4)] by auto
  then show ?thesis using assms(5) by (auto simp: backfill_symbol_def backfill_range_def)
qed

end

text \<open>
  C18. Backfilling whole minutes \<open>[a, b)\<close> of a symbol of the CSV store, while nothing else writes
  and with a provider that stays inside the gaps it is asked for, never raises, never alters a
  candle that was stored, and touches nothing outside the range or of another symbol, whatever
  fetches fail. If the provider has every minute, every minute of the range is stored afterwards,
  and backfilling again does nothing and reports zero.
\<close>

theorem backfill_completes:
  fixes w :: "csv_files backfill_world" and a b :: int
  assumes "files_ok (bw_store w)" "a < b" "b * minute_us \<le> month_start 119999 * day_us" "honest fetch symb"
    and "\<forall>u. store_map (bw_store w) symb u \<noteq> None \<longrightarrow> u mod minute_us = 0"
  shows "\<exists>w' n. backfill_symbol (csv_ops now (\<lambda>_. True)) fetch (\<lambda>_ _ s. s) cfg now symb (Some (grid a)) (Some (grid b)) w
      = (w', Inr n) \<and> files_ok (bw_store w') \<and>
    (\<forall>y u. store_map (bw_store w) y u \<noteq> None \<or> y \<noteq> symb \<or> u < a * minute_us \<or> b * minute_us \<le> u \<longrightarrow>
       store_map (bw_store w') y u = store_map (bw_store w) y u) \<and>
    (gap_free fetch symb \<longrightarrow>
       (\<forall>m \<in> {a..<b}. store_map (bw_store w') symb (m * minute_us) \<noteq> None) \<and>
       backfill_symbol (csv_ops now (\<lambda>_. True)) fetch (\<lambda>_ _ s. s) cfg now symb (Some (grid a)) (Some (grid b)) w' = (w', Inr 0))"
proof -
  obtain w' n where w': "backfill_symbol (csv_ops now (\<lambda>_. True)) fetch (\<lambda>_ _ s. s) cfg now symb (Some (grid a)) (Some (grid b)) w
      = (w', Inr n)" "files_ok (bw_store w')"
    "\<forall>y u. store_map (bw_store w) y u \<noteq> None \<or> y \<noteq> symb \<or> u < a * minute_us \<or> b * minute_us \<le> u \<longrightarrow>
       store_map (bw_store w') y u = store_map (bw_store w) y u"
    "\<forall>u. store_map (bw_store w') symb u \<noteq> None \<longrightarrow> u mod minute_us = 0"
    "\<forall>m \<in> {a..<b}. supplies fetch symb a b m \<longrightarrow> store_map (bw_store w') symb (m * minute_us) \<noteq> None"
    using csv.backfill_contents [OF assms] by blast
  have "a \<le> b" using assms(2) by simp
  note noop = csv.backfill_complete_noop [OF w'(2) this assms(3) w'(4), where fetch = fetch and env = "\<lambda>_ _ s. s" and cfg = cfg]
  have "\<forall>m \<in> {a..<b}. store_map (bw_store w') symb (m * minute_us) \<noteq> None" if "gap_free fetch symb"
    using w'(5) gap_free_supplies [OF that] by blast
  with noop w'(1-3) show ?thesis by blast
qed

definition demo_provider :: provider where
  "demo_provider symb t1 t2 = Inr (map (\<lambda>m. demo_candle m 1) [dt_epoch t1 div minute_us..dt_epoch t2 div minute_us - 1])"

lemma dt_epoch_grid [simp]: "dt_epoch (grid m) = m * minute_us"
  by (simp add: grid_def)

lemma demo_provider_ok: "honest demo_provider ''EURUSD''" "gap_free demo_provider ''EURUSD''"
proof -
  show "honest demo_provider ''EURUSD''" by (auto simp: honest_def demo_provider_def)
  show "gap_free demo_provider ''EURUSD''"
    by (auto simp: gap_free_def demo_provider_def image_image) 
qed

theorem backfill_completes_witness:
  "\<exists>w' n. backfill_symbol (csv_ops (utc_dt 0) (\<lambda>_. True)) demo_provider (\<lambda>_ _ s. s)
      \<lparr>bc_symbols = [''EURUSD''], bc_corrective_window = 5, bc_interval = 600\<rparr> (utc_dt 0) ''EURUSD''
      (Some (grid 3)) (Some (grid 6)) \<lparr>bw_store = [], bw_repair = repair_stats_init, bw_metrics = None\<rparr> = (w', Inr n) \<and>
     store_map (bw_store w') ''EURUSD'' (4 * minute_us) \<noteq> None"
proof -
  let ?w = "\<lparr>bw_store = [] :: csv_files, bw_repair = repair_stats_init, bw_metrics = None\<rparr>"
  have "files_ok (bw_store ?w)" "(3::int) < 6" "6 * minute_us \<le> month_start 119999 * day_us"
    "\<forall>u. store_map (bw_store ?w) ''EURUSD'' u \<noteq> None \<longrightarrow> u mod minute_us = 0"
    using early_horizon [of 6] by simp_all
  from backfill_completes [OF this(1-3) demo_provider_ok(1) this(4), where now = "utc_dt 0" and
      cfg = "\<lparr>bc_symbols = [''EURUSD''], bc_corrective_window = 5, bc_interval = 600\<rparr>"]
  obtain w' n where "backfill_symbol (csv_ops (utc_dt 0) (\<lambda>_. True)) demo_provider (\<lambda>_ _ s. s)
      \<lparr>bc_symbols = [''EURUSD''], bc_corrective_window = 5, bc_interval = 600\<rparr> (utc_dt 0) ''EURUSD''
      (Some (grid 3)) (Some (grid 6)) ?w = (w', Inr n)"
    "gap_free demo_provider ''EURUSD'' \<longrightarrow> (\<forall>m \<in> {3..<6}. store_map (bw_store w') ''EURUSD'' (m * minute_us) \<noteq> None)"
    by blast
  moreover have "4 \<in> {3..<6::int}" by simp
  ultimately show ?thesis using demo_provider_ok(2) by blast
qed

section \<open>Starting without the provider\<close>

text \<open>
  Starting the service while the provider is unavailable marks it as running without running
  anything: no backfill and no periodic task. Every later start, also when the provider is back,
  then returns at once, so only a stop makes a start effective again.
\<close>

theorem backfill_start_unavailable:
  fixes svc :: backfill_service and w :: "'s backfill_world" and attempts :: "(bool \<times> datetime) list"
  assumes "\<not> bs_running svc"
  shows "\<exists>svc1. backfill_start ops fetch env cfg False now svc w = (svc1, w) \<and>
    bs_running svc1 \<and> bs_task svc1 = bs_task svc \<and>
    fold (\<lambda>(available, t) (v, x). backfill_start ops fetch env cfg available t v x) attempts (svc1, w) = (svc1, w) \<and>
    bs_task (fst (backfill_start ops fetch env cfg True now (backfill_stop svc1) w))"
proof -
  let ?svc1 = "svc\<lparr>bs_running := True\<rparr>"
  have "fold (\<lambda>(available, t) (v, x). backfill_start ops fetch env cfg available t v x) attempts (?svc1, w) = (?svc1, w)"
    by (induction attempts) (auto simp: backfill_start_def)
  then show ?thesis
    using assms by (intro exI [of _ ?svc1]) (simp add: backfill_start_def backfill_stop_def Let_def)
qed

definition demo_config :: backfill_config where
  "demo_config = \<lparr>bc_symbols = [''EURUSD''], bc_corrective_window = 5, bc_interval = 600\<rparr>"

definition demo_world :: "csv_files backfill_world" where
  "demo_world = \<lparr>bw_store = [], bw_repair = repair_stats_init, bw_metrics = None\<rparr>"

theorem backfill_start_unavailable_witness:
  "\<exists>svc1. backfill_start (csv_ops (utc_dt 0) (\<lambda>_. True)) demo_provider (\<lambda>_ _ s. s) demo_config False (utc_dt 0)
       backfill_service_init demo_world = (svc1, demo_world) \<and> bs_running svc1 \<and> \<not> bs_task svc1 \<and>
     backfill_start (csv_ops (utc_dt 0) (\<lambda>_. True)) demo_provider (\<lambda>_ _ s. s) demo_config True (utc_dt 0) svc1 demo_world
       = (svc1, demo_world)"
  using backfill_start_unavailable [of backfill_service_init "csv_ops (utc_dt 0) (\<lambda>_. True)" demo_provider "\<lambda>_ _ s. s"
      demo_config "utc_dt 0" demo_world "[(True, utc_dt 0)]"]
  by (auto simp: backfill_service_init_def)

end
