(* ===== verification/LiveMarketData.thy ===== *)
theory LiveMarketData
  imports StoreContract CandleBuilder_Props DataMetrics
begin

text \<open>
  The live market data service, \<open>application/services/live_marketdata_service.py\<close>: price ticks
  update the latest price, are broadcast with throttling, and feed one candle builder per symbol
  whose finished candles are appended to the candle store and broadcast.

  The store is any \<^typ>\<open>'s store_ops\<close>. The hub is the list of messages handed to it, or absent.
  The feed's tick time in milliseconds is exact in microseconds (\<open>ms / 1000.0\<close> rounds by less
  than half a microsecond for the dates of this century).
\<close>

section \<open>State\<close>

datatype live_message =
    TickerMsg (tm_symbol: string) (tm_price: pfloat) (tm_ms: int)
  | CandleMsg string candle

record 's live_service =
  lv_builders :: "(string, builder) dict"
  lv_latest :: "(string, pfloat) dict"
  lv_last_broadcast :: "(string, int) dict"
  lv_running :: bool
  lv_hub :: "live_message list option"
  lv_store :: 's
  lv_metrics :: "layer_metrics option"

record live_config =
  lc_symbols :: "string list"
  lc_tz :: tzinfo
  lc_throttle_ms :: int

definition live_init :: "live_config \<Rightarrow> bool \<Rightarrow> layer_metrics option \<Rightarrow> 's \<Rightarrow> 's live_service" where
  "live_init cfg with_hub metrics store =
     \<lparr>lv_builders = dict_of (map (\<lambda>s. (s, builder_init s (lc_tz cfg))) (lc_symbols cfg)), lv_latest = [],
      lv_last_broadcast = dict_of (map (\<lambda>s. (s, 0)) (lc_symbols cfg)), lv_running = False,
      lv_hub = (if with_hub then Some [] else None), lv_store = store, lv_metrics = metrics\<rparr>"

section \<open>Operations\<close>

definition broadcast_ticker :: "live_config \<Rightarrow> string \<Rightarrow> pfloat \<Rightarrow> int \<Rightarrow> 's live_service \<Rightarrow> 's live_service" where
  "broadcast_ticker cfg symbol price ms s =
     (case lv_hub s of
        None \<Rightarrow> s
      | Some msgs \<Rightarrow>
          (let last_ms = (case d_get (lv_last_broadcast s) symbol of None \<Rightarrow> 0 | Some t \<Rightarrow> t) in
           if ms - last_ms < lc_throttle_ms cfg then s
           else s\<lparr>lv_last_broadcast := d_set symbol ms (lv_last_broadcast s),
                  lv_hub := Some (msgs @ [TickerMsg symbol price ms])\<rparr>))"

definition broadcast_candle :: "string \<Rightarrow> candle \<Rightarrow> 's live_service \<Rightarrow> 's live_service" where
  "broadcast_candle symbol c s = s\<lparr>lv_hub := map_option (\<lambda>msgs. msgs @ [CandleMsg symbol c]) (lv_hub s)\<rparr>"

definition handle_completed_candle :: "'s store_ops \<Rightarrow> string \<Rightarrow> candle \<Rightarrow> 's live_service \<Rightarrow> 's live_service" where
  "handle_completed_candle ops symbol c s =
     broadcast_candle symbol c
       (case so_append ops c (lv_store s) of
          (store, Inr True) \<Rightarrow> s\<lparr>lv_store := store,
             lv_metrics := map_option (inc_candles_written symbol 1 (Some (timestamp_int (c_ts c)))) (lv_metrics s)\<rparr>
        | (store, Inr False) \<Rightarrow> s\<lparr>lv_store := store\<rparr>
        | (store, Inl e) \<Rightarrow> s\<lparr>lv_store := store\<rparr>)"

definition MOCK_TICK_VOLUME :: pfloat where "MOCK_TICK_VOLUME = 1"

definition tick_of :: "live_config \<Rightarrow> string \<times> pfloat \<times> int \<Rightarrow> tick" where
  "tick_of cfg m = (case m of (symbol, price, ms) \<Rightarrow>
     \<lparr>t_symbol = symbol, t_price = price, t_ts = fromtimestamp (lc_tz cfg) (ms * 1000),
      t_volume = Some MOCK_TICK_VOLUME\<rparr>)"

definition process_tick ::
    "'s store_ops \<Rightarrow> live_config \<Rightarrow> string \<times> pfloat \<times> int \<Rightarrow> 's live_service \<Rightarrow> 's live_service \<times> unit result" where
  "process_tick ops cfg m s =
     (case m of (symbol, price, ms) \<Rightarrow>
       (let s1 = s\<lparr>lv_latest := d_set symbol price (lv_latest s)\<rparr>;
            s2 = broadcast_ticker cfg symbol price ms s1
        in case d_get (lv_builders s2) symbol of
             None \<Rightarrow> (s2, Inr ())
           | Some b \<Rightarrow>
               (case on_tick (tick_of cfg m) b of
                  (b', Inl e) \<Rightarrow> (s2\<lparr>lv_builders := d_set symbol b' (lv_builders s2)\<rparr>, Inl e)
                | (b', Inr None) \<Rightarrow> (s2\<lparr>lv_builders := d_set symbol b' (lv_builders s2)\<rparr>, Inr ())
                | (b', Inr (Some c)) \<Rightarrow>
                    (handle_completed_candle ops symbol c (s2\<lparr>lv_builders := d_set symbol b' (lv_builders s2)\<rparr>), Inr ()))))"

text \<open>
  The loop, over the ticks the feed delivers while the service runs: an exception is logged, and
  after a pause the loop goes on. The second component counts the exceptions.
\<close>

fun process_ticks_loop ::
    "'s store_ops \<Rightarrow> live_config \<Rightarrow> (string \<times> pfloat \<times> int) list \<Rightarrow> 's live_service \<Rightarrow> nat \<Rightarrow> 's live_service \<times> nat" where
  "process_ticks_loop ops cfg [] s errors = (s, errors)"
| "process_ticks_loop ops cfg (m # ms) s errors =
     (if \<not> lv_running s then (s, errors)
      else (case process_tick ops cfg m s of
              (s', Inl e) \<Rightarrow> process_ticks_loop ops cfg ms s' (errors + 1)
            | (s', Inr u) \<Rightarrow> process_ticks_loop ops cfg ms s' errors))"

definition live_start :: "'s live_service \<Rightarrow> 's live_service" where
  "live_start s = (if lv_running s then s else s\<lparr>lv_running := True\<rparr>)"

definition live_stop :: "'s live_service \<Rightarrow> 's live_service" where
  "live_stop s = (if \<not> lv_running s then s else s\<lparr>lv_running := False\<rparr>)"

definition get_latest_price :: "'s live_service \<Rightarrow> string \<Rightarrow> pfloat option" where
  "get_latest_price s symbol = d_get (lv_latest s) symbol"

definition get_all_latest_prices :: "'s live_service \<Rightarrow> (string, pfloat) dict" where
  "get_all_latest_prices s = lv_latest s"

definition live_health_check :: "'s live_service \<Rightarrow> bool" where
  "live_health_check s = lv_running s"

section \<open>Tickers\<close>

text \<open>The times at which a symbol's ticker was broadcast.\<close>

definition ticker_times :: "string \<Rightarrow> live_message list \<Rightarrow> int list" where
  "ticker_times symbol msgs = concat (map (\<lambda>m. case m of
     TickerMsg s p t \<Rightarrow> if s = symbol then [t] else [] | CandleMsg s c \<Rightarrow> []) msgs)"

definition tickers_spaced :: "live_config \<Rightarrow> 's live_service \<Rightarrow> bool" where
  [inv_defs]: "tickers_spaced cfg s \<longleftrightarrow> (\<forall>msgs symbol. lv_hub s = Some msgs \<longrightarrow>
     adjacent (\<lambda>x y. x + lc_throttle_ms cfg \<le> y) (ticker_times symbol msgs) \<and>
     (ticker_times symbol msgs \<noteq> [] \<longrightarrow> d_get (lv_last_broadcast s) symbol = Some (last (ticker_times symbol msgs))))"

lemma ticker_times_append [simp]:
  "ticker_times symbol (msgs @ [TickerMsg s p t]) = ticker_times symbol msgs @ (if s = symbol then [t] else [])"
  "ticker_times symbol (msgs @ [CandleMsg s c]) = ticker_times symbol msgs"
  by (simp_all add: ticker_times_def)

lemma broadcast_ticker_spaced: "tickers_spaced cfg s \<Longrightarrow> tickers_spaced cfg (broadcast_ticker cfg symbol price ms s)"
proof (cases "lv_hub s")
  case (Some msgs)
  assume a: "tickers_spaced cfg s"
  show ?thesis
  proof (cases "ms - (case d_get (lv_last_broadcast s) symbol of None \<Rightarrow> 0 | Some t \<Rightarrow> t) < lc_throttle_ms cfg")
    case True
    with a Some show ?thesis by (simp add: broadcast_ticker_def)
  next
    case False
    let ?t = "ticker_times symbol msgs"
    have "?t \<noteq> [] \<Longrightarrow> last ?t + lc_throttle_ms cfg \<le> ms"
      using a Some False by (auto simp: inv_defs)
    moreover have "adjacent (\<lambda>x y. x + lc_throttle_ms cfg \<le> y) ?t" using a Some by (simp add: inv_defs)
    ultimately have "adjacent (\<lambda>x y. x + lc_throttle_ms cfg \<le> y) (?t @ [ms])" by (simp add: adjacent_append)
    with a Some False show ?thesis by (auto simp: broadcast_ticker_def inv_defs Let_def)
  qed
qed (simp add: broadcast_ticker_def)

lemma handle_candle_spaced [simp]:
  "tickers_spaced cfg (handle_completed_candle ops symbol c s) = tickers_spaced cfg s"
proof -
  have "tickers_spaced cfg (broadcast_candle symbol c s) = tickers_spaced cfg s" for s :: "'s live_service"
    by (cases "lv_hub s") (simp_all add: broadcast_candle_def inv_defs)
  moreover have "tickers_spaced cfg (s\<lparr>lv_store := st, lv_metrics := m\<rparr>) = tickers_spaced cfg s"
    "tickers_spaced cfg (s\<lparr>lv_store := st\<rparr>) = tickers_spaced cfg s" for st m
    by (simp_all add: inv_defs)
  ultimately show ?thesis
    by (auto simp: handle_completed_candle_def split: prod.splits sum.splits bool.splits)
qed

lemma process_tick_spaced: "tickers_spaced cfg s \<Longrightarrow> tickers_spaced cfg (fst (process_tick ops cfg m s))"
proof -
  assume a: "tickers_spaced cfg s"
  obtain symbol price ms where m: "m = (symbol, price, ms)" by (cases m)
  let ?s2 = "broadcast_ticker cfg symbol price ms (s\<lparr>lv_latest := d_set symbol price (lv_latest s)\<rparr>)"
  have "tickers_spaced cfg ?s2" using a by (intro broadcast_ticker_spaced) (simp add: inv_defs)
  moreover have "tickers_spaced cfg (?s2\<lparr>lv_builders := bs\<rparr>) = tickers_spaced cfg ?s2" for bs by (simp add: inv_defs)
  ultimately show ?thesis
    by (auto simp: process_tick_def m Let_def split: option.splits prod.splits sum.splits)
qed

end
