(* ===== verification/CsvStore_Zones.thy ===== *)
theory CsvStore_Zones
  imports CsvStore_Ops
begin

text \<open>
  The candle store under candles stamped in any zone. A row holds the seconds of its candle, which are
  read back in UTC, so a file is a map from instants to candles in UTC; the file of a candle is that
  of its month on the clock of its own zone. Stated file by file, appending then is an insertion that
  keeps what is there, whatever the zone.
\<close>

section \<open>Zones\<close>

text \<open>What is documented of a zone: conversion inverts the offset, offsets are whole seconds, and the name UTC is its own.\<close>

definition zone_sound :: "tzinfo \<Rightarrow> bool" where
  "zone_sound z \<longleftrightarrow> tz_ok z \<and> (\<forall>w f. tz_utcoff z w f mod second_us = 0) \<and> (tz_name z = ''UTC'' \<longrightarrow> z = utc)"

lemma zone_sound_utc [simp]: "zone_sound utc"
  by (simp add: zone_sound_def) (simp add: utc_def)

definition zoned :: "tzinfo \<Rightarrow> candle \<Rightarrow> bool" where
  "zoned z c \<longleftrightarrow> candle_ok c \<and> c_closed c \<and> dt_tz (c_ts c) = Some z \<and> dt_wall (c_ts c) mod minute_us = 0"

text \<open>The candle as it is read back.\<close>

definition to_utc :: "candle \<Rightarrow> candle" where
  "to_utc c = c\<lparr>c_ts := utc_dt (instant c)\<rparr>"

lemma to_utc_simps [simp]: "instant (to_utc c) = instant c" "c_symbol (to_utc c) = c_symbol c" "c_closed (to_utc c) = c_closed c"
    "c_ts (to_utc c) = utc_dt (instant c)" "candle_ok (to_utc c) = candle_ok c"
  by (simp_all add: to_utc_def instant_def candle_ok_def)

lemma to_utc_row [simp]: "to_csv_row (to_utc c) = to_csv_row c"
  by (simp add: to_csv_row_def to_utc_def timestamp_int_def instant_def)

lemma to_utc_good: "good_candle symb c \<Longrightarrow> to_utc c = c"
  unfolding to_utc_def by (drule good_candle_ts) (cases c, simp)

lemma zoned_good:
  assumes "zone_sound z" "zoned z c"
  shows "good_candle (c_symbol c) (to_utc c)"
proof -
  let ?w = "dt_wall (c_ts c)" and ?f = "dt_fold (c_ts c)"
  have "second_us dvd ?w"
  proof (rule dvd_trans)
    show "minute_us dvd ?w" using assms(2) by (auto simp: zoned_def)
  qed simp
  moreover have "second_us dvd tz_utcoff z ?w ?f" using assms(1) by (auto simp: zone_sound_def)
  ultimately have "second_us dvd instant c"
    using assms(2) by (simp add: instant_def dt_epoch_def zoned_def)
  then obtain s where "instant c = s * second_us" by (auto elim: dvdE simp: mult.commute)
  then show ?thesis using assms(2) by (auto simp: good_candle_def zoned_def)
qed

text \<open>Comparing a candle in the zone with one in UTC, and with itself.\<close>

lemma zoned_sub:
  assumes "zone_sound z" "zoned z c" "c_ts d = utc_dt (instant d)"
  shows "dt_sub (c_ts d) (c_ts c) = instant d - instant c" "dt_sub (c_ts c) (c_ts d) = instant c - instant d"
proof -
  have "dt_sub (c_ts d) (c_ts c) = instant d - instant c \<and> dt_sub (c_ts c) (c_ts d) = instant c - instant d"
  proof (cases "tz_name z = ''UTC''")
    case True
    then have "z = utc" using assms(1) by (simp add: zone_sound_def)
    then have "instant c = dt_wall (c_ts c)" using assms(2) by (simp add: instant_def dt_epoch_def zoned_def) (simp add: utc_def)
    then show ?thesis using assms(2,3) \<open>z = utc\<close> by (simp add: dt_sub_def same_tz_def zoned_def)
  next
    case False
    then have "\<not> same_tz (c_ts d) (c_ts c)" "\<not> same_tz (c_ts c) (c_ts d)"
      using assms(2,3) by (simp_all add: same_tz_def zoned_def) (simp_all add: utc_def)
    then show ?thesis by (simp add: dt_sub_def instant_def)
  qed
  then show "dt_sub (c_ts d) (c_ts c) = instant d - instant c" "dt_sub (c_ts c) (c_ts d) = instant c - instant d" by blast+
qed

lemma insert_candle_instant:
  "\<forall>e \<in> set cs. dt_less (c_ts e) (c_ts d) \<longleftrightarrow> instant e < instant d \<Longrightarrow> insert_candle d cs = insort_key instant d cs"
  by (induction cs) auto

lemma sort_candles_instant:
  "\<forall>d \<in> set cs. \<forall>e \<in> set cs. dt_less (c_ts e) (c_ts d) \<longleftrightarrow> instant e < instant d \<Longrightarrow> sort_candles cs = sort_key instant cs"
proof (induction cs)
  case (Cons c cs)
  then have "sort_candles cs = sort_key instant cs" by simp
  then show ?case using Cons.prems by (simp add: sort_candles_def insert_candle_instant)
qed (simp add: sort_candles_def)

lemma sort_key_map_to_utc: "map to_utc (sort_key instant cs) = sort_key instant (map to_utc cs)"
proof -
  have "map to_utc (insort_key instant c ds) = insort_key instant (to_utc c) (map to_utc ds)" for c ds
    by (induction ds) simp_all
  then show ?thesis by (induction cs) simp_all
qed

text \<open>A stable sort keeps which candle comes first at an instant.\<close>

lemma candle_map_find: "candle_map cs u = (case filter (\<lambda>c. instant c = u) cs of [] \<Rightarrow> None | c # ds \<Rightarrow> Some c)"
  by (induction cs) auto

lemma candle_map_sort: "candle_map (sort_key instant cs) = candle_map cs"
proof -
  have "sort_key instant (filter (\<lambda>c. instant c = u) cs) = filter (\<lambda>c. instant c = u) cs" for u
    by (rule sort_key_id_if_sorted) (induction cs, auto)
  then show ?thesis by (simp add: candle_map_find filter_sort fun_eq_iff)
qed

section \<open>Files\<close>

definition rows_ok :: "csv_files \<Rightarrow> bool" where
  [inv_defs]: "rows_ok files \<longleftrightarrow> dict_wf files \<and> (\<forall>(k, ls) \<in> set files. \<exists>cs. ls = map to_csv_row cs \<and>
     sorted (map instant cs) \<and> (\<forall>c \<in> set cs. good_candle (fst k) c))"

definition file_map :: "csv_files \<Rightarrow> string \<Rightarrow> int \<Rightarrow> int \<Rightarrow> candle option" where
  "file_map files symb m = candle_map (read_csv_file files (symb, m) symb)"

lemma rows_ok_Nil [simp]: "rows_ok []"
  by (simp add: inv_defs)

lemma files_ok_rows: "files_ok files \<Longrightarrow> rows_ok files"
  by (fastforce simp: inv_defs file_ok_def strict_sorted_iff)

lemma store_map_file: "store_map files symb u = file_map files symb (month_at u) u"
  by (simp add: store_map_def file_map_def)

lemma read_sorted_rows: "sorted (map instant cs) \<Longrightarrow> \<forall>c \<in> set cs. good_candle symb c \<Longrightarrow>
    sort_candles (parse_lines symb (map to_csv_row cs)) = cs"
  by (simp add: parse_lines_rows sort_candles_utc good_utc_stamped sort_key_id_if_sorted)

lemma read_written: "sorted (map instant cs) \<Longrightarrow> \<forall>c \<in> set cs. good_candle symb c \<Longrightarrow>
    read_csv_file (d_set (symb, m) (map to_csv_row cs) files) (symb, m) symb = cs"
  by (simp add: read_csv_file_def read_sorted_rows)

lemma rows_ok_read:
  assumes "rows_ok files"
  shows "sorted (map instant (read_csv_file files (symb, m) symb))"
    "c \<in> set (read_csv_file files (symb, m) symb) \<Longrightarrow> good_candle symb c"
proof -
  have "sorted (map instant (read_csv_file files (symb, m) symb)) \<and> (\<forall>c \<in> set (read_csv_file files (symb, m) symb). good_candle symb c)"
  proof (cases "d_get files (symb, m)")
    case (Some ls)
    then obtain cs where "ls = map to_csv_row cs" "sorted (map instant cs)" "\<forall>c \<in> set cs. good_candle symb c"
      using assms d_get_in [OF Some] by (fastforce simp: inv_defs)
    with Some show ?thesis by (simp add: read_csv_file_def read_sorted_rows)
  qed (simp add: read_csv_file_def)
  then show "sorted (map instant (read_csv_file files (symb, m) symb))"
    "c \<in> set (read_csv_file files (symb, m) symb) \<Longrightarrow> good_candle symb c" by blast+
qed

text \<open>
  In the hour a clock change repeats no stored time equals that of the candle, and the minute is
  appended again, after the row that is there.
\<close>

lemma append_zoned:
  assumes "rows_ok files" "zone_sound z" "zoned z c"
  defines "files' \<equiv> fst (csv_append (\<lambda>_. True) c files)"
  shows "rows_ok files'"
    "file_map files' y n u = (if y = c_symbol c \<and> n = dt_month (c_ts c) \<and> u = instant c \<and> file_map files y n u = None
       then Some (to_utc c) else file_map files y n u)"
proof -
  let ?s = "c_symbol c" and ?m = "dt_month (c_ts c)"
  let ?cs = "read_csv_file files (?s, ?m) ?s"
  have cs: "sorted (map instant ?cs)" "d \<in> set ?cs \<Longrightarrow> good_candle ?s d" for d
    using rows_ok_read [OF assms(1)] by blast+
  have stamped: "c_ts d = utc_dt (instant d)" if "d \<in> set ?cs" for d using cs(2) [OF that] by (rule good_candle_ts)
  have present: "file_map files ?s ?m (instant c) \<noteq> None" if some: "list_ex (\<lambda>d. dt_eq (c_ts d) (c_ts c)) ?cs"
  proof -
    obtain d where "d \<in> set ?cs" "dt_eq (c_ts d) (c_ts c)" using some by (auto simp: list_ex_iff)
    then have "instant d = instant c" using zoned_sub(1) [OF assms(2,3) stamped] by (simp add: dt_eq_def)
    with \<open>d \<in> set ?cs\<close> show ?thesis unfolding file_map_def candle_map_None_iff by (metis imageI)
  qed
  have closed: "c_closed c" using assms(3) by (simp add: zoned_def)
  have "rows_ok files' \<and> file_map files' y n u =
      (if y = ?s \<and> n = ?m \<and> u = instant c \<and> file_map files y n u = None then Some (to_utc c) else file_map files y n u)" for y n u
  proof (cases "list_ex (\<lambda>d. dt_eq (c_ts d) (c_ts c)) ?cs")
    case True
    then have "files' = files" using closed by (simp add: files'_def csv_append_def csv_file_path_def Let_def)
    then show ?thesis using assms(1) present [OF True] by auto
  next
    case False
    let ?new = "sort_key instant (?cs @ [to_utc c])"
    have pair: "dt_less (c_ts e) (c_ts d) \<longleftrightarrow> instant e < instant d" if mem: "d \<in> set (?cs @ [c])" "e \<in> set (?cs @ [c])" for d e
    proof -
      consider "d \<in> set ?cs" "e \<in> set ?cs" | "d \<in> set ?cs" "e = c" | "d = c" "e \<in> set ?cs" | "d = c" "e = c" using mem by auto
      then show ?thesis
      proof cases
        case 1
        then show ?thesis using stamped [of d] stamped [of e] by (metis dt_utc_simps(2))
      next
        case 2
        then show ?thesis using zoned_sub(2) [OF assms(2,3) stamped] by (simp add: dt_less_def)
      next
        case 3
        then show ?thesis using zoned_sub(1) [OF assms(2,3) stamped] by (simp add: dt_less_def)
      qed (simp add: dt_less_def dt_sub_def)
    qed
    have "map to_csv_row (sort_candles (?cs @ [c])) = map to_csv_row (map to_utc (sort_key instant (?cs @ [c])))"
      using sort_candles_instant [of "?cs @ [c]"] pair by (simp add: comp_def)
    also have "map to_utc (sort_key instant (?cs @ [c])) = sort_key instant (map to_utc (?cs @ [c]))"
      by (rule sort_key_map_to_utc)
    also have "map to_utc (?cs @ [c]) = ?cs @ [to_utc c]" using cs(2) to_utc_good by (auto intro!: map_idI)
    finally have rows: "files' = d_set (?s, ?m) (map to_csv_row ?new) files"
      using False closed by (simp add: files'_def csv_append_def csv_file_path_def write_csv_file_def Let_def)
    have good: "\<forall>d \<in> set ?new. good_candle ?s d" using cs(2) zoned_good [OF assms(2,3)] by auto
    have sorted: "sorted (map instant ?new)" by simp
    have month: "\<exists>ds. map to_csv_row ?new = map to_csv_row ds \<and> sorted (map instant ds) \<and> (\<forall>d \<in> set ds. good_candle ?s d)"
      using good sorted by blast
    have "\<forall>(k, ls) \<in> set (d_set (?s, ?m) (map to_csv_row ?new) files). \<exists>ds. ls = map to_csv_row ds \<and>
        sorted (map instant ds) \<and> (\<forall>d \<in> set ds. good_candle (fst k) d)"
      using assms(1) month by (intro d_set_all) (auto simp: inv_defs)
    then have "rows_ok files'" unfolding rows using assms(1) by (simp add: inv_defs)
    moreover have "read_csv_file files' (?s, ?m) ?s = ?new" unfolding rows by (rule read_written [OF sorted good])
    moreover have "read_csv_file files' (y, n) y = read_csv_file files (y, n) y" if "(y, n) \<noteq> (?s, ?m)"
      using that unfolding rows by (auto simp: read_csv_file_def)
    ultimately show ?thesis
      by (cases "(y, n) = (?s, ?m)") (auto simp: file_map_def candle_map_sort map_add_def split: option.splits)
  qed
  then show "rows_ok files'"
    "file_map files' y n u = (if y = c_symbol c \<and> n = dt_month (c_ts c) \<and> u = instant c \<and> file_map files y n u = None
       then Some (to_utc c) else file_map files y n u)" by blast+
qed

text \<open>Appending candles one after the other.\<close>

lemma append_all_zoned:
  assumes "rows_ok files" "zone_sound z" "\<forall>c \<in> set cs. zoned z c"
  defines "files' \<equiv> fold (\<lambda>c st. fst (csv_append (\<lambda>_. True) c st)) cs files"
  shows "rows_ok files' \<and> file_map files' y n u = (case file_map files y n u of Some d \<Rightarrow> Some d
    | None \<Rightarrow> candle_map (map to_utc (filter (\<lambda>c. c_symbol c = y \<and> dt_month (c_ts c) = n) cs)) u)"
  using assms(3) unfolding files'_def
proof (induction cs rule: rev_induct)
  case Nil
  then show ?case using assms(1) by (simp split: option.split)
next
  case (snoc c cs)
  then show ?case
    using append_zoned [OF conjunct1 [OF snoc.IH] assms(2), of c]
    by (auto simp: map_add_def split: option.splits)
qed

text \<open>
  In the repeated hour the check for duplicates fails: the candle of a minute is appended to the file a
  second time.
\<close>

theorem append_repeats_in_fold:
  assumes "zone_sound z" "zoned z c" "fold_matters (c_ts c)"
  shows "\<exists>files files2. csv_append (\<lambda>_. True) c [] = (files, Inr True) \<and>
    csv_append (\<lambda>_. True) c files = (files2, Inr True) \<and> csv_count_stored files2 (c_symbol c) = 2"
proof -
  let ?k = "(c_symbol c, dt_month (c_ts c))" and ?s = "c_symbol c"
  have closed: "c_closed c" using assms(2) by (simp add: zoned_def)
  have "z \<noteq> utc"
  proof
    assume "z = utc"
    then show False using assms(2,3) by (simp add: zoned_def fold_matters_def) (simp add: utc_def)
  qed
  then have "\<not> same_tz (utc_dt (instant c)) (c_ts c)"
    using assms(1,2) by (auto simp: zone_sound_def same_tz_def zoned_def) (auto simp: utc_def)
  then have neq: "\<not> dt_eq (utc_dt (instant c)) (c_ts c)" using assms(3) by (simp add: dt_eq_def)
  let ?f = "[(?k, [to_csv_row c])]"
  have one: "csv_append (\<lambda>_. True) c [] = (?f, Inr True)"
    using closed by (simp add: csv_append_def csv_file_path_def read_csv_file_def write_csv_file_def sort_candles_def)
  have good: "\<forall>d \<in> set [to_utc c]. good_candle ?s d" using zoned_good [OF assms(1,2)] by simp
  have read: "read_csv_file ?f ?k ?s = [to_utc c]"
    using read_written [of "[to_utc c]" ?s "dt_month (c_ts c)" "[]"] good by simp
  have "length (sort_candles [to_utc c, c]) = 2" by (simp add: sort_candles_def)
  moreover have "csv_append (\<lambda>_. True) c ?f = ([(?k, map to_csv_row (sort_candles [to_utc c, c]))], Inr True)"
    using closed neq read by (simp add: csv_append_def csv_file_path_def write_csv_file_def Let_def)
  moreover have "csv_count_stored [(?k, map to_csv_row ds)] ?s = int (length ds)" for ds
    by (simp add: csv_count_stored_def to_csv_row_def filter_map comp_def)
  ultimately show ?thesis using one by auto
qed

end
