(* ===== verification/LiveMarketData_Props.thy ===== *)
theory LiveMarketData_Props
  imports LiveMarketData CsvStore_Props CsvStore_Zones
begin






lemma minute_boundary_utc: "minute_boundary utc (utc_dt u) = utc_dt (u div minute_us * 60 * second_us)"
proof -
  have "u - u mod minute_us = u div minute_us * 60 * second_us" by (simp add: minus_mod_eq_div_mult)
  then show ?thesis by (simp add: minute_boundary_def astimezone_def)
qed





text \<open>What a store holds after candles are appended, and what the builders hold after the ticks \<open>ms\<close>.\<close>

definition merged :: "(int \<Rightarrow> candle option) \<Rightarrow> candle list \<Rightarrow> int \<Rightarrow> candle option" where
  "merged old cs u = (case old u of Some c \<Rightarrow> Some c | None \<Rightarrow> candle_map cs u)"

lemma merged_snoc: "merged old (cs @ [c]) =
    (if merged old cs (instant c) = None then (merged old cs)(instant c \<mapsto> c) else merged old cs)"
  by (auto simp: merged_def fun_eq_iff map_add_def split: option.splits)


lemma broadcast_ticker_fields [simp]:
  "lv_builders (broadcast_ticker cfg symb p t s) = lv_builders s" "lv_store (broadcast_ticker cfg symb p t s) = lv_store s"
  "lv_running (broadcast_ticker cfg symb p t s) = lv_running s" "lv_latest (broadcast_ticker cfg symb p t s) = lv_latest s"
  by (simp_all add: broadcast_ticker_def Let_def split: option.splits)

lemma handle_candle_fields [simp]:
  "lv_builders (handle_completed_candle ops symb c s) = lv_builders s"
  "lv_running (handle_completed_candle ops symb c s) = lv_running s"
  "lv_latest (handle_completed_candle ops symb c s) = lv_latest s"
  "lv_store (handle_completed_candle ops symb c s) = fst (so_append ops c (lv_store s))"
  by (auto simp: handle_completed_candle_def broadcast_candle_def split: prod.splits sum.splits bool.splits)






section \<open>A run\<close>


text \<open>Candles in UTC, appended one after the other to any store.\<close>

context candle_store
begin

lemma append_all:
  assumes "wf s" "\<forall>c \<in> set cs. good_candle (c_symbol c) c"
  shows "wf (fold (\<lambda>c st. fst (so_append ops c st)) cs s) \<and>
    (\<forall>y. contents (fold (\<lambda>c st. fst (so_append ops c st)) cs s) y = merged (contents s y) (filter (\<lambda>c. c_symbol c = y) cs))"
  using assms(2)
proof (induction cs rule: rev_induct)
  case Nil
  then show ?case using assms(1) by (simp add: merged_def fun_eq_iff split: option.split)
next
  case (snoc c cs)
  let ?s1 = "fold (\<lambda>c st. fst (so_append ops c st)) cs s"
  have s1: "wf ?s1" "contents ?s1 y = merged (contents s y) (filter (\<lambda>c. c_symbol c = y) cs)" for y
    using snoc by simp_all
  have g: "good_candle (c_symbol c) c" using snoc.prems by simp
  show ?case
  proof (cases "contents ?s1 (c_symbol c) (instant c)")
    case None
    then obtain s' where "so_append ops c ?s1 = (s', Inr True)" "wf s'"
      "\<forall>y u. contents s' y u = (if y = c_symbol c \<and> u = instant c then Some c else contents ?s1 y u)"
      using append_law [OF s1(1) g] by blast
    then show ?thesis using None s1(2) by (auto simp: merged_snoc fun_eq_iff)
  next
    case (Some d)
    then have "so_append ops c ?s1 = (?s1, Inr False)" using append_law [OF s1(1) g] by simp
    then show ?thesis using s1 Some by (auto simp: merged_snoc)
  qed
qed

end




end
