(* ===== verification/Stitching.thy ===== *)
theory Stitching
  imports StoreContract Config
begin

text \<open>
  The read paths that combine candles of several sources: routing and stitching around the cutover
  (\<open>application/services/candle_stitching_service.py\<close>), filling gaps in a response
  (\<open>application/services/read_through_service.py\<close>) and paging over history and recent candles
  (\<open>application/data/mixed_ohlcv_stitcher.py\<close>). Providers are function arguments.
\<close>

section \<open>Routing by the cutover\<close>

datatype source_type = Primary | Fallback | Mixed | Deny

definition resolve_source :: "int \<Rightarrow> int \<Rightarrow> int option \<Rightarrow> string \<Rightarrow> source_type" where
  "resolve_source since_ts to_ts cutover compat_status =
     (case cutover of
        None \<Rightarrow> Fallback
      | Some cutover_ts \<Rightarrow>
          if to_ts \<le> cutover_ts then Fallback
          else if since_ts \<ge> cutover_ts then Primary
          else if compat_status = ''PASS'' then Mixed else Deny)"

abbreviation epoch_s :: "candle \<Rightarrow> int" where
  "epoch_s c \<equiv> timestamp_int (c_ts c)"

definition stitch_candles :: "candle list \<Rightarrow> candle list \<Rightarrow> int \<Rightarrow> candle list" where
  "stitch_candles primary fallback cutover_ts =
     sorted_values (dict_of (
       map (\<lambda>c. (epoch_s c, c)) (filter (\<lambda>c. epoch_s c < cutover_ts) fallback) @
       map (\<lambda>c. (epoch_s c, c)) (filter (\<lambda>c. epoch_s c \<ge> cutover_ts) primary)))"

definition candles_to_candle_range :: "candle list \<Rightarrow> string \<Rightarrow> datetime \<Rightarrow> datetime \<Rightarrow> candle_range" where
  "candles_to_candle_range cs symbol start stop =
     (let report = validate cs start stop symbol in
      \<lparr>r_symbol = symbol, r_start = start, r_end = stop, r_candles = cs,
       r_is_complete = (vr_missing report = 0), r_missing_count = vr_missing report\<rparr>)"

text \<open>
  The store is the CSV store; \<open>tz\<close> is the canonical zone, \<open>fallback\<close> the provider when one is
  wired. The result names the source, and the cutover when it is mixed.
\<close>

definition get_candles_with_source ::
    "tzinfo \<Rightarrow> csv_files \<Rightarrow> (string \<Rightarrow> datetime \<Rightarrow> datetime \<Rightarrow> candle list result) option \<Rightarrow> (string \<Rightarrow> string) \<Rightarrow>
     string \<Rightarrow> int \<Rightarrow> int \<Rightarrow> int \<Rightarrow> (candle_range \<times> source_type \<times> int option) result" where
  "get_candles_with_source tz files fallback compat_of symbol since_ts to_ts limit =
     (let start = fromtimestamp tz (since_ts * second_us);
          stop = fromtimestamp tz (to_ts * second_us);
          cutover = map_option timestamp_int (csv_earliest_timestamp files symbol)
      in case resolve_source since_ts to_ts cutover (compat_of symbol) of
           Deny \<Rightarrow> Inl (ValueError ''MIXED_SOURCE_NOT_ALLOWED'')
         | Primary \<Rightarrow> sbind (csv_read_range files symbol start stop True) (\<lambda>r. Inr (r, Primary, None))
         | Fallback \<Rightarrow>
             (case fallback of
                None \<Rightarrow> Inl (RuntimeError ''FALLBACK_NOT_AVAILABLE'')
              | Some fetch \<Rightarrow> sbind (fetch symbol start stop) (\<lambda>cs.
                  Inr (candles_to_candle_range cs symbol start stop, Fallback, None)))
         | Mixed \<Rightarrow>
             (case fallback of
                None \<Rightarrow> Inl (RuntimeError ''FALLBACK_NOT_AVAILABLE'')
              | Some fetch \<Rightarrow>
                  (let cutover_ts = the cutover; cut = fromtimestamp tz (cutover_ts * second_us) in
                   sbind (fetch symbol start cut) (\<lambda>fallback_candles.
                   sbind (csv_read_range files symbol cut stop True) (\<lambda>primary_rng.
                     let merged = stitch_candles (r_candles primary_rng) fallback_candles cutover_ts;
                         page = (if limit \<noteq> 0 \<and> int (length merged) > limit
                                 then (if limit > 0 then drop (length merged - nat limit) merged
                                       else drop (nat (- limit)) merged)
                                 else merged)
                     in Inr (candles_to_candle_range page symbol start stop, Mixed, cutover))))))"

section \<open>Read-through\<close>

datatype repair_status = NoRepair | ReadThrough | ReadThroughFailed

record read_through_stats =
  rt_requested :: int
  rt_filled :: int
  rt_failed_reason :: "string option"
  rt_status :: repair_status

text \<open>What awaiting the provider with a timeout gives.\<close>

datatype fetch_outcome = Fetched "candle list" | FetchTimeout | FetchError string

definition merge_candles_by_ts :: "candle list \<Rightarrow> candle list \<Rightarrow> candle list" where
  "merge_candles_by_ts primary filled =
     sorted_values (fold (\<lambda>c d. if d_has d (epoch_s c) then d else d_set (epoch_s c) c d) filled
       (dict_of (map (\<lambda>c. (epoch_s c, c)) primary)))"

fun filter_valid :: "int \<Rightarrow> int \<Rightarrow> candle list \<Rightarrow> int list \<Rightarrow> candle list" where
  "filter_valid start_ts end_ts [] seen = []"
| "filter_valid start_ts end_ts (c # cs) seen =
     (let ts = epoch_s c in
      if ts mod 60 \<noteq> 0 \<or> ts < start_ts \<or> ts \<ge> end_ts \<or> ts \<in> set seen
      then filter_valid start_ts end_ts cs seen
      else c # filter_valid start_ts end_ts cs (ts # seen))"

definition filter_valid_candles :: "candle list \<Rightarrow> int \<Rightarrow> int \<Rightarrow> candle list" where
  "filter_valid_candles cs start_ts end_ts =
     sort_key (\<lambda>c. dt_epoch (c_ts c)) (filter_valid start_ts end_ts cs [])"

definition with_utc :: "datetime \<Rightarrow> datetime" where
  "with_utc d = (case dt_tz d of None \<Rightarrow> d\<lparr>dt_tz := Some utc\<rparr> | Some z \<Rightarrow> d)"

definition relabel :: "string \<Rightarrow> candle \<Rightarrow> candle result" where
  "relabel symbol c = (if c_symbol c \<noteq> symbol then candle_post_init (c\<lparr>c_symbol := symbol\<rparr>) else Inr c)"

fun relabel_all :: "string \<Rightarrow> candle list \<Rightarrow> candle list result" where
  "relabel_all symbol [] = Inr []"
| "relabel_all symbol (c # cs) =
     sbind (relabel symbol c) (\<lambda>c'. sbind (relabel_all symbol cs) (\<lambda>cs'. Inr (c' # cs')))"

text \<open>The gaps in turn; the first failure ends it with its reason.\<close>

fun fetch_gaps :: "(string \<Rightarrow> datetime \<Rightarrow> datetime \<Rightarrow> fetch_outcome) \<Rightarrow> string \<Rightarrow> gap list \<Rightarrow> candle list \<Rightarrow> string + candle list" where
  "fetch_gaps fetch symbol [] acc = Inr acc"
| "fetch_gaps fetch symbol (g # gs) acc =
     (let start = with_utc (gap_start g); stop = with_utc (gap_end g) in
      case fetch symbol start stop of
        FetchTimeout \<Rightarrow> Inl ''timeout''
      | FetchError e \<Rightarrow> Inl (take 100 e)
      | Fetched cs \<Rightarrow>
          (case relabel_all symbol (filter_valid_candles cs (timestamp_int start) (timestamp_int stop)) of
             Inl e \<Rightarrow> Inl (take 100 (case e of ValueError m \<Rightarrow> m | _ \<Rightarrow> []))
           | Inr cs' \<Rightarrow> fetch_gaps fetch symbol gs (acc @ cs')))"

definition maybe_fill_gaps ::
    "(string \<Rightarrow> datetime \<Rightarrow> datetime \<Rightarrow> fetch_outcome) option \<Rightarrow> bool \<Rightarrow> int \<Rightarrow> string \<Rightarrow> candle_range \<Rightarrow>
     candle_range \<times> read_through_stats" where
  "maybe_fill_gaps provider enabled max_missing symbol r =
     (let stats = \<lparr>rt_requested = 0, rt_filled = 0, rt_failed_reason = None, rt_status = NoRepair\<rparr> in
      if \<not> enabled then (r, stats)
      else
        (let report = validate (r_candles r) (r_start r) (r_end r) symbol; missing = vr_missing report in
         if missing = 0 \<or> missing > max_missing then (r, stats)
         else
           (let requested = stats\<lparr>rt_requested := missing\<rparr>;
                failed = (\<lambda>reason. (r, requested\<lparr>rt_failed_reason := Some reason, rt_status := ReadThroughFailed\<rparr>))
            in case provider of
                 None \<Rightarrow> failed ''no_provider''
               | Some fetch \<Rightarrow>
                   (case fetch_gaps fetch symbol (vr_gaps report) [] of
                      Inl reason \<Rightarrow> failed reason
                    | Inr filled \<Rightarrow>
                        (let n = int (length filled) in
                         (\<lparr>r_symbol = symbol, r_start = r_start r, r_end = r_end r,
                           r_candles = merge_candles_by_ts (r_candles r) filled,
                           r_is_complete = (missing - n = 0), r_missing_count = max 0 (missing - n)\<rparr>,
                          requested\<lparr>rt_filled := n, rt_status := (if n > 0 then ReadThrough else NoRepair)\<rparr>))))))"

section \<open>Paging over history and recent candles\<close>

text \<open>A row \<open>[ts, open, high, low, close, volume]\<close>.\<close>

type_synonym ohlcv_row = "int \<times> pfloat \<times> pfloat \<times> pfloat \<times> pfloat \<times> pfloat"

definition is_mixed_allowed :: "environ \<Rightarrow> bool" where
  "is_mixed_allowed env \<longleftrightarrow>
     py_strip (getenv env ''HISTORICAL_MIXED_ALLOWED'' ''1'') \<notin> {''0'', ''false'', ''False'', ''no''}"

definition candle_obj_to_row :: "candle \<Rightarrow> ohlcv_row" where
  "candle_obj_to_row c = (epoch_s c, c_open c, c_high c, c_low c, c_close c, c_volume c)"

text \<open>A limit of zero is taken for no limit; any exception gives no rows. 946684800 is 2000-01-01.\<close>

definition read_realtime_candles :: "datetime \<Rightarrow> csv_files \<Rightarrow> string \<Rightarrow> int option \<Rightarrow> int option \<Rightarrow> ohlcv_row list" where
  "read_realtime_candles now_utc files symbol from_ts to_ts =
     (let start = (case from_ts of None \<Rightarrow> utc_dt (946684800 * second_us)
                   | Some t \<Rightarrow> if t = 0 then utc_dt (946684800 * second_us) else fromtimestamp utc (t * second_us));
          stop = (case to_ts of None \<Rightarrow> now_utc | Some t \<Rightarrow> if t = 0 then now_utc else fromtimestamp utc (t * second_us))
      in case csv_read_range files symbol start stop False of
           Inl e \<Rightarrow> []
         | Inr r \<Rightarrow> map candle_obj_to_row (r_candles r))"

datatype data_source = Dukascopy | OstiumLocal | MixedSource

record mixed_page =
  mp_candles :: "ohlcv_row list"
  mp_next_ts :: "int option"
  mp_sources :: "data_source list"
  mp_source :: data_source

text \<open>\<open>xs[:n]\<close>\<close>

definition py_take :: "int \<Rightarrow> 'a list \<Rightarrow> 'a list" where
  "py_take n xs = (if 0 \<le> n then take (nat n) xs else take (length xs - nat (- n)) xs)"

text \<open>\<open>rows[-1][0]\<close>\<close>

definition last_ts :: "ohlcv_row list \<Rightarrow> int result" where
  "last_ts rows = (if rows = [] then Inl (OtherError ''IndexError'') else Inr (fst (last rows)))"

definition parquet_only :: "ohlcv_row list \<Rightarrow> int \<Rightarrow> data_source list \<Rightarrow> mixed_page result" where
  "parquet_only parquet limit sources =
     sbind (if int (length parquet) = limit then sbind (last_ts parquet) (\<lambda>t. Inr (Some t)) else Inr None)
       (\<lambda>next_ts. Inr \<lparr>mp_candles = parquet, mp_next_ts = next_ts, mp_sources = sources, mp_source = Dukascopy\<rparr>)"

definition merge_rows :: "ohlcv_row list \<Rightarrow> ohlcv_row list \<Rightarrow> int option \<Rightarrow> int option \<Rightarrow> ohlcv_row list" where
  "merge_rows parquet rt from_ts to_ts =
     (let merged = dict_of (map (\<lambda>r. (fst r, r)) parquet @ map (\<lambda>r. (fst r, r)) rt);
          m1 = (case from_ts of None \<Rightarrow> merged | Some t \<Rightarrow> filter (\<lambda>(k, v). k \<ge> t) merged);
          m2 = (case to_ts of None \<Rightarrow> m1 | Some t \<Rightarrow> filter (\<lambda>(k, v). k < t) m1)
      in sorted_values m2)"

definition stitch_ohlcv_mixed ::
    "environ \<Rightarrow> datetime \<Rightarrow> csv_files \<Rightarrow> ohlcv_row list \<Rightarrow> string \<Rightarrow> int option \<Rightarrow> int option \<Rightarrow> int \<Rightarrow> int option \<Rightarrow>
     mixed_page result" where
  "stitch_ohlcv_mixed env now_utc files parquet symbol from_ts to_ts limit cursor =
     (if \<not> is_mixed_allowed env then parquet_only parquet limit [Dukascopy]
      else
        (let rt0 = read_realtime_candles now_utc files symbol from_ts to_ts in
         if rt0 = [] then parquet_only parquet limit (if parquet \<noteq> [] then [Dukascopy] else [])
         else
           (let rt = (case cursor of None \<Rightarrow> rt0 | Some t \<Rightarrow> filter (\<lambda>r. fst r > t) rt0);
                all_rows = merge_rows parquet rt from_ts to_ts;
                page = py_take limit all_rows;
                has_parquet = (\<exists>r \<in> set page. fst r \<in> fst ` set parquet);
                has_rt = (\<exists>r \<in> set page. fst r \<in> fst ` set rt)
            in sbind (if int (length page) = limit \<and> int (length all_rows) > limit
                      then sbind (last_ts page) (\<lambda>t. Inr (Some t)) else Inr None)
                 (\<lambda>next_ts. Inr \<lparr>mp_candles = page, mp_next_ts = next_ts,
                    mp_sources = (if has_parquet \<and> has_rt then [Dukascopy, OstiumLocal]
                                  else if has_rt then [OstiumLocal] else [Dukascopy]),
                    mp_source = (if has_parquet \<and> has_rt then MixedSource
                                 else if has_rt then OstiumLocal else Dukascopy)\<rparr>))))"

fun max_gap_s :: "int list \<Rightarrow> int" where
  "max_gap_s (a # b # ts) = max (b - a - 60) (max_gap_s (b # ts))"
| "max_gap_s ts = 0"

definition xdata_headers_mixed :: "ohlcv_row list \<Rightarrow> data_source \<Rightarrow> int option \<Rightarrow> int option \<Rightarrow> (string \<times> string) list" where
  "xdata_headers_mixed rows source from_ts to_ts =
     (let name = (case source of Dukascopy \<Rightarrow> ''dukascopy'' | OstiumLocal \<Rightarrow> ''ostium_local'' | MixedSource \<Rightarrow> ''mixed'') in
      if rows = [] then
        [(''X-Data-Source'', name),
         (''X-Data-Coverage-From'', show_int (case from_ts of None \<Rightarrow> 0 | Some t \<Rightarrow> t)),
         (''X-Data-Coverage-To'', show_int (case to_ts of None \<Rightarrow> 0 | Some t \<Rightarrow> t)),
         (''X-Data-Missing-Minutes'', ''0''), (''X-Data-Max-Gap-S'', ''0'')]
      else
        (let ts = map fst rows; coverage_from = hd ts; coverage_to = last ts + 60;
             expected = max 0 ((coverage_to - coverage_from) div 60);
             missing = max 0 (expected - int (length ts))
         in [(''X-Data-Source'', name), (''X-Data-Coverage-From'', show_int coverage_from),
             (''X-Data-Coverage-To'', show_int coverage_to), (''X-Data-Missing-Minutes'', show_int missing),
             (''X-Data-Max-Gap-S'', show_int (max_gap_s ts))]))"

end
