(* ===== verification/Stitching_Props.thy ===== *)
theory Stitching_Props
  imports Stitching CsvStore_Props
begin

text \<open>Properties of stitching, read-through and paging.\<close>

section \<open>Dictionaries keyed by their values\<close>

text \<open>
  The last item of a list for each key, which is what a dictionary built from the list keeps, and
  the values of such a dictionary in the order of its keys.
\<close>

definition by_key :: "('a \<Rightarrow> int) \<Rightarrow> 'a list \<Rightarrow> int \<Rightarrow> 'a option" where
  "by_key f cs = map_of (rev (map (\<lambda>c. (f c, c)) cs))"

abbreviation by_second :: "candle list \<Rightarrow> int \<Rightarrow> candle option" where
  "by_second \<equiv> by_key epoch_s"

lemma by_key_SomeD: "by_key f cs t = Some c \<Longrightarrow> c \<in> set cs \<and> f c = t"
  by (auto simp: by_key_def dest!: map_of_SomeD)

lemma by_key_append: "by_key f (cs @ ds) t = (case by_key f ds t of Some c \<Rightarrow> Some c | None \<Rightarrow> by_key f cs t)"
  by (simp add: by_key_def map_add_def split: option.split)

lemma by_key_filter: "by_key f (filter (\<lambda>c. P (f c)) cs) t = (if P t then by_key f cs t else None)"
  by (induction cs rule: rev_induct) (auto simp: by_key_def)

lemma by_key_sorted:
  assumes "sorted_wrt (<) (map f cs)"
  shows "by_key f cs t = Some c \<longleftrightarrow> c \<in> set cs \<and> f c = t"
proof -
  have "distinct (map fst (rev (map (\<lambda>c. (f c, c)) cs)))"
    using assms by (simp add: strict_sorted_iff comp_def flip: rev_map)
  then show ?thesis unfolding by_key_def by (subst map_of_eq_Some_iff) auto
qed

lemma by_key_None: "by_key f cs t = None \<longleftrightarrow> t \<notin> f ` set cs"
  by (auto simp: by_key_def map_of_eq_None_iff image_image)

definition keyed :: "('a \<Rightarrow> int) \<Rightarrow> (int, 'a) dict \<Rightarrow> bool" where
  "keyed f d \<longleftrightarrow> dict_wf d \<and> (\<forall>k c. d_get d k = Some c \<longrightarrow> f c = k)"

lemma keyed_dict_of [simp]: "keyed f (dict_of (map (\<lambda>c. (f c, c)) cs))"
  by (auto simp: keyed_def d_get_dict_of dest!: map_of_SomeD)

lemma keyed_set [simp]: "keyed f d \<Longrightarrow> keyed f (d_set (f c) c d)"
  by (simp add: keyed_def)

lemma keyed_filter: "keyed f d \<Longrightarrow> keyed f (filter (\<lambda>(k, v). P k) d)"
  by (auto simp: keyed_def d_get_filter split: if_splits) (auto simp: dict_wf_def intro: distinct_map_filter)

lemma sorted_values_keyed:
  assumes "keyed f d"
  shows "sorted_wrt (<) (map f (sorted_values d))" "by_key f (sorted_values d) = d_get d"
proof -
  have d: "dict_wf d" "\<And>k c. (k, c) \<in> set d \<Longrightarrow> f c = k"
    using assms d_in_iff_get [of d] unfolding keyed_def by blast+
  show s: "sorted_wrt (<) (map f (sorted_values d))"
    by (rule sorted_values_strict [OF d(1)]) (rule d(2))
  have "by_key f (sorted_values d) t = Some c \<longleftrightarrow> d_get d t = Some c" for t c
  proof -
    have "by_key f (sorted_values d) t = Some c \<longleftrightarrow> c \<in> set (sorted_values d) \<and> f c = t"
      by (rule by_key_sorted [OF s])
    also have "\<dots> \<longleftrightarrow> (t, c) \<in> set d" using d(2) by (force simp: set_sorted_values)
    also have "\<dots> \<longleftrightarrow> d_get d t = Some c" by (rule d_in_iff_get [OF d(1)])
    finally show ?thesis .
  qed
  then show "by_key f (sorted_values d) = d_get d" by (metis ext not_Some_eq)
qed

section \<open>Stitching around the cutover\<close>

lemma stitch_candles_spec:
  "sorted_wrt (<) (map epoch_s (stitch_candles primary fallback cutoff)) \<and>
   by_second (stitch_candles primary fallback cutoff) t =
     (if t < cutoff then by_second fallback t else by_second primary t)"
proof -
  let ?cs = "filter (\<lambda>c. epoch_s c < cutoff) fallback @ filter (\<lambda>c. epoch_s c \<ge> cutoff) primary"
  have st: "stitch_candles primary fallback cutoff = sorted_values (dict_of (map (\<lambda>c. (epoch_s c, c)) ?cs))"
    by (simp add: stitch_candles_def)
  note s = sorted_values_keyed [OF keyed_dict_of, of epoch_s ?cs, folded st]
  have "by_second (stitch_candles primary fallback cutoff) t = by_second ?cs t"
    using s(2) by (simp add: d_get_dict_of by_key_def)
  also have "\<dots> = (if t < cutoff then by_second fallback t else by_second primary t)"
    by (simp add: by_key_append by_key_filter [where P = "\<lambda>t. t < cutoff"]
        by_key_filter [where P = "\<lambda>t. cutoff \<le> t"] split: option.split)
  finally show ?thesis using s(1) by blast
qed

text \<open>
  The source of a range is decided by the oldest stored candle (the cutover): a range that
  crosses it is refused unless the symbol's compatibility check passed, and only then is the
  answer mixed. A mixed answer is a strictly increasing list, at most \<open>limit\<close> long when the limit
  is positive, that takes every second before the cutover from the fallback and every other from
  the store; it is the newest part of the full stitched list.
\<close>

theorem get_candles_with_source_correct:
  fixes files :: csv_files and fetch :: "string \<Rightarrow> datetime \<Rightarrow> datetime \<Rightarrow> candle list result"
  assumes "map_option timestamp_int (csv_earliest_timestamp files symbol) = Some cutoff" "since_ts < cutoff" "cutoff < to_ts"
    and "fetch symbol (fromtimestamp tz (since_ts * second_us)) (fromtimestamp tz (cutoff * second_us)) = Inr older"
    and "csv_read_range files symbol (fromtimestamp tz (cutoff * second_us)) (fromtimestamp tz (to_ts * second_us)) True = Inr newer"
  shows "(compat_of symbol \<noteq> ''PASS'' \<longrightarrow>
      get_candles_with_source tz files (Some fetch) compat_of symbol since_ts to_ts limit = Inl (ValueError ''MIXED_SOURCE_NOT_ALLOWED'')) \<and>
    (compat_of symbol = ''PASS'' \<longrightarrow>
      (\<exists>r whole. get_candles_with_source tz files (Some fetch) compat_of symbol since_ts to_ts limit = Inr (r, Mixed, Some cutoff) \<and>
        sorted_wrt (<) (map epoch_s whole) \<and>
        (\<forall>t. by_second whole t = (if t < cutoff then by_second older t else by_second (r_candles newer) t)) \<and>
        (\<exists>skipped. whole = skipped @ r_candles r) \<and>
        (limit > 0 \<longrightarrow> length (r_candles r) = min (length whole) (nat limit))))"
proof -
  obtain z where z: "csv_earliest_timestamp files symbol = Some z" "timestamp_int z = cutoff" using assms(1) by auto
  show ?thesis
  proof (intro conjI impI)
  show "get_candles_with_source tz files (Some fetch) compat_of symbol since_ts to_ts limit = Inl (ValueError ''MIXED_SOURCE_NOT_ALLOWED'')"
    if "compat_of symbol \<noteq> ''PASS''"
    using assms(2,3) z that by (simp add: get_candles_with_source_def Let_def resolve_source_def)
next
  assume p: "compat_of symbol = ''PASS''"
  let ?whole = "stitch_candles (r_candles newer) older cutoff"
  let ?n = "if limit \<noteq> 0 \<and> int (length ?whole) > limit
      then (if limit > 0 then length ?whole - nat limit else nat (- limit)) else 0"
  let ?r = "candles_to_candle_range (drop ?n ?whole) symbol
      (fromtimestamp tz (since_ts * second_us)) (fromtimestamp tz (to_ts * second_us))"
  have g: "get_candles_with_source tz files (Some fetch) compat_of symbol since_ts to_ts limit = Inr (?r, Mixed, Some cutoff)"
    using assms(2-) z p by (simp add: get_candles_with_source_def Let_def resolve_source_def)
  have rc: "r_candles ?r = drop ?n ?whole" by (simp add: candles_to_candle_range_def Let_def)
  have "?whole = take ?n ?whole @ r_candles ?r" unfolding rc by (simp only: append_take_drop_id)
  moreover have "limit > 0 \<longrightarrow> length (r_candles ?r) = min (length ?whole) (nat limit)"
    unfolding rc length_drop by auto
  ultimately show "\<exists>r whole. get_candles_with_source tz files (Some fetch) compat_of symbol since_ts to_ts limit = Inr (r, Mixed, Some cutoff) \<and>
        sorted_wrt (<) (map epoch_s whole) \<and>
        (\<forall>t. by_second whole t = (if t < cutoff then by_second older t else by_second (r_candles newer) t)) \<and>
        (\<exists>skipped. whole = skipped @ r_candles r) \<and>
        (limit > 0 \<longrightarrow> length (r_candles r) = min (length whole) (nat limit))"
    using g stitch_candles_spec [of "r_candles newer" older cutoff] by blast
  qed
qed

theorem get_candles_with_source_correct_witness:
  "\<exists>files. csv_patch (\<lambda>_. True) [demo_candle 3 1, demo_candle 4 2] [] = (files, Inr 2) \<and>
     get_candles_with_source utc files (Some (\<lambda>_ _ _. Inr [demo_candle 1 1, demo_candle 2 1])) (\<lambda>_. ''FAIL'')
       ''EURUSD'' 60 300 0 = Inl (ValueError ''MIXED_SOURCE_NOT_ALLOWED'') \<and>
     (\<exists>r. get_candles_with_source utc files (Some (\<lambda>_ _ _. Inr [demo_candle 1 1, demo_candle 2 1])) (\<lambda>_. ''PASS'')
       ''EURUSD'' 60 300 3 = Inr (r, Mixed, Some 180) \<and> length (r_candles r) \<le> 3)"
proof -
  let ?cs = "[demo_candle 3 1, demo_candle 4 2]" and ?fetch = "\<lambda>_ _ _. Inr [demo_candle 1 1, demo_candle 2 1]"
  obtain files where f: "csv_patch (\<lambda>_. True) ?cs [] = (files, Inr 2)" "files_ok files"
    "store_map files ''EURUSD'' = candle_map (rev ?cs)"
    using csv.patch_law [of "[]" ?cs "''EURUSD''"] by (auto simp: fun_eq_iff)
  have "csv_earliest_timestamp files ''EURUSD'' = Some (utc_dt (180 * second_us))"
    using csv_earliest_map [OF f(2), of "''EURUSD''"] by (force simp: f(3) split: option.splits if_splits)
  then have e: "map_option timestamp_int (csv_earliest_timestamp files ''EURUSD'') = Some 180" by simp
  have "5 * minute_us \<le> month_start 119999 * day_us" using early_horizon [of 5] by simp
  then obtain newer where n: "csv_read_range files ''EURUSD'' (fromtimestamp utc (180 * second_us)) (fromtimestamp utc (300 * second_us)) True = Inr newer"
    using csv_read_range_map [OF f(2), of "300000000" "''EURUSD''" "180000000" True] by auto
  note g = get_candles_with_source_correct [OF e _ _ _ n, of 60 ?fetch "[demo_candle 1 1, demo_candle 2 1]"]
  show ?thesis using f(1) g [of "\<lambda>_. ''FAIL''" 0] g [of "\<lambda>_. ''PASS''" 3] by force
qed

section \<open>Read-through\<close>

lemma filter_valid_sound:
  "c \<in> set (filter_valid a b cs seen) \<Longrightarrow> c \<in> set cs \<and> epoch_s c mod 60 = 0 \<and> a \<le> epoch_s c \<and> epoch_s c < b"
  by (induction cs arbitrary: seen) (auto simp: Let_def split: if_splits)

lemma relabel_all_sound:
  "relabel_all symbol cs = Inr ds \<Longrightarrow> d \<in> set ds \<Longrightarrow> c_symbol d = symbol \<and> (\<exists>c \<in> set cs. c_ts d = c_ts c)"
proof (induction cs arbitrary: ds)
  case (Cons c cs)
  then obtain c' cs' where r: "relabel symbol c = Inr c'" "relabel_all symbol cs = Inr cs'" "ds = c' # cs'"
    by (auto simp: sbind_eq_Inr)
  have "c_symbol c' = symbol \<and> c_ts c' = c_ts c"
    using r(1) by (auto simp: relabel_def candle_post_init_Inr split: if_splits)
  with Cons r(2,3) show ?case by auto
qed simp

definition in_gap :: "gap \<Rightarrow> candle \<Rightarrow> bool" where
  "in_gap g c \<longleftrightarrow> timestamp_int (with_utc (gap_start g)) \<le> epoch_s c \<and> epoch_s c < timestamp_int (with_utc (gap_end g))"

lemma fetch_gaps_sound:
  "fetch_gaps fetch symbol gs acc = Inr filled \<Longrightarrow> c \<in> set filled \<Longrightarrow>
     c \<in> set acc \<or> c_symbol c = symbol \<and> epoch_s c mod 60 = 0 \<and> (\<exists>g \<in> set gs. in_gap g c)"
proof (induction gs arbitrary: acc)
  case (Cons g gs)
  from Cons.prems(1) obtain cs cs' where f: "fetch symbol (with_utc (gap_start g)) (with_utc (gap_end g)) = Fetched cs"
    "relabel_all symbol (filter_valid_candles cs (timestamp_int (with_utc (gap_start g))) (timestamp_int (with_utc (gap_end g)))) = Inr cs'"
    "fetch_gaps fetch symbol gs (acc @ cs') = Inr filled"
    by (auto simp: Let_def split: fetch_outcome.splits sum.splits)
  have "c \<in> set cs' \<Longrightarrow> c_symbol c = symbol \<and> epoch_s c mod 60 = 0 \<and> in_gap g c"
    using relabel_all_sound [OF f(2), of c] filter_valid_sound
    by (fastforce simp: filter_valid_candles_def in_gap_def)
  with Cons.IH [OF f(3) Cons.prems(2)] show ?case by auto
qed simp

lemma merge_candles_spec:
  "sorted_wrt (<) (map epoch_s (merge_candles_by_ts primary filled)) \<and>
   by_second (merge_candles_by_ts primary filled) t =
     (case by_second primary t of Some c \<Rightarrow> Some c | None \<Rightarrow> map_of (map (\<lambda>c. (epoch_s c, c)) filled) t)"
proof -
  let ?add = "fold (\<lambda>c d. if d_has d (epoch_s c) then d else d_set (epoch_s c) c d)"
  have step: "keyed epoch_s d \<Longrightarrow> keyed epoch_s (?add cs d) \<and>
      d_get (?add cs d) t = (case d_get d t of Some c \<Rightarrow> Some c | None \<Rightarrow> map_of (map (\<lambda>c. (epoch_s c, c)) cs) t)"
    for cs d
  proof (induction cs arbitrary: d)
    case (Cons c cs)
    show ?case
    proof (cases "d_has d (epoch_s c)")
      case True
      then show ?thesis using Cons.IH [OF Cons.prems] by (auto split: option.split)
    next
      case False
      then show ?thesis using Cons.IH [OF keyed_set [OF Cons.prems], of c] by (auto split: option.split)
    qed
  qed (simp split: option.split)
  let ?d = "dict_of (map (\<lambda>c. (epoch_s c, c)) primary)"
  have "keyed epoch_s (?add filled ?d)"
    "d_get (?add filled ?d) t = (case by_second primary t of Some c \<Rightarrow> Some c | None \<Rightarrow> map_of (map (\<lambda>c. (epoch_s c, c)) filled) t)"
    using step [OF keyed_dict_of, of filled primary] by (simp_all add: d_get_dict_of by_key_def)
  then show ?thesis
    using sorted_values_keyed [of epoch_s "?add filled ?d"] by (simp add: merge_candles_by_ts_def)
qed

text \<open>
  C20. Read-through only ever adds to a response. When it is off, has nothing to do, has too much
  to do or fails in any way, the range is returned as it was. Otherwise the answer is strictly
  increasing by second, keeps a stored candle for every second that had one (the last of
  duplicates), and every other candle in it is of the requested symbol, at a whole minute, and
  inside one of the gaps of the range.
\<close>

theorem read_through_only_adds:
  fixes r :: candle_range
  assumes "maybe_fill_gaps provider enabled max_missing symbol r = (r', st)"
  shows "(r' \<noteq> r \<longrightarrow> enabled \<and> rt_status st \<noteq> ReadThroughFailed \<and> rt_requested st \<noteq> 0 \<and> rt_requested st \<le> max_missing \<and>
      sorted_wrt (<) (map epoch_s (r_candles r'))) \<and>
    r_start r' = r_start r \<and> r_end r' = r_end r \<and>
    (\<forall>t. r' \<noteq> r \<and> t \<in> epoch_s ` set (r_candles r) \<longrightarrow> by_second (r_candles r') t = by_second (r_candles r) t) \<and>
    (\<forall>c \<in> set (r_candles r'). c \<in> set (r_candles r) \<or>
      c_symbol c = symbol \<and> epoch_s c mod 60 = 0 \<and> epoch_s c \<notin> epoch_s ` set (r_candles r) \<and>
      (\<exists>g \<in> set (vr_gaps (validate (r_candles r) (r_start r) (r_end r) symbol)). in_gap g c))"
proof (cases "r' = r")
  case False
  let ?v = "validate (r_candles r) (r_start r) (r_end r) symbol"
  obtain fetch filled where f: "enabled" "vr_missing ?v \<noteq> 0" "vr_missing ?v \<le> max_missing" "provider = Some fetch"
    "fetch_gaps fetch symbol (vr_gaps ?v) [] = Inr filled"
    "r_candles r' = merge_candles_by_ts (r_candles r) filled" "r_start r' = r_start r" "r_end r' = r_end r"
    "rt_requested st = vr_missing ?v" "rt_status st \<noteq> ReadThroughFailed"
    using assms False by (auto simp: maybe_fill_gaps_def Let_def split: if_splits option.splits sum.splits)
  note m = merge_candles_spec [of "r_candles r" filled]
  have "c \<in> set (r_candles r) \<or> c_symbol c = symbol \<and> epoch_s c mod 60 = 0 \<and> epoch_s c \<notin> epoch_s ` set (r_candles r) \<and>
      (\<exists>g \<in> set (vr_gaps ?v). in_gap g c)" if c: "c \<in> set (r_candles r')" for c
  proof -
    have bs: "by_second (r_candles r') (epoch_s c) = Some c"
      using c by_key_sorted [OF conjunct1 [OF m]] unfolding f(6) by blast
    show ?thesis
    proof (cases "by_second (r_candles r) (epoch_s c)")
      case (Some d)
      then show ?thesis using bs m [of "epoch_s c"] by (auto simp: f(6) dest: by_key_SomeD)
    next
      case None
      then have "c \<in> set filled" using bs m [of "epoch_s c"] by (auto simp: f(6) dest: map_of_SomeD)
      then show ?thesis using fetch_gaps_sound [OF f(5)] None by (auto simp: by_key_None)
    qed
  qed
  moreover have "by_second (r_candles r') t = by_second (r_candles r) t" if "t \<in> epoch_s ` set (r_candles r)" for t
    using that m [of t] by_key_None [of epoch_s "r_candles r" t] by (auto simp: f(6) split: option.splits)
  moreover have "sorted_wrt (<) (map epoch_s (r_candles r'))" using m by (simp only: f(6))
  ultimately show ?thesis using f(1-3,7-10) by auto
qed simp

theorem read_through_only_adds_witness:
  "\<exists>r' st. maybe_fill_gaps (Some (\<lambda>_ t1 t2. Fetched [demo_candle 4 7, demo_candle 9 7])) True 30 ''EURUSD''
      \<lparr>r_symbol = ''EURUSD'', r_start = grid 3, r_end = grid 6, r_candles = [demo_candle 3 1, demo_candle 5 1],
        r_is_complete = False, r_missing_count = 1\<rparr> = (r', st) \<and>
    (\<forall>c \<in> set (r_candles r'). epoch_s c < 360)"
proof -
  let ?r = "\<lparr>r_symbol = ''EURUSD'', r_start = grid 3, r_end = grid 6, r_candles = [demo_candle 3 1, demo_candle 5 1],
        r_is_complete = False, r_missing_count = 1\<rparr>"
  let ?p = "Some (\<lambda>_ t1 t2. Fetched [demo_candle 4 7, demo_candle 9 7])"
  obtain r' st where r': "maybe_fill_gaps ?p True 30 ''EURUSD'' ?r = (r', st)" by fastforce
  have g: "vr_gaps (validate (r_candles ?r) (r_start ?r) (r_end ?r) ''EURUSD'') = [grid_gap (4, 5)]"
    using find_gaps_grid [of "[demo_candle 3 1, demo_candle 5 1]" "[3, 5]" 6 3] by (simp add: validate_def Let_def)
  have e: "timestamp_int (grid m) = m * 60" for m
  proof -
    have "grid m = utc_dt ((m * 60) * second_us)" by (simp add: grid_def)
    then show ?thesis by (simp only: timestamp_int_seconds)
  qed
  have w: "with_utc (grid m) = grid m" for m by (simp add: with_utc_def grid_def)
  have "epoch_s c < 360" if "c \<in> set (r_candles r')" for c
    using read_through_only_adds [OF r'] that unfolding g
    by (fastforce simp: e w in_gap_def grid_gap_def)
  then show ?thesis using r' by blast
qed

section \<open>Paging\<close>

text \<open>What the merged answer holds for a second: the recent row if there is one, in range.\<close>

definition wanted_row :: "ohlcv_row list \<Rightarrow> ohlcv_row list \<Rightarrow> int option \<Rightarrow> int option \<Rightarrow> int \<Rightarrow> ohlcv_row option" where
  "wanted_row parquet rt from_ts to_ts t =
     (if (\<forall>a. from_ts = Some a \<longrightarrow> a \<le> t) \<and> (\<forall>b. to_ts = Some b \<longrightarrow> t < b)
      then (case by_key fst rt t of Some r \<Rightarrow> Some r | None \<Rightarrow> by_key fst parquet t) else None)"

lemma merge_rows_spec:
  "sorted_wrt (<) (map fst (merge_rows parquet rt from_ts to_ts)) \<and>
   by_key fst (merge_rows parquet rt from_ts to_ts) t = wanted_row parquet rt from_ts to_ts t"
proof -
  let ?d = "dict_of (map (\<lambda>r. (fst r, r)) (parquet @ rt))"
  let ?d1 = "case from_ts of None \<Rightarrow> ?d | Some a \<Rightarrow> filter (\<lambda>(k, v). a \<le> k) ?d"
  let ?d2 = "case to_ts of None \<Rightarrow> ?d1 | Some b \<Rightarrow> filter (\<lambda>(k, v). k < b) ?d1"
  have k: "keyed fst ?d" "keyed fst ?d1" "keyed fst ?d2"
    by (cases from_ts; cases to_ts; simp only: option.case keyed_dict_of keyed_filter)+
  have g: "d_get ?d t = by_key fst (parquet @ rt) t" by (simp add: d_get_dict_of by_key_def)
  have w: "dict_wf ?d" "dict_wf ?d1" using k unfolding keyed_def by blast+
  have "d_get ?d2 t = (if (\<forall>b. to_ts = Some b \<longrightarrow> t < b) then d_get ?d1 t else None)"
    using w(2) by (cases to_ts) (simp_all add: d_get_filter)
  moreover have "d_get ?d1 t = (if (\<forall>a. from_ts = Some a \<longrightarrow> a \<le> t) then d_get ?d t else None)"
    using w(1) by (cases from_ts) (simp_all add: d_get_filter)
  ultimately have "d_get ?d2 t = wanted_row parquet rt from_ts to_ts t"
    unfolding g by (auto simp: wanted_row_def by_key_append)
  moreover have "merge_rows parquet rt from_ts to_ts = sorted_values ?d2"
    by (simp only: merge_rows_def Let_def map_append)
  ultimately show ?thesis using sorted_values_keyed [OF k(3)] by simp
qed

definition after_cursor :: "int option \<Rightarrow> ohlcv_row list \<Rightarrow> ohlcv_row list" where
  "after_cursor cursor rt = (case cursor of None \<Rightarrow> rt | Some t \<Rightarrow> filter (\<lambda>r. fst r > t) rt)"

lemma stitch_mixed_page:
  fixes parquet :: "ohlcv_row list" and cursor :: "int option"
  assumes "is_mixed_allowed env" "read_realtime_candles now files symbol from_ts to_ts = rt" "rt \<noteq> []" "0 < limit"
  defines "all_rows \<equiv> merge_rows parquet (after_cursor cursor rt) from_ts to_ts"
  shows "\<exists>p. stitch_ohlcv_mixed env now files parquet symbol from_ts to_ts limit cursor = Inr p \<and>
    mp_candles p = take (nat limit) all_rows \<and>
    mp_next_ts p = (if int (length all_rows) > limit then Some (fst (last (mp_candles p))) else None)"
proof -
  have "int (length (take (nat limit) all_rows)) = limit \<and> int (length all_rows) > limit \<longleftrightarrow> int (length all_rows) > limit"
    using assms(4) by auto
  moreover have "int (length all_rows) > limit \<Longrightarrow> take (nat limit) all_rows \<noteq> []" using assms(4) by auto
  ultimately show ?thesis
    using assms(1-4) by (auto simp: stitch_ohlcv_mixed_def Let_def py_take_def last_ts_def all_rows_def after_cursor_def)
qed

text \<open>
  C21. When mixing is allowed and there are recent candles, a page is the beginning of the full
  answer: strictly increasing in time, in the requested range, a recent row winning over an
  historic one of the same second, and at most \<open>limit\<close> rows. There is no next page exactly when
  the page is all of it; otherwise the cursor is the time of the page's last row.
\<close>

theorem mixed_page_correct:
  fixes parquet :: "ohlcv_row list" and files :: csv_files
  assumes "is_mixed_allowed env" "read_realtime_candles now files symbol from_ts to_ts = rt" "rt \<noteq> []" "0 < limit"
  shows "\<exists>p rest. stitch_ohlcv_mixed env now files parquet symbol from_ts to_ts limit cursor = Inr p \<and>
    sorted_wrt (<) (map fst (mp_candles p @ rest)) \<and>
    (\<forall>t. by_key fst (mp_candles p @ rest) t = wanted_row parquet (after_cursor cursor rt) from_ts to_ts t) \<and>
    int (length (mp_candles p)) \<le> limit \<and>
    (mp_next_ts p = None \<longleftrightarrow> rest = []) \<and>
    (\<forall>t. mp_next_ts p = Some t \<longrightarrow> mp_candles p \<noteq> [] \<and> t = fst (last (mp_candles p)))"
proof -
  let ?all = "merge_rows parquet (after_cursor cursor rt) from_ts to_ts"
  obtain p where p: "stitch_ohlcv_mixed env now files parquet symbol from_ts to_ts limit cursor = Inr p"
    "mp_candles p = take (nat limit) ?all"
    "mp_next_ts p = (if int (length ?all) > limit then Some (fst (last (mp_candles p))) else None)"
    using stitch_mixed_page [OF assms] by blast
  have whole: "mp_candles p @ drop (nat limit) ?all = ?all" by (simp only: p(2) append_take_drop_id)
  have "drop (nat limit) ?all = [] \<longleftrightarrow> \<not> int (length ?all) > limit" using assms(4) by auto
  moreover have "int (length ?all) > limit \<Longrightarrow> mp_candles p \<noteq> []" using assms(4) p(2) by auto
  moreover have "int (length (mp_candles p)) \<le> limit" using assms(4) p(2) by auto
  ultimately show ?thesis
    using p(1,3) merge_rows_spec [of parquet "after_cursor cursor rt" from_ts to_ts] whole
    by (intro exI [of _ p] exI [of _ "drop (nat limit) ?all"]) (simp only: whole, auto)
qed

lemma demo_store_rows:
  "\<exists>files. csv_patch (\<lambda>_. True) [demo_candle 3 1] [] = (files, Inr 1) \<and>
     read_realtime_candles (utc_dt 0) files ''EURUSD'' (Some 60) (Some 600) = [(180, 1, 1, 1, 1, 1)]"
proof -
  obtain files where f: "csv_patch (\<lambda>_. True) [demo_candle 3 1] [] = (files, Inr 1)" "files_ok files"
    "store_map files ''EURUSD'' = candle_map [demo_candle 3 1]"
    using csv.patch_law [of "[]" "[demo_candle 3 1]" "''EURUSD''"] by (auto simp: fun_eq_iff)
  have "10 * minute_us \<le> month_start 119999 * day_us" using early_horizon [of 10] by simp
  then obtain r where r: "csv_read_range files ''EURUSD'' (utc_dt 60000000) (utc_dt 600000000) False = Inr r"
    "sorted_wrt (<) (map instant (r_candles r))"
    "\<forall>c. c \<in> set (r_candles r) \<longleftrightarrow> (\<exists>u. store_map files ''EURUSD'' u = Some c \<and> 60000000 \<le> u \<and> u < 600000000)"
    using csv_read_range_map [OF f(2), of 600000000 "''EURUSD''" 60000000 False] by auto
  have "set (r_candles r) = {demo_candle 3 1}" using r(3) by (auto simp: f(3) split: if_splits)
  moreover have "distinct (r_candles r)" using r(2) by (simp add: strict_sorted_iff distinct_map)
  ultimately have "length (r_candles r) = 1" using distinct_card by fastforce
  with \<open>set (r_candles r) = _\<close> have "r_candles r = [demo_candle 3 1]" by (cases "r_candles r") auto
  moreover have "grid 3 = utc_dt (180 * second_us)" by (simp add: grid_def)
  then have "timestamp_int (grid 3) = 180" by (simp only: timestamp_int_seconds)
  ultimately show ?thesis
    using f(1) r(1) by (simp add: read_realtime_candles_def candle_obj_to_row_def) (simp add: demo_candle_def)
qed

theorem mixed_page_correct_witness:
  "\<exists>files p. csv_patch (\<lambda>_. True) [demo_candle 3 1] [] = (files, Inr 1) \<and>
     stitch_ohlcv_mixed Map.empty (utc_dt 0) files [(60, 2, 2, 2, 2, 0), (120, 2, 2, 2, 2, 0)] ''EURUSD''
       (Some 60) (Some 600) 2 None = Inr p \<and> int (length (mp_candles p)) \<le> 2"
proof -
  obtain files where f: "csv_patch (\<lambda>_. True) [demo_candle 3 1] [] = (files, Inr 1)"
    "read_realtime_candles (utc_dt 0) files ''EURUSD'' (Some 60) (Some 600) = [(180, 1, 1, 1, 1, 1)]"
    using demo_store_rows by blast
  have "is_mixed_allowed Map.empty" by (simp add: is_mixed_allowed_def py_strip_def is_space_def)
  from mixed_page_correct [OF this f(2), of 2 "[(60, 2, 2, 2, 2, 0), (120, 2, 2, 2, 2, 0)]" None] f(1)
  show ?thesis by fastforce
qed

text \<open>
  Paging stops early. If the historic rows fill the page exactly, so that more may follow, and
  every recent row falls on one of their seconds, the mixed answer has no next page; the same
  historic page without recent rows does announce one. The history after that page is never
  served.
\<close>

theorem mixed_paging_stops_early:
  fixes parquet :: "ohlcv_row list" and files :: csv_files
  assumes "is_mixed_allowed env" "read_realtime_candles now files symbol from_ts to_ts = rt" "rt \<noteq> []" "0 < limit"
    and "int (length parquet) = limit" "sorted_wrt (<) (map fst parquet)" "fst ` set rt \<subseteq> fst ` set parquet"
  shows "(\<exists>p. stitch_ohlcv_mixed env now files parquet symbol from_ts to_ts limit None = Inr p \<and> mp_next_ts p = None) \<and>
    (\<exists>p. parquet_only parquet limit [Dukascopy] = Inr p \<and> mp_next_ts p = Some (fst (last parquet)))"
proof
  let ?all = "merge_rows parquet rt from_ts to_ts"
  have s: "sorted_wrt (<) (map fst ?all)" using merge_rows_spec by blast
  have "fst ` set ?all \<subseteq> fst ` set parquet"
  proof
    fix t assume "t \<in> fst ` set ?all"
    then have "by_key fst ?all t \<noteq> None" by (simp add: by_key_None)
    then have "by_key fst rt t \<noteq> None \<or> by_key fst parquet t \<noteq> None"
      unfolding conjunct2 [OF merge_rows_spec] by (auto simp: wanted_row_def split: if_splits option.splits)
    then show "t \<in> fst ` set parquet" using assms(7) by (auto simp: by_key_None)
  qed
  then have "card (set (map fst ?all)) \<le> card (set (map fst parquet))" by (intro card_mono) simp_all
  then have "length ?all \<le> length parquet"
    using s assms(6) distinct_card [of "map fst ?all"] distinct_card [of "map fst parquet"]
    by (simp add: strict_sorted_iff)
  then show "\<exists>p. stitch_ohlcv_mixed env now files parquet symbol from_ts to_ts limit None = Inr p \<and> mp_next_ts p = None"
    using stitch_mixed_page [OF assms(1-4), of parquet None] assms(5) by (auto simp: after_cursor_def)
  show "\<exists>p. parquet_only parquet limit [Dukascopy] = Inr p \<and> mp_next_ts p = Some (fst (last parquet))"
    using assms(4,5) by (auto simp: parquet_only_def last_ts_def)
qed

theorem mixed_paging_stops_early_witness:
  "\<exists>files p. csv_patch (\<lambda>_. True) [demo_candle 3 1] [] = (files, Inr 1) \<and>
     stitch_ohlcv_mixed Map.empty (utc_dt 0) files [(120, 2, 2, 2, 2, 0), (180, 2, 2, 2, 2, 0)] ''EURUSD''
       (Some 60) (Some 600) 2 None = Inr p \<and> mp_next_ts p = None"
proof -
  obtain files where f: "csv_patch (\<lambda>_. True) [demo_candle 3 1] [] = (files, Inr 1)"
    "read_realtime_candles (utc_dt 0) files ''EURUSD'' (Some 60) (Some 600) = [(180, 1, 1, 1, 1, 1)]"
    using demo_store_rows by blast
  have "is_mixed_allowed Map.empty" by (simp add: is_mixed_allowed_def py_strip_def is_space_def)
  from mixed_paging_stops_early [OF this f(2), of 2 "[(120, 2, 2, 2, 2, 0), (180, 2, 2, 2, 2, 0)]"] f(1)
  show ?thesis by fastforce
qed

end
