(* ===== verification/Json.thy ===== *)
theory Json
  imports PyFloat
begin

text \<open>
  What \<open>json.load\<close> and \<open>receive_json\<close> return, and the Python operations the code applies to it:
  truth, \<open>get\<close> on a dictionary and \<open>isinstance\<close> of a number (a \<open>bool\<close> is an \<open>int\<close>).
\<close>

text \<open>What a JSON text parses to; a dictionary has each key once.\<close>

datatype json = JNull | JBool bool | JInt int | JFloat pfloat | JStr string
  | JArr "json list" | JObj "(string \<times> json) list"

definition truthy :: "json \<Rightarrow> bool" where
  "truthy j = (case j of JNull \<Rightarrow> False | JBool b \<Rightarrow> b | JInt n \<Rightarrow> n \<noteq> 0 | JFloat x \<Rightarrow> x \<noteq> 0
     | JStr s \<Rightarrow> s \<noteq> [] | JArr xs \<Rightarrow> xs \<noteq> [] | JObj xs \<Rightarrow> xs \<noteq> [])"

definition j_get :: "(string \<times> json) list \<Rightarrow> string \<Rightarrow> json" where
  "j_get obj key = (case map_of obj key of None \<Rightarrow> JNull | Some v \<Rightarrow> v)"

definition j_number :: "json \<Rightarrow> pfloat option" where
  "j_number j = (case j of JInt n \<Rightarrow> Some (of_int n) | JFloat x \<Rightarrow> Some x
     | JBool b \<Rightarrow> Some (if b then 1 else 0) | _ \<Rightarrow> None)"

definition j_integer :: "json \<Rightarrow> int option" where
  "j_integer j = (case j of JInt n \<Rightarrow> Some n | JBool b \<Rightarrow> Some (if b then 1 else 0) | _ \<Rightarrow> None)"

lemma j_get_set [simp]: "j_get (d_set k v d) k' = (if k' = k then v else j_get d k')"
  by (simp add: j_get_def)

lemma j_get_del [simp]: "j_get (d_del k d) k' = (if k' = k then JNull else j_get d k')"
  by (simp add: j_get_def)

lemma j_get_Nil [simp]: "j_get [] k = JNull"
  by (simp add: j_get_def)

lemma j_number_simps [simp]:
  "j_number JNull = None" "j_number (JInt n) = Some (of_int n)" "j_number (JFloat x) = Some x"
  "j_number (JBool b) = Some (if b then 1 else 0)" "j_number (JStr s) = None"
  by (simp_all add: j_number_def)

lemma j_integer_simps [simp]:
  "j_integer JNull = None" "j_integer (JInt n) = Some n"
  by (simp_all add: j_integer_def)

end
