(* ===== verification/WsHub.thy ===== *)
theory WsHub
  imports Json
begin

text \<open>
  The WebSocket hub, \<open>infrastructure/ws/hub.py\<close> with the messages of
  \<open>infrastructure/ws/models.py\<close>: connections, subscriptions kept on both sides, a global sequence
  number and a bounded replay buffer.

  A Python set is a list without repetitions (its iteration order, which Python leaves open, is
  the order of insertion). A socket is a number; \<open>alive\<close> says which sockets accept a frame, and
  \<open>h_sent\<close> records the frames delivered. The time stamps of messages are left out. An
  operation runs to its end before the next one starts.
\<close>

section \<open>Messages\<close>

datatype ws_type = Ticker | CandleData | PositionData | BalanceData | Execution
  | Subscribed | Unsubscribed | WsError | ResyncRequired

text \<open>
  The payload. \<open>Failure\<close> is the message's \<open>error\<close>; \<open>StatusFor\<close> is a confirmation whose channel is not a
  string.
\<close>

datatype ws_data = NoData | Status string | StatusFor json string | Resync string "int option"
  | Failure string | Payload string

record ws_message =
  wm_type :: ws_type
  wm_seq :: "int option"
  wm_channel :: "string option"
  wm_data :: ws_data

definition create_subscribed_message :: "string \<Rightarrow> ws_message" where
  "create_subscribed_message channel =
     \<lparr>wm_type = Subscribed, wm_seq = None, wm_channel = Some channel, wm_data = Status ''subscribed''\<rparr>"

definition create_unsubscribed_message :: "string \<Rightarrow> ws_message" where
  "create_unsubscribed_message channel =
     \<lparr>wm_type = Unsubscribed, wm_seq = None, wm_channel = Some channel, wm_data = Status ''unsubscribed''\<rparr>"

definition create_error_message :: "string \<Rightarrow> string option \<Rightarrow> ws_message" where
  "create_error_message error channel =
     \<lparr>wm_type = WsError, wm_seq = None, wm_channel = channel, wm_data = Failure error\<rparr>"

definition create_resync_required_message :: "string \<Rightarrow> int option \<Rightarrow> ws_message" where
  "create_resync_required_message reason last_available =
     \<lparr>wm_type = ResyncRequired, wm_seq = None, wm_channel = None, wm_data = Resync reason last_available\<rparr>"

section \<open>The hub\<close>

record hub =
  h_connections :: "(string, nat) dict"
  h_subscriptions :: "(string, string list) dict"
  h_channels :: "(string, string list) dict"
  h_seq :: int
  h_buffer :: "(int \<times> ws_message) list"
  h_capacity :: nat
  h_sent :: "(nat \<times> ws_message) list"

definition hub_init :: "nat \<Rightarrow> hub" where
  "hub_init buffer_size = \<lparr>h_connections = [], h_subscriptions = [], h_channels = [], h_seq = 0,
     h_buffer = [], h_capacity = buffer_size, h_sent = []\<rparr>"

definition send_to_client :: "(nat \<Rightarrow> bool) \<Rightarrow> string \<Rightarrow> ws_message \<Rightarrow> hub \<Rightarrow> hub \<times> bool" where
  "send_to_client alive client m h =
     (case d_get (h_connections h) client of
        None \<Rightarrow> (h, False)
      | Some w \<Rightarrow> if alive w then (h\<lparr>h_sent := h_sent h @ [(w, m)]\<rparr>, True) else (h, False))"

definition hub_connect :: "nat \<Rightarrow> string \<Rightarrow> hub \<Rightarrow> hub" where
  "hub_connect websocket client h =
     h\<lparr>h_connections := d_set client websocket (h_connections h),
       h_subscriptions := d_set client [] (h_subscriptions h)\<rparr>"

text \<open>\<open>discard\<close> from a channel's set, which is deleted when it becomes empty.\<close>

definition leave_channel :: "string \<Rightarrow> string \<Rightarrow> (string, string list) dict \<Rightarrow> (string, string list) dict" where
  "leave_channel client channel chans =
     (case d_get chans channel of
        None \<Rightarrow> chans
      | Some cs \<Rightarrow> if removeAll client cs = [] then d_del channel chans
                   else d_set channel (removeAll client cs) chans)"

definition hub_disconnect :: "string \<Rightarrow> hub \<Rightarrow> hub" where
  "hub_disconnect client h =
     (let h1 = (case d_get (h_subscriptions h) client of
          None \<Rightarrow> h
        | Some channels \<Rightarrow> h\<lparr>h_channels := fold (leave_channel client) channels (h_channels h),
                            h_subscriptions := d_del client (h_subscriptions h)\<rparr>)
      in h1\<lparr>h_connections := d_del client (h_connections h1)\<rparr>)"

definition set_of :: "(string, string list) dict \<Rightarrow> string \<Rightarrow> string list" where
  "set_of d k = (case d_get d k of None \<Rightarrow> [] | Some xs \<Rightarrow> xs)"

definition hub_subscribe :: "(nat \<Rightarrow> bool) \<Rightarrow> string \<Rightarrow> string \<Rightarrow> hub \<Rightarrow> hub \<times> bool" where
  "hub_subscribe alive client channel h =
     (if \<not> d_has (h_connections h) client then (h, False)
      else
        (let h1 = h\<lparr>h_subscriptions := d_set client (set_add channel (set_of (h_subscriptions h) client)) (h_subscriptions h),
                    h_channels := d_set channel (set_add client (set_of (h_channels h) channel)) (h_channels h)\<rparr>
         in (fst (send_to_client alive client (create_subscribed_message channel) h1), True)))"

definition hub_unsubscribe :: "(nat \<Rightarrow> bool) \<Rightarrow> string \<Rightarrow> string \<Rightarrow> hub \<Rightarrow> hub \<times> bool" where
  "hub_unsubscribe alive client channel h =
     (if \<not> d_has (h_connections h) client then (h, False)
      else
        (let h1 = h\<lparr>h_subscriptions := (case d_get (h_subscriptions h) client of
                      None \<Rightarrow> h_subscriptions h
                    | Some xs \<Rightarrow> d_set client (removeAll channel xs) (h_subscriptions h)),
                    h_channels := leave_channel client channel (h_channels h)\<rparr>
         in (fst (send_to_client alive client (create_unsubscribed_message channel) h1), True)))"

text \<open>\<open>deque(maxlen = n).append\<close>: the oldest entries fall out.\<close>

definition buffer_append :: "nat \<Rightarrow> 'a \<Rightarrow> 'a list \<Rightarrow> 'a list" where
  "buffer_append n x xs = drop (Suc (length xs) - n) (xs @ [x])"

fun send_all :: "(nat \<Rightarrow> bool) \<Rightarrow> string list \<Rightarrow> ws_message \<Rightarrow> hub \<Rightarrow> hub \<times> nat" where
  "send_all alive [] m h = (h, 0)"
| "send_all alive (client # clients) m h =
     (let (h1, ok) = send_to_client alive client m h; (h2, n) = send_all alive clients m h1
      in (h2, if ok then n + 1 else n))"

definition hub_broadcast :: "(nat \<Rightarrow> bool) \<Rightarrow> string \<Rightarrow> ws_message \<Rightarrow> hub \<Rightarrow> hub \<times> nat" where
  "hub_broadcast alive channel m h =
     (let n = h_seq h + 1; m' = m\<lparr>wm_seq := Some n\<rparr>;
          h1 = h\<lparr>h_seq := n, h_buffer := buffer_append (h_capacity h) (n, m') (h_buffer h)\<rparr>
      in send_all alive (set_of (h_channels h1) channel) m' h1)"

fun replay :: "(nat \<Rightarrow> bool) \<Rightarrow> string \<Rightarrow> string list \<Rightarrow> int \<Rightarrow> (int \<times> ws_message) list \<Rightarrow> hub \<Rightarrow> hub" where
  "replay alive client channels last_seq [] h = h"
| "replay alive client channels last_seq ((n, m) # rest) h =
     replay alive client channels last_seq rest
       (if n \<le> last_seq then h
        else (case wm_channel m of
                None \<Rightarrow> h
              | Some ch \<Rightarrow> if ch \<noteq> [] \<and> ch \<in> set channels then fst (send_to_client alive client m h) else h))"

definition hub_resume :: "(nat \<Rightarrow> bool) \<Rightarrow> string \<Rightarrow> int \<Rightarrow> hub \<Rightarrow> hub \<times> bool" where
  "hub_resume alive client last_seq h =
     (if \<not> d_has (h_connections h) client then (h, False)
      else if h_buffer h = [] then (h, True)
      else
        (let oldest = fst (hd (h_buffer h)); newest = fst (last (h_buffer h)) in
         if last_seq < oldest
         then (fst (send_to_client alive client (create_resync_required_message ''buffer_overflow'' (Some oldest)) h), False)
         else if last_seq > newest then (h, True)
         else (replay alive client (set_of (h_subscriptions h) client) last_seq (h_buffer h) h, True)))"

record hub_stats =
  hs_connected :: nat
  hs_subscriptions :: nat
  hs_channels :: nat
  hs_seq :: int
  hs_buffer :: nat
  hs_capacity :: nat

definition get_stats :: "hub \<Rightarrow> hub_stats" where
  "get_stats h = \<lparr>hs_connected = length (h_connections h),
     hs_subscriptions = sum_list (map length (d_values (h_subscriptions h))),
     hs_channels = length (h_channels h), hs_seq = h_seq h, hs_buffer = length (h_buffer h),
     hs_capacity = h_capacity h\<rparr>"

section \<open>Runs\<close>

text \<open>
  What can happen to a hub, with the messages broadcast so far, oldest first. Every connection
  gets a new client id, as the endpoint does (\<open>uuid4\<close>). \<open>frame\<close> is a frame written to a socket past the
  hub.
\<close>

inductive hub_run :: "nat \<Rightarrow> hub \<Rightarrow> (string \<times> ws_message) list \<Rightarrow> bool" for cap :: nat where
  start: "hub_run cap (hub_init cap) []"
| connect: "hub_run cap h msgs \<Longrightarrow> \<not> d_has (h_connections h) client \<Longrightarrow> hub_run cap (hub_connect w client h) msgs"
| disconnect: "hub_run cap h msgs \<Longrightarrow> hub_run cap (hub_disconnect client h) msgs"
| subscribe: "hub_run cap h msgs \<Longrightarrow> hub_run cap (fst (hub_subscribe alive client channel h)) msgs"
| unsubscribe: "hub_run cap h msgs \<Longrightarrow> hub_run cap (fst (hub_unsubscribe alive client channel h)) msgs"
| broadcast: "hub_run cap h msgs \<Longrightarrow> wm_channel m = Some channel \<Longrightarrow>
    hub_run cap (fst (hub_broadcast alive channel m h)) (msgs @ [(channel, m)])"
| frame: "hub_run cap h msgs \<Longrightarrow> hub_run cap (h\<lparr>h_sent := h_sent h @ [(w, m)]\<rparr>) msgs"
| resume: "hub_run cap h msgs \<Longrightarrow> hub_run cap (fst (hub_resume alive client last_seq h)) msgs"

inductive_cases hub_run_emptyE: "hub_run cap h []"

section \<open>Invariants\<close>

text \<open>Subscriptions and channels are two views of one relation, of connected clients only.\<close>

definition hub_consistent :: "hub \<Rightarrow> bool" where
  [inv_defs]: "hub_consistent h \<longleftrightarrow>
     (\<forall>client channel. client \<in> set (set_of (h_channels h) channel) \<longleftrightarrow> channel \<in> set (set_of (h_subscriptions h) client)) \<and>
     (\<forall>client. d_has (h_subscriptions h) client \<longleftrightarrow> d_has (h_connections h) client) \<and>
     (\<forall>channel cs. d_get (h_channels h) channel = Some cs \<longrightarrow> cs \<noteq> [] \<and> distinct cs)"

text \<open>The broadcast messages with their numbers; the buffer is the newest part of them.\<close>

definition numbered :: "(string \<times> ws_message) list \<Rightarrow> (int \<times> ws_message) list" where
  "numbered msgs = map (\<lambda>(i, m). (int i, snd m\<lparr>wm_seq := Some (int i)\<rparr>)) (enumerate 1 msgs)"

definition buffer_newest :: "nat \<Rightarrow> hub \<Rightarrow> (string \<times> ws_message) list \<Rightarrow> bool" where
  [inv_defs]: "buffer_newest cap h msgs \<longleftrightarrow> h_capacity h = cap \<and> h_seq h = int (length msgs) \<and>
     h_buffer h = drop (length msgs - cap) (numbered msgs)"

lemma send_fields [simp]:
  "h_connections (fst (send_to_client alive client m h)) = h_connections h"
  "h_subscriptions (fst (send_to_client alive client m h)) = h_subscriptions h"
  "h_channels (fst (send_to_client alive client m h)) = h_channels h"
  "h_seq (fst (send_to_client alive client m h)) = h_seq h"
  "h_buffer (fst (send_to_client alive client m h)) = h_buffer h"
  "h_capacity (fst (send_to_client alive client m h)) = h_capacity h"
  by (simp_all add: send_to_client_def split: option.split)

lemma send_all_fields [simp]:
  "h_connections (fst (send_all alive cs m h)) = h_connections h"
  "h_subscriptions (fst (send_all alive cs m h)) = h_subscriptions h"
  "h_channels (fst (send_all alive cs m h)) = h_channels h"
  "h_seq (fst (send_all alive cs m h)) = h_seq h"
  "h_buffer (fst (send_all alive cs m h)) = h_buffer h"
  "h_capacity (fst (send_all alive cs m h)) = h_capacity h"
proof -
  have step: "fst (send_all alive (c # cs) m h) = fst (send_all alive cs m (fst (send_to_client alive c m h)))" for c cs h
    by (simp add: Let_def split: prod.split)
  show "h_connections (fst (send_all alive cs m h)) = h_connections h"
    "h_subscriptions (fst (send_all alive cs m h)) = h_subscriptions h"
    "h_channels (fst (send_all alive cs m h)) = h_channels h"
    "h_seq (fst (send_all alive cs m h)) = h_seq h"
    "h_buffer (fst (send_all alive cs m h)) = h_buffer h"
    "h_capacity (fst (send_all alive cs m h)) = h_capacity h"
    by (induction cs arbitrary: h) (simp_all add: step del: send_all.simps(2))
qed

lemma replay_fields [simp]:
  "h_connections (replay alive client chs l b h) = h_connections h"
  "h_subscriptions (replay alive client chs l b h) = h_subscriptions h"
  "h_channels (replay alive client chs l b h) = h_channels h"
  "h_seq (replay alive client chs l b h) = h_seq h"
  "h_buffer (replay alive client chs l b h) = h_buffer h"
  "h_capacity (replay alive client chs l b h) = h_capacity h"
  by (induction b arbitrary: h) (auto split: option.splits if_splits)

lemma resume_fields [simp]:
  "h_connections (fst (hub_resume alive client l h)) = h_connections h"
  "h_subscriptions (fst (hub_resume alive client l h)) = h_subscriptions h"
  "h_channels (fst (hub_resume alive client l h)) = h_channels h"
  "h_seq (fst (hub_resume alive client l h)) = h_seq h"
  "h_buffer (fst (hub_resume alive client l h)) = h_buffer h"
  "h_capacity (fst (hub_resume alive client l h)) = h_capacity h"
  by (simp_all add: hub_resume_def Let_def)

end
