(* ===== verification/WsHub_Props.thy ===== *)
theory WsHub_Props
  imports WsHub
begin

text \<open>
  What the hub promises over every run of connections, subscriptions and broadcasts: the two views
  of the subscriptions agree, the replay buffer is the newest part of the broadcast messages, a
  broadcast reaches every live subscriber once, and a resume replays what was missed.
\<close>

section \<open>Both views of the subscriptions\<close>

lemma set_of_simps [simp]:
  "set_of [] k = []"
  "set_of (d_set k' xs d) k = (if k = k' then xs else set_of d k)"
  "set_of (d_del k' d) k = (if k = k' then [] else set_of d k)"
  by (simp_all add: set_of_def)

lemma set_of_Some: "d_get d k = Some xs \<Longrightarrow> set_of d k = xs"
  by (simp add: set_of_def)

lemma set_of_None: "d_get d k = None \<Longrightarrow> set_of d k = []"
  by (simp add: set_of_def)

definition channels_ok :: "(string, string list) dict \<Rightarrow> bool" where
  [inv_defs]: "channels_ok chans \<longleftrightarrow> (\<forall>channel cs. d_get chans channel = Some cs \<longrightarrow> cs \<noteq> [] \<and> distinct cs)"

lemma hub_consistent_alt:
  "hub_consistent h \<longleftrightarrow>
     (\<forall>client channel. client \<in> set (set_of (h_channels h) channel) \<longleftrightarrow> channel \<in> set (set_of (h_subscriptions h) client)) \<and>
     (\<forall>client. d_has (h_subscriptions h) client \<longleftrightarrow> d_has (h_connections h) client) \<and>
     channels_ok (h_channels h)"
  unfolding hub_consistent_def channels_ok_def by (rule refl)

lemma channels_okD: "channels_ok chans \<Longrightarrow> d_get chans ch = Some cs \<Longrightarrow> cs \<noteq> [] \<and> distinct cs"
  unfolding channels_ok_def by blast

lemma channels_okI: "(\<And>ch cs. d_get chans ch = Some cs \<Longrightarrow> cs \<noteq> [] \<and> distinct cs) \<Longrightarrow> channels_ok chans"
  unfolding channels_ok_def by blast

lemma channels_ok_distinct: "channels_ok chans \<Longrightarrow> distinct (set_of chans ch)"
  using channels_okD [of chans ch] by (cases "d_get chans ch") (auto simp: set_of_def)

lemma channels_ok_set:
  assumes "channels_ok chans" "cs \<noteq> []" "distinct cs"
  shows "channels_ok (d_set ch cs chans)"
proof (rule channels_okI)
  fix c xs
  assume "d_get (d_set ch cs chans) c = Some xs"
  then have "c = ch \<and> xs = cs \<or> d_get chans c = Some xs" by (cases "c = ch") simp_all
  then show "xs \<noteq> [] \<and> distinct xs" using assms channels_okD by blast
qed

lemma channels_ok_del:
  assumes "channels_ok chans"
  shows "channels_ok (d_del ch chans)"
proof (rule channels_okI)
  fix c xs
  assume "d_get (d_del ch chans) c = Some xs"
  then have "d_get chans c = Some xs" by (cases "c = ch") simp_all
  then show "xs \<noteq> [] \<and> distinct xs" by (rule channels_okD [OF assms])
qed

lemma channels_ok_leave [simp]: "channels_ok chans \<Longrightarrow> channels_ok (leave_channel c ch chans)"
  using channels_okD [of chans ch]
  by (cases "d_get chans ch") (auto simp: leave_channel_def distinct_removeAll intro!: channels_ok_set channels_ok_del)

lemma channels_ok_leave_all [simp]:
  "channels_ok chans \<Longrightarrow> channels_ok (fold (leave_channel c) chs chans)"
  by (induction chs arbitrary: chans) simp_all

lemma removeAll_nil_set: "removeAll c xs = [] \<longleftrightarrow> set xs \<subseteq> {c}"
  by (induction xs) auto

lemma leave_channel_set:
  "set (set_of (leave_channel c ch chans) ch') = set (set_of chans ch') - (if ch' = ch then {c} else {})"
  by (cases "d_get chans ch") (auto simp: leave_channel_def removeAll_nil_set set_of_Some set_of_None)

lemma leave_all_set:
  "set (set_of (fold (leave_channel c) chs chans) ch') = set (set_of chans ch') - (if ch' \<in> set chs then {c} else {})"
  by (induction chs arbitrary: chans) (auto simp: leave_channel_set)

lemma consistent_init: "hub_consistent (hub_init cap)"
  by (simp add: hub_consistent_def hub_init_def)

lemma consistent_connect:
  assumes "hub_consistent h" "\<not> d_has (h_connections h) client"
  shows "hub_consistent (hub_connect w client h)"
proof -
  have none: "d_get (h_subscriptions h) client = None"
    using assms unfolding hub_consistent_def by blast
  have "client \<notin> set (set_of (h_channels h) ch)" for ch
    using assms(1) set_of_None [OF none] by (simp add: hub_consistent_alt)
  with assms(1) show ?thesis
    by (simp add: hub_consistent_alt hub_connect_def)
qed

lemma consistent_disconnect:
  assumes "hub_consistent h"
  shows "hub_consistent (hub_disconnect client h)"
proof (cases "d_get (h_subscriptions h) client")
  case None
  moreover from None assms have "d_get (h_connections h) client = None"
    unfolding hub_consistent_def by blast
  ultimately show ?thesis
    using assms by (simp add: hub_disconnect_def hub_consistent_alt)
next
  case (Some chs)
  have "client \<notin> set (set_of (h_channels h) ch)" if "ch \<notin> set chs" for ch
    using assms that set_of_Some [OF Some] by (simp add: hub_consistent_alt)
  with assms Some show ?thesis
    by (auto simp: hub_disconnect_def hub_consistent_alt leave_all_set)
qed

lemma consistent_subscribe:
  assumes "hub_consistent h"
  shows "hub_consistent (fst (hub_subscribe alive client ch h))"
proof (cases "d_has (h_connections h) client")
  case True
  have ok: "channels_ok (h_channels h)"
    using assms by (simp add: hub_consistent_alt)
  with assms True show ?thesis
    by (auto simp: hub_subscribe_def Let_def hub_consistent_alt intro!: channels_ok_set set_add_ok channels_ok_distinct)
qed (use assms in \<open>simp add: hub_subscribe_def\<close>)

lemma consistent_unsubscribe:
  assumes "hub_consistent h"
  shows "hub_consistent (fst (hub_unsubscribe alive client ch h))"
proof (cases "d_has (h_connections h) client")
  case True
  with assms have "d_has (h_subscriptions h) client"
    unfolding hub_consistent_def by blast
  then obtain xs where xs: "d_get (h_subscriptions h) client = Some xs" by blast
  show ?thesis
    using assms True by (auto simp: hub_unsubscribe_def Let_def hub_consistent_alt leave_channel_set xs set_of_Some [OF xs])
qed (use assms in \<open>simp add: hub_unsubscribe_def\<close>)

lemma broadcast_fields [simp]:
  "h_connections (fst (hub_broadcast alive ch m h)) = h_connections h"
  "h_subscriptions (fst (hub_broadcast alive ch m h)) = h_subscriptions h"
  "h_channels (fst (hub_broadcast alive ch m h)) = h_channels h"
  "h_seq (fst (hub_broadcast alive ch m h)) = h_seq h + 1"
  "h_buffer (fst (hub_broadcast alive ch m h)) =
     buffer_append (h_capacity h) (h_seq h + 1, m\<lparr>wm_seq := Some (h_seq h + 1)\<rparr>) (h_buffer h)"
  "h_capacity (fst (hub_broadcast alive ch m h)) = h_capacity h"
  by (simp_all add: hub_broadcast_def Let_def)

lemma hub_run_consistent: "hub_run cap h msgs \<Longrightarrow> hub_consistent h"
  by (induction rule: hub_run.induct)
    (simp_all add: consistent_init consistent_connect consistent_disconnect consistent_subscribe
      consistent_unsubscribe, simp_all add: hub_consistent_alt)

section \<open>The replay buffer\<close>

lemma length_numbered [simp]: "length (numbered msgs) = length msgs"
  by (simp add: numbered_def)

lemma numbered_snoc:
  "numbered (msgs @ [(ch, m)]) =
     numbered msgs @ [(int (length msgs) + 1, m\<lparr>wm_seq := Some (int (length msgs) + 1)\<rparr>)]"
  by (simp add: numbered_def enumerate_append_eq add.commute)

lemma numbered_nth: "i < length msgs \<Longrightarrow> fst (numbered msgs ! i) = int i + 1"
  by (simp add: numbered_def nth_enumerate_eq split_beta)

lemma buffer_append_drop:
  "buffer_append n x (drop (length ys - n) ys) = drop (Suc (length ys) - n) (ys @ [x])"
  by (cases "length ys \<le> n") (simp_all add: buffer_append_def Suc_diff_le)

lemma disconnect_fields [simp]:
  "h_seq (hub_disconnect c h) = h_seq h" "h_buffer (hub_disconnect c h) = h_buffer h"
  "h_capacity (hub_disconnect c h) = h_capacity h"
  by (simp_all add: hub_disconnect_def Let_def split: option.split)

lemma subscribe_fields [simp]:
  "h_seq (fst (hub_subscribe alive c ch h)) = h_seq h" "h_buffer (fst (hub_subscribe alive c ch h)) = h_buffer h"
  "h_capacity (fst (hub_subscribe alive c ch h)) = h_capacity h"
  by (simp_all add: hub_subscribe_def Let_def)

lemma unsubscribe_fields [simp]:
  "h_seq (fst (hub_unsubscribe alive c ch h)) = h_seq h" "h_buffer (fst (hub_unsubscribe alive c ch h)) = h_buffer h"
  "h_capacity (fst (hub_unsubscribe alive c ch h)) = h_capacity h"
  by (simp_all add: hub_unsubscribe_def Let_def)

lemma hub_run_buffer: "hub_run cap h msgs \<Longrightarrow> buffer_newest cap h msgs"
proof (induction rule: hub_run.induct)
  case (broadcast h msgs m channel alive)
  then show ?case
    using buffer_append_drop [of cap _ "numbered msgs"]
    by (simp add: buffer_newest_def numbered_snoc)
qed (simp_all add: buffer_newest_def hub_init_def hub_connect_def numbered_def)

section \<open>Deliveries\<close>

definition live :: "(nat \<Rightarrow> bool) \<Rightarrow> hub \<Rightarrow> string \<Rightarrow> bool" where
  "live alive h c = (case d_get (h_connections h) c of None \<Rightarrow> False | Some w \<Rightarrow> alive w)"

definition socket_of :: "hub \<Rightarrow> string \<Rightarrow> nat" where
  "socket_of h c = (case d_get (h_connections h) c of None \<Rightarrow> 0 | Some w \<Rightarrow> w)"

lemma send_to_client_eq:
  "send_to_client alive c m h =
     (if live alive h c then (h\<lparr>h_sent := h_sent h @ [(socket_of h c, m)]\<rparr>, True) else (h, False))"
  by (simp add: send_to_client_def live_def socket_of_def split: option.split)

lemma live_sent [simp]:
  "live alive (h\<lparr>h_sent := xs\<rparr>) = live alive h" "socket_of (h\<lparr>h_sent := xs\<rparr>) = socket_of h"
  by (simp_all add: live_def socket_of_def fun_eq_iff)

lemma live_fields [simp]:
  "live alive (h\<lparr>h_seq := n, h_buffer := b\<rparr>) = live alive h"
  "socket_of (h\<lparr>h_seq := n, h_buffer := b\<rparr>) = socket_of h"
  by (simp_all add: live_def socket_of_def fun_eq_iff)

lemma send_all_eq:
  "send_all alive cs m h =
     (h\<lparr>h_sent := h_sent h @ map (\<lambda>c. (socket_of h c, m)) (filter (live alive h) cs)\<rparr>,
      length (filter (live alive h) cs))"
  by (induction cs arbitrary: h) (simp_all add: send_to_client_eq Let_def)

text \<open>Whether a buffered message is one a client with these channels has missed.\<close>

definition missed :: "string list \<Rightarrow> int \<Rightarrow> int \<times> ws_message \<Rightarrow> bool" where
  "missed channels last_seq entry \<longleftrightarrow> last_seq < fst entry \<and>
     (case wm_channel (snd entry) of None \<Rightarrow> False | Some ch \<Rightarrow> ch \<noteq> [] \<and> ch \<in> set channels)"

lemma replay_eq:
  assumes "live alive h c"
  shows "replay alive c channels last_seq b h =
     h\<lparr>h_sent := h_sent h @ map (\<lambda>e. (socket_of h c, snd e)) (filter (missed channels last_seq) b)\<rparr>"
  using assms
proof (induction b arbitrary: h)
  case (Cons e b)
  obtain n m where e: "e = (n, m)" by (cases e)
  show ?case
    using Cons.prems by (cases "wm_channel m") (simp_all add: e Cons.IH missed_def send_to_client_eq)
qed simp

lemma numbered_ends:
  assumes "msgs \<noteq> []" "0 < cap"
  defines "b \<equiv> drop (length msgs - cap) (numbered msgs)"
  shows "b \<noteq> []" "fst (hd b) = int (length msgs - cap) + 1" "fst (List.last b) = int (length msgs)"
proof -
  have len: "length msgs - cap < length msgs" using assms by simp
  then show ne: "b \<noteq> []" by (simp add: b_def)
  have "hd b = numbered msgs ! (length msgs - cap)"
    using len by (simp add: b_def hd_drop_conv_nth)
  then show "fst (hd b) = int (length msgs - cap) + 1"
    using len by (simp add: numbered_nth)
  have "List.last b = numbered msgs ! (length msgs - 1)"
    using len ne by (simp add: b_def last_drop) (simp add: last_conv_nth flip: length_greater_0_conv)
  then show "fst (List.last b) = int (length msgs)"
    using len by (simp add: numbered_nth of_nat_diff)
qed

lemma missed_past_end:
  assumes "int (length msgs) \<le> l"
  shows "filter (missed channels l) (drop k (numbered msgs)) = []"
proof -
  have "fst e \<le> int (length msgs)" if "e \<in> set (drop k (numbered msgs))" for e
    using in_set_dropD [OF that] by (auto simp: in_set_conv_nth numbered_nth)
  with assms show ?thesis
    by (fastforce simp: filter_empty_conv missed_def)
qed

lemma filter_missed_drop:
  assumes "int k + 1 \<le> l"
  shows "filter (missed channels l) (numbered msgs) = filter (missed channels l) (drop k (numbered msgs))"
proof -
  have "\<not> missed channels l e" if "e \<in> set (take k (numbered msgs))" for e
    using that assms by (auto simp: in_set_conv_nth numbered_nth missed_def)
  then have "filter (missed channels l) (take k (numbered msgs)) = []"
    by (simp add: filter_empty_conv)
  then show ?thesis
    using filter_append [of "missed channels l" "take k (numbered msgs)" "drop k (numbered msgs)"] by simp
qed

section \<open>Properties\<close>

text \<open>A hub with two clients and three messages, for concrete instances.\<close>

definition demo_msg :: "string \<Rightarrow> string \<Rightarrow> ws_message" where
  "demo_msg channel body = \<lparr>wm_type = Ticker, wm_seq = None, wm_channel = Some channel, wm_data = Payload body\<rparr>"

definition demo_sent :: "(string \<times> ws_message) list" where
  "demo_sent = [(''t'', demo_msg ''t'' ''a''), (''u'', demo_msg ''u'' ''b''), (''t'', demo_msg ''t'' ''c'')]"

definition demo_hub :: hub where
  "demo_hub = fold (\<lambda>(ch, m) h. fst (hub_broadcast (\<lambda>_. True) ch m h)) demo_sent
     (fst (hub_subscribe (\<lambda>_. True) ''c'' ''t'' (hub_connect 8 ''d'' (hub_connect 7 ''c'' (hub_init 3)))))"

lemma demo_hub_run: "hub_run 3 demo_hub demo_sent"
proof -
  let ?h = "fst (hub_subscribe (\<lambda>_. True) ''c'' ''t'' (hub_connect 8 ''d'' (hub_connect 7 ''c'' (hub_init 3))))"
  have "hub_run 3 ?h []"
    by (intro hub_run.intros) (simp_all add: hub_init_def hub_connect_def)
  then have "hub_run 3 demo_hub ((([] @ [(''t'', demo_msg ''t'' ''a'')]) @ [(''u'', demo_msg ''u'' ''b'')]) @ [(''t'', demo_msg ''t'' ''c'')])"
    unfolding demo_hub_def demo_sent_def fold_simps o_def id_def prod.case
    by (intro hub_run.broadcast) (simp_all add: demo_msg_def)
  then show ?thesis by (simp add: demo_sent_def)
qed

text \<open>Whatever happened before, a broadcast takes the next sequence number, which is the number
of broadcasts so far, leaves in the replay buffer the newest messages up to the capacity, and
delivers the numbered message once to every connected client subscribed to the channel whose
socket accepts it, to nobody else, and returns how many there were.\<close>

theorem hub_broadcast_exact:
  fixes alive :: "nat \<Rightarrow> bool" and channel :: string and h :: hub and msgs :: "(string \<times> ws_message) list"
  assumes run: "hub_run cap h msgs"
    and ch: "wm_channel m = Some channel"
  defines "n \<equiv> int (length msgs) + 1"
    and "receivers \<equiv> filter (live alive h) (set_of (h_channels h) channel)"
  shows "(hub_broadcast alive channel m h =
      (h\<lparr>h_seq := n,
         h_buffer := drop (length msgs + 1 - cap) (numbered (msgs @ [(channel, m)])),
         h_sent := h_sent h @ map (\<lambda>c. (socket_of h c, m\<lparr>wm_seq := Some n\<rparr>)) receivers\<rparr>, length receivers)) \<and>
    (distinct receivers) \<and>
    (client \<in> set receivers \<longleftrightarrow>
      (\<exists>w. d_get (h_connections h) client = Some w \<and> alive w) \<and> channel \<in> set (set_of (h_subscriptions h) client))"
proof -
  have con: "hub_consistent h" by (rule hub_run_consistent [OF run])
  have buf: "h_capacity h = cap" "h_seq h = int (length msgs)"
      "h_buffer h = drop (length msgs - cap) (numbered msgs)"
    using hub_run_buffer [OF run] by (simp_all add: buffer_newest_def)
  have "buffer_append cap (n, m\<lparr>wm_seq := Some n\<rparr>) (drop (length msgs - cap) (numbered msgs)) =
      drop (length msgs + 1 - cap) (numbered (msgs @ [(channel, m)]))"
    using buffer_append_drop [of cap _ "numbered msgs"] by (simp add: numbered_snoc n_def)
  then have concl1: "hub_broadcast alive channel m h =
      (h\<lparr>h_seq := n,
         h_buffer := drop (length msgs + 1 - cap) (numbered (msgs @ [(channel, m)])),
         h_sent := h_sent h @ map (\<lambda>c. (socket_of h c, m\<lparr>wm_seq := Some n\<rparr>)) receivers\<rparr>, length receivers)"
    by (simp add: hub_broadcast_def send_all_eq buf Let_def n_def receivers_def)
  have concl2: "distinct receivers"
    using con by (simp add: receivers_def hub_consistent_alt channels_ok_distinct)
  have concl3: "client \<in> set receivers \<longleftrightarrow>
      (\<exists>w. d_get (h_connections h) client = Some w \<and> alive w) \<and> channel \<in> set (set_of (h_subscriptions h) client)"
    using con by (auto simp: receivers_def hub_consistent_alt live_def split: option.splits)
  show ?thesis using concl1 concl2 concl3 by blast
qed

text \<open>C22. A resume, whatever happened before, on every branch. A number the buffer still reaches is
answered by delivering, in order, exactly the broadcasts after it whose channel the client is
subscribed to; a smaller number gets a resync message carrying the oldest number kept, and an
unknown client, an empty history or a number beyond the newest gets nothing. So a client that has
received nothing (number 0) is always sent to a resync once anything was broadcast.\<close>

theorem hub_resume_exact:
  fixes msgs :: "(string \<times> ws_message) list" and cap :: nat
  assumes run: "hub_run cap h msgs"
    and live: "live alive h client"
  defines "oldest \<equiv> int (length msgs - cap) + 1"
  shows "(hub_resume alive client l h =
     (if msgs = [] \<or> cap = 0 then (h, True)
      else if l < oldest
      then (h\<lparr>h_sent := h_sent h @ [(socket_of h client, create_resync_required_message ''buffer_overflow'' (Some oldest))]\<rparr>, False)
      else (h\<lparr>h_sent := h_sent h @ map (\<lambda>e. (socket_of h client, snd e))
                (filter (missed (set_of (h_subscriptions h) client) l) (numbered msgs))\<rparr>, True))) \<and>
    ((\<not> d_has (h_connections h) c')
      \<longrightarrow> (hub_resume alive c' l h = (h, False)))"
proof -
  have buf: "h_buffer h = drop (length msgs - cap) (numbered msgs)"
    using hub_run_buffer [OF run] by (simp add: buffer_newest_def)
  have conn: "d_has (h_connections h) client"
    using live by (auto simp: live_def split: option.splits)
  have concl1: "hub_resume alive c' l h = (h, False)" if "\<not> d_has (h_connections h) c'"
    using that by (simp add: hub_resume_def)
  have concl2: "hub_resume alive client l h =
     (if msgs = [] \<or> cap = 0 then (h, True)
      else if l < oldest
      then (h\<lparr>h_sent := h_sent h @ [(socket_of h client, create_resync_required_message ''buffer_overflow'' (Some oldest))]\<rparr>, False)
      else (h\<lparr>h_sent := h_sent h @ map (\<lambda>e. (socket_of h client, snd e))
                (filter (missed (set_of (h_subscriptions h) client) l) (numbered msgs))\<rparr>, True))"
  proof (cases "msgs = [] \<or> cap = 0")
    case True
    then show ?thesis using conn by (auto simp: hub_resume_def buf numbered_def)
  next
    case False
    note ends = numbered_ends [of msgs cap, folded buf]
    let ?skip = "missed (set_of (h_subscriptions h) client) l"
    have "filter ?skip (numbered msgs) = filter ?skip (h_buffer h)" if "oldest \<le> l"
      using that by (simp add: buf oldest_def filter_missed_drop)
    with False ends conn live missed_past_end [of msgs l _ "length msgs - cap"] show ?thesis
      by (simp add: hub_resume_def Let_def replay_eq send_to_client_eq oldest_def flip: buf)
  qed
  show ?thesis using concl1 concl2 by blast
qed

text \<open>A third message arrives at the one subscriber; a fourth pushes the first out.\<close>

lemma hub_broadcast_exact_witness:
  "snd (hub_broadcast (\<lambda>_. True) ''t'' (demo_msg ''t'' ''d'') demo_hub) = 1 \<and>
   map fst (h_buffer (fst (hub_broadcast (\<lambda>_. True) ''t'' (demo_msg ''t'' ''d'') demo_hub))) = [2, 3, 4]"
proof -
  have sub: "set_of (h_channels demo_hub) ''t'' = [''c'']" "live (\<lambda>_. True) demo_hub ''c''"
    by code_simp+
  have ch: "wm_channel (demo_msg ''t'' ''d'') = Some ''t''" by (simp add: demo_msg_def)
  show ?thesis
    using hub_broadcast_exact [OF demo_hub_run ch, of "\<lambda>_. True"]
    by (simp add: sub demo_sent_def numbered_def)
qed

lemma hub_resume_exact_witness:
  "snd (hub_resume (\<lambda>_. True) ''c'' 1 demo_hub) \<and>
   map (wm_seq \<circ> snd) (h_sent (fst (hub_resume (\<lambda>_. True) ''c'' 1 demo_hub))) =
     map (wm_seq \<circ> snd) (h_sent demo_hub) @ [Some 3] \<and>
   \<not> snd (hub_resume (\<lambda>_. True) ''c'' 0 demo_hub) \<and>
   hub_resume (\<lambda>_. True) ''x'' 0 demo_hub = (demo_hub, False)"
proof -
  have live: "live (\<lambda>_. True) demo_hub ''c''" and sub: "set_of (h_subscriptions demo_hub) ''c'' = [''t'']"
    and no: "\<not> d_has (h_connections demo_hub) ''x''"
    by code_simp+
  show ?thesis
    using hub_resume_exact [OF demo_hub_run live, of 1 "''x''"] hub_resume_exact [OF demo_hub_run live, of 0 "''x''"] no
    by (simp add: sub demo_sent_def numbered_def missed_def demo_msg_def)
qed

end
