(* ===== verification/WsEndpoint.thy ===== *)
theory WsEndpoint
  imports WsHub_Props Config
begin

text \<open>
  The WebSocket endpoint, \<open>application/api/ws_routes.py\<close>: it accepts a socket, gives it a new client
  id, and turns each message received into an operation of the hub until the socket ends. A step is
  the handling of one received message; those of several clients interleave. The text of an
  unknown message type is left out of the error message.
\<close>

section \<open>Channels\<close>

definition get_valid_ws_symbols :: "environ \<Rightarrow> string list" where
  "get_valid_ws_symbols env =
     (let raw = (case env ''LIGHTER_SYMBOLS'' of
            Some (c # s) \<Rightarrow> c # s
          | _ \<Rightarrow> (case env ''SYMBOLS'' of Some (c # s) \<Rightarrow> c # s | _ \<Rightarrow> ''ETH,BTC,XAUUSD,EURUSD''))
      in map (\<lambda>s. py_upper (py_strip s)) (filter (\<lambda>s. py_strip s \<noteq> []) (py_split (CHR '','') raw)))"

definition is_valid_channel :: "environ \<Rightarrow> string \<Rightarrow> bool" where
  "is_valid_channel env channel =
     (case py_split (CHR '':'') channel of
        [_] \<Rightarrow> channel \<in> {''positions'', ''balance'', ''execution''}
      | [channel_type, symbol] \<Rightarrow>
          channel_type = ''ticker'' \<and> py_upper symbol \<in> set (get_valid_ws_symbols env)
      | [channel_type, symbol, timeframe] \<Rightarrow>
          channel_type = ''candle'' \<and> py_upper symbol \<in> set (get_valid_ws_symbols env) \<and> timeframe = ''1m''
      | _ \<Rightarrow> False)"

section \<open>Handling a message\<close>

datatype received = Json json | BadJson string | Ended

text \<open>
  A handler answers whether the loop goes on; \<open>False\<close> is an exception that ends it. Writing to
  a dead socket raises.
\<close>

definition send_error :: "(nat \<Rightarrow> bool) \<Rightarrow> nat \<Rightarrow> string \<Rightarrow> hub \<Rightarrow> hub \<times> bool" where
  "send_error alive w e h =
     (if alive w then (h\<lparr>h_sent := h_sent h @ [(w, create_error_message e None)]\<rparr>, True) else (h, False))"

definition handle_subscribe ::
  "environ \<Rightarrow> (nat \<Rightarrow> bool) \<Rightarrow> string \<Rightarrow> nat \<Rightarrow> json \<Rightarrow> hub \<Rightarrow> hub \<times> bool" where
  "handle_subscribe env alive client w channel h =
     (if \<not> truthy channel then send_error alive w ''Missing channel'' h
      else (case channel of
          JStr ch \<Rightarrow> if is_valid_channel env ch then (fst (hub_subscribe alive client ch h), True)
                     else send_error alive w (''Invalid channel: '' @ ch) h
        | _ \<Rightarrow> (h, False)))"

text \<open>
  An unsubscription is not validated. A list or a dictionary is not hashable; a number is, and
  is then confirmed.
\<close>

definition handle_unsubscribe ::
  "(nat \<Rightarrow> bool) \<Rightarrow> string \<Rightarrow> nat \<Rightarrow> json \<Rightarrow> hub \<Rightarrow> hub \<times> bool" where
  "handle_unsubscribe alive client w channel h =
     (if \<not> truthy channel then send_error alive w ''Missing channel'' h
      else (case channel of
          JStr ch \<Rightarrow> (fst (hub_unsubscribe alive client ch h), True)
        | JArr xs \<Rightarrow> (h, False)
        | JObj xs \<Rightarrow> (h, False)
        | _ \<Rightarrow> (fst (send_to_client alive client
                 \<lparr>wm_type = Unsubscribed, wm_seq = None, wm_channel = None,
                  wm_data = StatusFor channel ''unsubscribed''\<rparr> h), True)))"

definition handle_resume :: "(nat \<Rightarrow> bool) \<Rightarrow> string \<Rightarrow> nat \<Rightarrow> json option \<Rightarrow> hub \<Rightarrow> hub \<times> bool" where
  "handle_resume alive client w data h =
     (case (case data of None \<Rightarrow> JObj [] | Some d \<Rightarrow> d) of
        JObj obj \<Rightarrow> (case j_get obj ''last_seq'' of
            JNull \<Rightarrow> send_error alive w ''Missing last_seq'' h
          | JInt n \<Rightarrow> (fst (hub_resume alive client n h), True)
          | JBool b \<Rightarrow> (fst (hub_resume alive client (if b then 1 else 0) h), True)
          | _ \<Rightarrow> send_error alive w ''Invalid last_seq (must be integer)'' h)
      | _ \<Rightarrow> (h, False))"

definition handle_message ::
  "environ \<Rightarrow> (nat \<Rightarrow> bool) \<Rightarrow> string \<Rightarrow> nat \<Rightarrow> received \<Rightarrow> hub \<Rightarrow> hub \<times> bool" where
  "handle_message env alive client w event h =
     (case event of
        Ended \<Rightarrow> (h, False)
      | BadJson e \<Rightarrow> send_error alive w (''Invalid JSON: '' @ e) h
      | Json (JObj obj) \<Rightarrow>
          (if j_get obj ''type'' = JStr ''subscribe''
           then handle_subscribe env alive client w (j_get obj ''channel'') h
           else if j_get obj ''type'' = JStr ''unsubscribe''
           then handle_unsubscribe alive client w (j_get obj ''channel'') h
           else if j_get obj ''type'' = JStr ''resume''
           then handle_resume alive client w (map_of obj ''data'') h
           else send_error alive w ''Unknown message type'' h)
      | Json _ \<Rightarrow> (h, False))"

text \<open>One turn of the loop, with the \<open>finally\<close> clause when it ends.\<close>

definition endpoint_receive ::
  "environ \<Rightarrow> (nat \<Rightarrow> bool) \<Rightarrow> string \<Rightarrow> nat \<Rightarrow> received \<Rightarrow> hub \<Rightarrow> hub" where
  "endpoint_receive env alive client w event h =
     (let (h1, on) = handle_message env alive client w event h
      in if on then h1 else hub_disconnect client h1)"

text \<open>The hub of a running service: sockets are accepted, messages received and published.\<close>

inductive ws_run :: "environ \<Rightarrow> nat \<Rightarrow> hub \<Rightarrow> (string \<times> ws_message) list \<Rightarrow> bool"
  for env :: environ and cap :: nat where
  start: "ws_run env cap (hub_init cap) []"
| accept: "ws_run env cap h msgs \<Longrightarrow> \<not> d_has (h_connections h) client \<Longrightarrow>
    ws_run env cap (hub_connect w client h) msgs"
| receive: "ws_run env cap h msgs \<Longrightarrow> d_get (h_connections h) client = Some w \<Longrightarrow>
    ws_run env cap (endpoint_receive env alive client w event h) msgs"
| publish: "ws_run env cap h msgs \<Longrightarrow> wm_channel m = Some channel \<Longrightarrow>
    ws_run env cap (fst (hub_broadcast alive channel m h)) (msgs @ [(channel, m)])"

section \<open>The endpoint drives the hub by its operations\<close>

lemma run_send_to_client: "hub_run cap h msgs \<Longrightarrow> hub_run cap (fst (send_to_client alive c m h)) msgs"
  by (simp add: send_to_client_eq hub_run.frame)

lemma run_send_error: "hub_run cap h msgs \<Longrightarrow> hub_run cap (fst (send_error alive w e h)) msgs"
  by (simp add: send_error_def hub_run.frame)

lemma handle_message_run:
  assumes "hub_run cap h msgs"
  shows "hub_run cap (fst (handle_message env alive client w event h)) msgs"
  using assms run_send_error run_send_to_client hub_run.subscribe hub_run.unsubscribe hub_run.resume
  by (simp add: handle_message_def handle_subscribe_def handle_unsubscribe_def handle_resume_def
      split: received.split json.split option.split)

lemma endpoint_receive_run:
  "hub_run cap h msgs \<Longrightarrow> hub_run cap (endpoint_receive env alive client w event h) msgs"
  using handle_message_run [of cap h msgs env alive client w event]
  by (auto simp: endpoint_receive_def split: prod.split intro: hub_run.disconnect)

section \<open>Only valid channels\<close>

definition only_valid :: "environ \<Rightarrow> hub \<Rightarrow> bool" where
  [inv_defs]: "only_valid env h \<longleftrightarrow>
     (\<forall>client. \<forall>ch \<in> set (set_of (h_subscriptions h) client). is_valid_channel env ch)"

lemma only_valid_mono:
  "only_valid env h \<Longrightarrow> (\<And>c. set (set_of (h_subscriptions h') c) \<subseteq> set (set_of (h_subscriptions h) c)) \<Longrightarrow>
   only_valid env h'"
  by (auto simp: only_valid_def)

lemma only_valid_disconnect: "only_valid env h \<Longrightarrow> only_valid env (hub_disconnect c h)"
  by (erule only_valid_mono) (auto simp: hub_disconnect_def Let_def split: option.splits)

lemma only_valid_unsubscribe: "only_valid env h \<Longrightarrow> only_valid env (fst (hub_unsubscribe alive c ch h))"
  by (erule only_valid_mono) (auto simp: hub_unsubscribe_def Let_def set_of_def split: option.splits)

lemma only_valid_subscribe:
  "only_valid env h \<Longrightarrow> is_valid_channel env ch \<Longrightarrow> only_valid env (fst (hub_subscribe alive c ch h))"
  by (auto simp: only_valid_def hub_subscribe_def Let_def)

lemma only_valid_same:
  "h_subscriptions h' = h_subscriptions h \<Longrightarrow> only_valid env h' \<longleftrightarrow> only_valid env h"
  by (simp add: only_valid_def)

lemma send_error_subscriptions [simp]: "h_subscriptions (fst (send_error alive w e h)) = h_subscriptions h"
  by (simp add: send_error_def)

lemma only_valid_frames [simp]:
  "only_valid env (fst (send_error alive w e h)) \<longleftrightarrow> only_valid env h"
  "only_valid env (fst (send_to_client alive c m h)) \<longleftrightarrow> only_valid env h"
  "only_valid env (fst (hub_resume alive c l h)) \<longleftrightarrow> only_valid env h"
  "only_valid env (fst (hub_broadcast alive ch m h)) \<longleftrightarrow> only_valid env h"
  by (rule only_valid_same, simp)+

lemma handle_message_valid:
  "only_valid env h \<Longrightarrow> only_valid env (fst (handle_message env alive client w event h))"
  using only_valid_subscribe [of env h] only_valid_unsubscribe [of env h]
  by (simp add: handle_message_def handle_subscribe_def handle_unsubscribe_def handle_resume_def
      split: received.split json.split option.split)

lemma ws_run_valid: "ws_run env cap h msgs \<Longrightarrow> only_valid env h"
proof (induction rule: ws_run.induct)
  case (receive h msgs client w alive event)
  then have "only_valid env (fst (handle_message env alive client w event h))"
    by (intro handle_message_valid)
  then show ?case by (auto simp: endpoint_receive_def only_valid_disconnect split: prod.split)
qed (simp_all, simp_all add: only_valid_def hub_init_def hub_connect_def)

lemma disconnect_gone: "\<not> d_has (h_connections (hub_disconnect c h)) c"
  by (simp add: hub_disconnect_def Let_def)

lemma disconnect_channels:
  assumes "hub_consistent h"
  shows "set (set_of (h_channels (hub_disconnect c h)) ch) = set (set_of (h_channels h) ch) - {c}"
proof (cases "d_get (h_subscriptions h) c")
  case None
  have "c \<notin> set (set_of (h_channels h) ch)"
    using assms set_of_None [OF None] by (simp add: hub_consistent_alt)
  with None show ?thesis by (simp add: hub_disconnect_def)
next
  case (Some chs)
  have "c \<in> set (set_of (h_channels h) ch) \<longleftrightarrow> ch \<in> set chs"
    using assms set_of_Some [OF Some] by (simp add: hub_consistent_alt)
  with Some show ?thesis by (auto simp: hub_disconnect_def leave_all_set)
qed

section \<open>Properties\<close>

text \<open>C23. However accepting, receiving and publishing interleave, the endpoint uses the hub only as
its runs allow, so every promise of the hub holds for the running service; every subscription
is to a valid channel; and a client whose socket ends or sends what is not a JSON object is gone
from the connections and from every channel, all others keeping their subscriptions.\<close>

theorem ws_endpoint_refines_hub:
  assumes run: "ws_run env cap h msgs"
  shows "(hub_run cap h msgs) \<and>
    ((ch \<in> set (set_of (h_subscriptions h) client))
      \<longrightarrow> (is_valid_channel env ch)) \<and>
    ((event = Ended \<or> (\<exists>j. event = Json j \<and> (\<forall>obj. j \<noteq> JObj obj)))
      \<longrightarrow> (h' = endpoint_receive env alive client w event h)
      \<longrightarrow> (\<not> d_has (h_connections h') client \<and>
      (\<forall>channel. set (set_of (h_channels h') channel) = set (set_of (h_channels h) channel) - {client})))"
proof -
  have hub: "ws_run env cap h msgs \<Longrightarrow> hub_run cap h msgs" for h msgs
    by (induction rule: ws_run.induct) (auto intro: hub_run.intros endpoint_receive_run)
  have concl1: "hub_run cap h msgs" by (rule hub [OF run])
  then have con: "hub_consistent h" by (rule hub_run_consistent)
  have concl2: "is_valid_channel env ch" if "ch \<in> set (set_of (h_subscriptions h) client)"
    using ws_run_valid [OF run] that by (auto simp: only_valid_def)
  have concl3: "\<not> d_has (h_connections h') client \<and>
      (\<forall>channel. set (set_of (h_channels h') channel) = set (set_of (h_channels h) channel) - {client})"
    if "event = Ended \<or> (\<exists>j. event = Json j \<and> (\<forall>obj. j \<noteq> JObj obj))"
      and "h' = endpoint_receive env alive client w event h"
  proof -
    have "handle_message env alive client w event h = (h, False)"
      using that(1) by (auto simp: handle_message_def split: json.split)
    then have h': "h' = hub_disconnect client h"
      by (simp add: that(2) endpoint_receive_def)
    show ?thesis unfolding h'
      using disconnect_channels [OF con] disconnect_gone [of client h] by blast
  qed
  show ?thesis using concl1 concl2 concl3 by blast
qed

definition demo_env :: environ where "demo_env = (\<lambda>_. None)"

lemma ws_endpoint_refines_hub_witness:
  "hub_run 3 (endpoint_receive demo_env (\<lambda>_. True) ''c'' 7
      (Json (JObj [(''type'', JStr ''subscribe''), (''channel'', JStr ''ticker:ETH'')]))
      (hub_connect 7 ''c'' (hub_init 3))) [] \<and>
   is_valid_channel demo_env ''ticker:ETH'' \<and>
   \<not> d_has (h_connections (endpoint_receive demo_env (\<lambda>_. True) ''c'' 7 Ended (hub_connect 7 ''c'' (hub_init 3)))) ''c''"
proof -
  let ?h0 = "hub_connect 7 ''c'' (hub_init 3)"
  let ?ev = "Json (JObj [(''type'', JStr ''subscribe''), (''channel'', JStr ''ticker:ETH'')])"
  have r0: "ws_run demo_env 3 ?h0 []"
    by (rule ws_run.accept [OF ws_run.start]) (simp add: hub_init_def)
  have r1: "ws_run demo_env 3 (endpoint_receive demo_env (\<lambda>_. True) ''c'' 7 ?ev ?h0) []"
    by (rule ws_run.receive [OF r0]) (simp add: hub_connect_def)
  have "''ticker:ETH'' \<in> set (set_of (h_subscriptions
      (endpoint_receive demo_env (\<lambda>_. True) ''c'' 7 ?ev ?h0)) ''c'')"
    by code_simp
  with ws_endpoint_refines_hub [OF r1, where ch = "''ticker:ETH''" and client = "''c''"]
    ws_endpoint_refines_hub [OF r0, where event = Ended and alive = "\<lambda>_. True" and client = "''c''" and w = 7
      and h' = "endpoint_receive demo_env (\<lambda>_. True) ''c'' 7 Ended ?h0"]
  show ?thesis by simp
qed

end
