(* ===== verification/MarketHours.thy ===== *)
theory MarketHours
  imports PyTime
begin

text \<open>
  The trading calendar, \<open>application/market_hours/fx_24_5.py\<close>: foreign exchange and gold trade from
  Sunday 22:00 to Friday 22:00 UTC. Instants are epoch seconds.
\<close>

definition FX_24_5_SYMBOLS :: "string set" where
  "FX_24_5_SYMBOLS = {''EURUSD'', ''GBPUSD'', ''XAUUSD'', ''XAU'', ''USDJPY'', ''AUDUSD''}"

definition MARKET_HOURS_UNKNOWN_SYMBOLS :: "string set" where
  "MARKET_HOURS_UNKNOWN_SYMBOLS =
     {''GOOGUSD'', ''NVDAUSD'', ''DAXEUR'', ''SPXUSD'', ''NDXUSD'', ''MSFT'', ''NVDA''}"

definition normalize_symbol :: "string \<Rightarrow> string" where
  "normalize_symbol symbol =
     (let s = py_strip (py_upper symbol) in if s = ''XAU'' then ''XAUUSD'' else s)"

definition get_market_state :: "string \<Rightarrow> int + datetime \<Rightarrow> bool \<times> string" where
  "get_market_state symbol ts_utc =
     (let s = normalize_symbol symbol in
      if s \<in> MARKET_HOURS_UNKNOWN_SYMBOLS then (True, ''unknown'')
      else if s \<notin> FX_24_5_SYMBOLS then (True, ''open'')
      else
        (let ts = (case ts_utc of Inl n \<Rightarrow> n | Inr d \<Rightarrow> timestamp_int d);
             dt = fromtimestamp utc (ts * second_us);
             wd = dt_weekday dt; mins = dt_hour dt * 60 + dt_minute dt
         in if wd = 5 then (False, ''closed'')
            else if wd = 6 then (mins \<ge> 22 * 60, if mins \<ge> 22 * 60 then ''open'' else ''closed'')
            else if wd = 4 then (mins < 22 * 60, if mins < 22 * 60 then ''open'' else ''closed'')
            else (True, ''open'')))"

definition is_market_open :: "string \<Rightarrow> int + datetime \<Rightarrow> bool" where
  "is_market_open symbol ts_utc = fst (get_market_state symbol ts_utc)"

definition stale_degradation_applies :: "string \<Rightarrow> int + datetime \<Rightarrow> bool" where
  "stale_degradation_applies symbol ts_utc =
     (let (is_open, reason) = get_market_state symbol ts_utc in is_open \<and> reason = ''open'')"

text \<open>The two loops of \<open>closed_intervals_between\<close>: the end of a closed block, and the blocks.\<close>

function closed_end :: "string \<Rightarrow> int \<Rightarrow> int \<Rightarrow> int" where
  "closed_end symbol ts to_ts =
     (if ts < to_ts \<and> \<not> is_market_open symbol (Inl ts) then closed_end symbol (ts + 60) to_ts else ts)"
  by pat_completeness auto
termination by (relation "measure (\<lambda>(_, ts, to_ts). nat (to_ts - ts))") auto

declare closed_end.simps [simp del]

lemma closed_end_ge: "ts \<le> closed_end symbol ts to_ts"
proof (induction symbol ts to_ts rule: closed_end.induct)
  case (1 symbol ts to_ts)
  then show ?case by (subst closed_end.simps) auto
qed

lemma closed_end_gt:
  "ts < to_ts \<Longrightarrow> \<not> is_market_open symbol (Inl ts) \<Longrightarrow> ts < closed_end symbol ts to_ts"
  using closed_end_ge [of "ts + 60" symbol to_ts] by (subst closed_end.simps) simp

function closed_blocks :: "string \<Rightarrow> int \<Rightarrow> int \<Rightarrow> (int \<times> int) list" where
  "closed_blocks symbol ts to_ts =
     (if ts < to_ts
      then if \<not> is_market_open symbol (Inl ts)
           then (ts, closed_end symbol ts to_ts) # closed_blocks symbol (closed_end symbol ts to_ts) to_ts
           else closed_blocks symbol (ts + 60) to_ts
      else [])"
  by pat_completeness auto
termination by (relation "measure (\<lambda>(_, ts, to_ts). nat (to_ts - ts))") (auto simp: closed_end_gt)

declare closed_blocks.simps [simp del]

definition closed_intervals_between :: "string \<Rightarrow> int \<Rightarrow> int \<Rightarrow> (int \<times> int) list" where
  "closed_intervals_between symbol from_ts to_ts =
     (if normalize_symbol symbol \<notin> FX_24_5_SYMBOLS then []
      else closed_blocks symbol (from_ts div 60 * 60) (((to_ts - 1) div 60 + 1) * 60))"

definition count_closed_minutes_between :: "string \<Rightarrow> int \<Rightarrow> int \<Rightarrow> int" where
  "count_closed_minutes_between symbol from_ts to_ts =
     fold (\<lambda>(s, e) total. total + (e - s) div 60) (closed_intervals_between symbol from_ts to_ts) 0"

definition count_closed_seconds_in_gap :: "string \<Rightarrow> int \<Rightarrow> int \<Rightarrow> int" where
  "count_closed_seconds_in_gap symbol gap_start gap_end =
     fold (\<lambda>(s, e) total. let a = max s gap_start; b = min e gap_end in if a < b then total + (b - a) else total)
       (closed_intervals_between symbol gap_start gap_end) 0"

section \<open>The calendar as arithmetic\<close>

text \<open>The minutes of a week are counted from Thursday 00:00 UTC, the weekday of the epoch.\<close>

definition fx_closed_minute :: "int \<Rightarrow> bool" where
  "fx_closed_minute m \<longleftrightarrow> 2760 \<le> m mod 10080 \<and> m mod 10080 < 5640"

abbreviation is_fx :: "string \<Rightarrow> bool" where
  "is_fx symbol \<equiv> normalize_symbol symbol \<in> FX_24_5_SYMBOLS"

lemma fx_known: "is_fx symbol \<Longrightarrow> normalize_symbol symbol \<notin> MARKET_HOURS_UNKNOWN_SYMBOLS"
  by (auto simp: FX_24_5_SYMBOLS_def MARKET_HOURS_UNKNOWN_SYMBOLS_def)

lemma dt_fields_of_ts:
  fixes ts :: int
  defines "dt \<equiv> fromtimestamp utc (ts * second_us)" and "m \<equiv> ts div 60"
  shows "dt_weekday dt = (m div 1440 + 3) mod 7" "dt_hour dt * 60 + dt_minute dt = m mod 1440"
proof -
  have wall: "dt_wall dt = ts * 1000000" by (simp add: dt_def fromtimestamp_def utc_def)
  have day: "ts * 1000000 div 86400000000 = m div 1440"
    by (simp add: m_def zdiv_zmult2_eq [symmetric])
  then show "dt_weekday dt = (m div 1440 + 3) mod 7"
    by (simp add: dt_weekday_def dt_day_def wall)
  have "dt_hour dt = ts mod 86400 div 3600"
    using mod_mult_mult2 [of ts 1000000 86400] div_mult_mult2 [of 1000000 "ts mod 86400" 3600]
    by (simp add: dt_hour_def wall)
  moreover have "dt_minute dt = ts mod 3600 div 60"
    using mod_mult_mult2 [of ts 1000000 3600] div_mult_mult2 [of 1000000 "ts mod 3600" 60]
    by (simp add: dt_minute_def wall)
  moreover have "ts mod 86400 div 3600 = ts div 3600 mod 24"
    using zmod_zmult2_eq [of 24 ts 3600] by simp
  moreover have "ts mod 3600 div 60 = m mod 60"
    using zmod_zmult2_eq [of 60 ts 60] by (simp add: m_def)
  moreover have "m mod 1440 = 60 * (ts div 3600 mod 24) + m mod 60"
    using zmod_zmult2_eq [of 24 m 60] zdiv_zmult2_eq [of 60 ts 60] by (simp add: m_def)
  ultimately show "dt_hour dt * 60 + dt_minute dt = m mod 1440"
    by simp
qed

lemma market_open_arith:
  assumes "is_fx symbol"
  shows "is_market_open symbol (Inl ts) \<longleftrightarrow> \<not> fx_closed_minute (ts div 60)"
proof -
  define m where "m = ts div 60"
  define wd where "wd = (m div 1440 + 3) mod 7"
  define mins where "mins = m mod 1440"
  define d where "d = m div 1440 mod 7"
  have isopen: "is_market_open symbol (Inl ts) \<longleftrightarrow>
      \<not> (wd = 5 \<or> wd = 6 \<and> mins < 1320 \<or> wd = 4 \<and> 1320 \<le> mins)"
    using assms fx_known [OF assms] dt_fields_of_ts [of ts, folded m_def]
    by (auto simp: is_market_open_def get_market_state_def Let_def wd_def mins_def)
  have week: "m mod 10080 = d * 1440 + mins"
    using zmod_zmult2_eq [of 7 m 1440] by (simp add: mins_def d_def)
  have mins: "0 \<le> mins" "mins < 1440" by (simp_all add: mins_def)
  have wd: "wd = (d + 3) mod 7" by (simp add: wd_def d_def mod_simps)
  have "0 \<le> d" "d < 7" by (simp_all add: d_def)
  then consider "d = 0" | "d = 1" | "d = 2" | "d = 3" | "d = 4" | "d = 5" | "d = 6" by arith
  then show ?thesis
    unfolding isopen fx_closed_minute_def m_def [symmetric] week wd
    by cases (insert mins, auto)
qed

end
