(* ===== verification/MarketHours_Props.thy ===== *)
theory MarketHours_Props
  imports MarketHours
begin

text \<open>
  The calendar against arithmetic: the open test is an interval of the week, the closed intervals
  of a range cover exactly its closed instants in maximal blocks, and the two counts are the
  numbers of closed minutes and seconds.
\<close>

section \<open>Closed blocks\<close>

definition fx_closed :: "int \<Rightarrow> bool" where "fx_closed t \<longleftrightarrow> fx_closed_minute (t div 60)"

lemma fx_closed_block: "60 dvd s \<Longrightarrow> s \<le> t \<Longrightarrow> t < s + 60 \<Longrightarrow> fx_closed t = fx_closed s"
proof -
  assume "60 dvd s" "s \<le> t" "t < s + 60"
  then obtain k where "s = 60 * k" by (auto elim: dvdE)
  with \<open>s \<le> t\<close> \<open>t < s + 60\<close> have "t div 60 = k" "s div 60 = k"
    using int_div_pos_eq [of t 60 k "t - s"] by auto
  then show ?thesis by (simp add: fx_closed_def)
qed

lemma open_iff: "is_fx symbol \<Longrightarrow> is_market_open symbol (Inl t) \<longleftrightarrow> \<not> fx_closed t"
  by (simp add: market_open_arith fx_closed_def)

lemma aligned_step: "60 dvd (a::int) \<Longrightarrow> 60 dvd b \<Longrightarrow> a < b \<Longrightarrow> a + 60 \<le> b"
  by (auto elim!: dvdE)

lemma closed_end_props:
  assumes "is_fx symbol" "60 dvd ts" "60 dvd to_ts" "ts \<le> to_ts"
  shows "60 dvd closed_end symbol ts to_ts" "closed_end symbol ts to_ts \<le> to_ts"
    "ts \<le> t \<Longrightarrow> t < closed_end symbol ts to_ts \<Longrightarrow> fx_closed t"
    "closed_end symbol ts to_ts < to_ts \<Longrightarrow> \<not> fx_closed (closed_end symbol ts to_ts)"
proof -
  let ?e = "\<lambda>ts. closed_end symbol ts to_ts"
  have "60 dvd ?e ts \<and> ?e ts \<le> to_ts \<and> (\<forall>t. ts \<le> t \<and> t < ?e ts \<longrightarrow> fx_closed t) \<and> (?e ts < to_ts \<longrightarrow> \<not> fx_closed (?e ts))"
    using assms
  proof (induction symbol ts to_ts rule: closed_end.induct)
    case (1 symbol ts to_ts)
    let ?e = "\<lambda>ts. closed_end symbol ts to_ts"
    show ?case
    proof (cases "ts < to_ts \<and> \<not> is_market_open symbol (Inl ts)")
      case True
      then have e: "?e ts = ?e (ts + 60)" by (subst closed_end.simps) simp
      have IH: "60 dvd ?e (ts + 60) \<and> ?e (ts + 60) \<le> to_ts \<and>
          (\<forall>t. ts + 60 \<le> t \<and> t < ?e (ts + 60) \<longrightarrow> fx_closed t) \<and> (?e (ts + 60) < to_ts \<longrightarrow> \<not> fx_closed (?e (ts + 60)))"
        using "1.IH" "1.prems" True aligned_step [of ts to_ts] by simp
      have now: "fx_closed t" if "ts \<le> t" "t < ts + 60" for t
        using fx_closed_block [of ts t] that True "1.prems" by (simp add: open_iff)
      have "fx_closed t" if "ts \<le> t" "t < ?e (ts + 60)" for t
        using now [of t] IH that by (cases "t < ts + 60") simp_all
      with IH show ?thesis unfolding e by simp
    next
      case False
      then have "?e ts = ts" by (subst closed_end.simps) auto
      with False "1.prems" show ?thesis by (auto simp: open_iff)
    qed
  qed
  then show "60 dvd ?e ts" "?e ts \<le> to_ts" "ts \<le> t \<Longrightarrow> t < ?e ts \<Longrightarrow> fx_closed t" "?e ts < to_ts \<Longrightarrow> \<not> fx_closed (?e ts)"
    by auto
qed

definition covers :: "(int \<times> int) list \<Rightarrow> int \<Rightarrow> bool" where
  "covers ivs t \<longleftrightarrow> (\<exists>(s, e) \<in> set ivs. s \<le> t \<and> t < e)"

lemma covers_simps [simp]:
  "\<not> covers [] t" "covers ((s, e) # ivs) t \<longleftrightarrow> s \<le> t \<and> t < e \<or> covers ivs t"
  by (auto simp: covers_def)

lemma closed_blocks_props:
  assumes "is_fx symbol" "60 dvd ts" "60 dvd to_ts"
  shows "(s, e) \<in> set (closed_blocks symbol ts to_ts) \<Longrightarrow> ts \<le> s \<and> s < e \<and> e \<le> to_ts \<and> 60 dvd s \<and> 60 dvd e"
    "covers (closed_blocks symbol ts to_ts) t \<longleftrightarrow> ts \<le> t \<and> t < to_ts \<and> fx_closed t"
    "sorted_wrt (\<lambda>x y. snd x < fst y) (closed_blocks symbol ts to_ts)"
proof -
  have "(\<forall>(s, e) \<in> set (closed_blocks symbol ts to_ts). ts \<le> s \<and> s < e \<and> e \<le> to_ts \<and> 60 dvd s \<and> 60 dvd e) \<and>
    (\<forall>t. covers (closed_blocks symbol ts to_ts) t \<longleftrightarrow> ts \<le> t \<and> t < to_ts \<and> fx_closed t) \<and>
    sorted_wrt (\<lambda>x y. snd x < fst y) (closed_blocks symbol ts to_ts)"
    using assms
  proof (induction symbol ts to_ts rule: closed_blocks.induct)
    case (1 symbol ts to_ts)
    consider (stop) "\<not> ts < to_ts" | (open_now) "ts < to_ts" "is_market_open symbol (Inl ts)"
      | (block) "ts < to_ts" "\<not> is_market_open symbol (Inl ts)" by blast
    then show ?case
    proof cases
      case stop
      then show ?thesis by (subst (1 2 3) closed_blocks.simps) simp
    next
      case open_now
      then have eq: "closed_blocks symbol ts to_ts = closed_blocks symbol (ts + 60) to_ts"
        by (subst closed_blocks.simps) simp
      note IH = "1.IH"(2) [OF open_now(1) _ "1.prems"(1) _ "1.prems"(3)]
      have "\<not> fx_closed t" if "ts \<le> t" "t < ts + 60" for t
        using fx_closed_block [of ts t] that open_now "1.prems" by (simp add: open_iff)
      then have "ts \<le> t \<and> t < to_ts \<and> fx_closed t \<longleftrightarrow> ts + 60 \<le> t \<and> t < to_ts \<and> fx_closed t" for t
        by (meson less_le_trans not_le order_trans zless_add1_eq le_add_same_cancel1 zero_le_numeral)
      with IH open_now "1.prems" show ?thesis unfolding eq by auto
    next
      case block
      let ?e = "closed_end symbol ts to_ts"
      have eq: "closed_blocks symbol ts to_ts = (ts, ?e) # closed_blocks symbol ?e to_ts"
        using block by (subst closed_blocks.simps) simp
      note e = closed_end_props [OF "1.prems" less_imp_le [OF block(1)]]
      have gt: "ts < ?e" using block by (rule closed_end_gt)
      note IH = "1.IH"(1) [OF block "1.prems"(1) e(1) "1.prems"(3)]
      have later: "?e < s" if "(s, e') \<in> set (closed_blocks symbol ?e to_ts)" for s e'
      proof -
        from that IH have "?e \<le> s" "s < e'" "e' \<le> to_ts" by auto
        moreover have "covers (closed_blocks symbol ?e to_ts) s"
          using that \<open>s < e'\<close> by (force simp: covers_def)
        then have "fx_closed s" using IH by blast
        ultimately show ?thesis using e(4) by (cases "s = ?e") auto
      qed
      have "ts \<le> t \<and> t < to_ts \<and> fx_closed t \<longleftrightarrow> ts \<le> t \<and> t < ?e \<or> ?e \<le> t \<and> t < to_ts \<and> fx_closed t" for t
        using e(2,3) gt by force
      with IH e gt later "1.prems" show ?thesis unfolding eq by fastforce
    qed
  qed
  then show "(s, e) \<in> set (closed_blocks symbol ts to_ts) \<Longrightarrow> ts \<le> s \<and> s < e \<and> e \<le> to_ts \<and> 60 dvd s \<and> 60 dvd e"
    "covers (closed_blocks symbol ts to_ts) t \<longleftrightarrow> ts \<le> t \<and> t < to_ts \<and> fx_closed t"
    "sorted_wrt (\<lambda>x y. snd x < fst y) (closed_blocks symbol ts to_ts)"
    by auto
qed

section \<open>Counting\<close>

lemma count_seconds:
  assumes "sorted_wrt (\<lambda>x y. snd x < fst y) ivs" "\<forall>(s, e) \<in> set ivs. s < e"
  shows "fold (\<lambda>(s, e) total. let x = max s a; y = min e b in if x < y then total + (y - x) else total) ivs (acc::int)
    = acc + int (card {t. a \<le> t \<and> t < b \<and> covers ivs t})"
  using assms
proof (induction ivs arbitrary: acc)
  case (Cons iv ivs)
  obtain s e where iv: "iv = (s, e)" by (cases iv)
  have split: "{t. a \<le> t \<and> t < b \<and> covers (iv # ivs) t} =
      {max s a..<min e b} \<union> {t. a \<le> t \<and> t < b \<and> covers ivs t}"
    by (auto simp: iv)
  have "{max s a..<min e b} \<inter> {t. a \<le> t \<and> t < b \<and> covers ivs t} = {}"
    using Cons.prems by (fastforce simp: iv covers_def)
  moreover have "finite {t. a \<le> t \<and> t < b \<and> covers ivs t}"
    by (rule finite_subset [of _ "{a..<b}"]) auto
  ultimately have "card {t. a \<le> t \<and> t < b \<and> covers (iv # ivs) t} =
      nat (min e b - max s a) + card {t. a \<le> t \<and> t < b \<and> covers ivs t}"
    unfolding split by (subst card_Un_disjoint) simp_all
  moreover have "(if x < y then acc + (y - x) else acc) = acc + int (nat (y - x))" for x y by simp
  ultimately show ?case using Cons by (simp only: iv fold_simps prod.case Let_def o_apply) simp
qed simp

text \<open>The minutes of aligned intervals.\<close>

lemma covers_minutes:
  assumes "60 dvd s" "60 dvd e"
  shows "{m. covers ((s, e) # ivs) (60 * m)} = {s div 60..<e div 60} \<union> {m. covers ivs (60 * m)}"
  using assms by (auto elim!: dvdE)

lemma finite_covers: "\<forall>(s, e) \<in> set ivs. 60 dvd s \<and> 60 dvd e \<Longrightarrow> finite {m. covers ivs (60 * m)}"
proof (induction ivs)
  case (Cons iv ivs)
  then show ?case by (cases iv) (simp only: covers_minutes, auto simp: covers_minutes simp del: covers_simps)
qed simp

lemma count_minutes:
  assumes "sorted_wrt (\<lambda>x y. snd x < fst y) ivs" "\<forall>(s, e) \<in> set ivs. s < e \<and> 60 dvd s \<and> 60 dvd e"
  shows "fold (\<lambda>(s, e) total. total + (e - s) div 60) ivs (acc::int) = acc + int (card {m. covers ivs (60 * m)})"
  using assms
proof (induction ivs arbitrary: acc)
  case (Cons iv ivs)
  obtain s e where iv: "iv = (s, e)" by (cases iv)
  have dvd: "60 dvd s" "60 dvd e" and lt: "s < e" using Cons.prems by (auto simp: iv)
  have "{s div 60..<e div 60} \<inter> {m. covers ivs (60 * m)} = {}"
    using Cons.prems by (fastforce simp: iv covers_def elim!: dvdE)
  moreover have "finite {m. covers ivs (60 * m)}"
    using Cons.prems by (intro finite_covers) auto
  ultimately have "card {m. covers (iv # ivs) (60 * m)} =
      nat (e div 60 - s div 60) + card {m. covers ivs (60 * m)}"
    unfolding iv covers_minutes [OF dvd] by (subst card_Un_disjoint) simp_all
  moreover have "(e - s) div 60 = int (nat (e div 60 - s div 60))"
    using dvd lt by (auto elim!: dvdE simp: right_diff_distrib [symmetric])
  ultimately show ?case using Cons by (simp add: iv)
qed simp

lemma week_minute:
  fixes t :: int
  shows "165600 \<le> t mod 604800 \<longleftrightarrow> 2760 \<le> t div 60 mod 10080"
    and "t mod 604800 < 338400 \<longleftrightarrow> t div 60 mod 10080 < 5640"
proof -
  obtain M r where "t mod 604800 = 60 * M + r" "M = t div 60 mod 10080" "0 \<le> r" "r < 60"
    using zmod_zmult2_eq [of 10080 t 60] by (auto intro: that [of _ "t mod 60"])
  then show "165600 \<le> t mod 604800 \<longleftrightarrow> 2760 \<le> t div 60 mod 10080"
    "t mod 604800 < 338400 \<longleftrightarrow> t div 60 mod 10080 < 5640"
    by auto
qed

section \<open>Properties\<close>

text \<open>C24. A foreign exchange symbol is closed exactly from Friday 22:00 to Sunday 22:00 UTC. The closed
intervals of a range lie apart from each other, are not empty, and cover an instant of the range
exactly when the market is closed then; the counts are the numbers of closed seconds of a gap,
and of closed minutes that the range touches.\<close>

theorem fx_calendar_correct:
  fixes a b :: int
  assumes fx: "is_fx symbol"
  defines "ivs \<equiv> closed_intervals_between symbol a b"
  shows "(is_market_open symbol (Inl t) \<longleftrightarrow> \<not> (165600 \<le> t mod 604800 \<and> t mod 604800 < 338400)) \<and>
    (sorted_wrt (\<lambda>x y. snd x < fst y) ivs) \<and>
    (((s, e) \<in> set ivs)
      \<longrightarrow> (s < e)) \<and>
    ((a \<le> t \<and> t < b)
      \<longrightarrow> ((\<exists>(s, e) \<in> set ivs. s \<le> t \<and> t < e) \<longleftrightarrow> \<not> is_market_open symbol (Inl t))) \<and>
    (count_closed_seconds_in_gap symbol a b = int (card {t. a \<le> t \<and> t < b \<and> \<not> is_market_open symbol (Inl t)})) \<and>
    (count_closed_minutes_between symbol a b =
      int (card {m. a div 60 \<le> m \<and> m \<le> (b - 1) div 60 \<and> \<not> is_market_open symbol (Inl (60 * m))}))"
proof -
  let ?a = "a div 60 * 60" and ?b = "((b - 1) div 60 + 1) * 60"
  have ivs: "ivs = closed_blocks symbol ?a ?b"
    using fx by (simp add: ivs_def closed_intervals_between_def)
  note blocks = closed_blocks_props [OF fx, of ?a ?b, folded ivs]
  have wider: "?a \<le> t" if "a \<le> t" for t using that by presburger
  have wider': "t < ?b" if "t < b" for t using that by presburger
  have concl1: "is_market_open symbol (Inl t) \<longleftrightarrow> \<not> (165600 \<le> t mod 604800 \<and> t mod 604800 < 338400)"
    unfolding market_open_arith [OF fx] fx_closed_minute_def week_minute [of t] by simp
  have concl2: "sorted_wrt (\<lambda>x y. snd x < fst y) ivs" by (rule blocks(3)) simp_all
  have concl3: "s < e" if "(s, e) \<in> set ivs" for s e using blocks(1) [OF _ _ that] by simp
  then have ne: "\<forall>(s, e) \<in> set ivs. s < e" by auto
  have cover: "covers ivs t \<longleftrightarrow> ?a \<le> t \<and> t < ?b \<and> \<not> is_market_open symbol (Inl t)" for t
    using blocks(2) [of t] by (simp add: open_iff [OF fx])
  have concl4: "(\<exists>(s, e) \<in> set ivs. s \<le> t \<and> t < e) \<longleftrightarrow> \<not> is_market_open symbol (Inl t)" if "a \<le> t \<and> t < b"
    using cover [of t] wider [of t] wider' [of t] that by (simp add: covers_def)
  have "{t. a \<le> t \<and> t < b \<and> covers ivs t} = {t. a \<le> t \<and> t < b \<and> \<not> is_market_open symbol (Inl t)}"
    using cover wider wider' by blast
  then have concl5: "count_closed_seconds_in_gap symbol a b = int (card {t. a \<le> t \<and> t < b \<and> \<not> is_market_open symbol (Inl t)})"
    using count_seconds [OF concl2 ne, of a b 0]
    by (simp add: count_closed_seconds_in_gap_def ivs_def)
  have "{m. covers ivs (60 * m)} =
      {m. a div 60 \<le> m \<and> m \<le> (b - 1) div 60 \<and> \<not> is_market_open symbol (Inl (60 * m))}"
    by (auto simp: cover)
  moreover have "\<forall>(s, e) \<in> set ivs. s < e \<and> 60 dvd s \<and> 60 dvd e" using blocks(1) by auto
  ultimately have concl6: "count_closed_minutes_between symbol a b =
      int (card {m. a div 60 \<le> m \<and> m \<le> (b - 1) div 60 \<and> \<not> is_market_open symbol (Inl (60 * m))})"
    using count_minutes [OF concl2, of 0]
    by (simp add: count_closed_minutes_between_def ivs_def)
  show ?thesis using concl1 concl2 concl3 concl4 concl5 concl6 by blast
qed

text \<open>Friday 21:59:30 to 22:01:10 in the first week of the epoch.\<close>

lemma fx_calendar_correct_witness:
  "\<not> is_market_open ''xau'' (Inl 165600) \<and> is_market_open ''xau'' (Inl 165599) \<and>
   int (card {t. 165570 \<le> t \<and> t < 165670 \<and> \<not> is_market_open ''xau'' (Inl t)}) = 70"
proof -
  have fx: "is_fx ''xau''" by code_simp
  have "count_closed_seconds_in_gap ''xau'' 165570 165670 = 70" by code_simp
  with fx_calendar_correct [OF fx, where t = 165600 and a = 165570 and b = 165670]
    fx_calendar_correct [OF fx, where t = 165599 and a = 165570 and b = 165670]
  show ?thesis by simp
qed

end
