(* ===== verification/SltpStore.thy ===== *)
theory SltpStore
  imports Json
begin

text \<open>
  The store of stop losses and take profits, \<open>infrastructure/storage/sltp_store.py\<close>: a JSON file
  with one object per position, read whole and replaced whole by every write. The file is missing,
  unreadable, or holds a JSON value. An entry that is neither an object nor empty makes a write
  raise (an array of pairs, which \<open>dict\<close> would take, is not told apart). \<open>now\<close> is the text of the
  current time; a write is assumed to reach the disk. The path of
  the file is left out.
\<close>

datatype sltp_file = Missing | Unreadable | Content json

definition read_raw :: "sltp_file \<Rightarrow> (string, json) dict" where
  "read_raw f = (case f of Content (JObj d) \<Rightarrow> d | _ \<Rightarrow> [])"

definition sltp_entry :: "sltp_file \<Rightarrow> string \<Rightarrow> (string, json) dict option" where
  "sltp_entry f pid = (case d_get (read_raw f) pid of Some (JObj e) \<Rightarrow> Some e | _ \<Rightarrow> None)"

definition get_sltp :: "sltp_file \<Rightarrow> string \<Rightarrow> (pfloat option \<times> pfloat option) option" where
  "get_sltp f pid =
     (case sltp_entry f pid of
        None \<Rightarrow> None
      | Some e \<Rightarrow>
          (let sl = j_number (j_get e ''sl''); tp = j_number (j_get e ''tp'')
           in if sl = None \<and> tp = None then None else Some (sl, tp)))"

definition get_sltp_indices ::
  "sltp_file \<Rightarrow> string \<Rightarrow> pfloat option \<times> pfloat option \<times> int option \<times> int option" where
  "get_sltp_indices f pid =
     (case sltp_entry f pid of
        None \<Rightarrow> (None, None, None, None)
      | Some e \<Rightarrow> (j_number (j_get e ''sl''), j_number (j_get e ''tp''),
                   j_integer (j_get e ''sl_order_index''), j_integer (j_get e ''tp_order_index'')))"

text \<open>The comprehension of \<open>get_all\<close>, in the order of the file.\<close>

definition sltp_get_all :: "sltp_file \<Rightarrow> (string, pfloat option \<times> pfloat option) dict" where
  "sltp_get_all f = concat (map (\<lambda>(pid, entry).
     (case entry of JObj e \<Rightarrow> [(pid, (j_number (j_get e ''sl''), j_number (j_get e ''tp'')))] | _ \<Rightarrow> []))
     (read_raw f))"

definition entry_copy :: "sltp_file \<Rightarrow> string \<Rightarrow> (string, json) dict result" where
  "entry_copy f pid =
     (case d_get (read_raw f) pid of
        None \<Rightarrow> Inr []
      | Some j \<Rightarrow> if \<not> truthy j then Inr []
                  else (case j of JObj e \<Rightarrow> Inr e | _ \<Rightarrow> Inl (OtherError ''dict()'')))"

definition write_entry :: "string \<Rightarrow> string \<Rightarrow> (string, json) dict \<Rightarrow> sltp_file \<Rightarrow> sltp_file" where
  "write_entry now pid e f = Content (JObj (d_set pid (JObj (d_set ''updated_at'' (JStr now) e)) (read_raw f)))"

definition set_opt :: "string \<Rightarrow> json option \<Rightarrow> (string, json) dict \<Rightarrow> (string, json) dict" where
  "set_opt k v e = (case v of None \<Rightarrow> e | Some x \<Rightarrow> d_set k x e)"

definition set_sltp ::
  "string \<Rightarrow> string \<Rightarrow> pfloat option \<Rightarrow> pfloat option \<Rightarrow> int option \<Rightarrow> int option \<Rightarrow> sltp_file \<Rightarrow> sltp_file result" where
  "set_sltp now pid sl tp sl_ix tp_ix f =
     (case entry_copy f pid of
        Inl e \<Rightarrow> Inl e
      | Inr e \<Rightarrow> Inr (write_entry now pid
          (set_opt ''tp_order_index'' (map_option JInt tp_ix)
            (set_opt ''sl_order_index'' (map_option JInt sl_ix)
              (set_opt ''tp'' (map_option JFloat tp) (set_opt ''sl'' (map_option JFloat sl) e)))) f))"

definition clear_sl :: "string \<Rightarrow> string \<Rightarrow> sltp_file \<Rightarrow> sltp_file result" where
  "clear_sl now pid f =
     (case entry_copy f pid of
        Inl e \<Rightarrow> Inl e
      | Inr e \<Rightarrow> Inr (write_entry now pid (d_del ''sl_order_index'' (d_del ''sl'' e)) f))"

definition clear_tp :: "string \<Rightarrow> string \<Rightarrow> sltp_file \<Rightarrow> sltp_file result" where
  "clear_tp now pid f =
     (case entry_copy f pid of
        Inl e \<Rightarrow> Inl e
      | Inr e \<Rightarrow> Inr (write_entry now pid (d_del ''tp_order_index'' (d_del ''tp'' e)) f))"

section \<open>The store as a map\<close>

text \<open>A file the store has written: an object of objects, or none.\<close>

definition file_ok :: "sltp_file \<Rightarrow> bool" where
  [inv_defs]: "file_ok f \<longleftrightarrow> dict_wf (read_raw f) \<and> (\<forall>pid j. d_get (read_raw f) pid = Some j \<longrightarrow> (\<exists>e. j = JObj e))"

type_synonym sltp = "pfloat option \<times> pfloat option \<times> int option \<times> int option"

definition merge_opt :: "'a option \<Rightarrow> 'a option \<Rightarrow> 'a option" where
  "merge_opt new old = (case new of None \<Rightarrow> old | Some x \<Rightarrow> Some x)"

lemma merge_opt_simps [simp]: "merge_opt None x = x" "merge_opt (Some v) x = Some v"
  by (simp_all add: merge_opt_def)

definition sltp_map :: "sltp_file \<Rightarrow> string \<Rightarrow> sltp" where
  "sltp_map f = get_sltp_indices f"

lemma file_okD: "file_ok f \<Longrightarrow> d_get (read_raw f) pid = Some j \<Longrightarrow> \<exists>e. j = JObj e"
  unfolding file_ok_def by blast

lemma entry_copy_ok:
  assumes "file_ok f"
  shows "entry_copy f pid = Inr (case sltp_entry f pid of None \<Rightarrow> [] | Some e \<Rightarrow> e)"
proof (cases "d_get (read_raw f) pid")
  case (Some j)
  with file_okD [OF assms Some] obtain e where "j = JObj e" by blast
  with Some show ?thesis by (simp add: entry_copy_def sltp_entry_def truthy_def)
qed (simp add: entry_copy_def sltp_entry_def)

lemma read_write [simp]:
  "read_raw (write_entry now pid e f) = d_set pid (JObj (d_set ''updated_at'' (JStr now) e)) (read_raw f)"
  by (simp add: write_entry_def read_raw_def)

lemma file_ok_write:
  assumes "file_ok f"
  shows "file_ok (write_entry now pid e f)"
proof -
  have "\<exists>e'. j = JObj e'" if "d_get (read_raw (write_entry now pid e f)) pid' = Some j" for pid' j
    using that file_okD [OF assms, of pid' j] by (cases "pid' = pid") auto
  moreover have "dict_wf (read_raw (write_entry now pid e f))"
    using assms by (simp add: file_ok_def)
  ultimately show ?thesis unfolding file_ok_def by blast
qed

lemma entry_write [simp]:
  "sltp_entry (write_entry now pid e f) pid' =
     (if pid' = pid then Some (d_set ''updated_at'' (JStr now) e) else sltp_entry f pid')"
  by (simp add: sltp_entry_def)

lemma j_get_set_opt [simp]:
  "j_get (set_opt k v e) k' = (if k' = k then (case v of None \<Rightarrow> j_get e k' | Some x \<Rightarrow> x) else j_get e k')"
  by (simp add: set_opt_def split: option.split)

lemma number_opt [simp]:
  "j_number (case map_option JFloat v of None \<Rightarrow> j | Some x \<Rightarrow> x) = merge_opt v (j_number j)"
  "j_integer (case map_option JInt i of None \<Rightarrow> j | Some x \<Rightarrow> x) = merge_opt i (j_integer j)"
  by (simp_all split: option.split)

lemma get_sltp_map:
  "get_sltp f pid = (case sltp_map f pid of (sl, tp, _) \<Rightarrow> if sl = None \<and> tp = None then None else Some (sl, tp))"
  by (simp add: get_sltp_def sltp_map_def get_sltp_indices_def Let_def split: option.split)

lemma get_all_map:
  assumes "file_ok f"
  shows "d_get (sltp_get_all f) pid =
     (if d_has (read_raw f) pid then (case sltp_map f pid of (sl, tp, _) \<Rightarrow> Some (sl, tp)) else None)"
proof -
  have get: "d_get (concat (map (\<lambda>(pid, entry).
       (case entry of JObj e \<Rightarrow> [(pid, (j_number (j_get e ''sl''), j_number (j_get e ''tp'')))] | _ \<Rightarrow> [])) d)) pid =
     (case d_get d pid of Some (JObj e) \<Rightarrow> Some (j_number (j_get e ''sl''), j_number (j_get e ''tp'')) | _ \<Rightarrow> None)"
    if "dict_wf d" for d
    using that
  proof (induction d)
    case (Cons kv d)
    obtain k v where kv: "kv = (k, v)" by (cases kv)
    have "k \<notin> set (d_keys d)" using Cons.prems by (simp add: dict_wf_def kv)
    then have "d_get d k = None" by (simp add: map_of_eq_None_iff)
    with Cons show ?case by (cases v) (auto simp: kv dict_wf_def)
  qed simp
  have "dict_wf (read_raw f)" using assms by (simp add: file_ok_def)
  note get [OF this]
  moreover have "\<exists>e. j = JObj e" if "d_get (read_raw f) pid = Some j" for j
    using file_okD [OF assms that] .
  ultimately show ?thesis
    by (auto simp: sltp_get_all_def sltp_map_def get_sltp_indices_def sltp_entry_def split: option.splits)
qed

section \<open>Properties\<close>

text \<open>On a file the store wrote (or none, or an unreadable one) every write succeeds, leaves
such a file, and updates one position of a map: a set replaces exactly the levels and order
indices given, a clear removes the level with its index; the readers agree with the map.\<close>

theorem sltp_store_refines_map:
  assumes "file_ok f"
  shows "(\<exists>f'. set_sltp now pid sl tp six tix f = Inr f' \<and> file_ok f' \<and>
      sltp_map f' = (sltp_map f)(pid := (case sltp_map f pid of (sl0, tp0, six0, tix0) \<Rightarrow>
        (merge_opt sl sl0, merge_opt tp tp0, merge_opt six six0, merge_opt tix tix0)))) \<and>
    (\<exists>f'. clear_sl now pid f = Inr f' \<and> file_ok f' \<and>
      sltp_map f' = (sltp_map f)(pid := (case sltp_map f pid of (sl0, tp0, six0, tix0) \<Rightarrow> (None, tp0, None, tix0)))) \<and>
    (\<exists>f'. clear_tp now pid f = Inr f' \<and> file_ok f' \<and>
      sltp_map f' = (sltp_map f)(pid := (case sltp_map f pid of (sl0, tp0, six0, tix0) \<Rightarrow> (sl0, None, six0, None)))) \<and>
    (get_sltp f pid = (case sltp_map f pid of (sl, tp, _) \<Rightarrow> if sl = None \<and> tp = None then None else Some (sl, tp))) \<and>
    (d_get (sltp_get_all f) pid =
      (if d_has (read_raw f) pid then (case sltp_map f pid of (sl, tp, _) \<Rightarrow> Some (sl, tp)) else None))"
  apply (intro conjI)
  subgoal using assms
    by (simp add: set_sltp_def entry_copy_ok file_ok_write fun_eq_iff sltp_map_def get_sltp_indices_def
        split: option.split)
  subgoal using assms
    by (simp add: clear_sl_def entry_copy_ok file_ok_write fun_eq_iff sltp_map_def get_sltp_indices_def
        split: option.split)
  subgoal using assms
    by (simp add: clear_tp_def entry_copy_ok file_ok_write fun_eq_iff sltp_map_def get_sltp_indices_def
        split: option.split)
  subgoal by (rule get_sltp_map)
  subgoal by (rule get_all_map [OF assms])
  done

lemma sltp_store_refines_map_witness:
  "\<exists>f'. set_sltp ''now'' ''p1'' (Some 10) None (Some 3) None Unreadable = Inr f' \<and> sltp_map f' ''p1'' = (Some 10, None, Some 3, None)"
proof -
  have "file_ok Unreadable" by (simp add: file_ok_def read_raw_def)
  moreover have "sltp_map Unreadable ''p1'' = (None, None, None, None)" by code_simp
  ultimately show ?thesis
    using sltp_store_refines_map [of Unreadable "''now''" "''p1''" "Some 10" None "Some 3" None] by auto
qed

end
