(* ===== verification/Reconcile.thy ===== *)
theory Reconcile
  imports Orders_Model SltpStore
begin

text \<open>
  Reconciliation of local and venue positions: \<open>application/services/reconcile_service.py\<close>,
  \<open>bootstrap_service.py\<close>, the models \<open>domain/models/reconcile.py\<close> and \<open>reconcile_actions.py\<close>, the
  tracker \<open>infrastructure/reconcile/in_memory_tracker.py\<close> behind \<open>domain/interfaces/position_tracker.py\<close>
  and the sink \<open>logging_sink.py\<close>. What the venue answers is an argument. Logging is left out except
  for the resync requests, whose only effect it is.
\<close>

section \<open>The comparison\<close>

definition position_size :: "position \<Rightarrow> pfloat" where
  "position_size p = (if p_notional p \<noteq> 0 then p_notional p else fmul (p_collateral p) (p_leverage p))"

definition mismatch_fields :: "position \<Rightarrow> position \<Rightarrow> string list" where
  "mismatch_fields venue lcl =
     (if p_symbol venue \<noteq> p_symbol lcl then [''symbol''] else []) @
     (if p_is_long venue \<noteq> p_is_long lcl then [''is_long''] else []) @
     (if position_size venue \<noteq> position_size lcl then [''size''] else [])"

record position_mismatch =
  pm_position_id :: string
  pm_venue :: position
  pm_local :: position
  pm_fields :: "string list"

record reconcile_result =
  rr_missing_locally :: "position list"
  rr_extra_locally :: "position list"
  rr_mismatch :: "position_mismatch list"

definition has_diffs :: "reconcile_result \<Rightarrow> bool" where
  "has_diffs r \<longleftrightarrow> rr_missing_locally r \<noteq> [] \<or> rr_extra_locally r \<noteq> [] \<or> rr_mismatch r \<noteq> []"

definition by_id :: "position list \<Rightarrow> (string, position) dict" where
  "by_id ps = dict_of (map (\<lambda>p. (position_id p, p)) ps)"

definition compute_reconcile_result :: "position list \<Rightarrow> position list \<Rightarrow> reconcile_result" where
  "compute_reconcile_result venue_positions local_positions =
     (let venue = by_id venue_positions; lcl = by_id local_positions in
      \<lparr>rr_missing_locally = map snd (filter (\<lambda>(pid, p). \<not> d_has lcl pid) venue),
       rr_extra_locally = map snd (filter (\<lambda>(pid, p). \<not> d_has venue pid) lcl),
       rr_mismatch = List.map_filter (\<lambda>(pid, vp). (case d_get lcl pid of
           None \<Rightarrow> None
         | Some lp \<Rightarrow> if mismatch_fields vp lp = [] then None
             else Some \<lparr>pm_position_id = pid, pm_venue = vp, pm_local = lp,
                        pm_fields = mismatch_fields vp lp\<rparr>)) venue\<rparr>)"

section \<open>Actions\<close>

datatype reconcile_action = MarkStalePosition string string "string list" | RequestResync string "string option"

definition build_actions :: "reconcile_result \<Rightarrow> string option \<Rightarrow> reconcile_action list" where
  "build_actions r venue_name =
     (if rr_missing_locally r \<noteq> [] then [RequestResync ''missing_locally'' venue_name] else []) @
     map (\<lambda>p. MarkStalePosition (position_id p) ''extra_locally'' []) (rr_extra_locally r) @
     map (\<lambda>m. MarkStalePosition (pm_position_id m) (''mismatch:'' @ py_join '','' (pm_fields m)) (pm_fields m))
       (rr_mismatch r) @
     (if rr_mismatch r \<noteq> [] then [RequestResync ''mismatch'' venue_name] else [])"

section \<open>The tracker interface and its clients\<close>

record 't tracker_ops =
  to_upsert :: "position \<Rightarrow> 't \<Rightarrow> 't"
  to_get_positions :: "'t \<Rightarrow> position list"
  to_mark_stale :: "string \<Rightarrow> string \<Rightarrow> 't \<Rightarrow> 't"
  to_update_sltp :: "string \<Rightarrow> pfloat option \<Rightarrow> pfloat option \<Rightarrow> 't \<Rightarrow> 't"

text \<open>\<open>LoggingReconcileSink.handle\<close>: the tracker, and the warnings (reason and venue).\<close>

fun sink_handle :: "'t tracker_ops \<Rightarrow> reconcile_action list \<Rightarrow> 't \<Rightarrow> 't \<times> (string \<times> string) list" where
  "sink_handle ops [] t = (t, [])"
| "sink_handle ops (MarkStalePosition pid reason fs # as) t = sink_handle ops as (to_mark_stale ops pid reason t)"
| "sink_handle ops (RequestResync reason venue # as) t =
     (let (t', ws) = sink_handle ops as t
      in (t', (reason, case venue of Some (c # v) \<Rightarrow> c # v | _ \<Rightarrow> ''venue'') # ws))"

definition run_bootstrap ::
  "'t tracker_ops \<Rightarrow> bool \<Rightarrow> (string, pfloat option \<times> pfloat option) dict option \<Rightarrow> position list result \<Rightarrow> 't \<Rightarrow> 't \<times> int result" where
  "run_bootstrap ops mark_missing_stale sltp answer t =
     (case answer of
        Inl e \<Rightarrow> (t, Inl e)
      | Inr positions \<Rightarrow>
          (let t1 = fold (to_upsert ops) positions t;
               gone = filter (\<lambda>p. position_id p \<notin> position_id ` set positions) (to_get_positions ops t1);
               t2 = if mark_missing_stale then fold (\<lambda>p. to_mark_stale ops (position_id p) ''not_at_venue'') gone t1 else t1;
               t3 = (case sltp of None \<Rightarrow> t2
                     | Some entries \<Rightarrow> fold (\<lambda>(pid, sl, tp). to_update_sltp ops pid sl tp) entries t2)
           in (t3, Inr (int (length positions)))))"

text \<open>
  One turn of \<open>_reconcile_loop\<close> on the venue's answer, with the tracker as the local provider and,
  if there is a sink, the logging sink on it. \<open>None\<close> is a tick that failed.
\<close>

definition reconcile_tick ::
  "'t tracker_ops \<Rightarrow> bool \<Rightarrow> string option \<Rightarrow> position list result \<Rightarrow> 't \<Rightarrow> 't \<times> reconcile_result option \<times> (string \<times> string) list" where
  "reconcile_tick ops with_sink venue_name answer t =
     (case answer of
        Inl e \<Rightarrow> (t, None, [])
      | Inr positions \<Rightarrow>
          (let r = compute_reconcile_result positions (to_get_positions ops t) in
           if has_diffs r \<and> with_sink
           then (let (t', ws) = sink_handle ops (build_actions r venue_name) t in (t', Some r, ws))
           else (t, Some r, [])))"

fun reconcile_loop ::
  "'t tracker_ops \<Rightarrow> bool \<Rightarrow> string option \<Rightarrow> position list result list \<Rightarrow> 't \<Rightarrow> 't \<times> reconcile_result option list" where
  "reconcile_loop ops with_sink venue_name [] t = (t, [])"
| "reconcile_loop ops with_sink venue_name (answer # answers) t =
     (let (t1, r, ws) = reconcile_tick ops with_sink venue_name answer t;
          (t2, rs) = reconcile_loop ops with_sink venue_name answers t1
      in (t2, r # rs))"

text \<open>\<open>start\<close> runs the bootstrap before anything else; when it raises the service does not run.\<close>

record reconcile_service =
  rs_running :: bool

definition reconcile_start :: "('t \<Rightarrow> 't \<times> int result) option \<Rightarrow> reconcile_service \<times> 't \<Rightarrow> (reconcile_service \<times> 't) \<times> unit result" where
  "reconcile_start bootstrap st =
     (case st of (s, t) \<Rightarrow>
        if rs_running s then ((s, t), Inr ())
        else (case bootstrap of
            None \<Rightarrow> ((s\<lparr>rs_running := True\<rparr>, t), Inr ())
          | Some b \<Rightarrow> (case b t of
                (t', Inl e) \<Rightarrow> ((s, t'), Inl e)
              | (t', Inr n) \<Rightarrow> ((s\<lparr>rs_running := True\<rparr>, t'), Inr ()))))"

definition reconcile_stop :: "reconcile_service \<Rightarrow> reconcile_service" where
  "reconcile_stop s = s\<lparr>rs_running := False\<rparr>"

definition DEFAULT_RECONCILE_INTERVAL_S :: pfloat where "DEFAULT_RECONCILE_INTERVAL_S = 60"

definition reconcile_interval_sec_from_env :: "(string \<Rightarrow> pfloat option) \<Rightarrow> (string \<Rightarrow> string option) \<Rightarrow> pfloat" where
  "reconcile_interval_sec_from_env parse_float env =
     (case env ''RECONCILE_INTERVAL_S'' of
        None \<Rightarrow> DEFAULT_RECONCILE_INTERVAL_S
      | Some raw \<Rightarrow> (case parse_float raw of None \<Rightarrow> DEFAULT_RECONCILE_INTERVAL_S | Some x \<Rightarrow> x))"

section \<open>The contract of a tracker\<close>

definition with_sltp :: "pfloat option \<Rightarrow> pfloat option \<Rightarrow> position \<Rightarrow> position" where
  "with_sltp sl tp p = p\<lparr>p_sl_price := merge_opt sl (p_sl_price p), p_tp_price := merge_opt tp (p_tp_price p)\<rparr>"

text \<open>
  A tracker is a map from position ids to positions, with a set of stale ids: an upsert stores
  the position and trusts it again, a mark only distrusts, new levels only change levels.
\<close>

locale position_tracker =
  fixes ops :: "'t tracker_ops"
    and wf :: "'t \<Rightarrow> bool"
    and tracked :: "'t \<Rightarrow> string \<Rightarrow> position option"
    and stale :: "'t \<Rightarrow> string \<Rightarrow> bool"
  assumes tracked_id: "wf t \<Longrightarrow> tracked t pid = Some p \<Longrightarrow> position_id p = pid"
    and get_law: "wf t \<Longrightarrow> set (to_get_positions ops t) = {p. \<exists>pid. tracked t pid = Some p}"
    and upsert_law: "wf t \<Longrightarrow> wf (to_upsert ops p t) \<and>
      tracked (to_upsert ops p t) = (tracked t)(position_id p \<mapsto> p) \<and>
      stale (to_upsert ops p t) = (stale t)(position_id p := False)"
    and mark_law: "wf t \<Longrightarrow> wf (to_mark_stale ops pid reason t) \<and>
      tracked (to_mark_stale ops pid reason t) = tracked t \<and>
      stale (to_mark_stale ops pid reason t) = (stale t)(pid := True)"
    and sltp_law: "wf t \<Longrightarrow> wf (to_update_sltp ops pid sl tp t) \<and>
      tracked (to_update_sltp ops pid sl tp t) =
        (tracked t)(pid := map_option (with_sltp sl tp) (tracked t pid)) \<and>
      stale (to_update_sltp ops pid sl tp t) = stale t"

section \<open>The in-memory tracker\<close>

record memory_tracker =
  mt_positions :: "(string, position) dict"
  mt_stale :: "(string, string) dict"

definition mt_init :: memory_tracker where
  "mt_init = \<lparr>mt_positions = [], mt_stale = []\<rparr>"

definition mt_upsert :: "position \<Rightarrow> memory_tracker \<Rightarrow> memory_tracker" where
  "mt_upsert p t = t\<lparr>mt_positions := d_set (position_id p) p (mt_positions t),
     mt_stale := d_del (position_id p) (mt_stale t)\<rparr>"

definition mt_get_positions :: "memory_tracker \<Rightarrow> position list" where
  "mt_get_positions t = d_values (mt_positions t)"

definition mt_mark_stale :: "string \<Rightarrow> string \<Rightarrow> memory_tracker \<Rightarrow> memory_tracker" where
  "mt_mark_stale pid reason t = t\<lparr>mt_stale := d_set pid reason (mt_stale t)\<rparr>"

definition mt_update_sltp :: "string \<Rightarrow> pfloat option \<Rightarrow> pfloat option \<Rightarrow> memory_tracker \<Rightarrow> memory_tracker" where
  "mt_update_sltp pid sl tp t =
     (case d_get (mt_positions t) pid of
        None \<Rightarrow> t
      | Some p \<Rightarrow> t\<lparr>mt_positions := d_set pid
          (p\<lparr>p_sl_price := (case sl of None \<Rightarrow> p_sl_price p | Some x \<Rightarrow> Some x),
             p_tp_price := (case tp of None \<Rightarrow> p_tp_price p | Some x \<Rightarrow> Some x)\<rparr>) (mt_positions t)\<rparr>)"

definition mt_is_stale :: "memory_tracker \<Rightarrow> string \<Rightarrow> bool" where
  "mt_is_stale t pid = d_has (mt_stale t) pid"

definition memory_ops :: "memory_tracker tracker_ops" where
  "memory_ops = \<lparr>to_upsert = mt_upsert, to_get_positions = mt_get_positions,
     to_mark_stale = mt_mark_stale, to_update_sltp = mt_update_sltp\<rparr>"

definition mt_wf :: "memory_tracker \<Rightarrow> bool" where
  [inv_defs]: "mt_wf t \<longleftrightarrow> dict_wf (mt_positions t) \<and>
     (\<forall>pid p. d_get (mt_positions t) pid = Some p \<longrightarrow> position_id p = pid)"

lemma position_id_levels [simp]:
  "position_id (p\<lparr>p_sl_price := a, p_tp_price := b\<rparr>) = position_id p"
  by (simp add: position_id_def split: option.split)

lemma with_sltp_id [simp]: "position_id (with_sltp sl tp p) = position_id p"
  by (simp add: with_sltp_def)

lemma mt_wfD: "mt_wf t \<Longrightarrow> d_get (mt_positions t) pid = Some p \<Longrightarrow> position_id p = pid"
  unfolding mt_wf_def by blast

lemma mt_wf_set:
  assumes "mt_wf t" "position_id p = pid"
  shows "mt_wf (t\<lparr>mt_positions := d_set pid p (mt_positions t)\<rparr>)"
proof -
  have "position_id q = k" if "d_get (d_set pid p (mt_positions t)) k = Some q" for k q
    using that assms mt_wfD [OF assms(1), of k q] by (cases "k = pid") auto
  with assms(1) show ?thesis by (auto simp: mt_wf_def)
qed

lemma mt_wf_stale [simp]: "mt_wf (t\<lparr>mt_stale := s\<rparr>) = mt_wf t"
  by (simp add: mt_wf_def)

lemma mt_upsert_laws:
  "mt_wf t \<Longrightarrow> mt_wf (mt_upsert p t) \<and>
     d_get (mt_positions (mt_upsert p t)) = (d_get (mt_positions t))(position_id p \<mapsto> p) \<and>
     mt_is_stale (mt_upsert p t) = (mt_is_stale t)(position_id p := False)"
  using mt_wf_set [of t p "position_id p"] by (auto simp: mt_upsert_def mt_is_stale_def fun_eq_iff)

lemma mt_update_laws:
  assumes "mt_wf t"
  shows "mt_wf (mt_update_sltp pid sl tp t) \<and>
     d_get (mt_positions (mt_update_sltp pid sl tp t)) =
       (d_get (mt_positions t))(pid := map_option (with_sltp sl tp) (d_get (mt_positions t) pid)) \<and>
     mt_is_stale (mt_update_sltp pid sl tp t) = mt_is_stale t"
proof (cases "d_get (mt_positions t) pid")
  case (Some p)
  have "mt_update_sltp pid sl tp t = t\<lparr>mt_positions := d_set pid (with_sltp sl tp p) (mt_positions t)\<rparr>"
    by (simp add: mt_update_sltp_def with_sltp_def merge_opt_def Some)
  then show ?thesis
    using mt_wf_set [OF assms, of "with_sltp sl tp p" pid] mt_wfD [OF assms Some]
    by (auto simp: mt_is_stale_def Some)
qed (use assms in \<open>auto simp: mt_update_sltp_def\<close>)

interpretation memory: position_tracker memory_ops mt_wf "\<lambda>t. d_get (mt_positions t)" mt_is_stale
proof
  fix t pid p
  assume wf: "mt_wf t"
  show "d_get (mt_positions t) pid = Some p \<Longrightarrow> position_id p = pid"
    by (rule mt_wfD [OF wf])
  show "set (to_get_positions memory_ops t) = {p. \<exists>pid. d_get (mt_positions t) pid = Some p}"
    using wf by (force simp: memory_ops_def mt_get_positions_def mt_wf_def simp flip: d_in_iff_get)
qed (simp_all add: memory_ops_def mt_upsert_laws mt_update_laws mt_mark_stale_def mt_is_stale_def fun_eq_iff)

end
