(* ===== verification/Reconcile_Props.thy ===== *)
theory Reconcile_Props
  imports Reconcile
begin

text \<open>
  What reconciliation finds and does: the comparison by ids, and, for every tracker that keeps the
  contract, the bootstrap and the loop; the properties state them for the in-memory tracker.
\<close>

section \<open>The comparison\<close>

text \<open>The position a list ends up meaning by an id: the last one that carries it.\<close>

definition last_with :: "position list \<Rightarrow> string \<Rightarrow> position option" where
  "last_with ps pid = List.find (\<lambda>p. position_id p = pid) (rev ps)"

definition agree :: "position \<Rightarrow> position \<Rightarrow> bool" where
  "agree v l \<longleftrightarrow> p_symbol v = p_symbol l \<and> p_is_long v = p_is_long l \<and> position_size v = position_size l"

lemma mismatch_fields_Nil: "mismatch_fields v l = [] \<longleftrightarrow> agree v l"
  by (simp add: mismatch_fields_def agree_def)

lemma by_id_wf [simp]: "dict_wf (by_id ps)"
  by (simp add: by_id_def)

lemma map_of_find: "map_of (map (\<lambda>p. (f p, p)) xs) k = List.find (\<lambda>p. f p = k) xs"
  by (induction xs) auto

lemma get_by_id: "d_get (by_id ps) pid = last_with ps pid"
  by (simp add: by_id_def d_get_dict_of rev_map last_with_def map_of_find)

lemma find_Some: "List.find P xs = Some x \<Longrightarrow> x \<in> set xs \<and> P x"
  by (induction xs) (auto split: if_splits)

lemma last_with_Some: "last_with ps pid = Some p \<Longrightarrow> p \<in> set ps \<and> position_id p = pid"
  unfolding last_with_def by (drule find_Some) simp

lemma last_with_None: "last_with ps pid = None \<longleftrightarrow> pid \<notin> position_id ` set ps"
  by (auto simp: last_with_def find_None_iff)

lemma last_with_snoc: "last_with (ps @ [p]) pid = (if position_id p = pid then Some p else last_with ps pid)"
  by (simp add: last_with_def)

lemma in_by_id: "(pid, p) \<in> set (by_id ps) \<longleftrightarrow> last_with ps pid = Some p"
  by (simp add: d_in_iff_get get_by_id)

lemma only_in_first:
  "p \<in> snd ` {(pid, p) \<in> set (by_id xs). \<not> d_has (by_id ys) pid} \<longleftrightarrow>
     last_with xs (position_id p) = Some p \<and> position_id p \<notin> position_id ` set ys"
proof -
  have "p \<in> snd ` {(pid, p) \<in> set (by_id xs). \<not> d_has (by_id ys) pid} \<longleftrightarrow>
      (\<exists>pid. last_with xs pid = Some p \<and> last_with ys pid = None)"
    by (force simp: in_by_id get_by_id)
  also have "\<dots> \<longleftrightarrow> last_with xs (position_id p) = Some p \<and> last_with ys (position_id p) = None"
    using last_with_Some by blast
  finally show ?thesis by (simp only: last_with_None)
qed

lemma missing_iff:
  "p \<in> set (rr_missing_locally (compute_reconcile_result venue lcl)) \<longleftrightarrow>
     last_with venue (position_id p) = Some p \<and> position_id p \<notin> position_id ` set lcl"
  unfolding only_in_first [symmetric] by (auto simp: compute_reconcile_result_def Let_def)

lemma extra_iff:
  "p \<in> set (rr_extra_locally (compute_reconcile_result venue lcl)) \<longleftrightarrow>
     last_with lcl (position_id p) = Some p \<and> position_id p \<notin> position_id ` set venue"
  unfolding only_in_first [symmetric] by (auto simp: compute_reconcile_result_def Let_def)

definition mismatch_of :: "string \<Rightarrow> position \<Rightarrow> position \<Rightarrow> position_mismatch" where
  "mismatch_of pid v l = \<lparr>pm_position_id = pid, pm_venue = v, pm_local = l, pm_fields = mismatch_fields v l\<rparr>"

lemma mismatch_of_id [simp]: "pm_position_id (mismatch_of pid v l) = pid"
  by (simp add: mismatch_of_def)

lemma fst_case_pair [simp]: "fst (case x of (a, b) \<Rightarrow> (a, f a b)) = fst x"
  by (cases x) simp

lemma mismatch_iff:
  "m \<in> set (rr_mismatch (compute_reconcile_result venue lcl)) \<longleftrightarrow>
     (\<exists>pid v l. last_with venue pid = Some v \<and> last_with lcl pid = Some l \<and> \<not> agree v l \<and> m = mismatch_of pid v l)"
  (is "?in \<longleftrightarrow> ?ex")
proof -
  have "?in \<longleftrightarrow> (\<exists>pid v. last_with venue pid = Some v \<and>
      (case last_with lcl pid of None \<Rightarrow> None | Some l \<Rightarrow> if agree v l then None else Some (mismatch_of pid v l)) = Some m)"
    unfolding mismatch_of_def
    by (simp add: compute_reconcile_result_def Let_def get_by_id set_map_filter mismatch_fields_Nil
        Bex_def in_by_id split_paired_Ex cong: option.case_cong)
  also have "\<dots> \<longleftrightarrow> ?ex"
  proof
    assume ?ex
    then obtain pid v l where "last_with venue pid = Some v" "last_with lcl pid = Some l" "\<not> agree v l" "m = mismatch_of pid v l"
      by blast
    then show "\<exists>pid v. last_with venue pid = Some v \<and>
      (case last_with lcl pid of None \<Rightarrow> None | Some l \<Rightarrow> if agree v l then None else Some (mismatch_of pid v l)) = Some m"
      by (intro exI [of _ pid] exI [of _ v]) simp
  qed (auto split: option.splits if_splits)
  finally show ?thesis .
qed

lemma no_diffs_iff:
  "\<not> has_diffs (compute_reconcile_result venue lcl) \<longleftrightarrow> (\<forall>pid. rel_option agree (last_with venue pid) (last_with lcl pid))"
proof -
  let ?r = "compute_reconcile_result venue lcl"
  have miss: "rr_missing_locally ?r = [] \<longleftrightarrow> (\<forall>pid. last_with lcl pid = None \<longrightarrow> last_with venue pid = None)"
    unfolding set_empty [symmetric] using missing_iff [of _ venue lcl] last_with_Some last_with_None
    by (metis all_not_in_conv not_None_eq)
  have extra: "rr_extra_locally ?r = [] \<longleftrightarrow> (\<forall>pid. last_with venue pid = None \<longrightarrow> last_with lcl pid = None)"
    unfolding set_empty [symmetric] using extra_iff [of _ venue lcl] last_with_Some last_with_None
    by (metis all_not_in_conv not_None_eq)
  have mism: "rr_mismatch ?r = [] \<longleftrightarrow>
      (\<forall>pid v l. last_with venue pid = Some v \<longrightarrow> last_with lcl pid = Some l \<longrightarrow> agree v l)"
    unfolding set_empty [symmetric] set_eq_iff mismatch_iff by blast
  have rel: "rel_option agree x y \<longleftrightarrow> (y = None \<longrightarrow> x = None) \<and> (x = None \<longrightarrow> y = None) \<and>
      (\<forall>v l. x = Some v \<longrightarrow> y = Some l \<longrightarrow> agree v l)" for x y
    by (cases x; cases y) simp_all
  show ?thesis
    unfolding has_diffs_def de_Morgan_disj not_not miss extra mism rel all_conj_distrib by (rule refl)
qed

section \<open>Bootstrap and loop, for every tracker\<close>

definition ids :: "position list \<Rightarrow> string set" where "ids ps = position_id ` set ps"

definition levels :: "(string, pfloat option \<times> pfloat option) dict option \<Rightarrow> string \<Rightarrow> position \<Rightarrow> position" where
  "levels sltp pid p = (case sltp of None \<Rightarrow> p
     | Some entries \<Rightarrow> (case d_get entries pid of None \<Rightarrow> p | Some (sl, tp) \<Rightarrow> with_sltp sl tp p))"

lemma levels_None [simp]: "map_option (levels None pid) x = x"
  by (cases x) (simp_all add: levels_def)

definition flagged :: "position option \<Rightarrow> position option \<Rightarrow> bool" where
  "flagged lp vp \<longleftrightarrow> (case lp of None \<Rightarrow> False | Some l \<Rightarrow> (case vp of None \<Rightarrow> True | Some v \<Rightarrow> \<not> agree v l))"

definition flagged_by :: "position option \<Rightarrow> string \<Rightarrow> position list result \<Rightarrow> bool" where
  "flagged_by lp pid answer \<longleftrightarrow> (case answer of Inl e \<Rightarrow> False | Inr ps \<Rightarrow> flagged lp (last_with ps pid))"

lemma flagged_iff:
  "(\<exists>reason fs. MarkStalePosition pid reason fs \<in> set (build_actions (compute_reconcile_result venue lcl) name)) \<longleftrightarrow>
     flagged (last_with lcl pid) (last_with venue pid)"
proof -
  let ?r = "compute_reconcile_result venue lcl"
  have "(\<exists>reason fs. MarkStalePosition pid reason fs \<in> set (build_actions ?r name)) \<longleftrightarrow>
      (\<exists>p \<in> set (rr_extra_locally ?r). position_id p = pid) \<or> (\<exists>m \<in> set (rr_mismatch ?r). pm_position_id m = pid)"
    by (auto simp: build_actions_def)
  also have "(\<exists>p \<in> set (rr_extra_locally ?r). position_id p = pid) \<longleftrightarrow>
      last_with lcl pid \<noteq> None \<and> last_with venue pid = None"
    using last_with_Some [of lcl pid] by (auto simp: extra_iff Bex_def simp flip: last_with_None)
  also have "(\<exists>m \<in> set (rr_mismatch ?r). pm_position_id m = pid) \<longleftrightarrow>
      (\<exists>v l. last_with venue pid = Some v \<and> last_with lcl pid = Some l \<and> \<not> agree v l)"
    by (metis mismatch_iff mismatch_of_id)
  finally show ?thesis
    by (cases "last_with lcl pid"; cases "last_with venue pid") (simp_all add: flagged_def)
qed

lemma not_flagged: "rel_option agree v l \<Longrightarrow> \<not> flagged l v"
  by (cases l; cases v) (simp_all add: flagged_def)

context position_tracker
begin

lemma upserts:
  "wf t \<Longrightarrow> wf (fold (to_upsert ops) ps t) \<and>
     tracked (fold (to_upsert ops) ps t) pid = (case last_with ps pid of None \<Rightarrow> tracked t pid | Some p \<Rightarrow> Some p) \<and>
     stale (fold (to_upsert ops) ps t) pid = (stale t pid \<and> pid \<notin> ids ps)"
proof (induction ps rule: rev_induct)
  case (snoc p ps)
  then show ?case
    using upsert_law [of "fold (to_upsert ops) ps t" p] by (auto simp: last_with_snoc ids_def)
qed (simp add: last_with_def ids_def)

lemma marks:
  "wf t \<Longrightarrow> wf (fold (\<lambda>p. to_mark_stale ops (position_id p) reason) ps t) \<and>
     tracked (fold (\<lambda>p. to_mark_stale ops (position_id p) reason) ps t) = tracked t \<and>
     stale (fold (\<lambda>p. to_mark_stale ops (position_id p) reason) ps t) pid = (stale t pid \<or> pid \<in> ids ps)"
proof (induction ps arbitrary: t)
  case (Cons p ps)
  then show ?case using mark_law [of t "position_id p" reason] by (auto simp: ids_def)
qed (simp add: ids_def)

lemma rehydrated:
  assumes "wf t" "dict_wf entries"
  shows "wf (fold (\<lambda>(pid, sl, tp). to_update_sltp ops pid sl tp) entries t) \<and>
     tracked (fold (\<lambda>(pid, sl, tp). to_update_sltp ops pid sl tp) entries t) pid =
       map_option (levels (Some entries) pid) (tracked t pid) \<and>
     stale (fold (\<lambda>(pid, sl, tp). to_update_sltp ops pid sl tp) entries t) = stale t"
  using assms
proof (induction entries arbitrary: t)
  case (Cons e entries)
  obtain k sl tp where e: "e = (k, sl, tp)" by (cases e) auto
  have fresh: "d_get entries k = None" using Cons.prems(2) by (auto simp: e dict_wf_def map_of_eq_None_iff)
  note law = sltp_law [OF Cons.prems(1), of k sl tp]
  have "dict_wf entries" using Cons.prems(2) by (simp add: dict_wf_def)
  with Cons.IH [of "to_update_sltp ops k sl tp t"] law fresh show ?case
    by (cases "tracked t k") (auto simp: e levels_def)
qed (simp add: levels_def option.map_ident map_option_case split: option.split)

lemma tracked_ids: "wf t \<Longrightarrow> ids (to_get_positions ops t) = {pid. tracked t pid \<noteq> None}"
  using tracked_id by (force simp: ids_def get_law image_iff)

lemma tracked_list: "wf t \<Longrightarrow> last_with (to_get_positions ops t) pid = tracked t pid"
proof (cases "tracked t pid")
  case None
  assume "wf t"
  with None tracked_ids show ?thesis by (simp add: last_with_None flip: ids_def)
next
  case (Some p)
  assume wf: "wf t"
  have "pid \<in> ids (to_get_positions ops t)" using Some by (simp add: tracked_ids [OF wf])
  then obtain q where q: "last_with (to_get_positions ops t) pid = Some q"
    by (cases "last_with (to_get_positions ops t) pid") (auto simp: last_with_None ids_def)
  from last_with_Some [OF this] wf obtain pid' where "tracked t pid' = Some q" "position_id q = pid"
    by (auto simp: get_law)
  with tracked_id [OF wf] Some q show ?thesis by simp
qed

lemma bootstrap_spec:
  fixes ps :: "position list"
  assumes wf: "wf t" and dict: "\<forall>e. sltp = Some e \<longrightarrow> dict_wf e"
  defines "t' \<equiv> fst (run_bootstrap ops True sltp (Inr ps) t)"
  shows "wf t'"
    and "tracked t' pid = map_option (levels sltp pid)
      (case last_with ps pid of None \<Rightarrow> tracked t pid | Some p \<Rightarrow> Some p)"
    and "stale t' pid \<longleftrightarrow> pid \<notin> ids ps \<and> (stale t pid \<or> tracked t pid \<noteq> None)"
    and "snd (run_bootstrap ops True sltp (Inr ps) t) = Inr (int (length ps))"
proof -
  define t1 where "t1 = fold (to_upsert ops) ps t"
  define gone where "gone = filter (\<lambda>p. position_id p \<notin> position_id ` set ps) (to_get_positions ops t1)"
  define t2 where "t2 = fold (\<lambda>p. to_mark_stale ops (position_id p) ''not_at_venue'') gone t1"
  note up = upserts [OF wf, of ps, folded t1_def]
  note mk = marks [of t1 "''not_at_venue''" gone, folded t2_def]
  have t': "t' = (case sltp of None \<Rightarrow> t2
      | Some entries \<Rightarrow> fold (\<lambda>(pid, sl, tp). to_update_sltp ops pid sl tp) entries t2)"
    unfolding t'_def run_bootstrap_def Let_def t2_def gone_def t1_def by simp
  have gone: "ids gone = {pid. tracked t pid \<noteq> None} - ids ps"
  proof -
    have "ids gone = ids (to_get_positions ops t1) - ids ps" by (auto simp: gone_def ids_def)
    also have "\<dots> = {pid. tracked t1 pid \<noteq> None} - ids ps" using up by (simp add: tracked_ids)
    also have "\<dots> = {pid. tracked t pid \<noteq> None} - ids ps"
      using up last_with_None [of ps] by (auto simp: ids_def split: option.splits)
    finally show ?thesis .
  qed
  show "snd (run_bootstrap ops True sltp (Inr ps) t) = Inr (int (length ps))"
    by (simp add: run_bootstrap_def Let_def)
  have "wf t' \<and> tracked t' pid = map_option (levels sltp pid) (tracked t2 pid) \<and> stale t' = stale t2"
  proof (cases sltp)
    case None
    then show ?thesis using up mk by (simp add: t' levels_def option.map_ident)
  next
    case (Some entries)
    with dict rehydrated [of t2 entries pid] up mk show ?thesis by (simp add: t')
  qed
  with up mk gone show "wf t'"
    "tracked t' pid = map_option (levels sltp pid) (case last_with ps pid of None \<Rightarrow> tracked t pid | Some p \<Rightarrow> Some p)"
    "stale t' pid \<longleftrightarrow> pid \<notin> ids ps \<and> (stale t pid \<or> tracked t pid \<noteq> None)"
    by auto
qed

lemma sink_spec:
  "wf t \<Longrightarrow> wf (fst (sink_handle ops as t)) \<and> tracked (fst (sink_handle ops as t)) = tracked t \<and>
     (stale (fst (sink_handle ops as t)) pid \<longleftrightarrow> stale t pid \<or> (\<exists>reason fs. MarkStalePosition pid reason fs \<in> set as))"
proof (induction as arbitrary: t)
  case (Cons a as)
  show ?case
  proof (cases a)
    case (MarkStalePosition k reason fs)
    with Cons.IH [of "to_mark_stale ops k reason t"] mark_law [OF Cons.prems, of k reason] show ?thesis by auto
  next
    case (RequestResync reason venue)
    with Cons show ?thesis by (simp add: Let_def)
  qed
qed simp

lemma tick_spec:
  fixes answer :: "position list result" and name :: "string option"
  assumes "wf t"
  defines "t' \<equiv> fst (reconcile_tick ops True name answer t)"
  shows "wf t' \<and> tracked t' = tracked t \<and> (stale t' pid \<longleftrightarrow> stale t pid \<or> flagged_by (tracked t pid) pid answer)"
proof (cases answer)
  case (Inr ps)
  let ?r = "compute_reconcile_result ps (to_get_positions ops t)"
  note list = tracked_list [OF assms(1)]
  show ?thesis
  proof (cases "has_diffs ?r")
    case True
    then have "t' = fst (sink_handle ops (build_actions ?r name) t)"
      by (simp add: t'_def reconcile_tick_def Inr Let_def)
    with sink_spec [OF assms(1), of "build_actions ?r name" pid] show ?thesis
      by (simp add: flagged_iff list flagged_by_def Inr)
  next
    case False
    then have "\<not> flagged (tracked t pid) (last_with ps pid)"
      unfolding no_diffs_iff list by (intro not_flagged) simp
    moreover from False have "t' = t" by (simp add: t'_def reconcile_tick_def Inr)
    ultimately show ?thesis using assms(1) by (simp add: flagged_by_def Inr)
  qed
qed (use assms in \<open>simp add: t'_def reconcile_tick_def flagged_by_def\<close>)

lemma loop_spec:
  "wf t \<Longrightarrow> wf (fst (reconcile_loop ops True name answers t)) \<and>
     tracked (fst (reconcile_loop ops True name answers t)) = tracked t \<and>
     (stale (fst (reconcile_loop ops True name answers t)) pid \<longleftrightarrow>
        stale t pid \<or> (\<exists>answer \<in> set answers. flagged_by (tracked t pid) pid answer))"
proof (induction answers arbitrary: t)
  case (Cons answer answers)
  let ?t1 = "fst (reconcile_tick ops True name answer t)"
  have "fst (reconcile_loop ops True name (answer # answers) t) = fst (reconcile_loop ops True name answers ?t1)"
    by (simp add: Let_def split: prod.split)
  moreover note tick_spec [OF Cons.prems, of name answer pid] Cons.IH [of ?t1]
  moreover have "flagged_by (tracked ?t1 pid) pid a = flagged_by (tracked t pid) pid a" for a
    using tick_spec [OF Cons.prems, of name answer pid] by (simp add: flagged_by_def)
  ultimately show ?case by auto
qed simp

end

section \<open>The in-memory tracker\<close>

lemma memory_mark_positions: "mt_positions (to_mark_stale memory_ops pid reason t) = mt_positions t"
  by (simp add: memory_ops_def mt_mark_stale_def)

lemma memory_sink_positions: "mt_positions (fst (sink_handle memory_ops as t)) = mt_positions t"
proof (induction as arbitrary: t)
  case (Cons a as)
  then show ?case by (cases a) (simp_all add: memory_mark_positions Let_def)
qed simp

lemma memory_tick:
  "fst (snd (reconcile_tick memory_ops s name answer t)) =
     (case answer of Inl e \<Rightarrow> None | Inr ps \<Rightarrow> Some (compute_reconcile_result ps (mt_get_positions t)))"
  "mt_positions (fst (reconcile_tick memory_ops s name answer t)) = mt_positions t"
  by (simp_all add: reconcile_tick_def Let_def memory_sink_positions split: sum.split prod.split)
    (auto simp: memory_ops_def)

lemma memory_loop:
  "snd (reconcile_loop memory_ops s name answers t) =
     map (\<lambda>answer. case answer of Inl e \<Rightarrow> None | Inr ps \<Rightarrow> Some (compute_reconcile_result ps (mt_get_positions t))) answers"
proof (induction answers arbitrary: t)
  case (Cons answer answers)
  have "mt_get_positions (fst (reconcile_tick memory_ops s name answer t)) = mt_get_positions t"
    by (simp add: mt_get_positions_def memory_tick)
  with Cons memory_tick(1) [of s name answer t] show ?case
    by (simp add: Let_def split: prod.split) (metis fst_conv snd_conv)
qed simp

section \<open>Properties\<close>

text \<open>Comparing the venue's positions with the local ones, the last position with an id counting:
missing are exactly the venue's positions whose id is not local, extra the local ones whose id is
not at the venue, a mismatch is reported exactly for an id on both sides whose positions differ in
symbol, direction or size, and there are no differences exactly when both sides have the same ids
and agree on each.\<close>

theorem reconcile_result_exact:
  "(p \<in> set (rr_missing_locally (compute_reconcile_result venue lcl)) \<longleftrightarrow>
      last_with venue (position_id p) = Some p \<and> position_id p \<notin> ids lcl) \<and>
   (p \<in> set (rr_extra_locally (compute_reconcile_result venue lcl)) \<longleftrightarrow>
      last_with lcl (position_id p) = Some p \<and> position_id p \<notin> ids venue) \<and>
   (m \<in> set (rr_mismatch (compute_reconcile_result venue lcl)) \<longleftrightarrow>
      (\<exists>pid v l. last_with venue pid = Some v \<and> last_with lcl pid = Some l \<and> \<not> agree v l \<and> m = mismatch_of pid v l)) \<and>
   (\<not> has_diffs (compute_reconcile_result venue lcl) \<longleftrightarrow>
      ids venue = ids lcl \<and> (\<forall>pid v l. last_with venue pid = Some v \<and> last_with lcl pid = Some l \<longrightarrow> agree v l))"
proof -
  have "ids xs = {pid. last_with xs pid \<noteq> None}" for xs
    by (simp add: last_with_None ids_def)
  moreover have "rel_option agree x y \<longleftrightarrow> (x \<noteq> None \<longleftrightarrow> y \<noteq> None) \<and> (\<forall>v l. x = Some v \<and> y = Some l \<longrightarrow> agree v l)" for x y
    by (cases x; cases y) simp_all
  ultimately have "\<not> has_diffs (compute_reconcile_result venue lcl) \<longleftrightarrow>
     ids venue = ids lcl \<and> (\<forall>pid v l. last_with venue pid = Some v \<and> last_with lcl pid = Some l \<longrightarrow> agree v l)"
    unfolding no_diffs_iff set_eq_iff mem_Collect_eq by (simp add: all_conj_distrib)
  then show ?thesis
    using missing_iff [of p venue lcl] extra_iff [of p venue lcl] mismatch_iff [of m venue lcl]
    unfolding ids_def by blast
qed

definition demo_position :: "int \<Rightarrow> bool \<Rightarrow> position" where
  "demo_position n lng = \<lparr>p_pair_id = n, p_trade_index = 0, p_symbol = ''ETH'', p_is_long = lng, p_collateral = 100,
     p_leverage = 10, p_open_price = 50, p_current_price = 50, p_sl_price = None, p_tp_price = None,
     p_open_time = None, p_notional = 1000, p_wallet_address = None, p_venue_position_id = None,
     p_mark_price = None, p_unrealized_pnl = None\<rparr>"

definition demo_tracker :: memory_tracker where
  "demo_tracker = mt_upsert (demo_position 2 True) (mt_upsert (demo_position 1 True) mt_init)"

lemma demo_tracker_wf: "mt_wf demo_tracker"
  unfolding demo_tracker_def by (intro mt_upsert_laws [THEN conjunct1]) (simp add: mt_wf_def mt_init_def)

lemma reconcile_result_exact_witness:
  "\<not> has_diffs (compute_reconcile_result [demo_position 1 True] [demo_position 1 True])"
proof -
  have "last_with [demo_position 1 True] pid = Some v \<Longrightarrow> v = demo_position 1 True" for pid v
    by (auto dest: last_with_Some)
  then show ?thesis
    using reconcile_result_exact [of _ "[demo_position 1 True]" "[demo_position 1 True]"] by (auto simp: agree_def)
qed

text \<open>C25. After a bootstrap from the venue's positions the tracker holds the venue's position for
every id at the venue and what it held for the others, with the stored levels filled in; trusted
ids are exactly those at the venue and those never tracked nor distrusted. The next reconcile tick
on the same venue positions then finds nothing missing and no mismatch, and whatever it finds
extra is already stale.\<close>

theorem bootstrap_then_reconcile:
  fixes ps :: "position list" and entries :: "(string, pfloat option \<times> pfloat option) dict"
    and t t' :: memory_tracker
  assumes wf: "mt_wf t" and dict: "dict_wf entries"
  defines "t' \<equiv> fst (run_bootstrap memory_ops True (Some entries) (Inr ps) t)"
    and "r \<equiv> compute_reconcile_result ps (mt_get_positions t')"
  shows "(d_get (mt_positions t') pid = map_option (levels (Some entries) pid)
      (case last_with ps pid of None \<Rightarrow> d_get (mt_positions t) pid | Some p \<Rightarrow> Some p)) \<and>
    (mt_is_stale t' pid \<longleftrightarrow> pid \<notin> ids ps \<and> (mt_is_stale t pid \<or> d_has (mt_positions t) pid)) \<and>
    (fst (snd (reconcile_tick memory_ops s name (Inr ps) t')) = Some r) \<and>
    (rr_missing_locally r = []) \<and>
    (rr_mismatch r = []) \<and>
    ((p \<in> set (rr_extra_locally r))
      \<longrightarrow> (mt_is_stale t' (position_id p)))"
proof -
  note spec = memory.bootstrap_spec [OF wf, of "Some entries" ps, folded t'_def]
  have wf': "mt_wf t'" by (rule spec(1)) (simp add: dict)
  have concl1: "d_get (mt_positions t') pid = map_option (levels (Some entries) pid)
      (case last_with ps pid of None \<Rightarrow> d_get (mt_positions t) pid | Some p \<Rightarrow> Some p)" for pid
    by (rule spec(2)) (simp add: dict)
  have concl2: "mt_is_stale t' pid \<longleftrightarrow> pid \<notin> ids ps \<and> (mt_is_stale t pid \<or> d_has (mt_positions t) pid)" for pid
    by (rule spec(3)) (simp add: dict)
  have get: "to_get_positions memory_ops t' = mt_get_positions t'" by (simp add: memory_ops_def)
  have lst: "last_with (mt_get_positions t') pid = d_get (mt_positions t') pid" for pid
    using memory.tracked_list [OF wf', of pid] by (simp add: get)
  have concl3: "fst (snd (reconcile_tick memory_ops s name (Inr ps) t')) = Some r"
    by (simp add: memory_tick r_def)
  have concl4: "rr_missing_locally r = []"
    unfolding set_empty [symmetric] using missing_iff [of _ ps "mt_get_positions t'"]
    by (auto simp: r_def lst concl1 set_eq_iff simp flip: last_with_None)
  have "agree v l" if "last_with ps pid = Some v" "last_with (mt_get_positions t') pid = Some l" for pid v l
    using that by (auto simp: lst concl1 agree_def levels_def with_sltp_def position_size_def split: option.splits prod.splits)
  then have concl5: "rr_mismatch r = []"
    unfolding set_empty [symmetric] set_eq_iff r_def mismatch_iff by blast
  have concl6: "mt_is_stale t' (position_id p)" if "p \<in> set (rr_extra_locally r)"
  proof -
    have "d_get (mt_positions t') (position_id p) = Some p" "position_id p \<notin> ids ps"
      using that by (simp_all add: r_def extra_iff lst ids_def)
    then show ?thesis
      using last_with_None [of ps "position_id p"] by (auto simp: concl2 concl1 ids_def)
  qed
  show ?thesis using concl1 concl2 concl3 concl4 concl5 concl6 by blast
qed

lemma bootstrap_then_reconcile_witness:
  "mt_is_stale (fst (run_bootstrap memory_ops True (Some [(''1:0'', (Some 40, None))]) (Inr [demo_position 1 False]) demo_tracker)) ''2:0''"
proof -
  have "dict_wf [(''1:0'', (Some (40::pfloat), None :: pfloat option))]" by (simp add: dict_wf_def)
  note bootstrap_then_reconcile [OF demo_tracker_wf this, where pid = "''2:0''" and ps = "[demo_position 1 False]"]
  moreover have "''2:0'' \<notin> ids [demo_position 1 False]" "d_has (mt_positions demo_tracker) ''2:0''"
    unfolding ids_def by code_simp+
  ultimately show ?thesis by simp
qed

text \<open>The loop with the logging sink never changes a tracked position: however many answers the
venue gives, every tick compares against the same local positions, a failed answer is skipped, and
a mark is set exactly for the tracked ids that some answer lacked or contradicted. So a position
opened after the bootstrap is reported missing on every tick and is never adopted, and a mark is
not withdrawn when the venue agrees again.\<close>

theorem reconcile_loop_only_marks:
  fixes answers :: "position list result list" and name :: "string option"
  assumes wf: "mt_wf t"
  defines "res \<equiv> reconcile_loop memory_ops True name answers t"
  shows "(d_get (mt_positions (fst res)) = d_get (mt_positions t)) \<and>
    (mt_is_stale (fst res) pid \<longleftrightarrow>
      mt_is_stale t pid \<or> (\<exists>ps. Inr ps \<in> set answers \<and> flagged (d_get (mt_positions t) pid) (last_with ps pid))) \<and>
    (snd res = map (\<lambda>answer. case answer of Inl e \<Rightarrow> None
      | Inr ps \<Rightarrow> Some (compute_reconcile_result ps (mt_get_positions t))) answers)"
proof -
  have concl1: "d_get (mt_positions (fst res)) = d_get (mt_positions t)"
    using memory.loop_spec [OF wf, of name answers] by (simp add: res_def)
  have "(\<exists>answer \<in> set answers. flagged_by lp pid answer) \<longleftrightarrow> (\<exists>ps. Inr ps \<in> set answers \<and> flagged lp (last_with ps pid))" for lp
    by (auto simp: flagged_by_def Bex_def split: sum.splits) (metis sum.exhaust)
  then have concl2: "mt_is_stale (fst res) pid \<longleftrightarrow>
      mt_is_stale t pid \<or> (\<exists>ps. Inr ps \<in> set answers \<and> flagged (d_get (mt_positions t) pid) (last_with ps pid))"
    using memory.loop_spec [OF wf, of name answers pid] by (simp add: res_def)
  have concl3: "snd res = map (\<lambda>answer. case answer of Inl e \<Rightarrow> None
      | Inr ps \<Rightarrow> Some (compute_reconcile_result ps (mt_get_positions t))) answers"
    unfolding res_def by (rule memory_loop)
  show ?thesis using concl1 concl2 concl3 by blast
qed

text \<open>Position 2 vanishes for one tick and is back on the next; its mark stays.\<close>

lemma reconcile_loop_only_marks_witness:
  "mt_is_stale (fst (reconcile_loop memory_ops True None
     [Inr [demo_position 1 True], Inl (OtherError ''timeout''), Inr [demo_position 1 True, demo_position 2 True]] demo_tracker)) ''2:0''"
proof -
  let ?answers = "[Inr [demo_position 1 True], Inl (OtherError ''timeout''), Inr [demo_position 1 True, demo_position 2 True]]"
  have "flagged (d_get (mt_positions demo_tracker) ''2:0'') (last_with [demo_position 1 True] ''2:0'')"
    by code_simp
  moreover have "Inr [demo_position 1 True] \<in> set ?answers" by simp
  ultimately show ?thesis
    using reconcile_loop_only_marks [OF demo_tracker_wf, where answers = ?answers and name = None and pid = "''2:0''"] by blast
qed

end
