(* ===== verification/OstiumIngest.thy ===== *)
theory OstiumIngest
  imports StoreContract DataMetrics MarketHours
begin

text \<open>
  The realtime writer \<open>application/services/ostium_candle_ingest_service.py\<close>: it polls the latest
  price of every symbol, collects ticks per minute, and appends the candle of every minute that
  has ended; it also watches the quality of what is stored and degrades symbols.

  A turn of the poll loop is one step. What the price service answers is the argument \<open>fetch\<close>
  (\<open>Inl\<close> an exception, \<open>None\<close> no price). The clock is read at the start of a turn (\<open>now\<close>) and again
  later in it (\<open>late\<close>). The metrics are the instance of the process, if there is one; the recorder
  is the list of what it was given, if there is one. Sets are lists without repetitions. The store
  is any \<^typ>\<open>'s store_ops\<close>. Hot reloads happen between turns.
\<close>

record ostium_tick =
  ot_ts :: int
  ot_price :: pfloat

type_synonym buckets = "(int, ostium_tick list) dict"

section \<open>Candles of the ended minutes\<close>

definition max_list :: "pfloat list \<Rightarrow> pfloat" where
  "max_list ps = fold max (tl ps) (hd ps)"

definition min_list :: "pfloat list \<Rightarrow> pfloat" where
  "min_list ps = fold min (tl ps) (hd ps)"

definition aggregate_ticks_to_candles :: "buckets \<Rightarrow> int \<Rightarrow> (int \<times> pfloat \<times> pfloat \<times> pfloat \<times> pfloat) list" where
  "aggregate_ticks_to_candles bs current_minute =
     concat (map (\<lambda>minute.
       if minute \<ge> current_minute then []
       else (case d_get bs minute of
           None \<Rightarrow> []
         | Some [] \<Rightarrow> []
         | Some ticks \<Rightarrow>
             (let prices = map ot_price ticks
              in [(minute, hd prices, max_list prices, min_list prices, last prices)])))
       (sort (d_keys bs)))"

section \<open>State\<close>

record ingest_config =
  ic_poll_interval :: int
  ic_heartbeat_interval :: int
  ic_warmup_minutes :: int
  ic_max_gap_s :: int
  ic_max_missing_per_24h :: int
  ic_stale_seconds :: int
  ic_backoff_base :: int
  ic_backoff_max :: int
  ic_market_hours :: "(string \<Rightarrow> int \<Rightarrow> bool \<times> string) option"
  ic_closed_minutes :: "(string \<Rightarrow> int \<Rightarrow> int \<Rightarrow> int) option"

record 's ingest =
  ig_store :: 's
  ig_metrics :: "layer_metrics option"
  ig_recorded :: "(string \<times> int \<times> pfloat) list option"
  ig_symbols :: "string list"
  ig_asset :: "(string, string) dict"
  ig_running :: bool
  ig_paused :: "string list"
  ig_heartbeat_last :: "(string, int) dict"
  ig_ticks :: "(string, buckets) dict"
  ig_ignored_closed :: "(string, int) dict"
  ig_degraded :: "string list"
  ig_reason :: "(string, string) dict"
  ig_backoff_until :: "(string, int) dict"
  ig_stopped :: "string list"
  ig_ticks_seen :: "(string, int) dict"
  ig_ticks_last_ts :: "(string, int) dict"
  ig_last_price :: "(string, pfloat) dict"
  ig_last_ingested :: "(string, int) dict"
  ig_ignored_stale :: "(string, int) dict"
  ig_errors :: "(string, int) dict"
  ig_failures :: "(string, int) dict"
  ig_last_error :: "(string, py_error) dict"
  ig_first_seen :: "(string, int) dict"

text \<open>Reading and counting in a \<open>defaultdict(int)\<close>.\<close>

definition get0 :: "(string, int) dict \<Rightarrow> string \<Rightarrow> int" where
  "get0 d k = (case d_get d k of None \<Rightarrow> 0 | Some n \<Rightarrow> n)"

definition inc0 :: "string \<Rightarrow> (string, int) dict \<Rightarrow> (string, int) dict" where
  "inc0 k d = d_set k (get0 d k + 1) d"

definition buckets_of :: "'s ingest \<Rightarrow> string \<Rightarrow> buckets" where
  "buckets_of s symbol = (case d_get (ig_ticks s) symbol of None \<Rightarrow> [] | Some bs \<Rightarrow> bs)"

definition ig_state :: "ingest_config \<Rightarrow> string \<Rightarrow> int \<Rightarrow> bool \<times> string" where
  "ig_state cfg symbol ts = (case ic_market_hours cfg of
     None \<Rightarrow> get_market_state symbol (Inl ts) | Some f \<Rightarrow> f symbol ts)"

definition ig_closed_minutes :: "ingest_config \<Rightarrow> string \<Rightarrow> int \<Rightarrow> int \<Rightarrow> int" where
  "ig_closed_minutes cfg = (case ic_closed_minutes cfg of
     None \<Rightarrow> count_closed_minutes_between | Some f \<Rightarrow> f)"

text \<open>Construction; \<open>counter\<close> is the store's \<open>count_stored_candles\<close> if it has one (\<open>None\<close> also when it raises).\<close>

definition ingest_init ::
  "(string \<Rightarrow> int option) option \<Rightarrow> 's \<Rightarrow> layer_metrics option \<Rightarrow> bool \<Rightarrow> (string, string) dict option \<Rightarrow> string list \<Rightarrow> 's ingest" where
  "ingest_init counter store metrics with_recorder asset symbols =
     \<lparr>ig_store = store,
      ig_metrics = (case counter of None \<Rightarrow> metrics
        | Some f \<Rightarrow> map_option (fold (\<lambda>symbol m. case f symbol of None \<Rightarrow> m
            | Some n \<Rightarrow> if n > 0 then inc_candles_written symbol n None m else m) symbols) metrics),
      ig_recorded = (if with_recorder then Some [] else None), ig_symbols = symbols,
      ig_asset = (case asset of Some (a # as) \<Rightarrow> a # as | _ \<Rightarrow> dict_of (map (\<lambda>s. (s, s)) symbols)),
      ig_running = False, ig_paused = [], ig_heartbeat_last = [], ig_ticks = [], ig_ignored_closed = [],
      ig_degraded = [], ig_reason = [], ig_backoff_until = [], ig_stopped = [], ig_ticks_seen = [],
      ig_ticks_last_ts = [], ig_last_price = [], ig_last_ingested = [], ig_ignored_stale = [],
      ig_errors = [], ig_failures = [], ig_last_error = [], ig_first_seen = []\<rparr>"

section \<open>Degradation\<close>

definition uses_poll_backoff :: "'s ingest \<Rightarrow> string \<Rightarrow> bool" where
  "uses_poll_backoff s symbol =
     (case d_get (ig_reason s) symbol of None \<Rightarrow> False | Some r \<Rightarrow> py_startswith r ''poll_failures='')"

definition is_transient_degradation :: "'s ingest \<Rightarrow> string \<Rightarrow> bool" where
  "is_transient_degradation s symbol =
     (case d_get (ig_reason s) symbol of None \<Rightarrow> False
      | Some r \<Rightarrow> py_startswith r ''poll_failures='' \<or> py_startswith r ''stale_seconds='')"

definition mark_degraded ::
  "ingest_config \<Rightarrow> int \<Rightarrow> string \<Rightarrow> string \<Rightarrow> int \<Rightarrow> int \<Rightarrow> 's ingest \<Rightarrow> 's ingest" where
  "mark_degraded cfg late symbol reason duplicates step_errs s =
     s\<lparr>ig_degraded := set_add symbol (ig_degraded s),
       ig_reason := d_set symbol reason (ig_reason s),
       ig_backoff_until := (if py_startswith reason ''poll_failures=''
          then d_set symbol (late + ic_backoff_base cfg) (ig_backoff_until s) else ig_backoff_until s),
       ig_metrics := map_option (set_symbol_state symbol DEGRADED (Some reason) duplicates step_errs 0 0 0) (ig_metrics s)\<rparr>"

definition autorecover :: "string \<Rightarrow> 's ingest \<Rightarrow> 's ingest" where
  "autorecover symbol s =
     s\<lparr>ig_degraded := removeAll symbol (ig_degraded s),
       ig_reason := d_del symbol (ig_reason s),
       ig_backoff_until := d_del symbol (ig_backoff_until s),
       ig_metrics := map_option (set_symbol_state symbol ACTIVE None 0 0 0 0 0) (ig_metrics s)\<rparr>"

definition increase_backoff :: "ingest_config \<Rightarrow> string \<Rightarrow> int \<Rightarrow> 's ingest \<Rightarrow> 's ingest" where
  "increase_backoff cfg symbol now_ts s =
     (let current = get0 (ig_backoff_until s) symbol;
          remaining = max 0 (current - now_ts);
          new_backoff = min (max remaining (ic_backoff_base cfg) * 2) (ic_backoff_max cfg)
      in s\<lparr>ig_backoff_until := d_set symbol (now_ts + new_backoff) (ig_backoff_until s)\<rparr>)"

section \<open>Ticks\<close>

definition accept_tick_timestamp :: "ingest_config \<Rightarrow> string \<Rightarrow> int \<Rightarrow> int \<Rightarrow> 's ingest \<Rightarrow> 's ingest \<times> bool" where
  "accept_tick_timestamp cfg symbol tick_ts now_ts s =
     (let previous = d_get (ig_last_ingested s) symbol; age = now_ts - tick_ts in
      if age > ic_stale_seconds cfg \<or> age < - ic_poll_interval cfg \<or>
         (case previous of None \<Rightarrow> False | Some p \<Rightarrow> tick_ts < p)
      then (s\<lparr>ig_ignored_stale := inc0 symbol (ig_ignored_stale s)\<rparr>, False)
      else (s\<lparr>ig_last_ingested := d_set symbol tick_ts (ig_last_ingested s)\<rparr>, True))"

definition add_tick :: "string \<Rightarrow> ostium_tick \<Rightarrow> 's ingest \<Rightarrow> 's ingest" where
  "add_tick symbol t s =
     (let bs = buckets_of s symbol; minute = ot_ts t div 60 * 60;
          ticks = (case d_get bs minute of None \<Rightarrow> [] | Some ts \<Rightarrow> ts)
      in s\<lparr>ig_ticks := d_set symbol (d_set minute (ticks @ [t]) bs) (ig_ticks s)\<rparr>)"

text \<open>The branch of the poll loop for a price.\<close>

definition got_price :: "ingest_config \<Rightarrow> int \<Rightarrow> string \<Rightarrow> int \<Rightarrow> pfloat \<Rightarrow> 's ingest \<Rightarrow> 's ingest" where
  "got_price cfg now_ts symbol ts price s =
     (let s1 = s\<lparr>ig_failures := d_set symbol 0 (ig_failures s),
                 ig_ticks_seen := inc0 symbol (ig_ticks_seen s),
                 ig_ticks_last_ts := d_set symbol ts (ig_ticks_last_ts s),
                 ig_last_price := d_set symbol price (ig_last_price s),
                 ig_first_seen := (if d_has (ig_first_seen s) symbol then ig_first_seen s
                                   else d_set symbol now_ts (ig_first_seen s))\<rparr>;
          (s2, ok) = accept_tick_timestamp cfg symbol ts now_ts s1
      in if \<not> ok then s2
         else
           (let s3 = (if \<not> fst (ig_state cfg symbol (ts div 60 * 60))
                      then s2\<lparr>ig_ignored_closed := inc0 symbol (ig_ignored_closed s2)\<rparr>
                      else add_tick symbol \<lparr>ot_ts = ts, ot_price = price\<rparr> s2);
                s4 = (if symbol \<in> set (ig_degraded s3) \<and> is_transient_degradation s3 symbol
                      then autorecover symbol s3 else s3)
            in s4\<lparr>ig_recorded := map_option (\<lambda>r. r @ [(symbol, ts, price)]) (ig_recorded s4)\<rparr>))"

text \<open>The branch for no price.\<close>

definition no_price :: "ingest_config \<Rightarrow> int \<Rightarrow> int \<Rightarrow> string \<Rightarrow> 's ingest \<Rightarrow> 's ingest" where
  "no_price cfg now_ts late symbol s =
     (if fst (ig_state cfg symbol now_ts)
      then
        (let s1 = s\<lparr>ig_failures := inc0 symbol (ig_failures s)\<rparr>; failures = get0 (ig_failures s1) symbol in
         if failures \<ge> 3
         then increase_backoff cfg symbol now_ts
                (mark_degraded cfg late symbol (''poll_failures='' @ show_int failures) 0 0 s1)
         else s1)
      else s)"

type_synonym price_fetch = "string \<Rightarrow> (int \<times> pfloat) option result"

definition ostium_asset :: "'s ingest \<Rightarrow> string \<Rightarrow> string" where
  "ostium_asset s symbol = (case d_get (ig_asset s) symbol of None \<Rightarrow> symbol | Some a \<Rightarrow> a)"

fun poll_all :: "ingest_config \<Rightarrow> int \<Rightarrow> int \<Rightarrow> price_fetch \<Rightarrow> string list \<Rightarrow> 's ingest \<Rightarrow> 's ingest \<times> unit result" where
  "poll_all cfg now_ts late fetch [] s = (s, Inr ())"
| "poll_all cfg now_ts late fetch (symbol # symbols) s =
     (case fetch (ostium_asset s symbol) of
        Inl e \<Rightarrow> (s, Inl e)
      | Inr (Some (ts, price)) \<Rightarrow> poll_all cfg now_ts late fetch symbols (got_price cfg now_ts symbol ts price s)
      | Inr None \<Rightarrow> poll_all cfg now_ts late fetch symbols (no_price cfg now_ts late symbol s))"

fun heartbeat_all :: "int \<Rightarrow> price_fetch \<Rightarrow> string list \<Rightarrow> 's ingest \<Rightarrow> 's ingest \<times> unit result" where
  "heartbeat_all now_ts fetch [] s = (s, Inr ())"
| "heartbeat_all now_ts fetch (symbol # symbols) s =
     (case fetch (ostium_asset s symbol) of
        Inl e \<Rightarrow> (s, Inl e)
      | Inr answer \<Rightarrow>
          (let s1 = s\<lparr>ig_heartbeat_last := d_set symbol now_ts (ig_heartbeat_last s)\<rparr>
           in heartbeat_all now_ts fetch symbols (case answer of
                None \<Rightarrow> s1
              | Some (ts, price) \<Rightarrow> s1\<lparr>ig_last_price := d_set symbol price (ig_last_price s1),
                                        ig_ticks_last_ts := d_set symbol ts (ig_ticks_last_ts s1)\<rparr>)))"

section \<open>Flushing\<close>

definition row_candle :: "string \<Rightarrow> int \<times> pfloat \<times> pfloat \<times> pfloat \<times> pfloat \<Rightarrow> candle result" where
  "row_candle symbol row = (case row of (ts, o1, h, l, c) \<Rightarrow>
     candle_post_init \<lparr>c_symbol = symbol, c_ts = fromtimestamp utc (ts * second_us), c_open = o1, c_high = h,
       c_low = l, c_close = c, c_volume = 0, c_closed = True\<rparr>)"

text \<open>The loop over the rows; \<open>Inr False\<close> is the early return after a degradation.\<close>

fun write_rows ::
  "'s store_ops \<Rightarrow> ingest_config \<Rightarrow> int \<Rightarrow> string \<Rightarrow> (int \<times> pfloat \<times> pfloat \<times> pfloat \<times> pfloat) list \<Rightarrow> 's ingest \<Rightarrow> 's ingest \<times> bool result" where
  "write_rows ops cfg late symbol [] s = (s, Inr True)"
| "write_rows ops cfg late symbol (row # rows) s =
     (case row_candle symbol row of
        Inl e \<Rightarrow> (s, Inl e)
      | Inr c \<Rightarrow>
          (let report = validate [c] (c_ts c) (dt_add (c_ts c) minute_us) symbol in
           if vr_duplicates report > 0 \<or> vr_step_errors report > 0
           then (mark_degraded cfg late symbol (''ostium duplicates='' @ show_int (vr_duplicates report) @
                   '' ts_step_errors='' @ show_int (vr_step_errors report)) (vr_duplicates report) (vr_step_errors report) s, Inr False)
           else (case so_append ops c (ig_store s) of
                   (store, Inl e) \<Rightarrow> (s\<lparr>ig_store := store\<rparr>, Inl e)
                 | (store, Inr appended) \<Rightarrow>
                     write_rows ops cfg late symbol rows
                       (s\<lparr>ig_store := store,
                          ig_metrics := (if appended then map_option (inc_candles_written symbol 1 (Some (fst row))) (ig_metrics s)
                                         else ig_metrics s)\<rparr>))))"

definition flush_closed_minutes ::
  "'s store_ops \<Rightarrow> ingest_config \<Rightarrow> int \<Rightarrow> int \<Rightarrow> string \<Rightarrow> 's ingest \<Rightarrow> 's ingest \<times> unit result" where
  "flush_closed_minutes ops cfg late current_minute symbol s =
     (let rows = aggregate_ticks_to_candles (buckets_of s symbol) current_minute in
      if rows = [] then (s, Inr ())
      else (case write_rows ops cfg late symbol rows s of
              (s1, Inl e) \<Rightarrow> (s1, Inl e)
            | (s1, Inr False) \<Rightarrow> (s1, Inr ())
            | (s1, Inr True) \<Rightarrow>
                (let last_flushed = Max (fst ` set rows) in
                 (s1\<lparr>ig_ticks := d_set symbol (filter (\<lambda>(m, ts). \<not> m \<le> last_flushed) (buckets_of s1 symbol)) (ig_ticks s1)\<rparr>,
                  Inr ()))))"

fun flush_all ::
  "'s store_ops \<Rightarrow> ingest_config \<Rightarrow> int \<Rightarrow> int \<Rightarrow> string list \<Rightarrow> 's ingest \<Rightarrow> 's ingest \<times> unit result" where
  "flush_all ops cfg late current_minute [] s = (s, Inr ())"
| "flush_all ops cfg late current_minute (symbol # symbols) s =
     (case flush_closed_minutes ops cfg late current_minute symbol s of
        (s1, Inl e) \<Rightarrow> (s1, Inl e)
      | (s1, Inr u) \<Rightarrow> flush_all ops cfg late current_minute symbols s1)"

section \<open>Gate metrics\<close>

record gate_values =
  gv_stale_s :: int
  gv_missing_24h :: int
  gv_expected :: int
  gv_observed :: int
  gv_max_gap_s :: int

text \<open>
  Missing and closed minutes of the last day; both are 0 when the range cannot be read. The
  rest is arithmetic on the uptime in seconds.
\<close>

definition day_coverage ::
  "'s store_ops \<Rightarrow> (string \<Rightarrow> int \<Rightarrow> int \<Rightarrow> int) \<Rightarrow> datetime \<Rightarrow> 's \<Rightarrow> string \<Rightarrow> int \<times> int" where
  "day_coverage ops closed_minutes late store symbol =
     (let start = dt_add late (- day_us) in
      case so_read_range ops store symbol start late of
        Inl e \<Rightarrow> (0, 0)
      | Inr r \<Rightarrow>
          (let closed_mins = closed_minutes symbol (timestamp_int start) (timestamp_int late)
           in (max 0 (r_missing_count r - closed_mins), closed_mins)))"

definition gate_values_of :: "int \<Rightarrow> int \<Rightarrow> int \<Rightarrow> int \<times> int \<Rightarrow> gate_values" where
  "gate_values_of limit_gap stale_s uptime_s cov =
     (let (missing, closed_mins) = cov; uptime_minutes = min 1440 (uptime_s div 60);
          expected = max 0 (uptime_minutes - closed_mins)
      in \<lparr>gv_stale_s = stale_s, gv_missing_24h = missing, gv_expected = expected,
          gv_observed = max 0 (expected - missing),
          gv_max_gap_s = (if missing > 0 then min limit_gap (60 * max 0 missing) else 0)\<rparr>)"

definition stale_applies :: "ingest_config \<Rightarrow> string \<Rightarrow> int \<Rightarrow> bool" where
  "stale_applies cfg symbol now_ts =
     (case ic_market_hours cfg of
        None \<Rightarrow> stale_degradation_applies symbol (Inl now_ts)
      | Some f \<Rightarrow> fst (f symbol now_ts) \<and> snd (f symbol now_ts) = ''open'')"

definition ingest_gate_values :: "'s store_ops \<Rightarrow> ingest_config \<Rightarrow> datetime \<Rightarrow> string \<Rightarrow> int \<Rightarrow> 's ingest \<Rightarrow> gate_values" where
  "ingest_gate_values ops cfg late symbol last_ts s =
     (let now_ts = timestamp_int late;
          stale_s = (if stale_applies cfg symbol now_ts then max 0 (now_ts - last_ts - 60) else 0);
          uptime_s = (case d_get (ig_first_seen s) symbol of None \<Rightarrow> 0 | Some t \<Rightarrow> max 0 (now_ts - t))
      in gate_values_of (ic_max_gap_s cfg) stale_s uptime_s
           (day_coverage ops (ig_closed_minutes cfg) late (ig_store s) symbol))"

text \<open>The decision for one symbol; \<open>written\<close> is its count of candles when the pass began.\<close>

definition gate_decision :: "ingest_config \<Rightarrow> int \<Rightarrow> string \<Rightarrow> int \<Rightarrow> gate_values \<Rightarrow> 's ingest \<Rightarrow> 's ingest" where
  "gate_decision cfg late_ts symbol written g s =
     (if symbol \<notin> set (ig_degraded s)
      then if stale_applies cfg symbol late_ts \<and> gv_stale_s g > ic_stale_seconds cfg
           then if written > 0
                then mark_degraded cfg late_ts symbol (''stale_seconds='' @ show_int (gv_stale_s g) @ '' > '' @
                       show_int (ic_stale_seconds cfg)) 0 0 s
                else s
           else if fst (ig_state cfg symbol late_ts) \<and> snd (ig_state cfg symbol late_ts) = ''open'' \<and>
                   gv_missing_24h g > ic_max_missing_per_24h cfg \<and> \<not> gv_observed g < ic_warmup_minutes cfg
           then mark_degraded cfg late_ts symbol (''missing_minutes_24h='' @ show_int (gv_missing_24h g) @ '' > '' @
                  show_int (ic_max_missing_per_24h cfg)) 0 0 s
           else s
      else if (case d_get (ig_reason s) symbol of None \<Rightarrow> False | Some r \<Rightarrow> py_startswith r ''missing_minutes_24h='') \<and>
              gv_missing_24h g \<le> ic_max_missing_per_24h cfg \<and> gv_stale_s g \<le> ic_stale_seconds cfg
      then autorecover symbol s
      else s)"

definition gate_symbol ::
  "'s store_ops \<Rightarrow> ingest_config \<Rightarrow> datetime \<Rightarrow> (string \<Rightarrow> int) \<Rightarrow> string \<Rightarrow> 's ingest \<Rightarrow> 's ingest" where
  "gate_symbol ops cfg late written symbol s =
     (case so_last_timestamp ops (ig_store s) symbol of
        None \<Rightarrow> s
      | Some last_ts \<Rightarrow>
          (let now_ts = timestamp_int late; st = ig_state cfg symbol now_ts;
               g = ingest_gate_values ops cfg late symbol (timestamp_int last_ts) s;
               s1 = s\<lparr>ig_metrics := map_option (update_gate_metrics symbol (Some (timestamp_int last_ts))
                        (Some (gv_stale_s g)) (Some (gv_missing_24h g)) (Some (gv_max_gap_s g)) (Some (fst st))
                        (Some (snd st)) (Some (gv_expected g)) (Some (gv_observed g))) (ig_metrics s)\<rparr>
           in gate_decision cfg now_ts symbol (written symbol) g s1))"

definition ingest_update_gate_metrics :: "'s store_ops \<Rightarrow> ingest_config \<Rightarrow> datetime \<Rightarrow> 's ingest \<Rightarrow> 's ingest" where
  "ingest_update_gate_metrics ops cfg late s =
     (case ig_metrics s of
        None \<Rightarrow> s
      | Some lm \<Rightarrow>
          fold (gate_symbol ops cfg late
                  (\<lambda>symbol. case d_get (lm_by_symbol lm) symbol of None \<Rightarrow> 0 | Some m \<Rightarrow> sm_candles_written m))
            (ig_symbols s) s)"

section \<open>A turn of the poll loop\<close>

definition active_symbols :: "'s ingest \<Rightarrow> string list" where
  "active_symbols s = filter (\<lambda>x. x \<notin> set (ig_stopped s)) (ig_symbols s)"

definition newly_paused :: "ingest_config \<Rightarrow> int \<Rightarrow> 's ingest \<Rightarrow> string list" where
  "newly_paused cfg now_ts s =
     remdups (filter (\<lambda>x. \<not> fst (ig_state cfg x now_ts) \<and> x \<notin> set (ig_paused s)) (active_symbols s))"

definition pause_closed :: "ingest_config \<Rightarrow> int \<Rightarrow> 's ingest \<Rightarrow> 's ingest" where
  "pause_closed cfg now_ts s =
     s\<lparr>ig_paused := remdups (filter (\<lambda>x. \<not> fst (ig_state cfg x now_ts)) (active_symbols s))\<rparr>"

definition poll_symbols :: "int \<Rightarrow> string list \<Rightarrow> 's ingest \<Rightarrow> string list" where
  "poll_symbols now_ts active s =
     filter (\<lambda>x. x \<notin> set (ig_paused s) \<and> (\<not> uses_poll_backoff s x \<or> now_ts \<ge> get0 (ig_backoff_until s) x)) active"

definition heartbeat_symbols :: "ingest_config \<Rightarrow> int \<Rightarrow> string list \<Rightarrow> 's ingest \<Rightarrow> string list" where
  "heartbeat_symbols cfg now_ts active s =
     filter (\<lambda>x. x \<in> set (ig_paused s) \<and> now_ts \<ge> get0 (ig_heartbeat_last s) x + ic_heartbeat_interval cfg) active"

text \<open>\<open>try_next\<close> runs the rest of the turn unless an exception has ended it.\<close>

definition try_next :: "'a \<times> unit result \<Rightarrow> ('a \<Rightarrow> 'a \<times> unit result) \<Rightarrow> 'a \<times> unit result" where
  "try_next r f = (case r of (s, Inl e) \<Rightarrow> (s, Inl e) | (s, Inr u) \<Rightarrow> f s)"

definition poll_body ::
  "'s store_ops \<Rightarrow> ingest_config \<Rightarrow> int \<Rightarrow> datetime \<Rightarrow> price_fetch \<Rightarrow> 's ingest \<Rightarrow> 's ingest \<times> unit result" where
  "poll_body ops cfg now_ts late fetch s =
     (let current_minute = now_ts div 60 * 60; late_ts = timestamp_int late; active = active_symbols s in
      try_next (flush_all ops cfg late_ts current_minute (newly_paused cfg now_ts s) (pause_closed cfg now_ts s)) (\<lambda>s1.
        (let polled = poll_symbols now_ts active s1; beating = heartbeat_symbols cfg now_ts active s1 in
         try_next (poll_all cfg now_ts late_ts fetch polled s1) (\<lambda>s2.
         try_next (heartbeat_all now_ts fetch beating s2) (\<lambda>s3.
         try_next (flush_all ops cfg late_ts current_minute polled s3) (\<lambda>s4.
           (ingest_update_gate_metrics ops cfg late s4, Inr ())))))))"

definition poll_turn ::
  "'s store_ops \<Rightarrow> ingest_config \<Rightarrow> int \<Rightarrow> datetime \<Rightarrow> price_fetch \<Rightarrow> 's ingest \<Rightarrow> 's ingest" where
  "poll_turn ops cfg now_ts late fetch s =
     (case poll_body ops cfg now_ts late fetch s of
        (s1, Inr u) \<Rightarrow> s1
      | (s1, Inl e) \<Rightarrow>
          fold (\<lambda>x s. if x \<in> set (ig_stopped s) then s
                      else s\<lparr>ig_errors := inc0 x (ig_errors s), ig_last_error := d_set x e (ig_last_error s)\<rparr>)
            (ig_symbols s1) s1)"

section \<open>The other operations\<close>

definition ingest_start :: "'s ingest \<Rightarrow> 's ingest" where
  "ingest_start s = (if ig_running s then s else s\<lparr>ig_running := True\<rparr>)"

definition ingest_stop :: "'s ingest \<Rightarrow> 's ingest" where
  "ingest_stop s = s\<lparr>ig_running := False\<rparr>"

text \<open>Hot reload; the order of the new list is that of the argument.\<close>

definition update_symbols :: "string list \<Rightarrow> (string, string) dict option \<Rightarrow> 's ingest \<Rightarrow> 's ingest" where
  "update_symbols symbols asset s =
     (let new = remdups (map py_upper symbols);
          to_add = filter (\<lambda>x. x \<notin> set (ig_symbols s)) new;
          to_remove = filter (\<lambda>x. x \<notin> set new) (remdups (ig_symbols s));
          stopped = fold set_add to_remove (ig_stopped s);
          stopped' = filter (\<lambda>x. x \<notin> set to_add) stopped
      in s\<lparr>ig_stopped := stopped', ig_symbols := new,
           ig_asset := (case asset of Some a \<Rightarrow> a
             | None \<Rightarrow> fold (\<lambda>x d. if d_has d x then d else d_set x x d) new (ig_asset s))\<rparr>)"

text \<open>The rows of \<open>get_symbol_stats\<close>; the coverage ratio is rounded to four decimals.\<close>

record symbol_stats =
  ss_ticks_seen :: int
  ss_ticks_last_ts :: "int option"
  ss_last_price :: "pfloat option"
  ss_candles_written :: int
  ss_candle_last_ts :: "int option"
  ss_errors :: int
  ss_last_error :: "py_error option"
  ss_ignored_closed :: int
  ss_ignored_stale :: int
  ss_state :: string
  ss_market_state :: string
  ss_market_open :: bool
  ss_reason :: string
  ss_degrade_reason :: "string option"
  ss_next_poll_in :: "int option"
  ss_expected :: int
  ss_missing :: int
  ss_ratio :: "pfloat option"
  ss_uptime :: "int option"

definition run_state :: "'s ingest \<Rightarrow> string \<Rightarrow> string \<Rightarrow> int \<Rightarrow> string" where
  "run_state s symbol market_state written =
     (if symbol \<in> set (ig_stopped s) then ''stopped''
      else if symbol \<in> set (ig_degraded s) then ''degraded''
      else if symbol \<in> set (ig_paused s) then ''paused_closed''
      else if market_state = ''unknown'' \<and> get0 (ig_ticks_seen s) symbol = 0 then ''warning''
      else if get0 (ig_ticks_seen s) symbol > 0 \<and> written = 0 then ''warming''
      else ''running'')"

definition stats_row :: "ingest_config \<Rightarrow> int \<Rightarrow> 's ingest \<Rightarrow> string \<Rightarrow> symbol_stats" where
  "stats_row cfg now_ts s symbol =
     (let st = ig_state cfg symbol now_ts;
          m = (case ig_metrics s of None \<Rightarrow> None | Some lm \<Rightarrow> d_get (lm_by_symbol lm) symbol);
          m_open = (case m of None \<Rightarrow> fst st | Some x \<Rightarrow> sm_market_open x);
          m_reason = (case m of None \<Rightarrow> snd st | Some x \<Rightarrow> sm_market_state_reason x);
          market_state = (if m_open then ''open'' else if m_reason = ''unknown'' then ''unknown'' else ''closed'');
          written = (case m of None \<Rightarrow> 0 | Some x \<Rightarrow> sm_candles_written x);
          expected = (case m of None \<Rightarrow> 0 | Some x \<Rightarrow> sm_expected_open_minutes_24h x);
          observed = (case m of None \<Rightarrow> 0 | Some x \<Rightarrow> sm_observed_open_minutes_24h x)
      in \<lparr>ss_ticks_seen = get0 (ig_ticks_seen s) symbol, ss_ticks_last_ts = d_get (ig_ticks_last_ts s) symbol,
          ss_last_price = d_get (ig_last_price s) symbol, ss_candles_written = written,
          ss_candle_last_ts = (case m of None \<Rightarrow> None | Some x \<Rightarrow> sm_last_candle_ts x),
          ss_errors = get0 (ig_errors s) symbol, ss_last_error = d_get (ig_last_error s) symbol,
          ss_ignored_closed = get0 (ig_ignored_closed s) symbol, ss_ignored_stale = get0 (ig_ignored_stale s) symbol,
          ss_state = run_state s symbol market_state written, ss_market_state = market_state,
          ss_market_open = m_open, ss_reason = m_reason, ss_degrade_reason = d_get (ig_reason s) symbol,
          ss_next_poll_in = (if symbol \<in> set (ig_degraded s)
             then Some (max 0 (get0 (ig_backoff_until s) symbol - now_ts)) else None),
          ss_expected = expected,
          ss_missing = (case m of None \<Rightarrow> 0 | Some x \<Rightarrow> sm_missing_minutes_24h x),
          ss_ratio = (if expected > 0
             then Some (rnd (of_int (round_half_even (fdiv (of_int observed) (of_int expected) * 10000)) / 10000)) else None),
          ss_uptime = map_option (\<lambda>t. now_ts - t) (d_get (ig_first_seen s) symbol)\<rparr>)"

definition get_symbol_stats :: "ingest_config \<Rightarrow> int \<Rightarrow> 's ingest \<Rightarrow> (string, symbol_stats) dict" where
  "get_symbol_stats cfg now_ts s =
     map (\<lambda>symbol. (symbol, stats_row cfg now_ts s symbol)) (remdups (ig_symbols s @ ig_stopped s))"

end
