(* ===== verification/OstiumIngest_Props.thy ===== *)
theory OstiumIngest_Props
  imports OstiumIngest
begin

text \<open>
  The realtime writer over any run of turns: what is stored comes from the accepted ticks of an
  open minute, nothing stored is overwritten, and failed polls degrade and recover a symbol. The
  lemmas on the store are proved once for every store that keeps the contract.
\<close>

section \<open>Buckets\<close>

definition bucket :: "'s ingest \<Rightarrow> string \<Rightarrow> int \<Rightarrow> ostium_tick list" where
  "bucket s x m = (case d_get (buckets_of s x) m of None \<Rightarrow> [] | Some ts \<Rightarrow> ts)"

text \<open>Every bucket is kept under the start of a minute, and none is empty.\<close>

definition buckets_ok :: "'s ingest \<Rightarrow> bool" where
  [inv_defs]: "buckets_ok s \<longleftrightarrow> (\<forall>x. dict_wf (buckets_of s x) \<and>
     (\<forall>m ts. d_get (buckets_of s x) m = Some ts \<longrightarrow> ts \<noteq> [] \<and> m mod 60 = 0))"

lemma buckets_okD:
  "buckets_ok s \<Longrightarrow> dict_wf (buckets_of s x)"
  "buckets_ok s \<Longrightarrow> d_get (buckets_of s x) m = Some ts \<Longrightarrow> ts \<noteq> [] \<and> m mod 60 = 0"
  unfolding buckets_ok_def by blast+

lemma bucket_nonempty: "buckets_ok s \<Longrightarrow> bucket s x m \<noteq> [] \<longleftrightarrow> m \<in> set (d_keys (buckets_of s x))"
  using buckets_okD(2) [of s x m] unfolding d_keys_iff bucket_def
  by (cases "d_get (buckets_of s x) m") auto

text \<open>What the flush and the poll leave alone.\<close>

abbreviation same_ticks :: "'s ingest \<Rightarrow> 's ingest \<Rightarrow> bool" where
  "same_ticks s' s \<equiv> ig_ticks s' = ig_ticks s \<and> ig_recorded s' = ig_recorded s \<and> ig_last_ingested s' = ig_last_ingested s"

abbreviation same_plan :: "'s ingest \<Rightarrow> 's ingest \<Rightarrow> bool" where
  "same_plan s' s \<equiv> ig_paused s' = ig_paused s \<and> ig_reason s' = ig_reason s \<and> ig_backoff_until s' = ig_backoff_until s"

lemma mark_degraded_fields [simp]:
  "ig_ticks (mark_degraded cfg late x r d e s) = ig_ticks s"
  "ig_recorded (mark_degraded cfg late x r d e s) = ig_recorded s"
  "ig_last_ingested (mark_degraded cfg late x r d e s) = ig_last_ingested s"
  "ig_store (mark_degraded cfg late x r d e s) = ig_store s"
  by (simp_all add: mark_degraded_def)

lemma autorecover_fields [simp]:
  "ig_ticks (autorecover x s) = ig_ticks s" "ig_recorded (autorecover x s) = ig_recorded s"
  "ig_last_ingested (autorecover x s) = ig_last_ingested s" "ig_store (autorecover x s) = ig_store s"
  by (simp_all add: autorecover_def)

lemma increase_backoff_fields [simp]:
  "ig_ticks (increase_backoff cfg x n s) = ig_ticks s" "ig_recorded (increase_backoff cfg x n s) = ig_recorded s"
  "ig_last_ingested (increase_backoff cfg x n s) = ig_last_ingested s" "ig_store (increase_backoff cfg x n s) = ig_store s"
  by (simp_all add: increase_backoff_def Let_def)

lemma no_price_fields [simp]:
  "ig_ticks (no_price cfg n late x s) = ig_ticks s" "ig_recorded (no_price cfg n late x s) = ig_recorded s"
  "ig_last_ingested (no_price cfg n late x s) = ig_last_ingested s" "ig_store (no_price cfg n late x s) = ig_store s"
  by (simp_all add: no_price_def Let_def)

lemma pause_closed_fields [simp]:
  "ig_ticks (pause_closed cfg n s) = ig_ticks s" "ig_recorded (pause_closed cfg n s) = ig_recorded s"
  "ig_last_ingested (pause_closed cfg n s) = ig_last_ingested s" "ig_store (pause_closed cfg n s) = ig_store s"
  by (simp_all add: pause_closed_def)

lemma bucket_cong: "ig_ticks s' = ig_ticks s \<Longrightarrow> buckets_of s' = buckets_of s"
  by (simp add: buckets_of_def fun_eq_iff)

lemma heartbeat_fields:
  "same_ticks (fst (heartbeat_all n fetch xs s)) s \<and> ig_store (fst (heartbeat_all n fetch xs s)) = ig_store s"
proof (induction xs arbitrary: s)
  case (Cons x xs)
  show ?case
    by (cases "fetch (ostium_asset s x)") (auto simp: Let_def Cons.IH split: option.split prod.split)
qed simp

lemma gate_decision_fields:
  "same_ticks (gate_decision cfg late x w g s) s \<and> ig_store (gate_decision cfg late x w g s) = ig_store s"
  by (simp add: gate_decision_def)

lemma gate_symbol_fields:
  "same_ticks (gate_symbol ops cfg late w x s) s \<and> ig_store (gate_symbol ops cfg late w x s) = ig_store s"
  by (simp add: gate_symbol_def Let_def gate_decision_fields split: option.split)

lemma gate_metrics_fields:
  "same_ticks (ingest_update_gate_metrics ops cfg late s) s \<and> ig_store (ingest_update_gate_metrics ops cfg late s) = ig_store s"
proof -
  have "same_ticks (fold (gate_symbol ops cfg late w) xs s) s \<and> ig_store (fold (gate_symbol ops cfg late w) xs s) = ig_store s" for w xs
    by (induction xs arbitrary: s) (simp_all add: gate_symbol_fields)
  then show ?thesis by (simp add: ingest_update_gate_metrics_def split: option.split)
qed

section \<open>The recorded ticks\<close>

definition recorded :: "'s ingest \<Rightarrow> string \<Rightarrow> ostium_tick list" where
  "recorded s x = (case ig_recorded s of None \<Rightarrow> []
     | Some r \<Rightarrow> map (\<lambda>(y, t, p). \<lparr>ot_ts = t, ot_price = p\<rparr>) (filter (\<lambda>(y, t, p). y = x) r))"

definition ticks_of :: "'s ingest \<Rightarrow> string \<Rightarrow> int \<Rightarrow> ostium_tick list" where
  "ticks_of s x m = filter (\<lambda>t. ot_ts t div 60 * 60 = m) (recorded s x)"

lemma ticks_of_cong: "ig_recorded s' = ig_recorded s \<Longrightarrow> recorded s' = recorded s \<and> ticks_of s' = ticks_of s"
  by (simp add: recorded_def ticks_of_def fun_eq_iff)

lemma ticks_of_eq: "recorded s' = recorded s \<Longrightarrow> ticks_of s' = ticks_of s"
  by (simp add: ticks_of_def fun_eq_iff)

definition tick_candle :: "string \<Rightarrow> int \<Rightarrow> ostium_tick list \<Rightarrow> candle" where
  "tick_candle x m ts = \<lparr>c_symbol = x, c_ts = utc_dt (m * second_us), c_open = ot_price (hd ts),
     c_high = Max (ot_price ` set ts), c_low = Min (ot_price ` set ts), c_close = ot_price (last ts),
     c_volume = 0, c_closed = True\<rparr>"

lemma fold_max: "fold max ps (p::rat) = Max (insert p (set ps))"
proof (induction ps arbitrary: p)
  case (Cons q ps)
  show ?case
  proof (cases "ps = []")
    case False
    with Cons show ?thesis by (simp add: max.commute max.left_commute)
  qed (simp add: max.commute)
qed simp

lemma fold_min: "fold min ps (p::rat) = Min (insert p (set ps))"
proof (induction ps arbitrary: p)
  case (Cons q ps)
  show ?case
  proof (cases "ps = []")
    case False
    with Cons show ?thesis by (simp add: min.commute min.left_commute)
  qed (simp add: min.commute)
qed simp

lemma max_list_Max: "ps \<noteq> [] \<Longrightarrow> max_list ps = Max (set ps)"
  by (cases ps) (simp_all add: max_list_def fold_max)

lemma min_list_Min: "ps \<noteq> [] \<Longrightarrow> min_list ps = Min (set ps)"
  by (cases ps) (simp_all add: min_list_def fold_min)

lemma row_candle_ticks:
  assumes "ts \<noteq> []"
  defines "ps \<equiv> map ot_price ts"
  shows "row_candle x (m, hd ps, max_list ps, min_list ps, last ps) = Inr (tick_candle x m ts)"
    and "good_candle x (tick_candle x m ts)"
proof -
  have ne: "ps \<noteq> []" using assms(1) by (simp add: ps_def)
  note hd_in = hd_in_set [OF ne] and last_in = last_in_set [OF ne]
  have max: "max_list ps = Max (ot_price ` set ts)" and min: "min_list ps = Min (ot_price ` set ts)"
    using max_list_Max [OF ne] min_list_Min [OF ne] by (simp_all add: ps_def)
  have ends: "hd ps = ot_price (hd ts)" "last ps = ot_price (last ts)"
    using assms(1) by (simp_all add: ps_def hd_map last_map)
  have bounds: "Min (ot_price ` set ts) \<le> p \<and> p \<le> Max (ot_price ` set ts)" if "p \<in> set ps" for p
    using that by (auto simp: ps_def)
  note b = bounds [OF hd_in] bounds [OF last_in]
  have ok: "candle_post_init (tick_candle x m ts) = Inr (tick_candle x m ts)"
    using b unfolding ends by (auto simp: candle_post_init_def tick_candle_def not_less)
  show "row_candle x (m, hd ps, max_list ps, min_list ps, last ps) = Inr (tick_candle x m ts)"
    using ok unfolding row_candle_def max min ends by (simp add: tick_candle_def fromtimestamp_def utc_dt_def utc_def)
  show "good_candle x (tick_candle x m ts)"
    using ok unfolding good_candle_def candle_post_init_Inr by (auto simp: tick_candle_def)
qed

section \<open>One price\<close>

definition open_minute :: "ingest_config \<Rightarrow> string \<Rightarrow> int \<Rightarrow> bool" where
  "open_minute cfg x m \<longleftrightarrow> m mod 60 = 0 \<and> fst (ig_state cfg x m)"

definition accepts :: "ingest_config \<Rightarrow> string \<Rightarrow> int \<Rightarrow> int \<Rightarrow> 's ingest \<Rightarrow> bool" where
  "accepts cfg x ts now s \<longleftrightarrow> now - ts \<le> ic_stale_seconds cfg \<and> ts - now \<le> ic_poll_interval cfg \<and>
     (\<forall>p. d_get (ig_last_ingested s) x = Some p \<longrightarrow> p \<le> ts)"

lemma accept_tick_timestamp_exact:
  "accept_tick_timestamp cfg x ts now s =
     (if accepts cfg x ts now s then (s\<lparr>ig_last_ingested := d_set x ts (ig_last_ingested s)\<rparr>, True)
      else (s\<lparr>ig_ignored_stale := inc0 x (ig_ignored_stale s)\<rparr>, False))"
  by (auto simp: accept_tick_timestamp_def accepts_def Let_def split: option.split)

text \<open>The counters a price updates whether or not it is accepted.\<close>

definition count_price :: "string \<Rightarrow> int \<Rightarrow> int \<Rightarrow> pfloat \<Rightarrow> 's ingest \<Rightarrow> 's ingest" where
  "count_price x now ts p s = s\<lparr>ig_failures := d_set x 0 (ig_failures s),
     ig_ticks_seen := inc0 x (ig_ticks_seen s), ig_ticks_last_ts := d_set x ts (ig_ticks_last_ts s),
     ig_last_price := d_set x p (ig_last_price s),
     ig_first_seen := (if d_has (ig_first_seen s) x then ig_first_seen s else d_set x now (ig_first_seen s))\<rparr>"

lemma count_price_fields [simp]:
  "ig_ticks (count_price x now ts p s) = ig_ticks s" "ig_recorded (count_price x now ts p s) = ig_recorded s"
  "ig_last_ingested (count_price x now ts p s) = ig_last_ingested s" "ig_store (count_price x now ts p s) = ig_store s"
  "ig_degraded (count_price x now ts p s) = ig_degraded s" "ig_reason (count_price x now ts p s) = ig_reason s"
  "ig_backoff_until (count_price x now ts p s) = ig_backoff_until s"
  "accepts cfg x ts now' (count_price x now ts p s) = accepts cfg x ts now' s"
  by (simp_all add: count_price_def accepts_def)

lemma got_price_exact:
  "got_price cfg now x ts p s =
     (let s1 = count_price x now ts p s in
      if accepts cfg x ts now s then
        (let s2 = s1\<lparr>ig_last_ingested := d_set x ts (ig_last_ingested s1)\<rparr>;
             s3 = (if open_minute cfg x (ts div 60 * 60) then add_tick x \<lparr>ot_ts = ts, ot_price = p\<rparr> s2
                   else s2\<lparr>ig_ignored_closed := inc0 x (ig_ignored_closed s2)\<rparr>);
             s4 = (if x \<in> set (ig_degraded s) \<and> is_transient_degradation s x then autorecover x s3 else s3)
         in s4\<lparr>ig_recorded := map_option (\<lambda>r. r @ [(x, ts, p)]) (ig_recorded s)\<rparr>)
      else s1\<lparr>ig_ignored_stale := inc0 x (ig_ignored_stale s1)\<rparr>)"
  unfolding got_price_def Let_def count_price_def [symmetric] accept_tick_timestamp_exact open_minute_def
  by (simp add: add_tick_def Let_def is_transient_degradation_def)

lemma got_price_store [simp]: "ig_store (got_price cfg now x ts p s) = ig_store s"
  by (simp add: got_price_exact add_tick_def Let_def)

lemma got_price_rejected:
  "\<not> accepts cfg x ts now s \<Longrightarrow> same_ticks (got_price cfg now x ts p s) s"
  by (simp add: got_price_exact Let_def)

lemma bucket_add_tick:
  "bucket (add_tick x t s) y m = (if y = x \<and> m = ot_ts t div 60 * 60 then bucket s x m @ [t] else bucket s y m)"
  by (simp add: bucket_def add_tick_def buckets_of_def Let_def)

lemma buckets_ok_add_tick: "buckets_ok s \<Longrightarrow> buckets_ok (add_tick x t s)"
  unfolding buckets_ok_def add_tick_def buckets_of_def Let_def by (auto split: if_splits)

lemma add_tick_fields [simp]:
  "ig_recorded (add_tick x t s) = ig_recorded s" "ig_last_ingested (add_tick x t s) = ig_last_ingested s"
  "ig_degraded (add_tick x t s) = ig_degraded s" "ig_reason (add_tick x t s) = ig_reason s"
  "ig_backoff_until (add_tick x t s) = ig_backoff_until s"
  by (simp_all add: add_tick_def Let_def)

lemma got_price_accepted:
  fixes x :: string and ts now :: int and cfg :: ingest_config and p :: pfloat
  assumes acc: "accepts cfg x ts now s"
  defines "s' \<equiv> got_price cfg now x ts p s" and "m \<equiv> ts div 60 * 60"
  shows "ig_recorded s' = map_option (\<lambda>r. r @ [(x, ts, p)]) (ig_recorded s)"
    and "ig_last_ingested s' = d_set x ts (ig_last_ingested s)"
    and "ig_ticks s' = (if open_minute cfg x m then ig_ticks (add_tick x \<lparr>ot_ts = ts, ot_price = p\<rparr> s) else ig_ticks s)"
  using acc unfolding s'_def m_def
  by (simp_all add: got_price_exact Let_def add_tick_def buckets_of_def)

section \<open>The invariant\<close>

text \<open>
  \<open>bucket_fits\<close>: what is still in a bucket is the end of the ticks recorded for its minute, and the
  rest went into a candle of the store; \<open>store_fits\<close>: the store has what it had at the start and
  the candles of ticks recorded for open minutes.
\<close>

definition bucket_fits :: "('s \<Rightarrow> string \<Rightarrow> int \<Rightarrow> candle option) \<Rightarrow> 's ingest \<Rightarrow> string \<Rightarrow> int \<Rightarrow> bool" where
  "bucket_fits C s x m \<longleftrightarrow> (\<exists>k \<le> length (ticks_of s x m). bucket s x m = drop k (ticks_of s x m) \<and>
     (0 < k \<longrightarrow> C (ig_store s) x (m * second_us) \<noteq> None))"

definition store_fits :: "('s \<Rightarrow> string \<Rightarrow> int \<Rightarrow> candle option) \<Rightarrow> ingest_config \<Rightarrow> 's \<Rightarrow> 's ingest \<Rightarrow> string \<Rightarrow> int \<Rightarrow> bool" where
  "store_fits C cfg st0 s x u \<longleftrightarrow> C (ig_store s) x u = C st0 x u \<or>
     (C st0 x u = None \<and> (\<exists>m j. u = m * second_us \<and> open_minute cfg x m \<and> 0 < j \<and> j \<le> length (ticks_of s x m) \<and>
        C (ig_store s) x u = Some (tick_candle x m (take j (ticks_of s x m)))))"

text \<open>What a flush up to \<open>cur\<close> may write: the whole candle of an ended open minute that had none.\<close>

definition cell_written :: "('s \<Rightarrow> string \<Rightarrow> int \<Rightarrow> candle option) \<Rightarrow> ingest_config \<Rightarrow> int \<Rightarrow> 's ingest \<Rightarrow> 's ingest \<Rightarrow> string \<Rightarrow> int \<Rightarrow> bool" where
  "cell_written C cfg cur s s' x u \<longleftrightarrow> C (ig_store s) x u = None \<and> (\<exists>m < cur. u = m * second_us \<and> open_minute cfg x m \<and>
     ticks_of s' x m \<noteq> [] \<and> C (ig_store s') x u = Some (tick_candle x m (ticks_of s' x m)))"

definition ticks_sorted :: "'s ingest \<Rightarrow> string \<Rightarrow> bool" where
  "ticks_sorted s x \<longleftrightarrow> sorted (map ot_ts (recorded s x)) \<and>
     (\<forall>t \<in> set (recorded s x). \<exists>p. d_get (ig_last_ingested s) x = Some p \<and> ot_ts t \<le> p)"

definition ingest_inv :: "('s \<Rightarrow> string \<Rightarrow> int \<Rightarrow> candle option) \<Rightarrow> ingest_config \<Rightarrow> 's \<Rightarrow> 's ingest \<Rightarrow> bool" where
  [inv_defs]: "ingest_inv C cfg st0 s \<longleftrightarrow> buckets_ok s \<and> ig_recorded s \<noteq> None \<and>
     (\<forall>x. ticks_sorted s x) \<and>
     (\<forall>x m. if open_minute cfg x m then bucket_fits C s x m else bucket s x m = []) \<and>
     (\<forall>x u. store_fits C cfg st0 s x u)"

lemma ingest_invD:
  "ingest_inv C cfg st0 s \<Longrightarrow> buckets_ok s" "ingest_inv C cfg st0 s \<Longrightarrow> ig_recorded s \<noteq> None"
  "ingest_inv C cfg st0 s \<Longrightarrow> ticks_sorted s x"
  "ingest_inv C cfg st0 s \<Longrightarrow> open_minute cfg x m \<Longrightarrow> bucket_fits C s x m"
  "ingest_inv C cfg st0 s \<Longrightarrow> \<not> open_minute cfg x m \<Longrightarrow> bucket s x m = []"
  "ingest_inv C cfg st0 s \<Longrightarrow> store_fits C cfg st0 s x u"
  unfolding ingest_inv_def by (blast, blast, blast, metis, metis, blast)

lemma ingest_inv_cong:
  assumes "same_ticks s' s" "ig_store s' = ig_store s"
  shows "ingest_inv C cfg st0 s' \<longleftrightarrow> ingest_inv C cfg st0 s"
  using assms ticks_of_cong [of s' s] bucket_cong [of s' s]
  by (simp add: ingest_inv_def buckets_ok_def ticks_sorted_def bucket_fits_def store_fits_def bucket_def cong: if_cong)

lemma recorded_append:
  assumes "ig_recorded s' = map_option (\<lambda>r. r @ [(x, ts, p)]) (ig_recorded s)" "ig_recorded s \<noteq> None"
  shows "recorded s' y = recorded s y @ (if y = x then [\<lparr>ot_ts = ts, ot_price = p\<rparr>] else [])"
    and "ticks_of s' y m = ticks_of s y m @ (if y = x \<and> m = ts div 60 * 60 then [\<lparr>ot_ts = ts, ot_price = p\<rparr>] else [])"
  using assms by (auto simp: recorded_def ticks_of_def)

lemma got_price_inv:
  assumes inv: "ingest_inv C cfg st0 s"
  shows "ingest_inv C cfg st0 (got_price cfg now x ts p s)"
proof (cases "accepts cfg x ts now s")
  case False
  then show ?thesis using inv ingest_inv_cong [OF got_price_rejected [OF False] got_price_store] by blast
next
  case True
  let ?s' = "got_price cfg now x ts p s" and ?t = "\<lparr>ot_ts = ts, ot_price = p\<rparr>" and ?m = "ts div 60 * 60"
  note acc = got_price_accepted [OF True, of p] and I = ingest_invD [OF inv]
  note rec = recorded_append [OF acc(1) I(2)]
  have bucket: "bucket ?s' y m = bucket s y m @ (if y = x \<and> m = ?m \<and> open_minute cfg x m then [?t] else [])" for y m
  proof (cases "open_minute cfg x ?m")
    case True
    then have "ig_ticks ?s' = ig_ticks (add_tick x ?t s)" using acc(3) by simp
    then have "bucket ?s' y m = bucket (add_tick x ?t s) y m" using bucket_cong by (metis bucket_def)
    with True show ?thesis by (auto simp: bucket_add_tick)
  next
    case False
    then have "ig_ticks ?s' = ig_ticks s" using acc(3) by simp
    then have "bucket ?s' y m = bucket s y m" using bucket_cong by (metis bucket_def)
    with False show ?thesis by auto
  qed
  have ok: "buckets_ok ?s'"
  proof (cases "open_minute cfg x ?m")
    case True
    then have "ig_ticks ?s' = ig_ticks (add_tick x ?t s)" using acc(3) by simp
    then have "buckets_of ?s' = buckets_of (add_tick x ?t s)" by (rule bucket_cong)
    then show ?thesis using buckets_ok_add_tick [OF I(1)] by (simp add: buckets_ok_def)
  next
    case False
    then have "ig_ticks ?s' = ig_ticks s" using acc(3) by simp
    then have "buckets_of ?s' = buckets_of s" by (rule bucket_cong)
    then show ?thesis using I(1) by (simp add: buckets_ok_def)
  qed
  have last: "\<forall>t \<in> set (recorded s x). ot_ts t \<le> ts"
    using I(3) [of x] True unfolding ticks_sorted_def accepts_def by force
  have sorted: "ticks_sorted ?s' y" for y
  proof (cases "y = x")
    case True
    with I(3) [of x] last show ?thesis by (auto simp: ticks_sorted_def rec acc(2) sorted_append)
  next
    case False
    then show ?thesis using I(3) [of y] by (simp add: ticks_sorted_def rec acc(2))
  qed
  have fits: "bucket_fits C ?s' y m" if o: "open_minute cfg y m" for y m
  proof -
    obtain k where k: "k \<le> length (ticks_of s y m)" "bucket s y m = drop k (ticks_of s y m)"
      "0 < k \<longrightarrow> C (ig_store s) y (m * second_us) \<noteq> None"
      using I(4) [OF o] unfolding bucket_fits_def by blast
    show ?thesis unfolding bucket_fits_def
      by (rule exI [of _ k]) (use k o in \<open>auto simp: bucket rec\<close>)
  qed
  have closed: "bucket ?s' y m = []" if "\<not> open_minute cfg y m" for y m
    using I(5) [OF that] that by (auto simp: bucket)
  have store: "store_fits C cfg st0 ?s' y u" for y u
    using I(6) [of y u] unfolding store_fits_def got_price_store
  proof (elim disjE conjE exE)
    fix m j assume a: "C st0 y u = None" "u = m * second_us" "open_minute cfg y m" "0 < j" "j \<le> length (ticks_of s y m)"
      "C (ig_store s) y u = Some (tick_candle y m (take j (ticks_of s y m)))"
    have "take j (ticks_of ?s' y m) = take j (ticks_of s y m)" "j \<le> length (ticks_of ?s' y m)"
      using a(5) by (simp_all add: rec)
    with a show "C (ig_store s) y u = C st0 y u \<or> C st0 y u = None \<and> (\<exists>m j. u = m * second_us \<and> open_minute cfg y m \<and>
       0 < j \<and> j \<le> length (ticks_of ?s' y m) \<and> C (ig_store s) y u = Some (tick_candle y m (take j (ticks_of ?s' y m))))"
      by metis
  qed blast
  show ?thesis unfolding ingest_inv_def using ok sorted fits closed store acc(1) I(2) by auto
qed

lemma poll_all_inv:
  "ingest_inv C cfg st0 s \<Longrightarrow> ingest_inv C cfg st0 (fst (poll_all cfg now late fetch xs s)) \<and>
    ig_store (fst (poll_all cfg now late fetch xs s)) = ig_store s"
proof (induction xs arbitrary: s)
  case (Cons x xs)
  have np: "ingest_inv C cfg st0 (no_price cfg now late x s)"
    using ingest_inv_cong [of "no_price cfg now late x s" s] Cons.prems by simp
  show ?case
    by (cases "fetch (ostium_asset s x)")
      (auto simp: Cons.prems Cons.IH [OF np] Cons.IH [OF got_price_inv [OF Cons.prems]] split: option.split)
qed simp

lemma got_price_other: "y \<noteq> x \<Longrightarrow> bucket (got_price cfg now x ts p s) y = bucket s y"
  by (simp add: got_price_exact add_tick_def Let_def bucket_def buckets_of_def fun_eq_iff)

lemma no_price_bucket: "bucket (no_price cfg now late x s) = bucket s"
  by (simp add: bucket_def buckets_of_def fun_eq_iff)

lemma got_price_recorded_other: "y \<noteq> x \<Longrightarrow> recorded (got_price cfg now x ts p s) y = recorded s y"
  using got_price_accepted(1) [of cfg x ts now s p] ticks_of_cong [of "got_price cfg now x ts p s" s]
    got_price_rejected [of cfg x ts now s p]
  by (cases "accepts cfg x ts now s") (auto simp: recorded_def split: option.split)

lemma no_price_recorded: "recorded (no_price cfg now late x s) = recorded s"
  by (simp add: recorded_def fun_eq_iff)

lemma poll_all_other: "y \<notin> set xs \<Longrightarrow> bucket (fst (poll_all cfg now late fetch xs s)) y = bucket s y \<and>
    recorded (fst (poll_all cfg now late fetch xs s)) y = recorded s y"
proof (induction xs arbitrary: s)
  case (Cons x xs)
  then have "y \<noteq> x" "y \<notin> set xs" by auto
  with Cons.IH show ?case
    by (cases "fetch (ostium_asset s x)") (auto simp: got_price_other no_price_bucket got_price_recorded_other no_price_recorded split: option.split)
qed simp

section \<open>Flushing\<close>

definition row_of :: "ostium_tick list \<Rightarrow> int \<Rightarrow> int \<times> pfloat \<times> pfloat \<times> pfloat \<times> pfloat" where
  "row_of ts m = (let ps = map ot_price ts in (m, hd ps, max_list ps, min_list ps, last ps))"

definition due :: "'s ingest \<Rightarrow> string \<Rightarrow> int \<Rightarrow> int list" where
  "due s x cur = filter (\<lambda>m. m < cur) (sort (d_keys (buckets_of s x)))"

lemma set_due: "buckets_ok s \<Longrightarrow> m \<in> set (due s x cur) \<longleftrightarrow> m < cur \<and> bucket s x m \<noteq> []"
  by (auto simp: due_def bucket_nonempty)

lemma aggregate_due:
  assumes "buckets_ok s"
  shows "aggregate_ticks_to_candles (buckets_of s x) cur = map (\<lambda>m. row_of (bucket s x m) m) (due s x cur)"
proof -
  have "concat (map (\<lambda>minute.
       if minute \<ge> cur then []
       else (case d_get (buckets_of s x) minute of
           None \<Rightarrow> []
         | Some [] \<Rightarrow> []
         | Some (t # ticks) \<Rightarrow>
             (let prices = map ot_price (t # ticks)
              in [(minute, hd prices, max_list prices, min_list prices, last prices)]))) ms) =
     map (\<lambda>m. row_of (bucket s x m) m) (filter (\<lambda>m. m < cur) ms)"
    if "set ms \<subseteq> set (d_keys (buckets_of s x))" for ms
    using that
  proof (induction ms)
    case (Cons m ms)
    then have "m \<in> set (d_keys (buckets_of s x))" by simp
    then obtain ts where ts: "d_get (buckets_of s x) m = Some ts" unfolding d_keys_iff by blast
    with buckets_okD(2) [OF assms ts] obtain t ts' where "ts = t # ts'" by (cases ts) auto
    with Cons ts show ?case by (auto simp: row_of_def bucket_def Let_def)
  qed simp
  then show ?thesis by (simp add: aggregate_ticks_to_candles_def due_def)
qed

lemma valid_single: "vr_duplicates (validate [c] a b x) = 0" "vr_step_errors (validate [c] a b x) = 0"
  by (simp_all add: validate_def Let_def)

context candle_store
begin

lemma write_rows_spec:
  fixes x :: string and late :: int and cfg :: ingest_config
  assumes "wf (ig_store s)" "\<forall>m \<in> set ms. tk m \<noteq> []"
  defines "s' \<equiv> fst (write_rows ops cfg late x (map (\<lambda>m. row_of (tk m) m) ms) s)"
  shows "snd (write_rows ops cfg late x (map (\<lambda>m. row_of (tk m) m) ms) s) = Inr True \<and> same_ticks s' s \<and> same_plan s' s \<and>
    wf (ig_store s') \<and> (\<forall>y u. contents (ig_store s') y u =
      (if y = x \<and> u \<in> (\<lambda>m. m * second_us) ` set ms \<and> contents (ig_store s) x u = None
       then Some (tick_candle x (u div second_us) (tk (u div second_us))) else contents (ig_store s) y u))"
  using assms(1,2) unfolding s'_def
proof (induction ms arbitrary: s)
  case (Cons m ms)
  let ?c = "tick_candle x m (tk m)"
  have tk: "tk m \<noteq> []" using Cons.prems(2) by simp
  have row: "row_candle x (row_of (tk m) m) = Inr ?c" and good: "good_candle x ?c"
    using row_candle_ticks [OF tk, of x m] by (simp_all add: row_of_def Let_def)
  have inst: "instant ?c = m * second_us" by (simp add: instant_def tick_candle_def)
  have dm: "m * second_us div second_us = m" "m * second_us mod second_us = 0" by simp_all
  show ?case
  proof (cases "contents (ig_store s) x (m * second_us)")
    case None
    then obtain st where st: "so_append ops ?c (ig_store s) = (st, Inr True)" "wf st"
      "\<forall>y u. contents st y u = (if y = x \<and> u = m * second_us then Some ?c else contents (ig_store s) y u)"
      using append_law [OF Cons.prems(1) good] by (auto simp: inst)
    let ?s1 = "s\<lparr>ig_store := st, ig_metrics := map_option (inc_candles_written x 1 (Some (fst (row_of (tk m) m)))) (ig_metrics s)\<rparr>"
    have step: "write_rows ops cfg late x (map (\<lambda>m. row_of (tk m) m) (m # ms)) s =
        write_rows ops cfg late x (map (\<lambda>m. row_of (tk m) m) ms) ?s1"
      by (simp add: row st(1) Let_def valid_single)
    have IH: "snd (write_rows ops cfg late x (map (\<lambda>m. row_of (tk m) m) ms) ?s1) = Inr True \<and>
        same_ticks (fst (write_rows ops cfg late x (map (\<lambda>m. row_of (tk m) m) ms) ?s1)) ?s1 \<and>
        same_plan (fst (write_rows ops cfg late x (map (\<lambda>m. row_of (tk m) m) ms) ?s1)) ?s1 \<and>
        wf (ig_store (fst (write_rows ops cfg late x (map (\<lambda>m. row_of (tk m) m) ms) ?s1))) \<and>
        (\<forall>y u. contents (ig_store (fst (write_rows ops cfg late x (map (\<lambda>m. row_of (tk m) m) ms) ?s1))) y u =
          (if y = x \<and> u \<in> (\<lambda>m. m * second_us) ` set ms \<and> contents st x u = None
           then Some (tick_candle x (u div second_us) (tk (u div second_us))) else contents st y u))"
      using Cons.IH [of ?s1] Cons.prems(2) st(2) by simp
    have "(if y = x \<and> u \<in> (\<lambda>m. m * second_us) ` set ms \<and> contents st x u = None
           then Some (tick_candle x (u div second_us) (tk (u div second_us))) else contents st y u) =
      (if y = x \<and> u \<in> (\<lambda>m. m * second_us) ` set (m # ms) \<and> contents (ig_store s) x u = None
       then Some (tick_candle x (u div second_us) (tk (u div second_us))) else contents (ig_store s) y u)" for y u
      by (cases "y = x"; cases "u = m * second_us") (simp_all add: st(3) None dm)
    with IH show ?thesis unfolding step by simp
  next
    case (Some d)
    then have st: "so_append ops ?c (ig_store s) = (ig_store s, Inr False)"
      using append_law [OF Cons.prems(1) good] by (simp add: inst)
    have step: "write_rows ops cfg late x (map (\<lambda>m. row_of (tk m) m) (m # ms)) s =
        write_rows ops cfg late x (map (\<lambda>m. row_of (tk m) m) ms) s"
      by (simp add: row st Let_def valid_single)
    have "(if y = x \<and> u \<in> (\<lambda>m. m * second_us) ` set ms \<and> contents (ig_store s) x u = None
           then Some (tick_candle x (u div second_us) (tk (u div second_us))) else contents (ig_store s) y u) =
      (if y = x \<and> u \<in> (\<lambda>m. m * second_us) ` set (m # ms) \<and> contents (ig_store s) x u = None
       then Some (tick_candle x (u div second_us) (tk (u div second_us))) else contents (ig_store s) y u)" for y u
      by (cases "y = x"; cases "u = m * second_us") (simp_all add: Some)
    with Cons.IH [OF Cons.prems(1)] Cons.prems(2) show ?thesis unfolding step by simp
  qed
qed simp

lemma flush_spec:
  fixes x :: string and late cur :: int and cfg :: ingest_config
  assumes wf: "wf (ig_store s)" and ok: "buckets_ok s"
  defines "s' \<equiv> fst (flush_closed_minutes ops cfg late cur x s)"
  shows "snd (flush_closed_minutes ops cfg late cur x s) = Inr ()"
    and "wf (ig_store s')" and "buckets_ok s'"
    and "ig_recorded s' = ig_recorded s" and "ig_last_ingested s' = ig_last_ingested s"
    and "same_plan s' s"
    and "bucket s' y m = (if y = x \<and> m < cur then [] else bucket s y m)"
    and "contents (ig_store s') y u =
      (if y = x \<and> u \<in> (\<lambda>m. m * second_us) ` {m. m < cur \<and> bucket s x m \<noteq> []} \<and> contents (ig_store s) x u = None
       then Some (tick_candle x (u div second_us) (bucket s x (u div second_us))) else contents (ig_store s) y u)"
proof -
  let ?rows = "aggregate_ticks_to_candles (buckets_of s x) cur"
  let ?w = "write_rows ops cfg late x ?rows s"
  have rows: "?rows = map (\<lambda>m. row_of (bucket s x m) m) (due s x cur)" by (rule aggregate_due [OF ok])
  have due: "set (due s x cur) = {m. m < cur \<and> bucket s x m \<noteq> []}" using set_due [OF ok] by blast
  have tk: "\<forall>m \<in> set (due s x cur). bucket s x m \<noteq> []" by (simp add: due)
  note w = write_rows_spec [OF wf tk, of cfg late x, folded rows, unfolded due]
  let ?last = "Max (fst ` set ?rows)"
  have fsts: "fst ` set ?rows = {m. m < cur \<and> bucket s x m \<noteq> []}"
    unfolding rows due [symmetric] by (auto simp: row_of_def Let_def image_image)
  have le: "m \<le> ?last \<longleftrightarrow> m < cur" if "bucket s x m \<noteq> []" "?rows \<noteq> []" for m
  proof
    have "?last \<in> fst ` set ?rows" using that(2) by (intro Max_in) auto
    then have "?last < cur" unfolding fsts by blast
    moreover assume "m \<le> ?last"
    ultimately show "m < cur" by simp
  next
    assume "m < cur"
    then have "m \<in> fst ` set ?rows" unfolding fsts using that(1) by blast
    then show "m \<le> ?last" by simp
  qed
  let ?s1 = "fst ?w"
  have ticks: "ig_ticks ?s1 = ig_ticks s" using w by blast
  then have bs: "buckets_of ?s1 = buckets_of s" by (rule bucket_cong)
  have s': "s' = (if ?rows = [] then s else ?s1\<lparr>ig_ticks :=
      d_set x (filter (\<lambda>(m, ts). \<not> m \<le> ?last) (buckets_of s x)) (ig_ticks s)\<rparr>)"
    using w bs ticks unfolding s'_def by (cases ?w) (auto simp: flush_closed_minutes_def Let_def)
  show "snd (flush_closed_minutes ops cfg late cur x s) = Inr ()"
    using w by (cases ?w) (simp add: flush_closed_minutes_def Let_def)
  show "ig_recorded s' = ig_recorded s" and "ig_last_ingested s' = ig_last_ingested s"
    unfolding s' using w by auto
  show "same_plan s' s" unfolding s' using w by auto
  show "wf (ig_store s')" unfolding s' using w wf by auto
  have ne: "{m. m < cur \<and> bucket s x m \<noteq> []} = {}" if "?rows = []" using that fsts by simp
  show "contents (ig_store s') y u =
      (if y = x \<and> u \<in> (\<lambda>m. m * second_us) ` {m. m < cur \<and> bucket s x m \<noteq> []} \<and> contents (ig_store s) x u = None
       then Some (tick_candle x (u div second_us) (bucket s x (u div second_us))) else contents (ig_store s) y u)"
  proof (cases "?rows = []")
    case True
    then show ?thesis by (simp add: s' ne)
  next
    case False
    then have st: "ig_store s' = ig_store ?s1" by (simp add: s')
    from w show ?thesis unfolding st by (elim conjE allE [of _ y] allE [of _ u])
  qed
  have get: "d_get (buckets_of s' y) m = (if y = x \<and> m < cur then None else d_get (buckets_of s y) m)" for y m
  proof (cases "?rows = []")
    case True
    then have "d_get (buckets_of s x) m = None" if "m < cur"
      using ne that bucket_nonempty [OF ok, of x m] by (auto simp: map_of_eq_None_iff)
    with True show ?thesis by (simp add: s')
  next
    case False
    have "m \<le> ?last \<longleftrightarrow> m < cur" if "d_get (buckets_of s x) m \<noteq> None"
      using le [OF _ False] that bucket_nonempty [OF ok, of x m] d_keys_iff by metis
    with False show ?thesis by (cases "d_get (buckets_of s x) m") (auto simp: s' buckets_of_def d_get_filter)
  qed
  show "bucket s' y m = (if y = x \<and> m < cur then [] else bucket s y m)"
    by (simp add: bucket_def get)
  have "dict_wf (buckets_of s' y)" for y
    using buckets_okD(1) [OF ok] by (auto simp: s' buckets_of_def intro: dict_wf_filter)
  then show "buckets_ok s'" unfolding buckets_ok_def get using buckets_okD(2) [OF ok] by auto
qed

lemma flush_inv:
  fixes x :: string and late cur :: int and cfg :: ingest_config
  assumes wf: "wf (ig_store s)" and inv: "ingest_inv contents cfg st0 s"
  defines "s' \<equiv> fst (flush_closed_minutes ops cfg late cur x s)"
  shows "wf (ig_store s')" "ingest_inv contents cfg st0 s'"
    "contents (ig_store s') y u = contents (ig_store s) y u \<or> y = x \<and> cell_written contents cfg cur s s' y u"
proof -
  note I = ingest_invD [OF inv]
  note F = flush_spec [OF wf I(1), of cfg late cur x, folded s'_def]
  show "wf (ig_store s')" by (rule F(2))
  have T: "recorded s' = recorded s" "ticks_of s' = ticks_of s" using ticks_of_cong F(4) by blast+
  have kept: "contents (ig_store s') y u \<noteq> None" if "contents (ig_store s) y u \<noteq> None" for y u
    using that by (auto simp: F(8))
  have written: "contents (ig_store s') x (m * second_us) \<noteq> None" if "m < cur" "bucket s x m \<noteq> []" for m
    using that by (auto simp: F(8))
  have fits: "bucket_fits contents s' y m" if o: "open_minute cfg y m" for y m
  proof -
    obtain k where k: "k \<le> length (ticks_of s y m)" "bucket s y m = drop k (ticks_of s y m)"
      "0 < k \<longrightarrow> contents (ig_store s) y (m * second_us) \<noteq> None"
      using I(4) [OF o] unfolding bucket_fits_def by blast
    show ?thesis
    proof (cases "y = x \<and> m < cur")
      case True
      then have e: "bucket s' y m = []" by (simp add: F(7))
      have "contents (ig_store s') y (m * second_us) \<noteq> None" if "ticks_of s y m \<noteq> []"
        using that k kept written [of m] True by (cases "k = 0") auto
      then show ?thesis unfolding bucket_fits_def
        by (intro exI [of _ "length (ticks_of s y m)"]) (auto simp: e T)
    next
      case False
      then have "bucket s' y m = bucket s y m" by (simp only: F(7) if_False)
      then show ?thesis unfolding bucket_fits_def T using k kept by metis
    qed
  qed
  have closed: "bucket s' y m = []" if "\<not> open_minute cfg y m" for y m
    using I(5) [OF that] F(7) [of y m] by (cases "y = x \<and> m < cur") simp_all
  have cell: "contents (ig_store s') y u = contents (ig_store s) y u \<or> y = x \<and> cell_written contents cfg cur s s' y u" for y u
  proof (cases "y = x \<and> u \<in> (\<lambda>m. m * second_us) ` {m. m < cur \<and> bucket s x m \<noteq> []} \<and> contents (ig_store s) x u = None")
    case True
    then obtain m where m: "u = m * second_us" "bucket s x m \<noteq> []" "m < cur" by blast
    then have o: "open_minute cfg x m" using I(5) by blast
    obtain k where "bucket s x m = drop k (ticks_of s x m)" "0 < k \<longrightarrow> contents (ig_store s) x u \<noteq> None"
      using I(4) [OF o] m(1) unfolding bucket_fits_def by blast
    then have b: "bucket s x m = ticks_of s x m" using True by simp
    have c: "contents (ig_store s') x u = Some (tick_candle x m (ticks_of s x m))"
      using True m(1) by (simp add: F(8) b)
    have "cell_written contents cfg cur s s' x u"
      unfolding cell_written_def T using True m o b c by auto
    then show ?thesis using True by blast
  next
    case False
    then have "contents (ig_store s') y u = contents (ig_store s) y u" by (simp only: F(8) if_False)
    then show ?thesis by blast
  qed
  then show "contents (ig_store s') y u = contents (ig_store s) y u \<or> y = x \<and> cell_written contents cfg cur s s' y u" .
  have store: "store_fits contents cfg st0 s' y u" for y u
    using cell [of y u]
  proof (elim disjE conjE)
    assume "contents (ig_store s') y u = contents (ig_store s) y u"
    then show ?thesis using I(6) [of y u] by (simp add: store_fits_def T)
  next
    assume c: "cell_written contents cfg cur s s' y u"
    then obtain m where m: "u = m * second_us" "open_minute cfg y m" "ticks_of s' y m \<noteq> []"
      "contents (ig_store s) y u = None" "contents (ig_store s') y u = Some (tick_candle y m (ticks_of s' y m))"
      unfolding cell_written_def by blast
    moreover have "contents st0 y u = None" using I(6) [of y u] m(4) unfolding store_fits_def by auto
    ultimately show ?thesis unfolding store_fits_def
      by (intro disjI2 conjI exI [of _ m] exI [of _ "length (ticks_of s' y m)"]) simp_all
  qed
  have "ticks_sorted s' y" for y using I(3) [of y] by (simp add: ticks_sorted_def T F(5))
  then show "ingest_inv contents cfg st0 s'"
    unfolding ingest_inv_def using F(3,4) I(2) fits closed store by auto
qed

lemma flush_all_inv:
  "wf (ig_store s) \<Longrightarrow> ingest_inv contents cfg st0 s \<Longrightarrow>
    snd (flush_all ops cfg late cur xs s) = Inr () \<and> wf (ig_store (fst (flush_all ops cfg late cur xs s))) \<and>
    ingest_inv contents cfg st0 (fst (flush_all ops cfg late cur xs s)) \<and>
    recorded (fst (flush_all ops cfg late cur xs s)) = recorded s \<and>
    same_plan (fst (flush_all ops cfg late cur xs s)) s \<and>
    (\<forall>x m. (x \<in> set xs \<and> m < cur) \<or> bucket s x m = [] \<longrightarrow> bucket (fst (flush_all ops cfg late cur xs s)) x m = []) \<and>
    (\<forall>x u. contents (ig_store (fst (flush_all ops cfg late cur xs s))) x u = contents (ig_store s) x u \<or>
       x \<in> set xs \<and> cell_written contents cfg cur s (fst (flush_all ops cfg late cur xs s)) x u)"
proof (induction xs arbitrary: s)
  case (Cons y ys)
  let ?f = "flush_closed_minutes ops cfg late cur y s"
  note F = flush_spec [OF Cons.prems(1) ingest_invD(1) [OF Cons.prems(2)], of cfg late cur y]
  have step: "flush_all ops cfg late cur (y # ys) s = flush_all ops cfg late cur ys (fst ?f)"
    using F(1) by (cases ?f) simp
  have rec: "recorded (fst ?f) = recorded s" using ticks_of_cong F(4) by blast
  have b: "bucket (fst ?f) x m = []" if "(x = y \<and> m < cur) \<or> bucket s x m = []" for x m
    using that by (auto simp: F(7))
  note inv = flush_inv [OF Cons.prems, where late = late and cur = cur and x = y]
  note IH = Cons.IH [OF inv(1,2)]
  let ?s' = "fst (flush_all ops cfg late cur ys (fst ?f))"
  have T: "ticks_of ?s' = ticks_of s" "ticks_of (fst ?f) = ticks_of s"
    using IH rec ticks_of_eq by auto
  have "contents (ig_store ?s') x u = contents (ig_store s) x u \<or>
      x \<in> set (y # ys) \<and> cell_written contents cfg cur s ?s' x u" for x u
  proof (cases "contents (ig_store (fst ?f)) x u = contents (ig_store s) x u")
    case True
    with IH show ?thesis unfolding cell_written_def by (metis list.set_intros(2))
  next
    case False
    then have c: "x = y" "cell_written contents cfg cur s (fst ?f) x u" using inv(3) by blast+
    then have "contents (ig_store (fst ?f)) x u \<noteq> None" unfolding cell_written_def by auto
    then have "contents (ig_store ?s') x u = contents (ig_store (fst ?f)) x u"
      using IH unfolding cell_written_def by metis
    with c show ?thesis unfolding cell_written_def T by auto
  qed
  with IH rec F(6) b show ?case unfolding step by (auto 0 3)
qed simp

lemma poll_body_inv:
  fixes now :: int and late :: datetime and cfg :: ingest_config and fetch :: price_fetch
  assumes wf: "wf (ig_store s)" and inv: "ingest_inv contents cfg st0 s"
  defines "s' \<equiv> fst (poll_body ops cfg now late fetch s)"
  shows "wf (ig_store s')" and "ingest_inv contents cfg st0 s'"
    and "contents (ig_store s') y u = contents (ig_store s) y u \<or> cell_written contents cfg (now div 60 * 60) s s' y u"
    and "snd (poll_body ops cfg now late fetch s) = Inr () \<Longrightarrow>
      x \<in> set (newly_paused cfg now s) \<or> x \<in> set (poll_symbols now (active_symbols s) (pause_closed cfg now s)) \<Longrightarrow>
      m < now div 60 * 60 \<Longrightarrow> bucket s' x m = []"
proof -
  let ?cur = "now div 60 * 60" and ?late = "timestamp_int late" and ?s0 = "pause_closed cfg now s"
  let ?new = "newly_paused cfg now s" and ?polled = "poll_symbols now (active_symbols s) (pause_closed cfg now s)"
  have inv0: "ingest_inv contents cfg st0 ?s0" using inv ingest_inv_cong [of ?s0 s] by simp
  define s1 where "s1 = fst (flush_all ops cfg ?late ?cur ?new ?s0)"
  have f1: "flush_all ops cfg ?late ?cur ?new ?s0 = (s1, Inr ())" "wf (ig_store s1)" "ingest_inv contents cfg st0 s1"
    "same_plan s1 ?s0" "recorded s1 = recorded ?s0"
    "\<forall>x u. contents (ig_store s1) x u = contents (ig_store ?s0) x u \<or> x \<in> set ?new \<and> cell_written contents cfg ?cur ?s0 s1 x u"
    "\<forall>x m. x \<in> set ?new \<and> m < ?cur \<or> bucket ?s0 x m = [] \<longrightarrow> bucket s1 x m = []"
    using flush_all_inv [of ?s0, OF _ inv0, of ?late ?cur ?new] wf unfolding s1_def by (auto simp: prod_eq_iff)
  have polled: "poll_symbols now (active_symbols s) s1 = ?polled"
    using f1(4) by (simp add: poll_symbols_def uses_poll_backoff_def)
  let ?p = "poll_all cfg now ?late fetch ?polled s1"
  define s2 where "s2 = fst ?p"
  have f2: "ingest_inv contents cfg st0 s2" "wf (ig_store s2)"
    using poll_all_inv [OF f1(3), of now ?late fetch ?polled] f1(2) by (simp_all add: s2_def)
  have kept: "bucket s2 x = bucket s1 x" "recorded s2 x = recorded s1 x" if "x \<notin> set ?polled" for x
    unfolding s2_def using poll_all_other [OF that] by blast+
  have st2: "ig_store s2 = ig_store s1" using poll_all_inv [OF f1(3)] by (simp add: s2_def)
  let ?h = "heartbeat_all now fetch (heartbeat_symbols cfg now (active_symbols s) s1) s2"
  define s3 where "s3 = fst ?h"
  have h: "same_ticks s3 s2" "ig_store s3 = ig_store s2"
    using heartbeat_fields [of now fetch "heartbeat_symbols cfg now (active_symbols s) s1" s2] by (simp_all add: s3_def)
  have f3: "ingest_inv contents cfg st0 s3" "wf (ig_store s3)" using f2 ingest_inv_cong [OF h] h by simp_all
  define s4 where "s4 = fst (flush_all ops cfg ?late ?cur ?polled s3)"
  have f4: "flush_all ops cfg ?late ?cur ?polled s3 = (s4, Inr ())" "wf (ig_store s4)" "ingest_inv contents cfg st0 s4"
    "\<forall>x m. x \<in> set ?polled \<and> m < ?cur \<or> bucket s3 x m = [] \<longrightarrow> bucket s4 x m = []" "recorded s4 = recorded s3"
    "\<forall>x u. contents (ig_store s4) x u = contents (ig_store s3) x u \<or> x \<in> set ?polled \<and> cell_written contents cfg ?cur s3 s4 x u"
    using flush_all_inv [OF f3(2,1), of ?late ?cur ?polled] unfolding s4_def by (auto simp: prod_eq_iff)
  let ?s5 = "ingest_update_gate_metrics ops cfg late s4"
  have g: "same_ticks ?s5 s4" "ig_store ?s5 = ig_store s4" using gate_metrics_fields by blast+
  have f5: "ingest_inv contents cfg st0 ?s5" "wf (ig_store ?s5)" using f4(2,3) ingest_inv_cong [OF g] g by simp_all
  have body: "poll_body ops cfg now late fetch s =
      (case ?p of (s2, Inl e) \<Rightarrow> (s2, Inl e) | (s2, Inr u) \<Rightarrow>
       (case ?h of (s3, Inl e) \<Rightarrow> (s3, Inl e) | (s3, Inr u) \<Rightarrow> (?s5, Inr ())))"
    unfolding poll_body_def Let_def f1(1) try_next_def using f4(1)
    by (auto simp: polled s2_def s3_def split: prod.split sum.split)
  have s': "s' = s2 \<or> s' = s3 \<or> s' = ?s5" and ret: "snd (poll_body ops cfg now late fetch s) = Inr () \<Longrightarrow> s' = ?s5"
    unfolding s'_def body s3_def s2_def by (auto split: prod.split sum.split)
  show "wf (ig_store s')" "ingest_inv contents cfg st0 s'" using s' f2 f3 f5 by blast+
  have disj: "x \<notin> set ?polled" if "x \<in> set ?new" for x
    using that by (auto simp: poll_symbols_def pause_closed_def newly_paused_def)
  have rec: "recorded s3 = recorded s2" "recorded ?s5 = recorded s4" "ticks_of ?s5 = ticks_of s4"
    using ticks_of_cong h(1) g(1) by blast+
  have one: "contents (ig_store s1) y u = contents (ig_store s) y u \<or>
      y \<in> set ?new \<and> cell_written contents cfg ?cur s s1 y u" for y u
    using f1(6) [rule_format, of y u] by (simp add: cell_written_def)
  have recs: "recorded s2 y = recorded s1 y \<and> recorded s3 y = recorded s1 y \<and> recorded ?s5 y = recorded s1 y"
    if "y \<in> set ?new" for y using kept(2) [OF disj [OF that]] rec f4(5) by simp
  have first: "contents (ig_store s1) y u = contents (ig_store s) y u \<or> cell_written contents cfg ?cur s r y u"
    if "r \<in> {s2, s3}" for y u r
    using one [of y u] that recs [of y] h(2) st2 unfolding cell_written_def ticks_of_def by auto
  have both: "contents (ig_store ?s5) y u = contents (ig_store s) y u \<or> cell_written contents cfg ?cur s ?s5 y u" for y u
  proof (cases "contents (ig_store s4) y u = contents (ig_store s3) y u")
    case True
    then show ?thesis using one [of y u] recs [of y] h(2) st2 g(2) unfolding cell_written_def ticks_of_def by auto
  next
    case False
    then have c: "cell_written contents cfg ?cur s3 s4 y u" using f4(6) by blast
    then have "contents (ig_store s1) y u = None" using h(2) st2 by (simp add: cell_written_def)
    then have "contents (ig_store s) y u = None" using one [of y u] unfolding cell_written_def by auto
    then show ?thesis using c g(2) rec(3) unfolding cell_written_def by auto
  qed
  show "contents (ig_store s') y u = contents (ig_store s) y u \<or> cell_written contents cfg ?cur s s' y u"
    using s'
  proof (elim disjE)
    assume "s' = ?s5"
    then show ?thesis using both by blast
  qed (use first [of s2 y u] first [of s3 y u] st2 h(2) in auto)
  show "bucket s' x m = []" if ok: "snd (poll_body ops cfg now late fetch s) = Inr ()" and
    x: "x \<in> set ?new \<or> x \<in> set ?polled" and m: "m < ?cur"
  proof -
    have b: "bucket s3 x m = bucket s2 x m" "bucket ?s5 x m = bucket s4 x m"
      using bucket_cong h(1) g(1) by (metis bucket_def)+
    have "bucket s4 x m = []"
    proof (cases "x \<in> set ?polled")
      case True
      then show ?thesis using f4(4) m by blast
    next
      case False
      then have "bucket s2 x m = []" using x m f1(7) by (simp add: kept(1))
      then show ?thesis using f4(4) b(1) by simp
    qed
    then show ?thesis using ret [OF ok] b(2) by simp
  qed
qed

end

section \<open>Runs\<close>

inductive ingest_run :: "'s store_ops \<Rightarrow> ingest_config \<Rightarrow> 's ingest \<Rightarrow> 's ingest \<Rightarrow> bool"
  for ops :: "'s store_ops" and cfg :: ingest_config and s0 :: "'s ingest" where
  r_begin: "ingest_run ops cfg s0 s0"
| r_start: "ingest_run ops cfg s0 s \<Longrightarrow> ingest_run ops cfg s0 (ingest_start s)"
| r_turn: "ingest_run ops cfg s0 s \<Longrightarrow> ingest_run ops cfg s0 (poll_turn ops cfg now late fetch s)"
| r_symbols: "ingest_run ops cfg s0 s \<Longrightarrow> ingest_run ops cfg s0 (update_symbols xs asset s)"
| r_stop: "ingest_run ops cfg s0 s \<Longrightarrow> ingest_run ops cfg s0 (ingest_stop s)"

lemma errors_fields:
  fixes s :: "'s ingest" and e :: py_error
  defines "f \<equiv> fold (\<lambda>x s. if x \<in> set (ig_stopped s) then s
    else s\<lparr>ig_errors := inc0 x (ig_errors s), ig_last_error := d_set x e (ig_last_error s)\<rparr>)"
  shows "same_ticks (f xs s) s \<and> ig_store (f xs s) = ig_store s"
  unfolding f_def by (induction xs arbitrary: s) simp_all

lemma poll_turn_body:
  "same_ticks (poll_turn ops cfg now late fetch s) (fst (poll_body ops cfg now late fetch s)) \<and>
    ig_store (poll_turn ops cfg now late fetch s) = ig_store (fst (poll_body ops cfg now late fetch s))"
  using errors_fields by (cases "poll_body ops cfg now late fetch s") (auto simp: poll_turn_def split: sum.split)

lemma other_steps_fields:
  "same_ticks (ingest_start s) s \<and> ig_store (ingest_start s) = ig_store s"
  "same_ticks (ingest_stop s) s \<and> ig_store (ingest_stop s) = ig_store s"
  "same_ticks (update_symbols xs a s) s \<and> ig_store (update_symbols xs a s) = ig_store s"
  by (simp_all add: ingest_start_def ingest_stop_def update_symbols_def Let_def)

lemma ingest_init_inv: "ingest_inv C cfg st (ingest_init counter st metrics True asset xs)"
  by (simp add: ingest_inv_def ingest_init_def buckets_ok_def buckets_of_def bucket_def bucket_fits_def
      store_fits_def ticks_sorted_def recorded_def ticks_of_def)

context candle_store
begin

lemma ingest_run_inv:
  assumes "ingest_run ops cfg (ingest_init counter st0 metrics True asset xs) s" "wf st0"
  shows "wf (ig_store s) \<and> ingest_inv contents cfg st0 s"
  using assms(1)
proof induction
  case r_begin
  then show ?case using assms(2) ingest_init_inv by (auto simp: ingest_init_def)
next
  case (r_turn s now late fetch)
  then show ?case using poll_body_inv(1,2) poll_turn_body ingest_inv_cong by metis
next
  case (r_start s)
  then show ?case using other_steps_fields(1) ingest_inv_cong by metis
next
  case (r_symbols s xs asset)
  then show ?case using other_steps_fields(3) ingest_inv_cong by metis
next
  case (r_stop s)
  then show ?case using other_steps_fields(2) ingest_inv_cong by metis
qed

lemma ingest_run_turn:
  assumes run: "ingest_run ops cfg (ingest_init counter st0 metrics True asset xs) s" "wf st0"
    and t: "poll_body ops cfg now late fetch s = (s', r)"
  shows "contents (ig_store s') x u = contents (ig_store s) x u \<or> cell_written contents cfg (now div 60 * 60) s s' x u"
    and "r = Inr () \<Longrightarrow>
      x \<in> set (newly_paused cfg now s) \<or> x \<in> set (poll_symbols now (active_symbols s) (pause_closed cfg now s)) \<Longrightarrow>
      m < now div 60 * 60 \<Longrightarrow> open_minute cfg x m \<Longrightarrow> ticks_of s' x m \<noteq> [] \<Longrightarrow>
      contents (ig_store s') x (m * second_us) \<noteq> None"
proof -
  note inv = ingest_run_inv [OF run]
  note B = poll_body_inv [OF inv [THEN conjunct1] inv [THEN conjunct2], of now late fetch, unfolded t fst_conv snd_conv]
  show "contents (ig_store s') x u = contents (ig_store s) x u \<or> cell_written contents cfg (now div 60 * 60) s s' x u"
    by (rule B(3))
  assume "r = Inr ()" "x \<in> set (newly_paused cfg now s) \<or> x \<in> set (poll_symbols now (active_symbols s) (pause_closed cfg now s))"
    "m < now div 60 * 60" and o: "open_minute cfg x m" and t: "ticks_of s' x m \<noteq> []"
  then have "bucket s' x m = []" using B(4) by blast
  moreover obtain k where "k \<le> length (ticks_of s' x m)" "bucket s' x m = drop k (ticks_of s' x m)"
      "0 < k \<longrightarrow> contents (ig_store s') x (m * second_us) \<noteq> None"
    using ingest_invD(4) [OF B(2) o] unfolding bucket_fits_def by blast
  ultimately show "contents (ig_store s') x (m * second_us) \<noteq> None" using t by (cases "k = 0") auto
qed

end

section \<open>Failed polls\<close>

lemma get0_inc0 [simp]: "get0 (inc0 x d) x = get0 d x + 1"
  by (simp add: get0_def inc0_def)

lemma no_price_open:
  fixes s :: "'s ingest" and x :: string
  assumes "fst (ig_state cfg x t)"
  defines "n \<equiv> get0 (ig_failures s) x + 1"
  shows "no_price cfg t l x s = (let s1 = s\<lparr>ig_failures := inc0 x (ig_failures s)\<rparr> in
      if 3 \<le> n then increase_backoff cfg x t (mark_degraded cfg l x (''poll_failures='' @ show_int n) 0 0 s1) else s1)"
    and "get0 (ig_failures (no_price cfg t l x s)) x = n"
  using assms by (simp_all add: no_price_def Let_def increase_backoff_def mark_degraded_def)

definition failed_polls :: "ingest_config \<Rightarrow> string \<Rightarrow> (int \<times> int) list \<Rightarrow> 's ingest \<Rightarrow> 's ingest" where
  "failed_polls cfg x polls s = fold (\<lambda>(t, l) s. no_price cfg t l x s) polls s"

lemma failed_polls_count:
  "\<forall>(t, l) \<in> set polls. fst (ig_state cfg x t) \<Longrightarrow>
    get0 (ig_failures (failed_polls cfg x polls s)) x = get0 (ig_failures s) x + int (length polls)"
  unfolding failed_polls_def
  by (induction polls arbitrary: s) (auto simp: no_price_open(2))

lemma failed_polls_few:
  "\<forall>(t, l) \<in> set polls. fst (ig_state cfg x t) \<Longrightarrow> get0 (ig_failures s) x + int (length polls) < 3 \<Longrightarrow>
    \<exists>f. failed_polls cfg x polls s = s\<lparr>ig_failures := f\<rparr>"
proof (induction polls arbitrary: s)
  case (Cons p polls)
  obtain t l where p: "p = (t, l)" by (cases p)
  have o: "fst (ig_state cfg x t)" using Cons.prems(1) by (auto simp: p)
  have few: "\<not> 3 \<le> get0 (ig_failures s) x + 1" using Cons.prems(2) by simp
  let ?s1 = "s\<lparr>ig_failures := inc0 x (ig_failures s)\<rparr>"
  have "failed_polls cfg x (p # polls) s = failed_polls cfg x polls ?s1"
    using no_price_open(1) [OF o, of l s] few by (simp add: failed_polls_def p Let_def)
  moreover have "\<exists>f. failed_polls cfg x polls ?s1 = ?s1\<lparr>ig_failures := f\<rparr>"
    using Cons.prems by (intro Cons.IH) auto
  ultimately show ?case by auto
next
  case Nil
  show ?case by (rule exI [of _ "ig_failures s"]) (simp add: failed_polls_def)
qed

lemma degraded_backoff:
  fixes s :: "'s ingest" and t l :: int and cfg :: ingest_config
  defines "until \<equiv> t + min (2 * max (max 0 (l + ic_backoff_base cfg - t)) (ic_backoff_base cfg)) (ic_backoff_max cfg)"
  shows "increase_backoff cfg x t (mark_degraded cfg l x (''poll_failures='' @ r) 0 0 s) =
    s\<lparr>ig_degraded := set_add x (ig_degraded s), ig_reason := d_set x (''poll_failures='' @ r) (ig_reason s),
      ig_backoff_until := d_set x until (d_set x (l + ic_backoff_base cfg) (ig_backoff_until s)),
      ig_metrics := map_option (set_symbol_state x DEGRADED (Some (''poll_failures='' @ r)) 0 0 0 0 0) (ig_metrics s)\<rparr>"
  unfolding increase_backoff_def mark_degraded_def until_def by (simp add: Let_def get0_def mult.commute)

section \<open>Properties\<close>

text \<open>
  C26. Over any run of the realtime writer on the file store (started with a recorder, with any
  turns, prices, failures and changes of the symbols), the files stay well formed, the recorded
  ticks of a symbol are in order of time, and a stored candle is either one that was there at the
  start or was added where there was none: the candle (first, highest, lowest, last price) of the
  first \<open>j\<close> ticks recorded for an open minute. A turn changes the store only by adding, for an ended
  minute, the candle of all the ticks recorded for it so far; and after a turn that no exception
  ends, every ended open minute for which a polled or newly closed symbol has ticks has a candle.
\<close>

theorem ingest_candles_from_ticks:
  assumes run: "ingest_run (csv_ops clock (\<lambda>_. True)) cfg (ingest_init counter st0 metrics True asset xs) s"
    and files: "files_ok st0"
  shows "files_ok (ig_store s) \<and> sorted (map ot_ts (recorded s x)) \<and>
    (store_map (ig_store s) x u = store_map st0 x u \<or>
      (store_map st0 x u = None \<and> (\<exists>m j. u = m * second_us \<and> open_minute cfg x m \<and> 0 < j \<and> j \<le> length (ticks_of s x m) \<and>
        store_map (ig_store s) x u = Some (tick_candle x m (take j (ticks_of s x m)))))) \<and>
    (\<forall>now late fetch s' r. poll_body (csv_ops clock (\<lambda>_. True)) cfg now late fetch s = (s', r) \<longrightarrow>
      (store_map (ig_store s') x u \<noteq> store_map (ig_store s) x u \<longrightarrow>
        store_map (ig_store s) x u = None \<and> (\<exists>m < now div 60 * 60. u = m * second_us \<and> open_minute cfg x m \<and>
          ticks_of s' x m \<noteq> [] \<and> store_map (ig_store s') x u = Some (tick_candle x m (ticks_of s' x m)))) \<and>
      (r = Inr () \<longrightarrow>
        x \<in> set (newly_paused cfg now s) \<or> x \<in> set (poll_symbols now (active_symbols s) (pause_closed cfg now s)) \<longrightarrow>
        (\<forall>m < now div 60 * 60. open_minute cfg x m \<and> ticks_of s' x m \<noteq> [] \<longrightarrow>
          store_map (ig_store s') x (m * second_us) \<noteq> None)))"
proof -
  note inv = csv.ingest_run_inv [OF run files] and I = ingest_invD [OF inv [THEN conjunct2]]
  have concl1: "sorted (map ot_ts (recorded s x))" using I(3) [of x] by (simp add: ticks_sorted_def)
  have concl2: "store_fits store_map cfg st0 s x u" by (rule I(6))
  have turn: "(store_map (ig_store s') x u \<noteq> store_map (ig_store s) x u \<longrightarrow>
        store_map (ig_store s) x u = None \<and> (\<exists>m < now div 60 * 60. u = m * second_us \<and> open_minute cfg x m \<and>
          ticks_of s' x m \<noteq> [] \<and> store_map (ig_store s') x u = Some (tick_candle x m (ticks_of s' x m)))) \<and>
      (r = Inr () \<longrightarrow>
        x \<in> set (newly_paused cfg now s) \<or> x \<in> set (poll_symbols now (active_symbols s) (pause_closed cfg now s)) \<longrightarrow>
        (\<forall>m < now div 60 * 60. open_minute cfg x m \<and> ticks_of s' x m \<noteq> [] \<longrightarrow>
          store_map (ig_store s') x (m * second_us) \<noteq> None))"
    if t: "poll_body (csv_ops clock (\<lambda>_. True)) cfg now late fetch s = (s', r)" for now late fetch s' r
    using csv.ingest_run_turn [OF run files t, of x u] csv.ingest_run_turn(2) [OF run files t, of x]
    unfolding cell_written_def by (intro conjI impI allI) simp_all
  show ?thesis
    by (rule conjI [OF inv [THEN conjunct1] conjI [OF concl1 conjI [OF concl2 [unfolded store_fits_def]]]])
      (intro allI, rule impI, erule turn)
qed

text \<open>A run at a concrete input: one symbol, one turn at 00:01:05 that sees a tick of 00:00.\<close>

definition demo_config :: ingest_config where
  "demo_config = \<lparr>ic_poll_interval = 5, ic_heartbeat_interval = 60, ic_warmup_minutes = 0, ic_max_gap_s = 0,
     ic_max_missing_per_24h = 5, ic_stale_seconds = 120, ic_backoff_base = 30, ic_backoff_max = 300,
     ic_market_hours = Some (\<lambda>_ _. (True, ''open'')), ic_closed_minutes = Some (\<lambda>_ _ _. 0)\<rparr>"

theorem ingest_candles_from_ticks_witness:
  "\<exists>s' c. poll_body (csv_ops (utc_dt 0) (\<lambda>_. True)) demo_config 65 (utc_dt 65000000) (\<lambda>_. Inr (Some (59, 2)))
     (ingest_init None [] None True None [''EURUSD'']) = (s', Inr ()) \<and>
   store_map (ig_store s') ''EURUSD'' 0 = Some c \<and> c_open c = 2 \<and> c_close c = 2 \<and> c_closed c"
proof -
  define t where "t = poll_body (csv_ops (utc_dt 0) (\<lambda>_. True)) demo_config 65 (utc_dt 65000000) (\<lambda>_. Inr (Some (59, 2)))
     (ingest_init None [] None True None [''EURUSD''])"
  let ?i = "ingest_init None [] None True None [''EURUSD''] :: csv_files ingest" and ?l = "ticks_of (fst t) ''EURUSD'' 0"
  have e: "snd t = Inr ()" "?l \<noteq> []" "c_open (tick_candle ''EURUSD'' 0 ?l) = 2" "c_close (tick_candle ''EURUSD'' 0 ?l) = 2"
      "c_closed (tick_candle ''EURUSD'' 0 ?l)" "open_minute demo_config ''EURUSD'' 0"
      "''EURUSD'' \<in> set (poll_symbols 65 (active_symbols ?i) (pause_closed demo_config 65 ?i))"
    unfolding t_def by code_simp+
  have turn: "poll_body (csv_ops (utc_dt 0) (\<lambda>_. True)) demo_config 65 (utc_dt 65000000) (\<lambda>_. Inr (Some (59, 2))) ?i = (fst t, Inr ())"
    unfolding e(1) [symmetric] t_def by simp
  have init: "store_map (ig_store ?i) ''EURUSD'' 0 = None"
    by (simp add: ingest_init_def store_map_def read_csv_file_def candle_map_def)
  note P = ingest_candles_from_ticks [OF r_begin files_ok_Nil, where x = "''EURUSD''" and u = 0, THEN conjunct2, THEN conjunct2,
      THEN conjunct2, rule_format, OF turn]
  have "store_map (ig_store (fst t)) ''EURUSD'' (0 * second_us) \<noteq> None"
    by (rule P [THEN conjunct2, rule_format]) (use e in simp_all)
  then have "store_map (ig_store (fst t)) ''EURUSD'' 0 \<noteq> store_map (ig_store ?i) ''EURUSD'' 0" using init by simp
  then obtain m where "0 = m * second_us" "store_map (ig_store (fst t)) ''EURUSD'' 0 = Some (tick_candle ''EURUSD'' m (ticks_of (fst t) ''EURUSD'' m))"
    using P [THEN conjunct1, rule_format] by blast
  then show ?thesis using turn e(3-5) by auto
qed

text \<open>
  C27. Any number of consecutive polls without a price, in an open market: the failures are counted;
  from the third on the symbol is degraded with that count as the reason, and it is not polled again
  before the last poll plus twice the base of the backoff (plus what the clock moved meanwhile),
  bounded by the maximum: the wait does not grow with the failures. An accepted price resets the
  count and ends the degradation and the wait.
\<close>

theorem poll_failures_degrade:
  fixes s :: "'s ingest" and cfg :: ingest_config and x :: string and polls :: "(int \<times> int) list" and now late ts :: int
  assumes "\<forall>(t, l) \<in> set (polls @ [(now, late)]). fst (ig_state cfg x t)"
  defines "s' \<equiv> failed_polls cfg x (polls @ [(now, late)]) s"
    and "n \<equiv> get0 (ig_failures s) x + int (length polls) + 1"
  shows "get0 (ig_failures s') x = n \<and>
    (n < 3 \<longrightarrow> s' = s\<lparr>ig_failures := ig_failures s'\<rparr>) \<and>
    (3 \<le> n \<longrightarrow> x \<in> set (ig_degraded s') \<and> d_get (ig_reason s') x = Some (''poll_failures='' @ show_int n) \<and>
      d_get (ig_backoff_until s') x =
        Some (now + min (2 * max (max 0 (late + ic_backoff_base cfg - now)) (ic_backoff_base cfg)) (ic_backoff_max cfg)) \<and>
      (\<forall>t < now + min (2 * max (max 0 (late + ic_backoff_base cfg - now)) (ic_backoff_base cfg)) (ic_backoff_max cfg).
        x \<notin> set (poll_symbols t active s')) \<and>
      (accepts cfg x ts t s' \<longrightarrow> (let g = got_price cfg t x ts price s' in get0 (ig_failures g) x = 0 \<and>
        x \<notin> set (ig_degraded g) \<and> d_get (ig_reason g) x = None \<and> d_get (ig_backoff_until g) x = None)))"
proof -
  let ?s1 = "failed_polls cfg x polls s"
  let ?until = "now + min (2 * max (max 0 (late + ic_backoff_base cfg - now)) (ic_backoff_base cfg)) (ic_backoff_max cfg)"
  have o: "fst (ig_state cfg x now)" using assms(1) by auto
  have s': "s' = no_price cfg now late x ?s1" by (simp add: s'_def failed_polls_def)
  have n1: "get0 (ig_failures ?s1) x + 1 = n" using failed_polls_count [of polls cfg x s] assms(1) by (simp add: n_def)
  note np = no_price_open [OF o, of late ?s1, folded s', unfolded n1]
  have few: "s' = s\<lparr>ig_failures := ig_failures s'\<rparr>" if "n < 3"
    using failed_polls_few [OF assms(1), of s, folded s'_def] that by (auto simp: n_def)
  have many: "x \<in> set (ig_degraded s') \<and> d_get (ig_reason s') x = Some (''poll_failures='' @ show_int n) \<and>
      d_get (ig_backoff_until s') x = Some ?until" if "3 \<le> n"
    using that np(1) unfolding degraded_backoff by (simp add: Let_def)
  have wait: "x \<notin> set (poll_symbols t active s')" if "3 \<le> n" "t < ?until" for t
    using many [OF that(1)] that(2) by (simp add: poll_symbols_def uses_poll_backoff_def get0_def)
  have recover: "let g = got_price cfg t x ts price s' in get0 (ig_failures g) x = 0 \<and>
      x \<notin> set (ig_degraded g) \<and> d_get (ig_reason g) x = None \<and> d_get (ig_backoff_until g) x = None"
    if "3 \<le> n" "accepts cfg x ts t s'"
    using many [OF that(1)] that(2)
    by (auto simp: got_price_exact Let_def is_transient_degradation_def autorecover_def get0_def count_price_def add_tick_def)
  show ?thesis using np(2) few many wait recover by blast
qed

theorem poll_failures_degrade_witness:
  "let s = failed_polls demo_config ''EURUSD'' [(60, 60), (65, 65), (70, 70)] (ingest_init None () None True None [''EURUSD''])
   in d_get (ig_backoff_until s) ''EURUSD'' = Some 130 \<and> ''EURUSD'' \<notin> set (poll_symbols 129 [''EURUSD''] s)"
proof -
  let ?s0 = "ingest_init None () None True None [''EURUSD'']"
  have "\<forall>(t, l) \<in> set ([(60, 60), (65, 65)] @ [(70, 70)]). fst (ig_state demo_config ''EURUSD'' t)"
    by (simp add: ig_state_def demo_config_def)
  from poll_failures_degrade [OF this, where s = ?s0 and active = "[''EURUSD'']"]
  have "3 \<le> get0 (ig_failures ?s0) ''EURUSD'' + int (length [(60::int, 60::int), (65, 65)]) + 1 \<longrightarrow>
     d_get (ig_backoff_until (failed_polls demo_config ''EURUSD'' ([(60, 60), (65, 65)] @ [(70, 70)]) ?s0)) ''EURUSD'' = Some 130 \<and>
     ''EURUSD'' \<notin> set (poll_symbols 129 [''EURUSD''] (failed_polls demo_config ''EURUSD'' ([(60, 60), (65, 65)] @ [(70, 70)]) ?s0))"
    by (simp add: demo_config_def)
  moreover have "get0 (ig_failures ?s0) ''EURUSD'' = 0" by (simp add: ingest_init_def get0_def)
  ultimately show ?thesis by (simp add: Let_def)
qed

end
