(* ===== verification/OstiumClient.thy ===== *)
theory OstiumClient
  imports PyFloat
begin

text \<open>
  The client of the Ostium venue, \<open>infrastructure/venues/ostium/ostium_client.py\<close>: its interface
  \<open>IOstiumClient\<close> as a record of functions on a client state, the contract the venue adapter
  relies on as locales, the in-memory client that paper mode and the tests use, and the client of
  the chain. The SDK, the node and the contracts are not part of the repository: they are the
  parameter \<open>chain_ops\<close> of the chain client.
\<close>

section \<open>Results and interface\<close>

record open_trade_receipt =
  otr_tx_hash :: string
  otr_pair_id :: int
  otr_trade_index :: int
  otr_open_price :: pfloat

record close_trade_receipt =
  ctr_tx_hash :: string

record open_trade_info =
  ti_pair_id :: int
  ti_trade_index :: int
  ti_open_price :: pfloat
  ti_tp :: pfloat
  ti_sl :: pfloat
  ti_collateral :: pfloat
  ti_leverage :: int
  ti_is_long :: bool

text \<open>The arguments of \<open>open_trade\<close>.\<close>

record trade_args =
  ta_pair_id :: int
  ta_is_long :: bool
  ta_collateral :: pfloat
  ta_leverage :: int
  ta_at_price :: pfloat
  ta_tp_price :: pfloat
  ta_sl_price :: pfloat

type_synonym trade_metrics = "(string, pfloat) dict"

text \<open>\<open>co_is_fake\<close> is the test \<open>type(client).__name__\<close>, \<open>co_trader\<close> the attribute \<open>_trader_address\<close> or the empty string.\<close>

record 'c client_ops =
  co_is_fake :: bool
  co_trader :: "'c \<Rightarrow> string"
  co_get_price :: "string \<Rightarrow> string \<Rightarrow> 'c \<Rightarrow> (pfloat \<times> pfloat \<times> pfloat) result"
  co_open_trade :: "trade_args \<Rightarrow> 'c \<Rightarrow> 'c \<times> open_trade_receipt result"
  co_close_trade :: "int \<Rightarrow> int \<Rightarrow> pfloat \<Rightarrow> 'c \<Rightarrow> 'c \<times> close_trade_receipt result"
  co_update_sl :: "int \<Rightarrow> int \<Rightarrow> pfloat \<Rightarrow> 'c \<Rightarrow> 'c \<times> bool result"
  co_update_tp :: "int \<Rightarrow> int \<Rightarrow> pfloat \<Rightarrow> 'c \<Rightarrow> 'c \<times> bool result"
  co_get_open_trades :: "string \<Rightarrow> int list option \<Rightarrow> 'c \<Rightarrow> open_trade_info list result"
  co_health :: "'c \<Rightarrow> bool result"
  co_get_usdc_balance :: "'c \<Rightarrow> pfloat result"
  co_get_trade_info :: "int \<Rightarrow> int \<Rightarrow> 'c \<Rightarrow> open_trade_info option result"
  co_get_trade_metrics :: "int \<Rightarrow> int \<Rightarrow> 'c \<Rightarrow> trade_metrics option result"

section \<open>The contract\<close>

text \<open>
  Reading: the client knows the open trades, by pair and index, reports one of them, and lists
  those of the pairs it is asked for, each once.
\<close>

locale client_reader =
  fixes ops :: "'c client_ops"
    and inv :: "'c \<Rightarrow> bool"
    and trades :: "'c \<Rightarrow> int \<Rightarrow> int \<Rightarrow> open_trade_info option"
  assumes trade_key: "inv c \<Longrightarrow> trades c p i = Some t \<Longrightarrow> ti_pair_id t = p \<and> ti_trade_index t = i"
    and fake_trader: "co_is_fake ops \<Longrightarrow> co_trader ops c = []"
    and info_law: "inv c \<Longrightarrow> co_get_trade_info ops p i c = Inr (trades c p i)"
    and list_law: "inv c \<Longrightarrow> distinct ps \<Longrightarrow> \<exists>ts. co_get_open_trades ops (co_trader ops c) (Some ps) c = Inr ts \<and>
      distinct (map (\<lambda>t. (ti_pair_id t, ti_trade_index t)) ts) \<and>
      (\<forall>t. t \<in> set ts \<longleftrightarrow> ti_pair_id t \<in> set ps \<and> trades c (ti_pair_id t) (ti_trade_index t) = Some t)"

text \<open>
  Trading: an opening that returns a receipt has added the trade the receipt names, which was not
  open, and one that raises has added nothing; a closing that returns has removed its trade.
\<close>

locale ostium_client = client_reader ops inv trades
  for ops :: "'c client_ops" and inv :: "'c \<Rightarrow> bool"
    and trades :: "'c \<Rightarrow> int \<Rightarrow> int \<Rightarrow> open_trade_info option" +
  assumes open_law: "inv c \<Longrightarrow> co_open_trade ops a c = (c', Inr rc) \<Longrightarrow>
      inv c' \<and> otr_pair_id rc = ta_pair_id a \<and> trades c (ta_pair_id a) (otr_trade_index rc) = None \<and>
      (\<exists>t. \<forall>p i. trades c' p i = (if p = ta_pair_id a \<and> i = otr_trade_index rc then Some t else trades c p i))"
    and open_raise_law: "inv c \<Longrightarrow> co_open_trade ops a c = (c', Inl e) \<Longrightarrow> inv c' \<and> trades c' = trades c"
    and close_law: "inv c \<Longrightarrow> co_close_trade ops p i px c = (c', Inr crc) \<Longrightarrow>
      inv c' \<and> (\<forall>q j. trades c' q j = (if q = p \<and> j = i then None else trades c q j))"
    and close_raise_law: "inv c \<Longrightarrow> co_close_trade ops p i px c = (c', Inl e) \<Longrightarrow> inv c' \<and> trades c' = trades c"

section \<open>The in-memory client\<close>

record fake_client =
  fk_mid_price :: pfloat
  fk_open_should_fail :: bool
  fk_close_should_fail :: bool
  fk_health_result :: bool
  fk_usdc_balance :: pfloat
  fk_fake_metrics :: bool
  fk_trades :: "(int \<times> int, open_trade_info) dict"
  fk_next_index :: "(int, int) dict"
  fk_next_tx :: int
  fk_open_calls :: "trade_args list"
  fk_close_calls :: "(int \<times> int \<times> pfloat) list"
  fk_sl_calls :: "(int \<times> int \<times> pfloat) list"
  fk_tp_calls :: "(int \<times> int \<times> pfloat) list"

definition fake_init :: "pfloat \<Rightarrow> bool \<Rightarrow> bool \<Rightarrow> bool \<Rightarrow> pfloat \<Rightarrow> bool \<Rightarrow> fake_client" where
  "fake_init mid open_fail close_fail health balance metrics =
     \<lparr>fk_mid_price = mid, fk_open_should_fail = open_fail, fk_close_should_fail = close_fail,
      fk_health_result = health, fk_usdc_balance = balance, fk_fake_metrics = metrics,
      fk_trades = [], fk_next_index = [], fk_next_tx = 0,
      fk_open_calls = [], fk_close_calls = [], fk_sl_calls = [], fk_tp_calls = []\<rparr>"

text \<open>The hash \<open>0xfake{n:064x}\<close>: lower case hexadecimal digits, padded with zeros.\<close>

definition hex_char :: "nat \<Rightarrow> char" where
  "hex_char n = (if n < 10 then digit_char n else char_of (97 + (n - 10)))"

fun hex_digits :: "nat \<Rightarrow> string" where
  "hex_digits n = (if n < 16 then [hex_char n] else hex_digits (n div 16) @ [hex_char (n mod 16)])"

declare hex_digits.simps [simp del]

definition gen_tx :: "fake_client \<Rightarrow> fake_client \<times> string" where
  "gen_tx c = (let n = fk_next_tx c + 1; h = hex_digits (nat n)
     in (c\<lparr>fk_next_tx := n\<rparr>, ''0xfake'' @ replicate (64 - length h) (CHR ''0'') @ h))"

definition fake_get_price :: "string \<Rightarrow> string \<Rightarrow> fake_client \<Rightarrow> (pfloat \<times> pfloat \<times> pfloat) result" where
  "fake_get_price base quote c =
     (let spread = fmul (fk_mid_price c) (rnd (1 / 10000))
      in Inr (fk_mid_price c, fsub (fk_mid_price c) spread, fadd (fk_mid_price c) spread))"

definition fake_trade :: "trade_args \<Rightarrow> int \<Rightarrow> open_trade_info" where
  "fake_trade a index = \<lparr>ti_pair_id = ta_pair_id a, ti_trade_index = index, ti_open_price = ta_at_price a,
     ti_tp = ta_tp_price a, ti_sl = ta_sl_price a, ti_collateral = ta_collateral a,
     ti_leverage = ta_leverage a, ti_is_long = ta_is_long a\<rparr>"

definition fake_open_trade :: "trade_args \<Rightarrow> fake_client \<Rightarrow> fake_client \<times> open_trade_receipt result" where
  "fake_open_trade a c =
     (let c1 = c\<lparr>fk_open_calls := fk_open_calls c @ [a]\<rparr> in
      if fk_open_should_fail c1 then (c1, Inl (RuntimeError ''open_trade''))
      else
        (let pair = ta_pair_id a;
             index = (case d_get (fk_next_index c1) pair of None \<Rightarrow> 0 | Some n \<Rightarrow> n);
             (c2, tx) = gen_tx (c1\<lparr>fk_next_index := d_set pair (index + 1) (fk_next_index c1),
               fk_trades := d_set (pair, index) (fake_trade a index) (fk_trades c1)\<rparr>)
         in (c2, Inr \<lparr>otr_tx_hash = tx, otr_pair_id = pair, otr_trade_index = index, otr_open_price = ta_at_price a\<rparr>)))"

definition fake_close_trade :: "int \<Rightarrow> int \<Rightarrow> pfloat \<Rightarrow> fake_client \<Rightarrow> fake_client \<times> close_trade_receipt result" where
  "fake_close_trade pair index at_price c =
     (let c1 = c\<lparr>fk_close_calls := fk_close_calls c @ [(pair, index, at_price)]\<rparr> in
      if fk_close_should_fail c1 then (c1, Inl (RuntimeError ''close_trade''))
      else (let (c2, tx) = gen_tx (c1\<lparr>fk_trades := d_del (pair, index) (fk_trades c1)\<rparr>)
            in (c2, Inr \<lparr>ctr_tx_hash = tx\<rparr>)))"

definition fake_set_trade :: "int \<times> int \<Rightarrow> (open_trade_info \<Rightarrow> open_trade_info) \<Rightarrow> fake_client \<Rightarrow> fake_client" where
  "fake_set_trade key f c = (case d_get (fk_trades c) key of None \<Rightarrow> c
     | Some t \<Rightarrow> c\<lparr>fk_trades := d_set key (f t) (fk_trades c)\<rparr>)"

definition fake_update_sl :: "int \<Rightarrow> int \<Rightarrow> pfloat \<Rightarrow> fake_client \<Rightarrow> fake_client \<times> bool result" where
  "fake_update_sl pair index sl c =
     (fake_set_trade (pair, index) (\<lambda>t. t\<lparr>ti_sl := sl\<rparr>) (c\<lparr>fk_sl_calls := fk_sl_calls c @ [(pair, index, sl)]\<rparr>), Inr True)"

definition fake_update_tp :: "int \<Rightarrow> int \<Rightarrow> pfloat \<Rightarrow> fake_client \<Rightarrow> fake_client \<times> bool result" where
  "fake_update_tp pair index tp c =
     (fake_set_trade (pair, index) (\<lambda>t. t\<lparr>ti_tp := tp\<rparr>) (c\<lparr>fk_tp_calls := fk_tp_calls c @ [(pair, index, tp)]\<rparr>), Inr True)"

definition fake_get_open_trades :: "string \<Rightarrow> int list option \<Rightarrow> fake_client \<Rightarrow> open_trade_info list result" where
  "fake_get_open_trades trader pair_ids c =
     Inr (map (\<lambda>((pid, idx), t). t\<lparr>ti_pair_id := pid, ti_trade_index := idx\<rparr>)
       (filter (\<lambda>((pid, idx), t). case pair_ids of None \<Rightarrow> True | Some ps \<Rightarrow> pid \<in> set ps) (fk_trades c)))"

definition fake_get_trade_info :: "int \<Rightarrow> int \<Rightarrow> fake_client \<Rightarrow> open_trade_info option result" where
  "fake_get_trade_info pair index c = Inr (d_get (fk_trades c) (pair, index))"

definition fake_get_trade_metrics :: "int \<Rightarrow> int \<Rightarrow> fake_client \<Rightarrow> trade_metrics option result" where
  "fake_get_trade_metrics pair index c =
     (if \<not> fk_fake_metrics c then Inr None
      else (case d_get (fk_trades c) (pair, index) of
          None \<Rightarrow> Inr None
        | Some t \<Rightarrow>
            (let notional = fmul (ti_collateral t) (rnd (of_int (ti_leverage t)));
                 delta = fsub (fk_mid_price c) (ti_open_price t);
                 price_delta = (if ti_is_long t then delta else - delta);
                 pnl = (if ti_open_price t > 0 then fmul (fdiv price_delta (ti_open_price t)) notional else 0);
                 pnl_pct = (if ti_collateral t > 0 then fmul (fdiv pnl (ti_collateral t)) 100 else 0)
             in Inr (Some [(''unrealizedPnl'', pnl), (''unrealizedPnlPercentage'', pnl_pct)]))))"

definition fake_ops :: "fake_client client_ops" where
  "fake_ops = \<lparr>co_is_fake = True, co_trader = (\<lambda>_. []), co_get_price = fake_get_price,
     co_open_trade = fake_open_trade, co_close_trade = fake_close_trade, co_update_sl = fake_update_sl,
     co_update_tp = fake_update_tp, co_get_open_trades = fake_get_open_trades,
     co_health = (\<lambda>c. Inr (fk_health_result c)), co_get_usdc_balance = (\<lambda>c. Inr (fk_usdc_balance c)),
     co_get_trade_info = fake_get_trade_info, co_get_trade_metrics = fake_get_trade_metrics\<rparr>"

text \<open>The in-memory client keeps the contract while indices are only handed out once.\<close>

definition fake_inv :: "fake_client \<Rightarrow> bool" where
  [inv_defs]: "fake_inv c \<longleftrightarrow> dict_wf (fk_trades c) \<and>
     (\<forall>p i t. d_get (fk_trades c) (p, i) = Some t \<longrightarrow> ti_pair_id t = p \<and> ti_trade_index t = i \<and>
        (\<exists>n. d_get (fk_next_index c) p = Some n \<and> i < n))"

definition fake_trades :: "fake_client \<Rightarrow> int \<Rightarrow> int \<Rightarrow> open_trade_info option" where
  "fake_trades c p i = d_get (fk_trades c) (p, i)"

lemma fake_inv_init: "fake_inv (fake_init mid f1 f2 h bal fm)"
  by (simp add: inv_defs fake_init_def)

lemma fake_inv_cong:
  "fk_trades c' = fk_trades c \<Longrightarrow> fk_next_index c' = fk_next_index c \<Longrightarrow> fake_inv c' = fake_inv c"
  by (simp add: fake_inv_def)

lemma fake_open_fails:
  "fk_open_should_fail c \<Longrightarrow> fake_open_trade a c = (c\<lparr>fk_open_calls := fk_open_calls c @ [a]\<rparr>, Inl (RuntimeError ''open_trade''))"
  by (simp add: fake_open_trade_def)

lemma fake_trade_simps [simp]:
  "ti_pair_id (fake_trade a n) = ta_pair_id a" "ti_trade_index (fake_trade a n) = n"
  "ti_open_price (fake_trade a n) = ta_at_price a" "ti_tp (fake_trade a n) = ta_tp_price a"
  "ti_sl (fake_trade a n) = ta_sl_price a" "ti_collateral (fake_trade a n) = ta_collateral a"
  "ti_leverage (fake_trade a n) = ta_leverage a" "ti_is_long (fake_trade a n) = ta_is_long a"
  by (simp_all add: fake_trade_def)

lemma fake_open_succeeds:
  assumes "fake_open_trade a c = (c', Inr rc)"
  shows "otr_pair_id rc = ta_pair_id a"
    and "otr_trade_index rc = (case d_get (fk_next_index c) (ta_pair_id a) of None \<Rightarrow> 0 | Some n \<Rightarrow> n)"
    and "otr_open_price rc = ta_at_price a"
    and "fk_next_index c' = d_set (ta_pair_id a) (otr_trade_index rc + 1) (fk_next_index c)"
    and "fk_trades c' = d_set (ta_pair_id a, otr_trade_index rc) (fake_trade a (otr_trade_index rc)) (fk_trades c)"
  using assms by (auto simp: fake_open_trade_def gen_tx_def Let_def split: if_splits)

interpretation fake: ostium_client fake_ops fake_inv fake_trades
proof
  fix c p i t assume "fake_inv c" "fake_trades c p i = Some t"
  then show "ti_pair_id t = p \<and> ti_trade_index t = i" by (simp add: fake_inv_def fake_trades_def)
next
  fix c show "co_trader fake_ops c = []" by (simp add: fake_ops_def)
next
  fix c p i show "co_get_trade_info fake_ops p i c = Inr (fake_trades c p i)"
    by (simp add: fake_ops_def fake_get_trade_info_def fake_trades_def)
next
  fix c :: fake_client and ps :: "int list"
  assume inv: "fake_inv c"
  let ?kept = "filter (\<lambda>((p, i), t). p \<in> set ps) (fk_trades c)"
  have key: "ti_pair_id t = p \<and> ti_trade_index t = i" if "((p, i), t) \<in> set (fk_trades c)" for p i t
  proof -
    have "d_get (fk_trades c) (p, i) = Some t" using inv that by (simp add: fake_inv_def d_in_get)
    then show ?thesis using inv unfolding fake_inv_def by blast
  qed
  have "map (\<lambda>((p, i), t). t\<lparr>ti_pair_id := p, ti_trade_index := i\<rparr>) ?kept = map snd ?kept"
    using key by (intro map_cong refl) (auto simp: open_trade_info.defs)
  then have ts: "co_get_open_trades fake_ops (co_trader fake_ops c) (Some ps) c = Inr (map snd ?kept)"
    by (simp add: fake_ops_def fake_get_open_trades_def)
  have "map (\<lambda>t. (ti_pair_id t, ti_trade_index t)) (map snd ?kept) = map fst ?kept"
    unfolding map_map using key by (intro map_cong refl) auto
  moreover have "distinct (map fst ?kept)"
    using inv by (auto simp: fake_inv_def dict_wf_def intro: distinct_map_filter)
  moreover have "t \<in> set (map snd ?kept) \<longleftrightarrow>
      ti_pair_id t \<in> set ps \<and> fake_trades c (ti_pair_id t) (ti_trade_index t) = Some t" for t
  proof -
    have "t \<in> set (map snd ?kept) \<longleftrightarrow> (\<exists>p i. ((p, i), t) \<in> set (fk_trades c) \<and> p \<in> set ps)" by force
    also have "\<dots> \<longleftrightarrow> ti_pair_id t \<in> set ps \<and> ((ti_pair_id t, ti_trade_index t), t) \<in> set (fk_trades c)"
      using key by blast
    also have "\<dots> \<longleftrightarrow> ti_pair_id t \<in> set ps \<and> fake_trades c (ti_pair_id t) (ti_trade_index t) = Some t"
      using inv d_in_iff_get [of "fk_trades c"] by (simp add: fake_trades_def fake_inv_def)
    finally show ?thesis .
  qed
  ultimately show "\<exists>ts. co_get_open_trades fake_ops (co_trader fake_ops c) (Some ps) c = Inr ts \<and>
      distinct (map (\<lambda>t. (ti_pair_id t, ti_trade_index t)) ts) \<and>
      (\<forall>t. t \<in> set ts \<longleftrightarrow> ti_pair_id t \<in> set ps \<and> fake_trades c (ti_pair_id t) (ti_trade_index t) = Some t)"
    unfolding ts by (intro exI [of _ "map snd ?kept"] conjI refl allI) (simp_all only:)
next
  fix c a c' rc assume inv: "fake_inv c" and "co_open_trade fake_ops a c = (c', Inr rc)"
  then have o: "fake_open_trade a c = (c', Inr rc)" by (simp add: fake_ops_def)
  let ?p = "ta_pair_id a" and ?n = "otr_trade_index rc"
  note t = fake_open_succeeds [OF o]
  have none: "fake_trades c ?p ?n = None"
  proof (rule ccontr)
    assume "fake_trades c ?p ?n \<noteq> None"
    then obtain n where "d_get (fk_next_index c) ?p = Some n" "?n < n"
      using inv unfolding fake_inv_def fake_trades_def by blast
    with t(2) show False by simp
  qed
  have "fake_inv c'"
    unfolding fake_inv_def
  proof (intro conjI allI impI)
    show "dict_wf (fk_trades c')" using inv by (simp add: t(5) fake_inv_def)
    fix p i u assume u: "d_get (fk_trades c') (p, i) = Some u"
    show "ti_pair_id u = p"
      using u inv by (cases "(p, i) = (?p, ?n)") (auto simp: t(5) fake_inv_def)
    show "ti_trade_index u = i"
      using u inv by (cases "(p, i) = (?p, ?n)") (auto simp: t(5) fake_inv_def)
    show "\<exists>n. d_get (fk_next_index c') p = Some n \<and> i < n"
    proof (cases "(p, i) = (?p, ?n)")
      case False
      then obtain n where "d_get (fk_next_index c) p = Some n" "i < n"
        using u inv unfolding t(5) fake_inv_def d_get_set fun_upd_other [OF False] by blast
      then show ?thesis using t(2) by (cases "p = ?p") (auto simp: t(4))
    qed (simp add: t(4))
  qed
  moreover have "\<forall>p i. fake_trades c' p i = (if p = ?p \<and> i = ?n then Some (fake_trade a ?n) else fake_trades c p i)"
    by (auto simp: fake_trades_def t(5))
  ultimately show "fake_inv c' \<and> otr_pair_id rc = ?p \<and> fake_trades c ?p ?n = None \<and>
      (\<exists>t. \<forall>p i. fake_trades c' p i = (if p = ?p \<and> i = ?n then Some t else fake_trades c p i))"
    using t(1) none by blast
next
  fix c a c' e assume inv: "fake_inv c" and o: "co_open_trade fake_ops a c = (c', Inl e)"
  then have "fk_trades c' = fk_trades c" "fk_next_index c' = fk_next_index c"
    by (auto simp: fake_ops_def fake_open_trade_def gen_tx_def Let_def split: if_splits)
  then show "fake_inv c' \<and> fake_trades c' = fake_trades c"
    using inv fake_inv_cong [of c' c] by (simp add: fake_trades_def fun_eq_iff)
next
  fix c p i px c' crc assume inv: "fake_inv c" and o: "co_close_trade fake_ops p i px c = (c', Inr crc)"
  then have c': "fk_trades c' = d_del (p, i) (fk_trades c)" "fk_next_index c' = fk_next_index c"
    by (auto simp: fake_ops_def fake_close_trade_def gen_tx_def Let_def split: if_splits)
  have "fake_inv c'"
    using inv unfolding fake_inv_def c' by auto
  then show "fake_inv c' \<and> (\<forall>q j. fake_trades c' q j = (if q = p \<and> j = i then None else fake_trades c q j))"
    by (simp add: fake_trades_def c')
next
  fix c p i px c' e assume inv: "fake_inv c" and o: "co_close_trade fake_ops p i px c = (c', Inl e)"
  then have "fk_trades c' = fk_trades c" "fk_next_index c' = fk_next_index c"
    by (auto simp: fake_ops_def fake_close_trade_def gen_tx_def Let_def split: if_splits)
  then show "fake_inv c' \<and> fake_trades c' = fake_trades c"
    using inv fake_inv_cong [of c' c] by (simp add: fake_trades_def fun_eq_iff)
qed

section \<open>The client of the chain\<close>

text \<open>
  What the SDK, the node and the contracts do, on a state \<open>'w\<close> of the world: initialising the
  SDK, \<open>getOpenTrade\<close> of an address (collateral, open price, take profit, stop loss, leverage,
  direction), \<open>perform_trade\<close>, \<open>close_trade\<close>, the price, the balance and the metrics, and what
  happens while the client sleeps five seconds. A log is the list of its topics as hexadecimal text.
\<close>

record raw_trade =
  rt_collateral :: int
  rt_open_price :: int
  rt_tp :: int
  rt_sl :: int
  rt_leverage :: int
  rt_is_long :: bool

record sdk_params =
  sp_collateral :: pfloat
  sp_leverage :: int
  sp_asset_type :: int
  sp_direction :: bool
  sp_tp :: "pfloat option"
  sp_sl :: "pfloat option"

record sdk_receipt =
  sr_tx_hash :: string
  sr_logs :: "string list list"

record 'w chain_ops =
  ch_ensure_sdk :: "'w \<Rightarrow> unit result"
  ch_order_opened_topic :: string
  ch_trader :: "'w \<Rightarrow> string"
  ch_get_open_trade :: "'w \<Rightarrow> string \<Rightarrow> int \<Rightarrow> int \<Rightarrow> raw_trade result"
  ch_perform_trade :: "sdk_params \<Rightarrow> pfloat \<Rightarrow> 'w \<Rightarrow> 'w \<times> sdk_receipt result"
  ch_close_trade :: "int \<Rightarrow> int \<Rightarrow> pfloat \<Rightarrow> 'w \<Rightarrow> 'w \<times> string result"
  ch_sleep :: "'w \<Rightarrow> 'w"
  ch_price :: "string \<Rightarrow> string \<Rightarrow> 'w \<Rightarrow> (pfloat \<times> pfloat \<times> pfloat) result"
  ch_balance :: "'w \<Rightarrow> int result"
  ch_metrics :: "(int \<Rightarrow> int \<Rightarrow> 'w \<Rightarrow> trade_metrics option result) option"

definition FIND_TRADE_MAX_INDEX :: int where
  "FIND_TRADE_MAX_INDEX = 32"

text \<open>\<open>s.strip("0x")\<close> and \<open>int(s, 16)\<close>, for digits after an optional \<open>0x\<close>.\<close>

definition strip_0x :: "string \<Rightarrow> string" where
  "strip_0x s = (let p = (\<lambda>c. c = CHR ''0'' \<or> c = CHR ''x'') in rev (dropWhile p (rev (dropWhile p s))))"

definition hex_value :: "char \<Rightarrow> int option" where
  "hex_value c = (if is_digit c then Some (of_char c - 48)
     else (let l = (of_char (lower_char c) :: int) in if 97 \<le> l \<and> l \<le> 102 then Some (l - 87) else None))"

fun hex_fold :: "int \<Rightarrow> string \<Rightarrow> int option" where
  "hex_fold acc [] = Some acc"
| "hex_fold acc (c # cs) = (case hex_value c of None \<Rightarrow> None | Some d \<Rightarrow> hex_fold (16 * acc + d) cs)"

definition int16 :: "string \<Rightarrow> int option" where
  "int16 s = (let t = (if py_startswith (py_lower s) ''0x'' then drop 2 s else s)
     in if t = [] then None else hex_fold 0 t)"

text \<open>The first log with the signature of the event and at least four topics.\<close>

fun find_pair_id :: "string \<Rightarrow> string list list \<Rightarrow> int option result" where
  "find_pair_id topic [] = Inr None"
| "find_pair_id topic (topics # logs) =
     (if length topics < 4 \<or> strip_0x (py_lower (topics ! 0)) \<noteq> strip_0x (py_lower topic)
      then find_pair_id topic logs
      else (case int16 (topics ! 3) of None \<Rightarrow> Inl (ValueError ''int'') | Some n \<Rightarrow> Inr (Some n)))"

definition parse_receipt :: "string \<Rightarrow> sdk_receipt \<Rightarrow> (string \<times> int option) result" where
  "parse_receipt topic receipt = sbind (find_pair_id topic (sr_logs receipt)) (\<lambda>p. Inr (sr_tx_hash receipt, p))"

definition raw_active :: "raw_trade \<Rightarrow> bool" where
  "raw_active r \<longleftrightarrow> rt_collateral r > 0 \<and> rt_open_price r > 0"

definition find_trade_index :: "'w chain_ops \<Rightarrow> 'w \<Rightarrow> int \<Rightarrow> int option" where
  "find_trade_index ch w pair =
     find (\<lambda>idx. case ch_get_open_trade ch w (ch_trader ch w) pair idx of Inl e \<Rightarrow> False | Inr r \<Rightarrow> raw_active r)
       [0..FIND_TRADE_MAX_INDEX - 1]"

text \<open>At most \<open>n + 1\<close> searches, with a sleep between two of them.\<close>

fun await_trade_index :: "'w chain_ops \<Rightarrow> nat \<Rightarrow> int \<Rightarrow> 'w \<Rightarrow> 'w \<times> int option" where
  "await_trade_index ch 0 pair w = (w, find_trade_index ch w pair)"
| "await_trade_index ch (Suc n) pair w = (case find_trade_index ch w pair of
     Some idx \<Rightarrow> (w, Some idx)
   | None \<Rightarrow> await_trade_index ch n pair (ch_sleep ch w))"

definition sdk_params_of :: "trade_args \<Rightarrow> sdk_params" where
  "sdk_params_of a = \<lparr>sp_collateral = ta_collateral a, sp_leverage = ta_leverage a, sp_asset_type = ta_pair_id a,
     sp_direction = ta_is_long a, sp_tp = (if ta_tp_price a > 0 then Some (ta_tp_price a) else None),
     sp_sl = (if ta_sl_price a > 0 then Some (ta_sl_price a) else None)\<rparr>"

definition chain_open_trade :: "'w chain_ops \<Rightarrow> trade_args \<Rightarrow> 'w \<Rightarrow> 'w \<times> open_trade_receipt result" where
  "chain_open_trade ch a w =
     (case ch_ensure_sdk ch w of
        Inl e \<Rightarrow> (w, Inl e)
      | Inr u \<Rightarrow>
     (case ch_perform_trade ch (sdk_params_of a) (ta_at_price a) w of
        (w1, Inl e) \<Rightarrow> (w1, Inl e)
      | (w1, Inr receipt) \<Rightarrow>
     (case parse_receipt (ch_order_opened_topic ch) receipt of
        Inl e \<Rightarrow> (w1, Inl e)
      | Inr (tx_hash, found) \<Rightarrow>
          (let pair = (case found of None \<Rightarrow> ta_pair_id a | Some p \<Rightarrow> p) in
           case await_trade_index ch 6 pair w1 of
             (w2, None) \<Rightarrow> (w2, Inl (RuntimeError ''trade not found''))
           | (w2, Some index) \<Rightarrow>
               (w2, Inr \<lparr>otr_tx_hash = tx_hash, otr_pair_id = pair, otr_trade_index = index,
                         otr_open_price = ta_at_price a\<rparr>)))))"

definition chain_close_trade :: "'w chain_ops \<Rightarrow> int \<Rightarrow> int \<Rightarrow> pfloat \<Rightarrow> 'w \<Rightarrow> 'w \<times> close_trade_receipt result" where
  "chain_close_trade ch pair index at_price w =
     (case ch_ensure_sdk ch w of
        Inl e \<Rightarrow> (w, Inl e)
      | Inr u \<Rightarrow> (case ch_close_trade ch pair index at_price w of
          (w1, Inl e) \<Rightarrow> (w1, Inl e)
        | (w1, Inr tx) \<Rightarrow> (w1, Inr \<lparr>ctr_tx_hash = tx\<rparr>)))"

text \<open>Both updates only log.\<close>

definition chain_update_sl :: "int \<Rightarrow> int \<Rightarrow> pfloat \<Rightarrow> 'w \<Rightarrow> 'w \<times> bool result" where
  "chain_update_sl pair index new_sl w = (w, Inr True)"

definition chain_update_tp :: "int \<Rightarrow> int \<Rightarrow> pfloat \<Rightarrow> 'w \<Rightarrow> 'w \<times> bool result" where
  "chain_update_tp pair index new_tp w = (w, Inr True)"

definition int_float :: "int \<Rightarrow> pfloat" where
  "int_float n = rnd (of_int n)"

definition trade_info_of :: "int \<Rightarrow> int \<Rightarrow> raw_trade \<Rightarrow> open_trade_info" where
  "trade_info_of pair index r = \<lparr>ti_pair_id = pair, ti_trade_index = index,
     ti_open_price = fdiv (int_float (rt_open_price r)) (10 ^ 18),
     ti_tp = (if rt_tp r > 0 then fdiv (int_float (rt_tp r)) (10 ^ 18) else 0),
     ti_sl = (if rt_sl r > 0 then fdiv (int_float (rt_sl r)) (10 ^ 18) else 0),
     ti_collateral = fdiv (int_float (rt_collateral r)) (10 ^ 6),
     ti_leverage = rt_leverage r, ti_is_long = rt_is_long r\<rparr>"

definition chain_get_open_trades :: "'w chain_ops \<Rightarrow> string \<Rightarrow> int list option \<Rightarrow> 'w \<Rightarrow> open_trade_info list result" where
  "chain_get_open_trades ch trader pair_ids w =
     sbind (ch_ensure_sdk ch w) (\<lambda>_. let addr = (if py_strip trader = [] then ch_trader ch w else trader) in case pair_ids of
       None \<Rightarrow> Inr []
     | Some ps \<Rightarrow> Inr (concat (map (\<lambda>pid. concat (map (\<lambda>idx. case ch_get_open_trade ch w addr pid idx of
           Inl e \<Rightarrow> []
         | Inr r \<Rightarrow> if raw_active r then [trade_info_of pid idx r] else []) [0..FIND_TRADE_MAX_INDEX - 1])) ps)))"

definition chain_get_trade_info :: "'w chain_ops \<Rightarrow> int \<Rightarrow> int \<Rightarrow> 'w \<Rightarrow> open_trade_info option result" where
  "chain_get_trade_info ch pair index w =
     sbind (ch_ensure_sdk ch w) (\<lambda>_.
     sbind (ch_get_open_trade ch w (ch_trader ch w) pair index) (\<lambda>r.
     Inr (if raw_active r then Some (trade_info_of pair index r) else None)))"

definition chain_get_price :: "'w chain_ops \<Rightarrow> string \<Rightarrow> string \<Rightarrow> 'w \<Rightarrow> (pfloat \<times> pfloat \<times> pfloat) result" where
  "chain_get_price ch base quote w = sbind (ch_ensure_sdk ch w) (\<lambda>_. ch_price ch base quote w)"

definition chain_get_usdc_balance :: "'w chain_ops \<Rightarrow> 'w \<Rightarrow> pfloat result" where
  "chain_get_usdc_balance ch w =
     sbind (ch_ensure_sdk ch w) (\<lambda>_. sbind (ch_balance ch w) (\<lambda>raw. Inr (fdiv (int_float raw) (10 ^ 10))))"

definition chain_get_trade_metrics :: "'w chain_ops \<Rightarrow> int \<Rightarrow> int \<Rightarrow> 'w \<Rightarrow> trade_metrics option result" where
  "chain_get_trade_metrics ch pair index w =
     sbind (ch_ensure_sdk ch w) (\<lambda>_. case ch_metrics ch of
       None \<Rightarrow> Inr None
     | Some f \<Rightarrow> (case f pair index w of
         Inr (Some (kv # d)) \<Rightarrow> Inr (Some (kv # d))
       | _ \<Rightarrow> Inr None))"

definition chain_health :: "'w chain_ops \<Rightarrow> 'w \<Rightarrow> bool result" where
  "chain_health ch w = (case chain_get_price ch ''EUR'' ''USD'' w of
     Inl e \<Rightarrow> Inr False | Inr (mid, bid, ask) \<Rightarrow> Inr (mid > 0))"

definition chain_client :: "'w chain_ops \<Rightarrow> 'w client_ops" where
  "chain_client ch = \<lparr>co_is_fake = False, co_trader = ch_trader ch, co_get_price = chain_get_price ch,
     co_open_trade = chain_open_trade ch, co_close_trade = chain_close_trade ch,
     co_update_sl = chain_update_sl, co_update_tp = chain_update_tp,
     co_get_open_trades = chain_get_open_trades ch, co_health = chain_health ch,
     co_get_usdc_balance = chain_get_usdc_balance ch, co_get_trade_info = chain_get_trade_info ch,
     co_get_trade_metrics = chain_get_trade_metrics ch\<rparr>"

text \<open>
  The chain client reads correctly while the SDK is there, the node answers, and no trade of the
  trader has an index that the scan does not reach.
\<close>

definition chain_ok :: "'w chain_ops \<Rightarrow> 'w \<Rightarrow> bool" where
  [inv_defs]: "chain_ok ch w \<longleftrightarrow> ch_ensure_sdk ch w = Inr () \<and>
     (\<forall>p i. \<exists>r. ch_get_open_trade ch w (ch_trader ch w) p i = Inr r \<and>
        (raw_active r \<longrightarrow> 0 \<le> i \<and> i < FIND_TRADE_MAX_INDEX))"

definition chain_trades :: "'w chain_ops \<Rightarrow> 'w \<Rightarrow> int \<Rightarrow> int \<Rightarrow> open_trade_info option" where
  "chain_trades ch w p i = (case ch_get_open_trade ch w (ch_trader ch w) p i of
     Inl e \<Rightarrow> None | Inr r \<Rightarrow> if raw_active r then Some (trade_info_of p i r) else None)"

lemma trade_info_of_key [simp]:
  "ti_pair_id (trade_info_of p i r) = p" "ti_trade_index (trade_info_of p i r) = i"
  by (simp_all add: trade_info_of_def)

lemma chain_trades_key: "chain_trades ch w p i = Some t \<Longrightarrow> ti_pair_id t = p \<and> ti_trade_index t = i"
  by (auto simp: chain_trades_def split: sum.splits if_splits)

definition scan_pair :: "'w chain_ops \<Rightarrow> 'w \<Rightarrow> int \<Rightarrow> open_trade_info list" where
  "scan_pair ch w p = List.map_filter (chain_trades ch w p) [0..FIND_TRADE_MAX_INDEX - 1]"

lemma scan_pair_spec:
  assumes "chain_ok ch w"
  shows "distinct (map ti_trade_index (scan_pair ch w p))"
    and "t \<in> set (scan_pair ch w p) \<longleftrightarrow> ti_pair_id t = p \<and> chain_trades ch w p (ti_trade_index t) = Some t"
proof -
  have ix: "ti_trade_index t = i" if "chain_trades ch w p i = Some t" for i t
    using chain_trades_key [OF that] by blast
  have d: "distinct (map ti_trade_index (List.map_filter (chain_trades ch w p) is)) \<and>
      ti_trade_index ` set (List.map_filter (chain_trades ch w p) is) \<subseteq> set is" if "distinct is" for "is"
    using that
  proof (induction "is")
    case (Cons i js)
    show ?case
    proof (cases "chain_trades ch w p i")
      case None
      with Cons show ?thesis by (auto simp: map_filter_simps)
    next
      case (Some t)
      with Cons ix [OF Some] show ?thesis by (auto simp: map_filter_simps)
    qed
  qed (simp add: map_filter_simps)
  show "distinct (map ti_trade_index (scan_pair ch w p))" unfolding scan_pair_def using d by simp
  have range: "0 \<le> i \<and> i < FIND_TRADE_MAX_INDEX" if "chain_trades ch w p i = Some t" for i
  proof -
    obtain r where "ch_get_open_trade ch w (ch_trader ch w) p i = Inr r"
      "raw_active r \<longrightarrow> 0 \<le> i \<and> i < FIND_TRADE_MAX_INDEX"
      using assms unfolding chain_ok_def by blast
    then show ?thesis using that by (simp add: chain_trades_def split: if_splits)
  qed
  have mem: "t \<in> set (scan_pair ch w p) \<longleftrightarrow> (\<exists>i \<in> {0..<FIND_TRADE_MAX_INDEX}. chain_trades ch w p i = Some t)"
    by (auto simp: scan_pair_def set_map_filter)
  show "t \<in> set (scan_pair ch w p) \<longleftrightarrow> ti_pair_id t = p \<and> chain_trades ch w p (ti_trade_index t) = Some t"
  proof
    assume "t \<in> set (scan_pair ch w p)"
    then obtain i where i: "chain_trades ch w p i = Some t" unfolding mem by blast
    from chain_trades_key [OF i] i show "ti_pair_id t = p \<and> chain_trades ch w p (ti_trade_index t) = Some t" by simp
  next
    assume "ti_pair_id t = p \<and> chain_trades ch w p (ti_trade_index t) = Some t"
    with range show "t \<in> set (scan_pair ch w p)" unfolding mem by auto
  qed
qed

lemma chain_scan:
  assumes "chain_ok ch w"
  shows "co_get_open_trades (chain_client ch) (co_trader (chain_client ch) w) (Some ps) w =
    Inr (concat (map (scan_pair ch w) ps))"
proof -
  have "concat (map (\<lambda>idx. case ch_get_open_trade ch w (ch_trader ch w) pid idx of
           Inl e \<Rightarrow> []
         | Inr r \<Rightarrow> if raw_active r then [trade_info_of pid idx r] else []) js) =
      List.map_filter (chain_trades ch w pid) js" for pid js
    by (induction js) (auto simp: map_filter_simps chain_trades_def split: sum.split)
  moreover have "scan_pair ch w = (\<lambda>p. List.map_filter (chain_trades ch w p) [0..FIND_TRADE_MAX_INDEX - 1])"
    by (simp add: scan_pair_def fun_eq_iff)
  ultimately show ?thesis
    using assms by (simp add: chain_client_def chain_get_open_trades_def chain_ok_def Let_def)
qed

interpretation chain: client_reader "chain_client ch" "chain_ok ch" "chain_trades ch" for ch
proof
  fix c p i t assume "chain_trades ch c p i = Some t"
  then show "ti_pair_id t = p \<and> ti_trade_index t = i" by (rule chain_trades_key)
next
  fix c assume "co_is_fake (chain_client ch)"
  then show "co_trader (chain_client ch) c = []" by (simp add: chain_client_def)
next
  fix c p i assume "chain_ok ch c"
  then have "ch_ensure_sdk ch c = Inr ()" "\<exists>r. ch_get_open_trade ch c (ch_trader ch c) p i = Inr r"
    unfolding chain_ok_def by blast+
  then show "co_get_trade_info (chain_client ch) p i c = Inr (chain_trades ch c p i)"
    by (auto simp: chain_client_def chain_get_trade_info_def chain_trades_def)
next
  fix c and ps :: "int list" assume ok: "chain_ok ch c" and d: "distinct ps"
  note s = scan_pair_spec [OF ok]
  have "distinct (map (\<lambda>t. (ti_pair_id t, ti_trade_index t)) (concat (map (scan_pair ch c) ps)))"
    using d
  proof (induction ps)
    case (Cons p ps)
    have "map (\<lambda>t. (ti_pair_id t, ti_trade_index t)) (scan_pair ch c p) = map (Pair p) (map ti_trade_index (scan_pair ch c p))"
      unfolding map_map using s(2) [of _ p] by (intro map_cong) auto
    then have "distinct (map (\<lambda>t. (ti_pair_id t, ti_trade_index t)) (scan_pair ch c p))"
      using s(1) [of p] by (simp only: distinct_map [of "Pair p"]) (simp add: inj_on_def)
    moreover have "p \<noteq> q" if "q \<in> set ps" for q using that Cons.prems by auto
    ultimately show ?case using Cons s(2) by (auto 0 2)
  qed simp
  moreover have "t \<in> set (concat (map (scan_pair ch c) ps)) \<longleftrightarrow>
      ti_pair_id t \<in> set ps \<and> chain_trades ch c (ti_pair_id t) (ti_trade_index t) = Some t" for t
    using s(2) by auto
  ultimately show "\<exists>ts. co_get_open_trades (chain_client ch) (co_trader (chain_client ch) c) (Some ps) c = Inr ts \<and>
      distinct (map (\<lambda>t. (ti_pair_id t, ti_trade_index t)) ts) \<and>
      (\<forall>t. t \<in> set ts \<longleftrightarrow> ti_pair_id t \<in> set ps \<and> chain_trades ch c (ti_pair_id t) (ti_trade_index t) = Some t)"
    unfolding chain_scan [OF ok] by (intro exI conjI refl allI) (simp_all only:)
qed

end
