(* ===== verification/OstiumVenue.thy ===== *)
theory OstiumVenue
  imports VenueContract OstiumClient Config
begin

text \<open>
  The live venue adapter \<open>infrastructure/venues/ostium/ostium_execution_adapter.py\<close> over any client
  of type \<^typ>\<open>'c client_ops\<close>.

  The state is the client, if \<open>start\<close> made one, and the file of idempotency entries: a line is the
  entry that \<open>json.loads\<close> and the two keys give, or \<open>None\<close> where the code skips it. While an
  opening waits for the price other tasks run: \<open>env\<close> is what they do. The clock is the argument \<open>now\<close>.
\<close>

record 'c ostium =
  ov_client :: "'c option"
  ov_idempotency :: "(string \<times> string) option list"

record ostium_config =
  oc_private_key :: "string option"
  oc_network :: "string option"

section \<open>Symbols and identifiers\<close>

definition SYMBOL_TO_PAIR_ID :: "(string, int) dict" where
  "SYMBOL_TO_PAIR_ID = [(''EURUSD'', 2), (''XAUUSD'', 1), (''BTCUSD'', 0), (''ETHUSD'', 3), (''GBPUSD'', 4),
     (''GBPJPY'', 5), (''USDJPY'', 6), (''USDCHF'', 7), (''AUDUSD'', 8), (''USDCAD'', 9)]"

definition PAIR_ID_TO_SYMBOL :: "(int, string) dict" where
  "PAIR_ID_TO_SYMBOL = dict_of (map (\<lambda>(k, v). (v, k)) SYMBOL_TO_PAIR_ID)"

definition PAIR_ID_TO_BASE_QUOTE :: "(int, string \<times> string) dict" where
  "PAIR_ID_TO_BASE_QUOTE = [(0, (''BTC'', ''USD'')), (1, (''XAU'', ''USD'')), (2, (''EUR'', ''USD'')),
     (3, (''ETH'', ''USD'')), (4, (''GBP'', ''USD'')), (5, (''GBP'', ''JPY'')), (6, (''USD'', ''JPY'')),
     (7, (''USD'', ''CHF'')), (8, (''AUD'', ''USD'')), (9, (''USD'', ''CAD''))]"

definition KNOWN_PAIR_IDS :: "int list" where
  "KNOWN_PAIR_IDS = d_values SYMBOL_TO_PAIR_ID"

definition parse_position_id :: "string \<Rightarrow> (int \<times> int) result" where
  "parse_position_id pid =
     (let text = py_strip pid;
          stem = (if py_startswith (py_lower text) ''ostium:'' then drop 7 text else text);
          parts = py_split (CHR '':'') stem
      in if length parts < 2 then Inl (VenueAPIError ''position_id'')
         else (case (py_int (parts ! 0), py_int (parts ! 1)) of
             (Some p, Some i) \<Rightarrow> Inr (p, i)
           | _ \<Rightarrow> Inl (VenueAPIError ''position_id'')))"

definition make_position_id :: "int \<Rightarrow> int \<Rightarrow> string" where
  "make_position_id pair_id trade_index = ''ostium:'' @ show_int pair_id @ '':'' @ show_int trade_index"

section \<open>Idempotency\<close>

definition load_idempotency_map :: "'c ostium \<Rightarrow> (string, string) dict" where
  "load_idempotency_map s = dict_of (List.map_filter id (ov_idempotency s))"

definition save_idempotency_entry :: "string \<Rightarrow> string \<Rightarrow> 'c ostium \<Rightarrow> 'c ostium" where
  "save_idempotency_entry cid pid s = s\<lparr>ov_idempotency := ov_idempotency s @ [Some (cid, pid)]\<rparr>"

section \<open>Lifecycle and prices\<close>

text \<open>\<open>py_or\<close> is \<open>a or b\<close> on optional texts.\<close>

definition py_or :: "string option \<Rightarrow> string option \<Rightarrow> string option" where
  "py_or a b = (if py_truthy_str a then a else b)"

definition ostium_start ::
  "environ \<Rightarrow> (string \<Rightarrow> string \<Rightarrow> string option \<Rightarrow> 'c) \<Rightarrow> ostium_config \<Rightarrow> 'c ostium \<Rightarrow> 'c ostium" where
  "ostium_start env new_client cfg s = (case ov_client s of
     Some c \<Rightarrow> s
   | None \<Rightarrow>
       (let pk = py_strip (case py_or (oc_private_key cfg) (env ''OSTIUM_PRIVATE_KEY'') of None \<Rightarrow> [] | Some k \<Rightarrow> k) in
        if pk = [] then s
        else
          (let network = (if py_truthy_str (oc_network cfg) then the (oc_network cfg)
                          else getenv env ''OSTIUM_NETWORK'' ''testnet'');
               rpc = py_or (env ''OSTIUM_RPC_URL'') (env ''RPC_URL'')
           in s\<lparr>ov_client := Some (new_client pk network (if py_truthy_str rpc then rpc else None))\<rparr>)))"

definition ostium_health_check :: "'c client_ops \<Rightarrow> 'c ostium \<Rightarrow> bool" where
  "ostium_health_check ops s = (case ov_client s of None \<Rightarrow> False
     | Some c \<Rightarrow> (case co_health ops c of Inl e \<Rightarrow> False | Inr b \<Rightarrow> b))"

definition no_client :: py_error where
  "no_client = VenueAPIError ''client''"

text \<open>The price of a pair; any exception becomes a \<open>VenueAPIError\<close>.\<close>

definition pair_price :: "'c client_ops \<Rightarrow> string \<times> string \<Rightarrow> 'c \<Rightarrow> (pfloat \<times> pfloat \<times> pfloat) result" where
  "pair_price ops bq c = (case co_get_price ops (fst bq) (snd bq) c of
     Inl e \<Rightarrow> Inl (VenueAPIError ''get_price'') | Inr p \<Rightarrow> Inr p)"

definition ostium_latest_price :: "'c client_ops \<Rightarrow> datetime \<Rightarrow> string \<Rightarrow> 'c ostium \<Rightarrow> price_data result" where
  "ostium_latest_price ops now symbol s = (case ov_client s of
     None \<Rightarrow> Inl no_client
   | Some c \<Rightarrow>
       (let sym_upper = py_upper symbol in
        case d_get SYMBOL_TO_PAIR_ID sym_upper of
          None \<Rightarrow> Inl (MarketNotFoundError sym_upper)
        | Some pair_id \<Rightarrow> (case d_get PAIR_ID_TO_BASE_QUOTE pair_id of
            None \<Rightarrow> Inl (OtherError ''TypeError'')
          | Some bq \<Rightarrow> sbind (pair_price ops bq c) (\<lambda>(mid, bid, ask).
              Inr \<lparr>px_symbol = sym_upper, px_bid = bid, px_ask = ask, px_mid = mid, px_ts = now\<rparr>))))"

section \<open>Trading\<close>

text \<open>\<open>int(x)\<close> of a float truncates towards zero.\<close>

definition int_of_float :: "pfloat \<Rightarrow> int" where
  "int_of_float x = (if 0 \<le> x then \<lfloor>x\<rfloor> else \<lceil>x\<rceil>)"

definition level_or_zero :: "pfloat option \<Rightarrow> pfloat" where
  "level_or_zero v = (case v of None \<Rightarrow> 0 | Some x \<Rightarrow> x)"

definition order_success :: "string \<Rightarrow> string \<Rightarrow> pfloat \<Rightarrow> pfloat \<Rightarrow> string option \<Rightarrow> datetime \<Rightarrow> order_result" where
  "order_success pid oid price sz tx now = \<lparr>or_success = True, or_position_id = pid, or_order_id = Some oid,
     or_executed_price = Some price, or_executed_size = Some sz, or_fee = None, or_slippage = None,
     or_realized_pnl = None, or_realized_pnl_percent = None, or_pnl_gross = None, or_pnl_gross_percent = None,
     or_fees_breakdown = None, or_tx_hash = tx, or_error_message = None, or_timestamp = now\<rparr>"

definition trade_args_of :: "open_args \<Rightarrow> int \<Rightarrow> pfloat \<Rightarrow> trade_args" where
  "trade_args_of a pair_id mid = \<lparr>ta_pair_id = pair_id, ta_is_long = oa_is_long a, ta_collateral = oa_collateral a,
     ta_leverage = int_of_float (oa_leverage a), ta_at_price = mid,
     ta_tp_price = level_or_zero (oa_tp_price a), ta_sl_price = level_or_zero (oa_sl_price a)\<rparr>"

text \<open>The second half of an opening: from the answer of the client to the result.\<close>

definition ostium_submit ::
  "'c client_ops \<Rightarrow> datetime \<Rightarrow> open_args \<Rightarrow> int \<Rightarrow> pfloat \<Rightarrow> 'c ostium \<Rightarrow> 'c ostium \<times> order_result result" where
  "ostium_submit ops now a pair_id mid s = (case ov_client s of
     None \<Rightarrow> (s, Inr (order_failure [] (VenueRefused (AttributeError ''open_trade'')) now))
   | Some c \<Rightarrow> (case co_open_trade ops (trade_args_of a pair_id mid) c of
       (c', Inl e) \<Rightarrow> (s\<lparr>ov_client := Some c'\<rparr>, Inr (order_failure [] (VenueRefused e) now))
     | (c', Inr receipt) \<Rightarrow>
         (let pid = make_position_id (otr_pair_id receipt) (otr_trade_index receipt);
              s1 = s\<lparr>ov_client := Some c'\<rparr>
          in (if py_truthy_str (oa_client_order_id a)
              then save_idempotency_entry (the (oa_client_order_id a)) pid s1 else s1,
              Inr (order_success pid (otr_tx_hash receipt) (otr_open_price receipt)
                (fmul (oa_collateral a) (oa_leverage a)) (Some (otr_tx_hash receipt)) now)))))"

definition ostium_open ::
  "'c client_ops \<Rightarrow> ('c ostium \<Rightarrow> 'c ostium) \<Rightarrow> datetime \<Rightarrow> open_args \<Rightarrow> 'c ostium \<Rightarrow> 'c ostium \<times> order_result result" where
  "ostium_open ops env now a s = (case ov_client s of
     None \<Rightarrow> (s, Inl no_client)
   | Some c \<Rightarrow>
       (case (if py_truthy_str (oa_client_order_id a)
              then d_get (load_idempotency_map s) (the (oa_client_order_id a)) else None) of
          Some existing_pid \<Rightarrow> (s, Inr (order_success existing_pid [] 0 0 None now))
        | None \<Rightarrow>
            (let sym_upper = py_upper (oa_symbol a) in
             case d_get SYMBOL_TO_PAIR_ID sym_upper of
               None \<Rightarrow> (s, Inl (MarketNotFoundError sym_upper))
             | Some pair_id \<Rightarrow> (case d_get PAIR_ID_TO_BASE_QUOTE pair_id of
                 None \<Rightarrow> (s, Inl (VenueAPIError ''get_price''))
               | Some bq \<Rightarrow> (case pair_price ops bq c of
                   Inl e \<Rightarrow> (env s, Inl e)
                 | Inr (mid, bid, ask) \<Rightarrow>
                     if mid \<le> 0 then (env s, Inl (VenueAPIError ''mid''))
                     else ostium_submit ops now a pair_id mid (env s))))))"

text \<open>The argument \<open>percent\<close> of \<open>close_position\<close> is not used.\<close>

definition ostium_close :: "'c client_ops \<Rightarrow> pfloat \<Rightarrow> string \<Rightarrow> 'c ostium \<Rightarrow> 'c ostium \<times> bool result" where
  "ostium_close ops percent pid s = (case ov_client s of
     None \<Rightarrow> (s, Inl no_client)
   | Some c \<Rightarrow> (case parse_position_id pid of
       Inl e \<Rightarrow> (s, Inl e)
     | Inr (pair_id, trade_index) \<Rightarrow>
         if co_get_trade_info ops pair_id trade_index c = Inr None then (s, Inr True)
         else (case d_get PAIR_ID_TO_BASE_QUOTE pair_id of
             None \<Rightarrow> (s, Inl (VenueAPIError ''pair_id''))
           | Some bq \<Rightarrow> (case pair_price ops bq c of
               Inl e \<Rightarrow> (s, Inl e)
             | Inr (mid, bid, ask) \<Rightarrow> (case co_close_trade ops pair_id trade_index mid c of
                 (c', Inl e) \<Rightarrow> (s\<lparr>ov_client := Some c'\<rparr>, Inr False)
               | (c', Inr receipt) \<Rightarrow> (s\<lparr>ov_client := Some c'\<rparr>, Inr True))))))"

definition ostium_update ::
  "(int \<Rightarrow> int \<Rightarrow> pfloat \<Rightarrow> 'c \<Rightarrow> 'c \<times> bool result) \<Rightarrow> string \<Rightarrow> pfloat \<Rightarrow> 'c ostium \<Rightarrow> 'c ostium \<times> bool result" where
  "ostium_update upd pid level s = (case ov_client s of
     None \<Rightarrow> (s, Inl no_client)
   | Some c \<Rightarrow> (case parse_position_id pid of
       Inl e \<Rightarrow> (s, Inl e)
     | Inr (pair_id, trade_index) \<Rightarrow>
         (let (c', r) = upd pair_id trade_index level c in (s\<lparr>ov_client := Some c'\<rparr>, r))))"

definition ostium_update_sl :: "'c client_ops \<Rightarrow> string \<Rightarrow> pfloat \<Rightarrow> 'c ostium \<Rightarrow> 'c ostium \<times> bool result" where
  "ostium_update_sl ops = ostium_update (co_update_sl ops)"

definition ostium_update_tp :: "'c client_ops \<Rightarrow> string \<Rightarrow> pfloat \<Rightarrow> 'c ostium \<Rightarrow> 'c ostium \<times> bool result" where
  "ostium_update_tp ops = ostium_update (co_update_tp ops)"

section \<open>Positions, metrics and balance\<close>

definition pair_symbol :: "int \<Rightarrow> string" where
  "pair_symbol pair_id = (case d_get PAIR_ID_TO_SYMBOL pair_id of
     None \<Rightarrow> ''OSTIUM_'' @ show_int pair_id | Some s \<Rightarrow> s)"

definition trade_position :: "datetime \<Rightarrow> open_trade_info \<Rightarrow> position" where
  "trade_position utcnow t = position_post_init utcnow None None
     \<lparr>p_pair_id = ti_pair_id t, p_trade_index = ti_trade_index t, p_symbol = pair_symbol (ti_pair_id t),
      p_is_long = ti_is_long t, p_collateral = ti_collateral t, p_leverage = int_float (ti_leverage t),
      p_open_price = ti_open_price t, p_current_price = ti_open_price t,
      p_sl_price = (if ti_sl t > 0 then Some (ti_sl t) else None),
      p_tp_price = (if ti_tp t > 0 then Some (ti_tp t) else None),
      p_open_time = None, p_notional = 0, p_wallet_address = None,
      p_venue_position_id = Some (make_position_id (ti_pair_id t) (ti_trade_index t)),
      p_mark_price = None, p_unrealized_pnl = None\<rparr>"

definition get_open_positions :: "'c client_ops \<Rightarrow> datetime \<Rightarrow> 'c ostium \<Rightarrow> position list result" where
  "get_open_positions ops utcnow s = (case ov_client s of
     None \<Rightarrow> Inr []
   | Some c \<Rightarrow>
       if co_is_fake ops
       then sbind (co_get_open_trades ops [] (Some KNOWN_PAIR_IDS) c) (\<lambda>ts. Inr (map (trade_position utcnow) ts))
       else (case co_get_open_trades ops (co_trader ops c) (Some KNOWN_PAIR_IDS) c of
           Inl e \<Rightarrow> Inr []
         | Inr ts \<Rightarrow> Inr (map (trade_position utcnow) ts)))"

record position_metrics =
  pm_position_id :: string
  pm_unrealized_pnl :: pfloat
  pm_unrealized_pnl_percent :: pfloat
  pm_funding_fee :: pfloat
  pm_rollover_fee :: pfloat
  pm_liquidation_price :: pfloat
  pm_current_price :: pfloat

definition manual_pnl :: "pfloat \<Rightarrow> open_trade_info \<Rightarrow> pfloat \<times> pfloat" where
  "manual_pnl current t =
     (let notional = fmul (ti_collateral t) (int_float (ti_leverage t));
          delta = fsub current (ti_open_price t);
          price_delta = (if ti_is_long t then delta else - delta);
          pnl = (if ti_open_price t > 0 then fmul (fdiv price_delta (ti_open_price t)) notional else 0)
      in (pnl, if ti_collateral t > 0 then fmul (fdiv pnl (ti_collateral t)) 100 else 0))"

definition liquidation_price :: "open_trade_info \<Rightarrow> pfloat" where
  "liquidation_price t =
     (let lev = int_float (ti_leverage t) in
      if lev > 0
      then if ti_is_long t then fmul (ti_open_price t) (fsub 1 (fdiv 1 lev))
           else fmul (ti_open_price t) (fadd 1 (fdiv 1 lev))
      else 0)"

definition get_position_metrics :: "'c client_ops \<Rightarrow> string \<Rightarrow> 'c ostium \<Rightarrow> position_metrics result" where
  "get_position_metrics ops pid s = (case ov_client s of
     None \<Rightarrow> Inl no_client
   | Some c \<Rightarrow>
       sbind (parse_position_id pid) (\<lambda>(pair_id, trade_index).
       sbind (co_get_trade_info ops pair_id trade_index c) (\<lambda>info. case info of
         None \<Rightarrow> Inl (VenueAPIError ''trade'')
       | Some t \<Rightarrow> (case d_get PAIR_ID_TO_BASE_QUOTE pair_id of
           None \<Rightarrow> Inl (VenueAPIError ''pair_id'')
         | Some bq \<Rightarrow>
             sbind (pair_price ops bq c) (\<lambda>(current, bid, ask).
             sbind (co_get_trade_metrics ops pair_id trade_index c) (\<lambda>m.
               (let (pnl, pct) = (case m of
                    None \<Rightarrow> manual_pnl current t
                  | Some d \<Rightarrow> (case d_get d ''unrealizedPnl'' of
                      None \<Rightarrow> manual_pnl current t
                    | Some x \<Rightarrow> (x, case d_get d ''unrealizedPnlPercentage'' of None \<Rightarrow> 0 | Some y \<Rightarrow> y)))
                in Inr \<lparr>pm_position_id = pid, pm_unrealized_pnl = pnl, pm_unrealized_pnl_percent = pct,
                     pm_funding_fee = 0, pm_rollover_fee = 0, pm_liquidation_price = liquidation_price t,
                     pm_current_price = current\<rparr>))))))) "

definition ostium_get_balance :: "'c client_ops \<Rightarrow> datetime \<Rightarrow> 'c ostium \<Rightarrow> balance result" where
  "ostium_get_balance ops utcnow s = (case ov_client s of
     None \<Rightarrow> Inl no_client
   | Some c \<Rightarrow> (case co_get_usdc_balance ops c of
       Inl e \<Rightarrow> Inl (VenueAPIError ''get_balance'')
     | Inr usdc \<Rightarrow>
         (let used = (case get_open_positions ops utcnow s of Inl e \<Rightarrow> 0 | Inr ps \<Rightarrow> fsum (map p_collateral ps))
          in Inr \<lparr>b_usdc = usdc, b_native_token = 0, b_available_margin = max (fsub usdc used) 0,
               b_used_margin = used\<rparr>)))"

section \<open>The adapter as the trading core sees it\<close>

definition ostium_adapter :: "'c client_ops \<Rightarrow> ('c ostium \<Rightarrow> 'c ostium) \<Rightarrow> datetime \<Rightarrow> 'c ostium adapter" where
  "ostium_adapter ops env now =
     \<lparr>ad_positions = (\<lambda>s. case get_open_positions ops now s of Inl e \<Rightarrow> [] | Inr ps \<Rightarrow> ps),
      ad_open = ostium_open ops env now, ad_close = ostium_close ops 100\<rparr>"

end
