(* ===== verification/OstiumVenue_Props.thy ===== *)
theory OstiumVenue_Props
  imports OstiumVenue Trading
begin

text \<open>
  The live venue: identifiers, the weak venue contract over any client that keeps its contract,
  idempotent openings, and what the client of the chain does differently.
\<close>

section \<open>Identifiers\<close>

lemma show_int_chars: "CHR '':'' \<notin> set (show_int n)"
  using show_int_ends [of n] by blast

lemma parse_ids:
  "py_split (CHR '':'') (show_int p @ CHR '':'' # show_int i) = [show_int p, show_int i]"
  using show_int_chars by (simp add: py_split_append py_split_no_sep)

lemma parse_parts:
  assumes "(if py_startswith (py_lower (py_strip pid)) ''ostium:'' then drop 7 (py_strip pid) else py_strip pid) =
    show_int p @ CHR '':'' # show_int i"
  shows "parse_position_id pid = Inr (p, i)"
  unfolding parse_position_id_def Let_def assms parse_ids by (simp add: py_int_show_int)

lemma strip_ids: "py_strip (show_int p @ '':'' @ show_int i) = show_int p @ '':'' @ show_int i"
proof -
  note a = show_int_ends [of p] and b = show_int_ends [of i]
  then show ?thesis by (intro py_strip_id) auto
qed

lemma strip_made: "py_strip (make_position_id p i) = make_position_id p i"
proof -
  note b = show_int_ends [of i]
  then show ?thesis unfolding make_position_id_def by (intro py_strip_id) (auto simp: is_space_def)
qed

lemma starts_made: "py_startswith (py_lower (make_position_id p i)) ''ostium:''"
  by (simp add: make_position_id_def py_lower_def lower_char_def)

lemma bare_not_prefixed: "\<not> py_startswith (py_lower (show_int p @ s)) ''ostium:''"
proof -
  obtain c r where c: "show_int p = c # r" using show_int_ends [of p] by (cases "show_int p") auto
  have "c = CHR ''-'' \<or> is_digit c"
    using c show_nat_digits [of "nat p"] by (auto simp: show_int_def split: if_splits)
  then have "lower_char c \<noteq> CHR ''o''"
    by (auto simp: lower_char_def is_digit_def Let_def)
  then show ?thesis by (simp add: c py_lower_def)
qed

lemma parse_made: "parse_position_id (make_position_id p i) = Inr (p, i)"
proof (rule parse_parts)
  show "(if py_startswith (py_lower (py_strip (make_position_id p i))) ''ostium:'' then drop 7 (py_strip (make_position_id p i))
      else py_strip (make_position_id p i)) = show_int p @ CHR '':'' # show_int i"
    by (simp only: strip_made starts_made if_True) (simp add: make_position_id_def)
qed

lemma made_inj: "make_position_id p i = make_position_id q j \<longleftrightarrow> p = q \<and> i = j"
  using parse_made by (metis Inr_inject prod.inject)

lemma parse_bare: "parse_position_id (show_int p @ '':'' @ show_int i) = Inr (p, i)"
  by (rule parse_parts, unfold strip_ids) (use bare_not_prefixed [of p] in simp)

section \<open>Pairs and symbols\<close>

lemma pair_of_symbol:
  assumes "d_get SYMBOL_TO_PAIR_ID x = Some p"
  shows "pair_symbol p = x \<and> p \<in> set KNOWN_PAIR_IDS \<and> d_get PAIR_ID_TO_BASE_QUOTE p \<noteq> None"
  using assms
  by (auto simp: SYMBOL_TO_PAIR_ID_def pair_symbol_def PAIR_ID_TO_SYMBOL_def dict_of_def KNOWN_PAIR_IDS_def
      PAIR_ID_TO_BASE_QUOTE_def split: if_splits)

lemma known_distinct: "distinct KNOWN_PAIR_IDS"
  by (simp add: KNOWN_PAIR_IDS_def SYMBOL_TO_PAIR_ID_def)

lemma trade_position_simps [simp]:
  "position_id (trade_position now t) = make_position_id (ti_pair_id t) (ti_trade_index t)"
  "p_symbol (trade_position now t) = pair_symbol (ti_pair_id t)"
  by (simp_all add: trade_position_def position_post_init_def position_id_def make_position_id_def)

section \<open>The open positions\<close>

definition ostium_inv :: "('c \<Rightarrow> bool) \<Rightarrow> 'c ostium \<Rightarrow> bool" where
  [inv_defs]: "ostium_inv I s \<longleftrightarrow> (\<forall>c. ov_client s = Some c \<longrightarrow> I c)"

text \<open>A request that is not a repetition of a recorded one.\<close>

definition new_request :: "open_args \<Rightarrow> 'c ostium \<Rightarrow> bool" where
  "new_request a s \<longleftrightarrow>
     \<not> (py_truthy_str (oa_client_order_id a) \<and> d_has (load_idempotency_map s) (the (oa_client_order_id a)))"

definition canon_id :: "string \<Rightarrow> string" where
  "canon_id pid = (case parse_position_id pid of Inl e \<Rightarrow> pid | Inr (p, i) \<Rightarrow> make_position_id p i)"

lemma ostium_adapter_simps [simp]:
  "ad_open (ostium_adapter ops env now) = ostium_open ops env now"
  "ad_close (ostium_adapter ops env now) = ostium_close ops 100"
  by (simp_all add: ostium_adapter_def)

lemma load_save [simp]: "load_idempotency_map (save_idempotency_entry cid pid s) = d_set cid pid (load_idempotency_map s)"
  by (simp add: load_idempotency_map_def save_idempotency_entry_def map_filter_def dict_of_def)

lemma save_client [simp]: "ov_client (save_idempotency_entry cid pid s) = ov_client s"
  by (simp add: save_idempotency_entry_def)

text \<open>An opening, up to its answer: \<open>Inl\<close> what happens before the client is asked to trade.\<close>

lemma ostium_open_cases:
  assumes "ostium_open ops env now a s = (s', r)"
  obtains (no_trade) "s' = s \<or> s' = env s" "\<exists>e. r = Inl e"
  | (repeated) pid where "\<not> new_request a s" "s' = s" "r = Inr (order_success pid [] 0 0 None now)"
      "d_get (load_idempotency_map s) (the (oa_client_order_id a)) = Some pid"
  | (submitted) pair mid where "new_request a s" "d_get SYMBOL_TO_PAIR_ID (py_upper (oa_symbol a)) = Some pair"
      "0 < mid" "ostium_submit ops now a pair mid (env s) = (s', r)" "ov_client s \<noteq> None"
proof (cases "ov_client s")
  case None
  then show ?thesis using assms by (intro no_trade) (auto simp: ostium_open_def)
next
  case (Some c)
  show ?thesis
  proof (cases "new_request a s")
    case False
    then obtain pid where "d_get (load_idempotency_map s) (the (oa_client_order_id a)) = Some pid"
      "py_truthy_str (oa_client_order_id a)" by (auto simp: new_request_def)
    with False Some assms show ?thesis by (intro repeated [of pid]) (auto simp: ostium_open_def)
  next
    case True
    then have none: "(if py_truthy_str (oa_client_order_id a)
        then d_get (load_idempotency_map s) (the (oa_client_order_id a)) else None) = None"
      by (auto simp: new_request_def)
    show ?thesis
      using assms True none no_trade submitted Some
      by (auto simp: ostium_open_def Let_def not_le split: option.splits sum.splits prod.splits if_splits)
  qed
qed

lemma ostium_submit_cases:
  assumes "ostium_submit ops now a pair mid s = (s', r)" "ov_client s = Some c"
  obtains (refused) c' e where "co_open_trade ops (trade_args_of a pair mid) c = (c', Inl e)"
      "s' = s\<lparr>ov_client := Some c'\<rparr>" "r = Inr (order_failure [] (VenueRefused e) now)"
  | (opened) c' rc where "co_open_trade ops (trade_args_of a pair mid) c = (c', Inr rc)" "ov_client s' = Some c'"
      "load_idempotency_map s' = (if py_truthy_str (oa_client_order_id a)
         then d_set (the (oa_client_order_id a)) (make_position_id (otr_pair_id rc) (otr_trade_index rc)) (load_idempotency_map s)
         else load_idempotency_map s)"
      "r = Inr (order_success (make_position_id (otr_pair_id rc) (otr_trade_index rc)) (otr_tx_hash rc)
         (otr_open_price rc) (fmul (oa_collateral a) (oa_leverage a)) (Some (otr_tx_hash rc)) now)"
proof (cases "co_open_trade ops (trade_args_of a pair mid) c")
  case (Pair c' x)
  have load: "load_idempotency_map (s\<lparr>ov_client := y\<rparr>) = load_idempotency_map s" for y
    by (simp add: load_idempotency_map_def)
  show ?thesis
  proof (cases x)
    case (Inl e)
    show ?thesis by (rule refused [of c' e]) (use Pair Inl assms in \<open>auto simp: ostium_submit_def\<close>)
  next
    case (Inr rc)
    show ?thesis
      by (rule opened [of c' rc]) (use Pair Inr assms in \<open>auto simp: ostium_submit_def Let_def load split: if_splits\<close>)
  qed
qed

lemma trade_args_of_pair [simp]: "ta_pair_id (trade_args_of a pair mid) = pair"
  by (simp add: trade_args_of_def)

lemma order_success_simps [simp]:
  "or_success (order_success pid oid px sz tx now)" "or_position_id (order_success pid oid px sz tx now) = pid"
  "or_executed_size (order_success pid oid px sz tx now) = Some sz"
  by (simp_all add: order_success_def)

context client_reader
begin

definition listed :: "'c \<Rightarrow> open_trade_info list \<Rightarrow> bool" where
  "listed c ts \<longleftrightarrow> distinct ts \<and> (\<forall>t. t \<in> set ts \<longleftrightarrow>
     ti_pair_id t \<in> set KNOWN_PAIR_IDS \<and> trades c (ti_pair_id t) (ti_trade_index t) = Some t)"

lemma positions_listed:
  assumes "inv c" "ov_client s = Some c"
  obtains ts where "ad_positions (ostium_adapter ops env now) s = map (trade_position now) ts" "listed c ts"
proof -
  obtain ts where ts: "co_get_open_trades ops (co_trader ops c) (Some KNOWN_PAIR_IDS) c = Inr ts"
    "distinct (map (\<lambda>t. (ti_pair_id t, ti_trade_index t)) ts)"
    "\<forall>t. t \<in> set ts \<longleftrightarrow> ti_pair_id t \<in> set KNOWN_PAIR_IDS \<and> trades c (ti_pair_id t) (ti_trade_index t) = Some t"
    using list_law [OF assms(1) known_distinct] by blast
  have "get_open_positions ops now s = Inr (map (trade_position now) ts)"
    using ts(1) assms(2) fake_trader [of c] by (cases "co_is_fake ops") (simp_all add: get_open_positions_def)
  then have "ad_positions (ostium_adapter ops env now) s = map (trade_position now) ts"
    by (simp add: ostium_adapter_def)
  with that ts(2,3) show ?thesis unfolding listed_def by (auto simp: distinct_map)
qed

lemma listed_unique: "listed c ts \<Longrightarrow> listed c' ts' \<Longrightarrow> trades c' = trades c \<Longrightarrow> mset ts' = mset ts"
  unfolding listed_def by (simp add: set_eq_iff flip: set_eq_iff_mset_eq_distinct)

lemma listed_added:
  assumes l: "listed c ts" "listed c' ts'" and inv: "inv c'"
    and none: "trades c p i = None" and p: "p \<in> set KNOWN_PAIR_IDS"
    and upd: "\<forall>q j. trades c' q j = (if q = p \<and> j = i then Some t else trades c q j)"
  shows "mset ts' = add_mset t (mset ts)" and "ti_pair_id t = p \<and> ti_trade_index t = i"
proof -
  show key: "ti_pair_id t = p \<and> ti_trade_index t = i" using trade_key [OF inv, of p i t] upd by simp
  have "t \<notin> set ts" using l(1) none key by (auto simp: listed_def)
  moreover have "set ts' = set (t # ts)"
    using l upd key p none unfolding listed_def by (auto split: if_splits)
  ultimately have "mset ts' = mset (t # ts)"
    using l by (subst set_eq_iff_mset_eq_distinct [symmetric]) (simp_all add: listed_def)
  then show "mset ts' = add_mset t (mset ts)" by simp
qed

lemma listed_removed:
  assumes l: "listed c ts" "listed c' ts'"
    and upd: "\<forall>q j. trades c' q j = (if q = p \<and> j = i then None else trades c q j)"
  shows "mset ts' = mset (filter (\<lambda>t. \<not> (ti_pair_id t = p \<and> ti_trade_index t = i)) ts)"
proof -
  have "set ts' = set (filter (\<lambda>t. \<not> (ti_pair_id t = p \<and> ti_trade_index t = i)) ts)"
    using l upd unfolding listed_def by (auto split: if_splits)
  then show ?thesis
    using l by (subst set_eq_iff_mset_eq_distinct [symmetric]) (simp_all add: listed_def)
qed

lemma listed_ids: "listed c ts \<Longrightarrow> inv c \<Longrightarrow> distinct (map (\<lambda>t. make_position_id (ti_pair_id t) (ti_trade_index t)) ts)"
  unfolding listed_def distinct_map inj_on_def made_inj by (metis option.inject)

end

text \<open>
  Every client that keeps its contract makes the adapter a venue, when no other task runs during an
  opening. A close of a position that is not open returns \<open>True\<close>, so the strict contract fails.
\<close>

context ostium_client
begin

lemma ostium_open_rejected:
  assumes inv: "ostium_inv inv s" and o: "ostium_open ops id now a s = (s', r)"
    and r: "\<forall>res. r = Inr res \<longrightarrow> \<not> or_success res"
  shows "ostium_inv inv s' \<and> mset (ad_positions (ostium_adapter ops id now) s') =
    mset (ad_positions (ostium_adapter ops id now) s)"
  using o
proof (cases rule: ostium_open_cases)
  case no_trade
  then show ?thesis using inv by auto
next
  case repeated
  then show ?thesis using r by simp
next
  case (submitted pair mid)
  obtain c where c: "ov_client s = Some c" "inv c" using submitted(5) inv by (auto simp: ostium_inv_def)
  have sub: "ostium_submit ops now a pair mid s = (s', r)" using submitted(4) by simp
  from sub c(1) show ?thesis
  proof (cases rule: ostium_submit_cases)
    case (refused c' e)
    then have c': "inv c'" "trades c' = trades c" "ov_client s' = Some c'" using open_raise_law [OF c(2)] by simp_all
    obtain ts ts' where "ad_positions (ostium_adapter ops id now) s = map (trade_position now) ts" "listed c ts"
      "ad_positions (ostium_adapter ops id now) s' = map (trade_position now) ts'" "listed c' ts'"
      using positions_listed [OF c(2,1)] positions_listed [OF c'(1,3)] by metis
    then show ?thesis using listed_unique [of c ts c' ts'] c' by (simp add: ostium_inv_def)
  next
    case opened
    then show ?thesis using r by simp
  qed
qed

lemma ostium_open_accepted:
  assumes inv: "ostium_inv inv s" and new: "new_request a s"
    and o: "ostium_open ops id now a s = (s', Inr res)" and r: "or_success res"
  shows "ostium_inv inv s' \<and>
    or_position_id res \<notin> set (map position_id (ad_positions (ostium_adapter ops id now) s)) \<and>
    (\<exists>p. mset (ad_positions (ostium_adapter ops id now) s') =
        add_mset p (mset (ad_positions (ostium_adapter ops id now) s)) \<and>
      p_symbol p = py_upper (oa_symbol a) \<and> position_id p = or_position_id res)"
  using o
proof (cases rule: ostium_open_cases)
  case no_trade
  then show ?thesis by simp
next
  case repeated
  then show ?thesis using new by simp
next
  case (submitted pair mid)
  obtain c where c: "ov_client s = Some c" "inv c" using submitted(5) inv by (auto simp: ostium_inv_def)
  note pair = pair_of_symbol [OF submitted(2)]
  have sub: "ostium_submit ops now a pair mid s = (s', Inr res)" using submitted(4) by simp
  from sub c(1) show ?thesis
  proof (cases rule: ostium_submit_cases)
    case (refused c' e)
    then show ?thesis using r by simp
  next
    case (opened c' rc)
    obtain t where law: "inv c'" "otr_pair_id rc = pair" "trades c pair (otr_trade_index rc) = None"
      "\<forall>p i. trades c' p i = (if p = pair \<and> i = otr_trade_index rc then Some t else trades c p i)"
      using open_law [OF c(2) opened(1)] by auto
    obtain ts ts' where ts: "ad_positions (ostium_adapter ops id now) s = map (trade_position now) ts" "listed c ts"
      "ad_positions (ostium_adapter ops id now) s' = map (trade_position now) ts'" "listed c' ts'"
      using positions_listed [OF c(2,1)] positions_listed [OF law(1) opened(2)] by metis
    note add = listed_added [OF ts(2,4) law(1,3) _ law(4)]
    have res: "or_position_id res = make_position_id pair (otr_trade_index rc)" using opened(4) law(2) by simp
    have "or_position_id res \<notin> set (map position_id (map (trade_position now) ts))"
      using ts(2) law(3) unfolding res listed_def by (auto simp: made_inj)
    moreover have "mset (map (trade_position now) ts') = add_mset (trade_position now t) (mset (map (trade_position now) ts))"
      using add(1) pair by simp
    moreover have "p_symbol (trade_position now t) = py_upper (oa_symbol a)"
      "position_id (trade_position now t) = or_position_id res"
      using add(2) pair by (simp_all add: res)
    ultimately show ?thesis using law(1) opened(2) unfolding ts(1,3) by (auto simp: ostium_inv_def)
  qed
qed

lemma ostium_close_effect:
  assumes inv: "ostium_inv inv s" and cl: "ostium_close ops percent pid s = (s', b)"
  shows "ostium_inv inv s' \<and> mset (ad_positions (ostium_adapter ops env now) s') =
    (if b = Inr True
     then filter_mset (\<lambda>p. position_id p \<noteq> canon_id pid) (mset (ad_positions (ostium_adapter ops env now) s))
     else mset (ad_positions (ostium_adapter ops env now) s))"
proof (cases "ov_client s")
  case None
  then show ?thesis using cl inv by (auto simp: ostium_close_def)
next
  case (Some c)
  have c: "inv c" using inv Some by (simp add: ostium_inv_def)
  obtain ts where ts: "ad_positions (ostium_adapter ops env now) s = map (trade_position now) ts" "listed c ts"
    by (rule positions_listed [OF c Some])
  show ?thesis
  proof (cases "parse_position_id pid")
    case (Inl e)
    then show ?thesis using cl inv Some by (auto simp: ostium_close_def)
  next
    case (Inr pi)
    obtain p i where pi: "parse_position_id pid = Inr (p, i)" using Inr by (cases pi) simp
    have canon: "canon_id pid = make_position_id p i" by (simp add: canon_id_def pi)
    have filt: "filter_mset (\<lambda>q. position_id q \<noteq> canon_id pid) (mset (map (trade_position now) us)) =
        mset (map (trade_position now) (filter (\<lambda>t. \<not> (ti_pair_id t = p \<and> ti_trade_index t = i)) us))" for us
      by (simp add: canon made_inj filter_mset_image_mset o_def flip: mset_filter)
    show ?thesis
    proof (cases "trades c p i")
      case None
      then have "s' = s" "b = Inr True" using cl pi Some info_law [OF c, of p i] by (auto simp: ostium_close_def)
      moreover have "filter (\<lambda>t. \<not> (ti_pair_id t = p \<and> ti_trade_index t = i)) ts = ts"
        using ts(2) None by (intro filter_True) (auto simp: listed_def)
      ultimately show ?thesis using inv filt [of ts] by (simp add: ts(1))
    next
      case (Some t)
      then have info: "co_get_trade_info ops p i c \<noteq> Inr None" using info_law [OF c, of p i] by simp
      have "(s' = s \<and> (\<exists>e. b = Inl e)) \<or>
        (\<exists>px c' r. co_close_trade ops p i px c = (c', r) \<and> s' = s\<lparr>ov_client := Some c'\<rparr> \<and>
          b = Inr (\<exists>rc. r = Inr rc))"
        using cl pi \<open>ov_client s = Some c\<close> info
        by (auto simp: ostium_close_def split: option.splits sum.splits prod.splits) blast
      then show ?thesis
      proof (elim disjE exE conjE)
        fix e assume "s' = s" "b = Inl e"
        then show ?thesis using inv by simp
      next
        fix px c' r assume r: "co_close_trade ops p i px c = (c', r)" "s' = s\<lparr>ov_client := Some c'\<rparr>"
          "b = Inr (\<exists>rc. r = Inr rc)"
        have c': "inv c'" using r(1) close_law [OF c] close_raise_law [OF c] by (cases r) blast+
        obtain ts' where ts': "ad_positions (ostium_adapter ops env now) s' = map (trade_position now) ts'" "listed c' ts'"
          using positions_listed [OF c', of s'] r(2) by auto
        show ?thesis
        proof (cases r)
          case (Inl e)
          then have "trades c' = trades c" using r(1) close_raise_law [OF c] by blast
          from listed_unique [OF ts(2) ts'(2) this]
          have "mset (map (trade_position now) ts') = mset (map (trade_position now) ts)" by simp
          then show ?thesis unfolding ts(1) ts'(1) using Inl r(2,3) c' by (simp add: ostium_inv_def)
        next
          case (Inr rc)
          then have "\<forall>q j. trades c' q j = (if q = p \<and> j = i then None else trades c q j)"
            using r(1) close_law [OF c] by blast
          from listed_removed [OF ts(2) ts'(2) this]
          have "mset (map (trade_position now) ts') = filter_mset (\<lambda>q. position_id q \<noteq> canon_id pid) (mset (map (trade_position now) ts))"
            unfolding filt by simp
          then show ?thesis unfolding ts(1) ts'(1) using Inr r(2,3) c' by (simp add: ostium_inv_def)
        qed
      qed
    qed
  qed
qed

end

sublocale ostium_client \<subseteq> venue: venue_positions "ostium_adapter ops id now" "ostium_inv inv" new_request py_upper canon_id
  for now
proof (unfold_locales, unfold ostium_adapter_simps)
  fix s assume inv: "ostium_inv inv s"
  show "distinct (map position_id (ad_positions (ostium_adapter ops id now) s))"
  proof (cases "ov_client s")
    case None
    then show ?thesis by (simp add: ostium_adapter_def get_open_positions_def)
  next
    case (Some c)
    then have "inv c" using inv by (simp add: ostium_inv_def)
    with Some obtain ts where "ad_positions (ostium_adapter ops id now) s = map (trade_position now) ts" "listed c ts"
      using positions_listed by blast
    then show ?thesis using listed_ids [of c ts] \<open>inv c\<close> by (simp add: o_def)
  qed
qed (fact ostium_open_rejected ostium_open_accepted ostium_close_effect)+

section \<open>Openings that are repeated\<close>

lemma ostium_open_repeated:
  assumes "ov_client s = Some c" "py_truthy_str (oa_client_order_id a)"
    and "d_get (load_idempotency_map s) (the (oa_client_order_id a)) = Some pid"
  shows "ostium_open ops env now a s = (s, Inr (order_success pid [] 0 0 None now))"
  using assms by (simp add: ostium_open_def)

lemma repeated_keeps_state: "\<not> new_request a s \<Longrightarrow> fst (ostium_open ops env now a s) = s"
  by (cases "ov_client s") (auto simp: ostium_open_def new_request_def)

text \<open>The operations of the adapter one after the other.\<close>

inductive ostium_run :: "'c client_ops \<Rightarrow> 'c ostium \<Rightarrow> 'c ostium \<Rightarrow> bool"
  for ops :: "'c client_ops" and s0 :: "'c ostium" where
  or_refl: "ostium_run ops s0 s0"
| or_start: "ostium_run ops s0 s \<Longrightarrow> ostium_run ops s0 (ostium_start env new_client cfg s)"
| or_open: "ostium_run ops s0 s \<Longrightarrow> ostium_run ops s0 (fst (ostium_open ops id now a s))"
| or_close: "ostium_run ops s0 s \<Longrightarrow> ostium_run ops s0 (fst (ostium_close ops percent pid s))"
| or_sl: "ostium_run ops s0 s \<Longrightarrow> ostium_run ops s0 (fst (ostium_update_sl ops pid level s))"
| or_tp: "ostium_run ops s0 s \<Longrightarrow> ostium_run ops s0 (fst (ostium_update_tp ops pid level s))"

lemma load_client [simp]: "load_idempotency_map (s\<lparr>ov_client := c\<rparr>) = load_idempotency_map s"
  by (simp add: load_idempotency_map_def)

lemma open_keeps_entry:
  assumes "d_get (load_idempotency_map s) cid = Some pid" "ov_client s \<noteq> None"
  shows "d_get (load_idempotency_map (fst (ostium_open ops id now a s))) cid = Some pid \<and>
    ov_client (fst (ostium_open ops id now a s)) \<noteq> None"
proof (cases "ostium_open ops id now a s")
  case (Pair s' r)
  then show ?thesis
  proof (cases rule: ostium_open_cases)
    case (submitted pair mid)
    obtain c where c: "ov_client s = Some c" using assms(2) by auto
    have sub: "ostium_submit ops now a pair mid s = (s', r)" using submitted(4) by simp
    from sub c show ?thesis
    proof (cases rule: ostium_submit_cases)
      case (refused c' e)
      then show ?thesis using Pair assms(1) by simp
    next
      case (opened c' rc)
      then show ?thesis using Pair assms(1) submitted(1) by (auto simp: new_request_def)
    qed
  qed (use Pair assms in auto)
qed

lemma other_steps_entries:
  "load_idempotency_map (ostium_start env mk cfg s) = load_idempotency_map s"
  "load_idempotency_map (fst (ostium_close ops percent pid s)) = load_idempotency_map s"
  "load_idempotency_map (fst (ostium_update upd pid l s)) = load_idempotency_map s"
  "ov_client s = Some c \<Longrightarrow> \<exists>c'. ov_client (ostium_start env mk cfg s) = Some c'"
  "ov_client s = Some c \<Longrightarrow> \<exists>c'. ov_client (fst (ostium_close ops percent pid s)) = Some c'"
  "ov_client s = Some c \<Longrightarrow> \<exists>c'. ov_client (fst (ostium_update upd pid l s)) = Some c'"
  by (auto simp: ostium_start_def ostium_close_def ostium_update_def Let_def
      split: option.split sum.split prod.split)

lemma run_keeps_entry:
  assumes "ostium_run ops s s'" "d_get (load_idempotency_map s) cid = Some pid" "ov_client s \<noteq> None"
  shows "d_get (load_idempotency_map s') cid = Some pid \<and> ov_client s' \<noteq> None"
  using assms(1)
proof induction
  case or_refl
  then show ?case using assms(2,3) by blast
next
  case (or_open s now a)
  then show ?case using open_keeps_entry by blast
qed (auto simp: ostium_update_sl_def ostium_update_tp_def other_steps_entries(1-3) intro: other_steps_entries(4-6))

lemma successful_open_recorded:
  assumes "ostium_open ops id now a s = (s', Inr res)" "or_success res" "oa_client_order_id a = Some cid" "cid \<noteq> []"
  shows "d_get (load_idempotency_map s') cid = Some (or_position_id res) \<and> ov_client s' \<noteq> None"
  using assms(1)
proof (cases rule: ostium_open_cases)
  case no_trade
  then show ?thesis by simp
next
  case (repeated pid)
  moreover have "ov_client s \<noteq> None"
  proof
    assume "ov_client s = None"
    then show False using assms(1) by (simp add: ostium_open_def)
  qed
  ultimately show ?thesis using assms(3) by simp
next
  case (submitted pair mid)
  obtain c where c: "ov_client s = Some c" using submitted(5) by auto
  have sub: "ostium_submit ops now a pair mid s = (s', Inr res)" using submitted(4) by simp
  from sub c show ?thesis
    by (cases rule: ostium_submit_cases) (use assms(2-4) in \<open>auto simp: py_truthy_str_def\<close>)
qed

section \<open>The desk on the in-memory client\<close>

inductive ostium_desk :: "fake_client ostium \<Rightarrow> bool" where
  od_init: "ostium_desk \<lparr>ov_client = Some (fake_init mid f1 f2 health bal fm), ov_idempotency = ls\<rparr>"
| od_open: "ostium_desk s \<Longrightarrow> only_adapter core (ostium_adapter fake_ops id now) \<Longrightarrow>
    open_order core req s = (s', r, lg) \<Longrightarrow> ostium_desk s'"
| od_close: "ostium_desk s \<Longrightarrow> only_adapter core (ostium_adapter fake_ops id now) \<Longrightarrow>
    close_order core creq s = (s', b, lg) \<Longrightarrow> ostium_desk s'"
| od_sl: "ostium_desk s \<Longrightarrow> ostium_desk (fst (ostium_update_sl fake_ops pid l s))"
| od_tp: "ostium_desk s \<Longrightarrow> ostium_desk (fst (ostium_update_tp fake_ops pid l s))"

abbreviation fake_positions :: "datetime \<Rightarrow> fake_client ostium \<Rightarrow> position list" where
  "fake_positions now \<equiv> ad_positions (ostium_adapter fake_ops id now)"

lemma fake_positions_map:
  assumes "ov_client s = Some c"
  shows "fake_positions now s = map (\<lambda>((p, i), t). trade_position now (t\<lparr>ti_pair_id := p, ti_trade_index := i\<rparr>))
    (filter (\<lambda>((p, i), t). p \<in> set KNOWN_PAIR_IDS) (fk_trades c))"
  using assms by (simp add: ostium_adapter_def get_open_positions_def fake_ops_def fake_get_open_trades_def split_def o_def)

lemma fake_symbols:
  "ov_client s = Some c \<Longrightarrow> map p_symbol (fake_positions now s) =
    map (\<lambda>(p, i). pair_symbol p) (filter (\<lambda>(p, i). p \<in> set KNOWN_PAIR_IDS) (d_keys (fk_trades c)))"
proof -
  have "map p_symbol (map (\<lambda>((p, i), t). trade_position now (t\<lparr>ti_pair_id := p, ti_trade_index := i\<rparr>))
      (filter (\<lambda>((p, i), t). p \<in> set KNOWN_PAIR_IDS) d)) =
    map (\<lambda>(p, i). pair_symbol p) (filter (\<lambda>(p, i). p \<in> set KNOWN_PAIR_IDS) (d_keys d))" for d
    by (induction d) auto
  then show "ov_client s = Some c \<Longrightarrow> ?thesis" by (simp add: fake_positions_map)
qed

lemma fake_set_trade_keeps:
  assumes "fake_inv c" "\<And>t. ti_pair_id (f t) = ti_pair_id t \<and> ti_trade_index (f t) = ti_trade_index t"
  shows "fake_inv (fake_set_trade key f c)" "d_keys (fk_trades (fake_set_trade key f c)) = d_keys (fk_trades c)"
proof -
  show "d_keys (fk_trades (fake_set_trade key f c)) = d_keys (fk_trades c)"
    using d_keys_set_present [of key "fk_trades c"] d_keys_iff [of key "fk_trades c"]
    by (cases "d_get (fk_trades c) key") (simp_all add: fake_set_trade_def)
  show "fake_inv (fake_set_trade key f c)"
  proof (cases "d_get (fk_trades c) key")
    case (Some t)
    obtain q j where key: "key = (q, j)" by (cases key)
    have t: "ti_pair_id t = q \<and> ti_trade_index t = j \<and> (\<exists>n. d_get (fk_next_index c) q = Some n \<and> j < n)"
      using assms(1) Some unfolding fake_inv_def key by blast
    show ?thesis
      unfolding fake_inv_def
    proof (intro conjI allI impI)
      show "dict_wf (fk_trades (fake_set_trade key f c))"
        using assms(1) Some by (simp add: fake_set_trade_def fake_inv_def)
      fix p i u assume u: "d_get (fk_trades (fake_set_trade key f c)) (p, i) = Some u"
      have "ti_pair_id u = p \<and> ti_trade_index u = i \<and> (\<exists>n. d_get (fk_next_index c) p = Some n \<and> i < n)"
      proof (cases "(p, i) = key")
        case True
        then show ?thesis using u Some t assms(2) [of t] by (auto simp: fake_set_trade_def key)
      next
        case False
        then have "d_get (fk_trades c) (p, i) = Some u" using u Some by (simp add: fake_set_trade_def)
        then show ?thesis using assms(1) unfolding fake_inv_def by blast
      qed
      then show "ti_pair_id u = p" "ti_trade_index u = i"
        "\<exists>n. d_get (fk_next_index (fake_set_trade key f c)) p = Some n \<and> i < n"
        by (simp_all add: fake_set_trade_def Some)
    qed
  qed (use assms(1) in \<open>simp add: fake_set_trade_def\<close>)
qed

definition ostium_desk_inv :: "fake_client ostium \<Rightarrow> bool" where
  [inv_defs]: "ostium_desk_inv s \<longleftrightarrow> ostium_inv fake_inv s \<and> (\<forall>now. distinct (map (norm_symbol \<circ> p_symbol) (fake_positions now s)))"

lemma symbols_same_time: "map p_symbol (fake_positions now s) = map p_symbol (fake_positions now' s)"
  by (cases "ov_client s") (simp_all add: fake_symbols, simp add: ostium_adapter_def get_open_positions_def)

lemma desk_inv_at:
  "ostium_desk_inv s \<longleftrightarrow> ostium_inv fake_inv s \<and> distinct (map (norm_symbol \<circ> p_symbol) (fake_positions now s))"
  using symbols_same_time [of now s] unfolding ostium_desk_inv_def by (metis map_map)

lemma update_desk_inv:
  assumes "ostium_desk_inv s" "upd = fake_update_sl \<or> upd = fake_update_tp"
  shows "ostium_desk_inv (fst (ostium_update upd pid l s))"
proof (cases "\<exists>c p i. ov_client s = Some c \<and> parse_position_id pid = Inr (p, i)")
  case True
  then obtain c p i where c: "ov_client s = Some c" "parse_position_id pid = Inr (p, i)" by blast
  let ?c' = "fst (upd p i l c)"
  have inv: "fake_inv c" using assms(1) c(1) by (simp add: inv_defs)
  have cong: "fake_inv (c\<lparr>fk_sl_calls := x\<rparr>)" "fake_inv (c\<lparr>fk_tp_calls := x\<rparr>)" for x
    using inv by (simp_all add: fake_inv_def)
  have keep: "fake_inv ?c'" "d_keys (fk_trades ?c') = d_keys (fk_trades c)"
    using assms(2) fake_set_trade_keeps [OF cong(1)] fake_set_trade_keeps [OF cong(2)]
    by (auto simp: fake_update_sl_def fake_update_tp_def)
  have s': "fst (ostium_update upd pid l s) = s\<lparr>ov_client := Some ?c'\<rparr>"
    using c by (simp add: ostium_update_def split_def Let_def)
  have "map p_symbol (fake_positions now (s\<lparr>ov_client := Some ?c'\<rparr>)) = map p_symbol (fake_positions now s)" for now
    using fake_symbols [of "s\<lparr>ov_client := Some ?c'\<rparr>" ?c'] fake_symbols [OF c(1)] keep(2) by simp
  then have "map (norm_symbol \<circ> p_symbol) (fake_positions now (s\<lparr>ov_client := Some ?c'\<rparr>)) =
      map (norm_symbol \<circ> p_symbol) (fake_positions now s)" for now
    by (metis map_map)
  then show ?thesis using assms(1) keep(1) unfolding s' by (simp add: ostium_desk_inv_def ostium_inv_def)
next
  case False
  then have "fst (ostium_update upd pid l s) = s"
    by (auto simp: ostium_update_def split: option.split sum.split)
  then show ?thesis using assms(1) by simp
qed

lemma norm_upper: "norm_symbol (py_upper x) = norm_symbol x"
  by (simp add: norm_symbol_def flip: py_strip_upper)

lemma open_order_repeated:
  assumes "only_adapter core (ostium_adapter ops id now)" "\<not> new_request (open_args_of req) s"
    and "open_order core req s = (s', r, lg)"
  shows "s' = s"
proof (cases "open_guards core req s")
  case (Inr ad)
  then have "ad = ostium_adapter ops id now"
    using assms(1) open_guards_Inr(3) unfolding only_adapter_def by metis
  then show ?thesis
    using assms(3) Inr repeated_keeps_state [OF assms(2), of ops id now]
    by (auto simp: open_order_def Let_def split: sum.splits prod.splits)
qed (use assms(3) in \<open>simp add: open_order_def\<close>)

lemma ostium_desk_run_inv: "ostium_desk s \<Longrightarrow> ostium_desk_inv s"
proof (induction rule: ostium_desk.induct)
  case (od_init mid f1 f2 health bal fm ls)
  then show ?case
    using fake_inv_init fake_symbols [of "\<lparr>ov_client = Some (fake_init mid f1 f2 health bal fm), ov_idempotency = ls\<rparr>"]
    by (simp add: desk_inv_at [of _ undefined] ostium_inv_def fake_init_def flip: map_map)
next
  case (od_open s core now req s' r lg)
  show ?case
  proof (cases "new_request (open_args_of req) s")
    case True
    show ?thesis
      using fake.venue.open_order_distinct [OF _ _ od_open(2) True norm_upper od_open(3)] od_open.IH
      by (simp add: desk_inv_at [of _ now])
  next
    case False
    then show ?thesis using open_order_repeated [OF od_open(2) _ od_open(3)] od_open.IH by simp
  qed
next
  case (od_close s core now creq s' b lg)
  then show ?case using fake.venue.close_order_distinct [OF _ _ od_close(2,3)] by (simp add: desk_inv_at [of _ now])
next
  case (od_sl s pid l)
  then show ?case using update_desk_inv by (simp add: ostium_update_sl_def fake_ops_def)
next
  case (od_tp s pid l)
  then show ?case using update_desk_inv by (simp add: ostium_update_tp_def fake_ops_def)
qed

section \<open>The client of the chain\<close>

lemma find_least:
  fixes P :: "int \<Rightarrow> bool"
  shows "P j \<Longrightarrow> j \<in> {a..b} \<Longrightarrow> \<forall>i \<in> {a..<j}. \<not> P i \<Longrightarrow> find P [a..b] = Some j"
proof (induction "nat (j - a)" arbitrary: a)
  case 0
  then have "j = a" "a \<le> b" by auto
  then show ?case using 0 upto_rec1 [of a b] by simp
next
  case (Suc n)
  then have "a < j" "a \<le> b" by auto
  then have "\<not> P a" "[a..b] = a # [a + 1..b]" using Suc.prems(3) upto_rec1 [of a b] by auto
  moreover have "find P [a + 1..b] = Some j" using Suc \<open>a < j\<close> by (intro Suc.hyps(1)) auto
  ultimately show ?case by simp
qed

lemma chain_trades_active:
  "chain_trades ch w p i = Some t \<longleftrightarrow>
     (\<exists>r. ch_get_open_trade ch w (ch_trader ch w) p i = Inr r \<and> raw_active r \<and> t = trade_info_of p i r)"
  by (auto simp: chain_trades_def split: sum.split)

lemma find_trade_index_least:
  assumes "chain_trades ch w p j \<noteq> None" "\<forall>i. 0 \<le> i \<and> i < j \<longrightarrow> chain_trades ch w p i = None" "0 \<le> j" "j < FIND_TRADE_MAX_INDEX"
  shows "find_trade_index ch w p = Some j"
proof -
  let ?P = "\<lambda>i. case ch_get_open_trade ch w (ch_trader ch w) p i of Inl e \<Rightarrow> False | Inr r \<Rightarrow> raw_active r"
  have P: "?P i \<longleftrightarrow> chain_trades ch w p i \<noteq> None" for i
    by (simp add: chain_trades_def split: sum.split)
  show ?thesis
    unfolding find_trade_index_def by (rule find_least) (use assms in \<open>auto simp: P\<close>)
qed

lemma await_found: "find_trade_index ch w p = Some j \<Longrightarrow> await_trade_index ch n p w = (w, Some j)"
  by (cases n) simp_all

section \<open>Properties\<close>

text \<open>
  Identifiers: what \<open>_make_position_id\<close> prints is read back by \<open>_parse_position_id\<close>, with or
  without its prefix, different trades have different identifiers, the position shown for a trade
  carries that trade's identifier, and the form under which a venue knows an identifier is stable.
\<close>

theorem position_id_roundtrip:
  "parse_position_id (make_position_id p i) = Inr (p, i) \<and>
   parse_position_id (show_int p @ '':'' @ show_int i) = Inr (p, i) \<and>
   (make_position_id p i = make_position_id q j \<longleftrightarrow> p = q \<and> i = j) \<and>
   parse_position_id (position_id (trade_position now t)) = Inr (ti_pair_id t, ti_trade_index t) \<and>
   canon_id (canon_id pid) = canon_id pid"
proof -
  have "canon_id (canon_id pid) = canon_id pid"
    by (cases "parse_position_id pid") (auto simp: canon_id_def parse_made)
  then show ?thesis using parse_made parse_bare [of p i] made_inj by simp
qed

text \<open>
  C28. One position per symbol on the live venue: over its in-memory client, whatever openings
  (repeated ones included), closings and level updates the trading core makes one after the other,
  no two open positions have the same symbol up to case and blanks, and none share an identifier.
\<close>

theorem ostium_one_position_per_symbol:
  assumes "ostium_desk s"
  shows "distinct (map (\<lambda>p. norm_symbol (p_symbol p)) (ad_positions (ostium_adapter fake_ops id now) s)) \<and>
    distinct (map position_id (ad_positions (ostium_adapter fake_ops id now) s))"
proof -
  have inv: "ostium_desk_inv s" using assms by (rule ostium_desk_run_inv)
  then have "ostium_inv fake_inv s" by (simp add: ostium_desk_inv_def)
  from fake.venue.distinct_ids [OF this] inv show ?thesis by (simp add: ostium_desk_inv_def o_def)
qed

text \<open>
  C29. Idempotent openings, over any client: when an opening with a client order id has succeeded,
  then after any number of further operations, each finished before the next, an opening with
  that id again, whatever else it asks for and whatever other tasks do, answers success with the same
  position and reaches neither the client nor the file.
\<close>

theorem ostium_open_idempotent:
  assumes "ostium_open ops id now a s = (s1, Inr res)" "or_success res"
    and "oa_client_order_id a = Some cid" "cid \<noteq> []"
    and "ostium_run ops s1 s2" "oa_client_order_id b = Some cid"
  shows "ostium_open ops env now' b s2 = (s2, Inr (order_success (or_position_id res) [] 0 0 None now'))"
proof -
  have "d_get (load_idempotency_map s2) cid = Some (or_position_id res) \<and> ov_client s2 \<noteq> None"
    using run_keeps_entry [OF assms(5)] successful_open_recorded [OF assms(1-4)] by blast
  then obtain c where "ov_client s2 = Some c" "d_get (load_idempotency_map s2) cid = Some (or_position_id res)" by auto
  then show ?thesis using ostium_open_repeated [of s2 c b "or_position_id res"] assms(4,6) by (simp add: py_truthy_str_def)
qed

text \<open>
  That is not so for openings that overlap: two openings with the same new client order id, the
  second running while the first waits for the price, both succeed on the in-memory client, with
  different identifiers, and both positions are open.
\<close>

theorem ostium_overlapping_opens_double:
  fixes s :: "fake_client ostium" and a :: open_args and now :: datetime
  assumes "ov_client s = Some c" "fake_inv c" "\<not> fk_open_should_fail c" "0 < fk_mid_price c"
    and "d_get SYMBOL_TO_PAIR_ID (py_upper (oa_symbol a)) = Some pair" "new_request a s"
  defines "other \<equiv> \<lambda>s. fst (ostium_open fake_ops id now a s)"
  shows "\<exists>s' r1 r2. ostium_open fake_ops id now a s = (other s, Inr r1) \<and>
    ostium_open fake_ops other now a s = (s', Inr r2) \<and> or_success r1 \<and> or_success r2 \<and>
    or_position_id r1 \<noteq> or_position_id r2 \<and>
    {or_position_id r1, or_position_id r2} \<subseteq> set (map position_id (fake_positions now s'))"
proof -
  note pair = pair_of_symbol [OF assms(5)]
  obtain bq where bq: "d_get PAIR_ID_TO_BASE_QUOTE pair = Some bq" using pair by auto
  have none: "(if py_truthy_str (oa_client_order_id a)
      then d_get (load_idempotency_map s) (the (oa_client_order_id a)) else None) = None"
    using assms(6) by (auto simp: new_request_def)
  have opn: "ostium_open fake_ops env now a s = ostium_submit fake_ops now a pair (fk_mid_price c) (env s)" for env
    using assms(1,4,5) none bq
    by (simp add: ostium_open_def Let_def pair_price_def fake_ops_def fake_get_price_def)
  have submit: "\<exists>u' r c' n. ostium_submit fake_ops now a pair (fk_mid_price c) u = (u', Inr r) \<and> or_success r \<and>
      ov_client u' = Some c' \<and> \<not> fk_open_should_fail c' \<and> fake_inv c' \<and> fake_trades d pair n = None \<and>
      or_position_id r = make_position_id pair n \<and>
      (\<forall>p i. fake_trades c' p i \<noteq> None \<longleftrightarrow> (p = pair \<and> i = n) \<or> fake_trades d p i \<noteq> None)"
    if d: "ov_client u = Some d" "\<not> fk_open_should_fail d" "fake_inv d" for u d
  proof -
    obtain d' x where o: "co_open_trade fake_ops (trade_args_of a pair (fk_mid_price c)) d = (d', x)"
      by (cases "co_open_trade fake_ops (trade_args_of a pair (fk_mid_price c)) d")
    obtain rc where x: "x = Inr rc" and nf: "\<not> fk_open_should_fail d'"
      using o d(2) by (auto simp: fake_ops_def fake_open_trade_def gen_tx_def Let_def)
    note o' = o [unfolded x]
    obtain t where law: "fake_inv d'" "otr_pair_id rc = pair" "fake_trades d pair (otr_trade_index rc) = None"
      "\<forall>p i. fake_trades d' p i = (if p = pair \<and> i = otr_trade_index rc then Some t else fake_trades d p i)"
      using fake.open_law [OF d(3) o'] by auto
    have "\<exists>u' r. ostium_submit fake_ops now a pair (fk_mid_price c) u = (u', Inr r) \<and> or_success r \<and>
        ov_client u' = Some d' \<and> or_position_id r = make_position_id pair (otr_trade_index rc)"
      using o' d(1) law(2) by (simp add: ostium_submit_def Let_def)
    then show ?thesis using law nf by (metis option.discI)
  qed
  obtain s1 r1 c1 n where one: "ostium_submit fake_ops now a pair (fk_mid_price c) s = (s1, Inr r1)" "or_success r1"
    "ov_client s1 = Some c1" "\<not> fk_open_should_fail c1" "fake_inv c1" "or_position_id r1 = make_position_id pair n"
    "\<forall>p i. fake_trades c1 p i \<noteq> None \<longleftrightarrow> (p = pair \<and> i = n) \<or> fake_trades c p i \<noteq> None"
    using submit [OF assms(1,3,2)] by metis
  obtain s2 r2 c2 k where two: "ostium_submit fake_ops now a pair (fk_mid_price c) s1 = (s2, Inr r2)" "or_success r2"
    "ov_client s2 = Some c2" "fake_inv c2" "fake_trades c1 pair k = None" "or_position_id r2 = make_position_id pair k"
    "\<forall>p i. fake_trades c2 p i \<noteq> None \<longleftrightarrow> (p = pair \<and> i = k) \<or> fake_trades c1 p i \<noteq> None"
    using submit [OF one(3-5)] by metis
  have other: "other s = s1" unfolding other_def using opn [of id] one(1) by simp
  have "n \<noteq> k" using one(7) two(5) by blast
  have listed: "make_position_id pair m \<in> set (map position_id (fake_positions now s2))" if m: "m \<in> {n, k}" for m
  proof -
    obtain t where t: "fake_trades c2 pair m = Some t" using m one(7) two(7) by blast
    have key: "ti_pair_id t = pair \<and> ti_trade_index t = m" by (rule fake.trade_key [OF two(4) t])
    obtain ts where ts: "fake_positions now s2 = map (trade_position now) ts" "fake.listed c2 ts"
      by (rule fake.positions_listed [OF two(4,3)])
    have "t \<in> set ts" using ts(2) t key pair unfolding fake.listed_def by simp
    then show ?thesis unfolding ts(1) using key by force
  qed
  show ?thesis
    using opn [of id] opn [of other] one(1,2,6) two(1,2,6) \<open>n \<noteq> k\<close> listed other by (auto simp: made_inj)
qed

text \<open>
  Closing, over the in-memory client: a close that returns \<open>True\<close> leaves all positions but the
  named one, which is not open afterwards; closing it again returns \<open>True\<close> and does nothing; the
  requested percentage has no influence; and a close that does not return \<open>True\<close> leaves the
  positions as they are.
\<close>

theorem ostium_close_exact:
  assumes "ostium_inv fake_inv s" "ostium_close fake_ops percent pid s = (s', b)"
  shows "ostium_close fake_ops percent' pid s = (s', b) \<and>
    (b = Inr True \<longrightarrow> canon_id pid \<notin> set (map position_id (fake_positions now s')) \<and>
       mset (fake_positions now s') = filter_mset (\<lambda>p. position_id p \<noteq> canon_id pid) (mset (fake_positions now s)) \<and>
       ostium_close fake_ops percent' pid s' = (s', Inr True)) \<and>
    (b \<noteq> Inr True \<longrightarrow> mset (fake_positions now s') = mset (fake_positions now s))"
proof -
  have concl1: "ostium_close fake_ops percent' pid s = (s', b)" using assms(2) by (simp add: ostium_close_def)
  have concl2: "mset (fake_positions now s') =
    (if b = Inr True then filter_mset (\<lambda>p. position_id p \<noteq> canon_id pid) (mset (fake_positions now s))
     else mset (fake_positions now s))"
    using fake.ostium_close_effect [OF assms] by blast
  then have concl3: "canon_id pid \<notin> set (map position_id (fake_positions now s'))" if "b = Inr True"
    using that by (metis (no_types, lifting) fake.venue.closed_gone [OF assms(1)] concl1 ostium_adapter_simps(2)
        ostium_close_def)
  have concl4: "ostium_close fake_ops percent' pid s' = (s', Inr True)" if b: "b = Inr True"
  proof -
    obtain c where c: "ov_client s = Some c" using assms(2) b by (cases "ov_client s") (auto simp: ostium_close_def)
    then obtain p i where pi: "parse_position_id pid = Inr (p, i)"
      using assms(2) b by (cases "parse_position_id pid") (auto simp: ostium_close_def)
    have ci: "fake_inv c" using assms(1) c by (simp add: ostium_inv_def)
    have "\<exists>c'. ov_client s' = Some c' \<and> fake_trades c' p i = None"
    proof (cases "fake_trades c p i")
      case None
      then have "s' = s"
        using assms(2) c pi fake.info_law [OF ci, of p i] by (simp add: ostium_close_def)
      with None c show ?thesis by blast
    next
      case (Some t)
      then obtain px c' rc where "co_close_trade fake_ops p i px c = (c', Inr rc)" "s' = s\<lparr>ov_client := Some c'\<rparr>"
        using assms(2) b c pi fake.info_law [OF ci, of p i]
        by (auto simp: ostium_close_def split: option.splits sum.splits prod.splits)
      then show ?thesis using fake.close_law [OF ci] by auto
    qed
    then obtain c' where c': "ov_client s' = Some c'" "fake_trades c' p i = None" by blast
    have "ostium_inv fake_inv s'" using fake.ostium_close_effect [OF assms] by blast
    then have "fake_inv c'" using c'(1) by (simp add: ostium_inv_def)
    from fake.info_law [OF this, of p i] show ?thesis using c' pi by (simp add: ostium_close_def)
  qed
  show ?thesis using concl1 concl2 concl3 concl4 by auto
qed

text \<open>
  C30. The client of the chain names the wrong trade: when an opening succeeds while an older trade of
  the pair with the lowest index is open, the identifier that the adapter returns is that of the
  older trade, which was listed among the open positions before.
\<close>

theorem chain_open_names_oldest:
  assumes ok: "chain_ok ch w" "ov_client s = Some w" and new: "new_request a s"
    and pair: "d_get SYMBOL_TO_PAIR_ID (py_upper (oa_symbol a)) = Some pair"
    and old: "chain_trades ch w pair j \<noteq> None" "0 \<le> j" "j < FIND_TRADE_MAX_INDEX"
    and perform: "\<And>args px w1 receipt. ch_perform_trade ch args px w = (w1, Inr receipt) \<Longrightarrow>
      (\<exists>tx found. parse_receipt (ch_order_opened_topic ch) receipt = Inr (tx, found) \<and> found \<in> {None, Some pair}) \<and>
      chain_trades ch w1 pair j \<noteq> None \<and> (\<forall>i. 0 \<le> i \<and> i < j \<longrightarrow> chain_trades ch w1 pair i = None)"
    and opened: "ostium_open (chain_client ch) id now a s = (s', Inr res)" "or_success res"
  shows "or_position_id res = make_position_id pair j \<and>
    or_position_id res \<in> set (map position_id (ad_positions (ostium_adapter (chain_client ch) id now) s))"
proof -
  note known = pair_of_symbol [OF pair]
  have id: "or_position_id res = make_position_id pair j"
    using opened(1)
  proof (cases rule: ostium_open_cases)
    case (submitted q mid)
    have q: "q = pair" using submitted(2) pair by simp
    have sub: "ostium_submit (chain_client ch) now a pair mid s = (s', Inr res)" using submitted(4) by (simp add: q)
    from sub ok(2) show ?thesis
    proof (cases rule: ostium_submit_cases)
      case (refused c' e)
      then show ?thesis using opened(2) by simp
    next
      case (opened c' rc)
      have o: "chain_open_trade ch (trade_args_of a pair mid) w = (c', Inr rc)"
        using opened(1) by (simp add: chain_client_def)
      obtain w1 receipt where p: "ch_perform_trade ch (sdk_params_of (trade_args_of a pair mid))
          (ta_at_price (trade_args_of a pair mid)) w = (w1, Inr receipt)"
        using o ok(1) by (auto simp: chain_open_trade_def chain_ok_def split: prod.splits sum.splits)
      obtain tx found where f: "parse_receipt (ch_order_opened_topic ch) receipt = Inr (tx, found)" "found \<in> {None, Some pair}"
        and act: "chain_trades ch w1 pair j \<noteq> None" "\<forall>i. 0 \<le> i \<and> i < j \<longrightarrow> chain_trades ch w1 pair i = None"
        using perform [OF p] by blast
      note idx = await_found [OF find_trade_index_least [OF act old(2,3)], of 6]
      have "otr_pair_id rc = pair \<and> otr_trade_index rc = j"
        using o ok(1) p f idx by (auto simp: chain_open_trade_def chain_ok_def Let_def)
      then show ?thesis using opened(4) by simp
    qed
  qed (use opened(2) new in simp_all)
  obtain ts where ts: "ad_positions (ostium_adapter (chain_client ch) id now) s = map (trade_position now) ts" "chain.listed ch w ts"
    by (rule chain.positions_listed [OF ok])
  obtain t where t: "chain_trades ch w pair j = Some t" using old(1) by auto
  have key: "ti_pair_id t = pair \<and> ti_trade_index t = j" by (rule chain_trades_key [OF t])
  have "t \<in> set ts" using ts(2) t key known unfolding chain.listed_def by simp
  then show ?thesis unfolding ts(1) id using key by force
qed

section \<open>A concrete desk\<close>

definition demo_now :: datetime where
  "demo_now = utc_dt 1000000000"

definition demo_venue :: "fake_client ostium" where
  "demo_venue = \<lparr>ov_client = Some (fake_init 2 False False True 100 False), ov_idempotency = []\<rparr>"

definition demo_args :: open_args where
  "demo_args = \<lparr>oa_symbol = ''eurusd'', oa_is_long = True, oa_collateral = 10, oa_leverage = 5,
     oa_sl_price = None, oa_tp_price = None, oa_client_order_id = Some ''c1''\<rparr>"

definition demo_req :: open_req where
  "demo_req = \<lparr>oq_venue = ''paper'', oq_symbol = ''eurusd'', oq_side = ''long'', oq_collateral = 10,
     oq_leverage = 5, oq_sl_price = None, oq_tp_price = None, oq_client_order_id = Some ''c1''\<rparr>"

definition demo_core :: "fake_client ostium trading_core" where
  "demo_core = \<lparr>tc_factory = Some (\<lambda>v. Some (ostium_adapter fake_ops id demo_now)), tc_reader = None,
     tc_known_venues = [''ostium''], tc_mode = ''paper'', tc_env = (\<lambda>_. None)\<rparr>"

lemma demo_core_only: "only_adapter demo_core (ostium_adapter fake_ops id demo_now)"
  by (simp add: only_adapter_def get_adapter_Inr demo_core_def)

definition demo_opened :: "fake_client ostium" where
  "demo_opened = fst (open_order demo_core demo_req demo_venue)"

lemma demo_opened_position: "map p_symbol (fake_positions demo_now demo_opened) = [''EURUSD'']"
  by code_simp

lemma demo_desk: "ostium_desk demo_opened"
proof -
  obtain r lg where o: "open_order demo_core demo_req demo_venue = (demo_opened, r, lg)"
    unfolding demo_opened_def by (metis prod.exhaust_sel)
  have "ostium_desk demo_venue" unfolding demo_venue_def by (rule od_init)
  then show ?thesis by (rule od_open [OF _ demo_core_only o])
qed

theorem ostium_one_position_per_symbol_witness:
  "ostium_desk demo_opened \<and> map p_symbol (fake_positions demo_now demo_opened) = [''EURUSD''] \<and>
   distinct (map position_id (ad_positions (ostium_adapter fake_ops id demo_now) demo_opened))"
  using ostium_one_position_per_symbol [OF demo_desk] demo_opened_position demo_desk by blast

lemma demo_open: "\<exists>s1 res. ostium_open fake_ops id demo_now demo_args demo_venue = (s1, Inr res) \<and> or_success res"
proof -
  have "(case snd (ostium_open fake_ops id demo_now demo_args demo_venue) of Inl e \<Rightarrow> False | Inr res \<Rightarrow> or_success res)"
    by code_simp
  then show ?thesis
    by (cases "ostium_open fake_ops id demo_now demo_args demo_venue") (simp split: sum.splits)
qed

theorem ostium_open_idempotent_witness:
  "\<exists>s1 res. ostium_open fake_ops id demo_now demo_args demo_venue = (s1, Inr res) \<and>
     ostium_open fake_ops id demo_now demo_args (fst (ostium_close fake_ops 100 (or_position_id res) s1)) =
       (fst (ostium_close fake_ops 100 (or_position_id res) s1), Inr (order_success (or_position_id res) [] 0 0 None demo_now))"
proof -
  obtain s1 res where o: "ostium_open fake_ops id demo_now demo_args demo_venue = (s1, Inr res)" "or_success res"
    using demo_open by blast
  have cid: "oa_client_order_id demo_args = Some ''c1''" "''c1'' \<noteq> []" by (simp_all add: demo_args_def)
  from ostium_open_idempotent [OF o cid or_close [OF or_refl] cid(1)] o(1) show ?thesis by blast
qed

theorem ostium_overlapping_opens_double_witness:
  "\<exists>s' (r1 :: order_result) r2. ostium_open fake_ops (\<lambda>s. fst (ostium_open fake_ops id demo_now demo_args s)) demo_now demo_args demo_venue =
     (s', Inr r2) \<and> {or_position_id r1, or_position_id r2} \<subseteq> set (map position_id (fake_positions demo_now s')) \<and>
     or_position_id r1 \<noteq> or_position_id r2"
proof -
  let ?c = "fake_init 2 False False True 100 False"
  have c: "ov_client demo_venue = Some ?c" "\<not> fk_open_should_fail ?c" "0 < fk_mid_price ?c"
    by (simp_all add: demo_venue_def fake_init_def)
  have pair: "d_get SYMBOL_TO_PAIR_ID (py_upper (oa_symbol demo_args)) = Some 2" by code_simp
  have new: "new_request demo_args demo_venue"
    by (simp add: new_request_def demo_venue_def load_idempotency_map_def dict_of_def map_filter_def)
  show ?thesis
    using ostium_overlapping_opens_double [OF c(1) fake_inv_init c(2,3) pair new, of demo_now]
    by (elim exE conjE) (intro exI conjI, assumption+)
qed

theorem ostium_close_exact_witness:
  "ostium_close fake_ops 50 ''ostium:2:0'' demo_opened = ostium_close fake_ops 100 ''ostium:2:0'' demo_opened"
proof -
  have inv: "ostium_inv fake_inv demo_opened"
    using ostium_desk_run_inv [OF demo_desk] by (simp add: ostium_desk_inv_def)
  obtain s' b where c: "ostium_close fake_ops 100 ''ostium:2:0'' demo_opened = (s', b)"
    by (cases "ostium_close fake_ops 100 ''ostium:2:0'' demo_opened")
  show ?thesis unfolding c by (rule ostium_close_exact [OF inv c, THEN conjunct1])
qed

text \<open>A chain with one trade of the pair 2, where an opening adds the next index.\<close>

type_synonym demo_world = "((int \<times> int) \<times> raw_trade) list"

definition demo_raw :: raw_trade where
  "demo_raw = \<lparr>rt_collateral = 1000000, rt_open_price = 10 ^ 18, rt_tp = 0, rt_sl = 0, rt_leverage = 5, rt_is_long = True\<rparr>"

definition demo_none :: raw_trade where
  "demo_none = \<lparr>rt_collateral = 0, rt_open_price = 0, rt_tp = 0, rt_sl = 0, rt_leverage = 0, rt_is_long = False\<rparr>"

definition demo_chain :: "demo_world chain_ops" where
  "demo_chain = \<lparr>ch_ensure_sdk = (\<lambda>w. Inr ()), ch_order_opened_topic = ''b1'', ch_trader = (\<lambda>w. ''0xaa''),
     ch_get_open_trade = (\<lambda>w addr p i. Inr (case map_of w (p, i) of None \<Rightarrow> demo_none | Some r \<Rightarrow> r)),
     ch_perform_trade = (\<lambda>a px w. (((sp_asset_type a, 1), demo_raw) # w, Inr \<lparr>sr_tx_hash = ''cc'', sr_logs = []\<rparr>)),
     ch_close_trade = (\<lambda>p i px w. (w, Inr ''dd'')), ch_sleep = id,
     ch_price = (\<lambda>b q w. Inr (2, 2, 2)), ch_balance = (\<lambda>w. Inr 0), ch_metrics = None\<rparr>"

definition demo_world :: demo_world where
  "demo_world = [((2, 0), demo_raw)]"

theorem chain_open_names_oldest_witness:
  "\<exists>s' res. ostium_open (chain_client demo_chain) id demo_now demo_args \<lparr>ov_client = Some demo_world, ov_idempotency = []\<rparr> =
     (s', Inr res) \<and> or_success res \<and> or_position_id res = ''ostium:2:0''"
proof -
  let ?s = "\<lparr>ov_client = Some demo_world, ov_idempotency = []\<rparr>"
  have get: "ch_get_open_trade demo_chain w addr p i = Inr (case map_of w (p, i) of None \<Rightarrow> demo_none | Some r \<Rightarrow> r)"
    for w addr p i by (simp add: demo_chain_def)
  have act: "raw_active demo_raw" "\<not> raw_active demo_none"
    by (simp_all add: raw_active_def demo_raw_def demo_none_def)
  have ok: "chain_ok demo_chain demo_world"
    unfolding chain_ok_def get
    by (intro conjI allI exI refl) (auto simp: demo_chain_def demo_world_def act FIND_TRADE_MAX_INDEX_def split: if_splits)
  have new: "new_request demo_args ?s"
    by (simp add: new_request_def load_idempotency_map_def dict_of_def map_filter_def)
  have pair: "d_get SYMBOL_TO_PAIR_ID (py_upper (oa_symbol demo_args)) = Some 2" by code_simp
  have old: "chain_trades demo_chain demo_world 2 0 \<noteq> None"
    by (simp add: chain_trades_def get act demo_world_def)
  have perform: "(\<exists>tx found. parse_receipt (ch_order_opened_topic demo_chain) receipt = Inr (tx, found) \<and> found \<in> {None, Some 2}) \<and>
      chain_trades demo_chain w1 2 0 \<noteq> None \<and> (\<forall>i. 0 \<le> i \<and> i < 0 \<longrightarrow> chain_trades demo_chain w1 2 i = None)"
    if "ch_perform_trade demo_chain args px demo_world = (w1, Inr receipt)" for args px w1 receipt
    using that
    by (auto simp: demo_chain_def demo_world_def parse_receipt_def chain_trades_def act)
  have run: "case ostium_open (chain_client demo_chain) id demo_now demo_args ?s of
      (s', Inr res) \<Rightarrow> or_success res | (s', Inl e) \<Rightarrow> False"
    by code_simp
  then obtain s' res where o: "ostium_open (chain_client demo_chain) id demo_now demo_args ?s = (s', Inr res)" "or_success res"
    by (auto split: prod.splits sum.splits)
  have "or_position_id res = make_position_id 2 0"
    using chain_open_names_oldest [OF ok _ new pair old _ _ perform o] by (simp add: FIND_TRADE_MAX_INDEX_def)
  moreover have "make_position_id 2 0 = ''ostium:2:0''" by code_simp
  ultimately show ?thesis using o by auto
qed

end
