(* ===== verification/MarketEngine.thy ===== *)
theory MarketEngine
  imports MarketHours
begin

text \<open>
  The market hours engine of the realtime data layer, \<open>apps/realtime_datalayer/market_hours/engine.py\<close>:
  calendars in New York time per profile, and the next opening of a closed market. The zone
  \<open>America/New_York\<close> is the parameter \<open>ny\<close>. A profile function takes the instant in UTC and in New
  York, as the source's table does.
\<close>

record market_state_result =
  ms_state :: string
  ms_reason :: string
  ms_next_open_utc :: "int option"
  ms_next_open_local :: "string option"

definition mins_since_midnight :: "datetime \<Rightarrow> int" where
  "mins_since_midnight dt = dt_hour dt * 60 + dt_minute dt"

definition two_digits :: "int \<Rightarrow> string" where
  "two_digits n = (if n < 10 then CHR ''0'' # show_int n else show_int n)"

definition format_next_open :: "datetime \<Rightarrow> string" where
  "format_next_open dt = two_digits (dt_hour dt) @ '':'' @ two_digits (dt_minute dt)"

section \<open>The calendars\<close>

definition XAU_BREAK_START :: int where "XAU_BREAK_START = 17 * 60 + 0"
definition XAU_BREAK_END :: int where "XAU_BREAK_END = 18 * 60 + 0"

definition xau_break_state :: "int \<Rightarrow> int \<Rightarrow> bool \<times> string" where
  "xau_break_state mins weekday =
     (if weekday = 5 then (False, ''weekend'')
      else if weekday = 6 then (mins \<ge> XAU_BREAK_END, if mins \<ge> XAU_BREAK_END then ''open'' else ''weekend'')
      else if weekday = 4 \<and> mins \<ge> XAU_BREAK_START then (False, ''weekend'')
      else if mins < XAU_BREAK_START then (True, ''open'')
      else if mins < XAU_BREAK_END then (False, ''daily_break'')
      else (True, ''open''))"

definition INDICES_BREAK_START :: int where "INDICES_BREAK_START = 17 * 60 + 0"
definition INDICES_BREAK_END :: int where "INDICES_BREAK_END = 18 * 60 + 0"

definition indices_break_state :: "int \<Rightarrow> int \<Rightarrow> bool \<times> string" where
  "indices_break_state mins weekday =
     (if weekday = 5 then (False, ''weekend'')
      else if weekday = 6 then (mins \<ge> INDICES_BREAK_END, if mins \<ge> INDICES_BREAK_END then ''open'' else ''weekend'')
      else if weekday = 4 \<and> mins \<ge> INDICES_BREAK_START then (False, ''weekend'')
      else if mins < INDICES_BREAK_START then (True, ''open'')
      else if mins < INDICES_BREAK_END then (False, ''daily_break'')
      else (True, ''open''))"

definition NVDA_OPEN_START :: int where "NVDA_OPEN_START = 9 * 60 + 31"
definition NVDA_OPEN_END :: int where "NVDA_OPEN_END = 15 * 60 + 59"

definition nvda_rth_state :: "int \<Rightarrow> int \<Rightarrow> bool \<times> string" where
  "nvda_rth_state mins weekday =
     (if weekday \<ge> 5 then (False, ''weekend'')
      else if NVDA_OPEN_START \<le> mins \<and> mins \<le> NVDA_OPEN_END then (True, ''open'')
      else (False, ''rth_closed''))"

definition US_EQ_OPEN_START :: int where "US_EQ_OPEN_START = 9 * 60 + 30"
definition US_EQ_OPEN_END :: int where "US_EQ_OPEN_END = 16 * 60 + 0"

definition us_equities_ny_state :: "int \<Rightarrow> int \<Rightarrow> bool \<times> string" where
  "us_equities_ny_state mins weekday =
     (if weekday \<ge> 5 then (False, ''weekend'')
      else if US_EQ_OPEN_START \<le> mins \<and> mins < US_EQ_OPEN_END then (True, ''open'')
      else (False, ''rth_closed''))"

definition fx_24_5_state :: "datetime \<Rightarrow> bool \<times> string" where
  "fx_24_5_state dt_utc =
     (let wd = dt_weekday dt_utc; hour = dt_hour dt_utc; minute = dt_minute dt_utc;
          mins = hour * 60 + minute
      in if wd = 5 then (False, ''weekend'')
         else if wd = 6 then (mins \<ge> 22 * 60, if mins \<ge> 22 * 60 then ''open'' else ''closed'')
         else if wd = 4 then (mins < 22 * 60, if mins < 22 * 60 then ''open'' else ''closed'')
         else (True, ''open''))"

definition market_profiles :: "(string, datetime \<Rightarrow> datetime \<Rightarrow> bool \<times> string) dict" where
  "market_profiles = [
     (''ostium_xau_break'', \<lambda>dt_utc dt_ny. xau_break_state (mins_since_midnight dt_ny) (dt_weekday dt_ny)),
     (''ostium_indices_break'', \<lambda>dt_utc dt_ny. indices_break_state (mins_since_midnight dt_ny) (dt_weekday dt_ny)),
     (''ostium_rth_equities'', \<lambda>dt_utc dt_ny. nvda_rth_state (mins_since_midnight dt_ny) (dt_weekday dt_ny)),
     (''us_equities_ny'', \<lambda>dt_utc dt_ny. us_equities_ny_state (mins_since_midnight dt_ny) (dt_weekday dt_ny)),
     (''fx_24_5'', \<lambda>dt_utc dt_ny. fx_24_5_state dt_utc)]"

definition DEFAULT_PROFILE :: "(string, string) dict" where
  "DEFAULT_PROFILE = [
     (''XAUUSD'', ''ostium_xau_break''), (''XAU'', ''ostium_xau_break''),
     (''DAXEUR'', ''ostium_indices_break''), (''SPXUSD'', ''ostium_indices_break''),
     (''NDXUSD'', ''ostium_indices_break''),
     (''NVDAUSD'', ''ostium_rth_equities''), (''NVDA'', ''ostium_rth_equities''),
     (''GOOGUSD'', ''us_equities_ny''), (''MSFT'', ''us_equities_ny''),
     (''EURUSD'', ''fx_24_5''), (''GBPUSD'', ''fx_24_5''), (''USDJPY'', ''fx_24_5''), (''AUDUSD'', ''fx_24_5'')]"

section \<open>The next opening\<close>

text \<open>
  \<open>dt.replace(year, month, day, hour, minute, second=0, microsecond=0)\<close> with the date \<open>days\<close> after
  that of \<open>dt\<close>; \<open>replace\<close> keeps the zone and the \<open>fold\<close>.
\<close>

definition at_time :: "datetime \<Rightarrow> int \<Rightarrow> int \<Rightarrow> int \<Rightarrow> datetime" where
  "at_time dt days h m = dt\<lparr>dt_wall := (dt_day dt + days) * day_us + (h * 60 + m) * minute_us\<rparr>"

definition next_sunday_18 :: "datetime \<Rightarrow> datetime" where
  "next_sunday_18 dt_ny =
     (let wd = dt_weekday dt_ny; candidate = at_time dt_ny 0 18 0
      in if wd = 6 \<and> dt_less dt_ny candidate then candidate
         else let days_to_sunday = (6 - wd) mod 7;
                  days_to_sunday = (if days_to_sunday = 0 then 7 else days_to_sunday)
              in at_time dt_ny days_to_sunday 18 0)"

text \<open>The loop that skips the weekend keeps the time of the day.\<close>

function skip_weekend :: "datetime \<Rightarrow> datetime" where
  "skip_weekend next_dt =
     (if dt_weekday next_dt \<ge> 5 then skip_weekend (next_dt\<lparr>dt_wall := dt_wall next_dt + day_us\<rparr>)
      else next_dt)"
  by pat_completeness auto

lemma weekday_next: "dt_weekday (d\<lparr>dt_wall := dt_wall d + day_us\<rparr>) = (dt_weekday d + 1) mod 7"
proof -
  have "(dt_wall d + day_us) div day_us = dt_wall d div day_us + 1" by simp
  then show ?thesis by (simp add: dt_weekday_def dt_day_def mod_simps ac_simps)
qed

lemma weekday_range: "0 \<le> dt_weekday d" "dt_weekday d < 7"
  by (simp_all add: dt_weekday_def)

termination skip_weekend
proof (relation "measure (\<lambda>d. nat ((7 - dt_weekday d) mod 7))")
  fix d assume "dt_weekday d \<ge> 5"
  then have "dt_weekday d = 5 \<or> dt_weekday d = 6" using weekday_range [of d] by auto
  then show "(d\<lparr>dt_wall := dt_wall d + day_us\<rparr>, d) \<in> measure (\<lambda>d. nat ((7 - dt_weekday d) mod 7))"
    by (elim disjE) (simp_all add: weekday_next)
qed simp

declare skip_weekend.simps [simp del]

definition get_next_open_ny :: "bool \<Rightarrow> string \<Rightarrow> datetime \<Rightarrow> string \<Rightarrow> datetime option" where
  "get_next_open_ny open_now reason dt_ny profile =
     (if open_now then None else
      let mins = mins_since_midnight dt_ny; wd = dt_weekday dt_ny in
      if reason = ''daily_break'' \<and> profile = ''ostium_xau_break'' \<and> XAU_BREAK_START \<le> mins \<and> mins < XAU_BREAK_END
      then Some (at_time dt_ny 0 18 0)
      else if reason = ''daily_break'' \<and> profile = ''ostium_indices_break''
        \<and> INDICES_BREAK_START \<le> mins \<and> mins < INDICES_BREAK_END
      then Some (at_time dt_ny 0 18 0)
      else if reason = ''rth_closed'' \<and> profile = ''us_equities_ny''
      then (if mins < US_EQ_OPEN_START then Some (at_time dt_ny 0 9 30)
            else Some (skip_weekend (at_time dt_ny 1 9 30)))
      else if reason = ''rth_closed'' \<and> mins < NVDA_OPEN_START then Some (at_time dt_ny 0 9 31)
      else if reason = ''rth_closed'' \<and> mins > NVDA_OPEN_END then Some (skip_weekend (at_time dt_ny 1 9 31))
      else if reason = ''weekend''
      then (if profile = ''ostium_xau_break'' \<or> profile = ''ostium_indices_break'' then Some (next_sunday_18 dt_ny)
            else if profile = ''us_equities_ny'' \<or> profile = ''ostium_rth_equities''
            then (let open_min = (if profile = ''us_equities_ny'' then 30 else 31);
                      days_to_monday = (7 - wd) mod 7;
                      days_to_monday = (if days_to_monday = 0 then 7 else days_to_monday)
                  in Some (at_time dt_ny days_to_monday 9 open_min))
            else (let days_to_sunday = (6 - wd) mod 7;
                      days_to_sunday = (if days_to_sunday = 0 then 7 else days_to_sunday)
                  in Some (at_time dt_ny days_to_sunday 17 0)))
      else if reason = ''closed'' then Some (at_time dt_ny 0 17 0)
      else None)"

text \<open>An unknown profile, also one that a configuration names, is an unknown state.\<close>

definition get_market_state_ny :: "tzinfo \<Rightarrow> string \<Rightarrow> int + datetime \<Rightarrow> string option \<Rightarrow> market_state_result" where
  "get_market_state_ny ny symbol ts_utc profile_override =
     (let s = py_strip (py_upper symbol);
          s = (if s = ''XAU'' then ''XAUUSD'' else s);
          default_profile = (case d_get DEFAULT_PROFILE s of Some q \<Rightarrow> q | None \<Rightarrow> ''unknown'');
          profile = (case profile_override of
              Some p \<Rightarrow> if p \<noteq> [] then p else default_profile | None \<Rightarrow> default_profile);
          unknown = \<lparr>ms_state = ''unknown'', ms_reason = ''unknown'', ms_next_open_utc = None, ms_next_open_local = None\<rparr>
      in if profile = ''unknown'' then unknown
         else let dt_utc = (case ts_utc of
                      Inr d \<Rightarrow> (if dt_tz d \<noteq> None then d else d\<lparr>dt_tz := Some utc\<rparr>)
                    | Inl n \<Rightarrow> fromtimestamp utc (n * second_us));
                  dt_ny = astimezone ny dt_utc
              in case d_get market_profiles profile of
                   None \<Rightarrow> unknown
                 | Some state_fn \<Rightarrow>
                     (let (open_now, reason) = state_fn dt_utc dt_ny;
                          next_open = (if open_now then None else get_next_open_ny open_now reason dt_ny profile)
                      in \<lparr>ms_state = (if open_now then ''open'' else ''closed''), ms_reason = reason,
                          ms_next_open_utc = map_option timestamp_int next_open,
                          ms_next_open_local = map_option (\<lambda>d. format_next_open d @ '' NY'') next_open\<rparr>))"

end
