(* ===== verification/MarketEngine_Props.thy ===== *)
theory MarketEngine_Props
  imports MarketEngine MarketHours_Props
begin

text \<open>
  The next opening the engine reports: for the calendars in New York time it is the first open
  instant; for foreign exchange, whose calendar is in UTC, it is the fixed 17:00 of some day and
  may lie in the past.
\<close>

section \<open>Instants of a week\<close>

lemma mod_div_minute: "((a::int) mod 3600000000) div minute_us = a div minute_us mod 60"
proof -
  have "a mod (minute_us * 60) = minute_us * (a div minute_us mod 60) + a mod minute_us"
    by (rule zmod_zmult2_eq) simp
  then show ?thesis by (simp add: int_div_pos_eq)
qed

lemma minute_of_day: "0 \<le> mins_since_midnight d" "mins_since_midnight d < 1440"
    "mins_since_midnight d = (dt_wall d mod day_us) div minute_us"
proof -
  let ?r = "dt_wall d mod day_us"
  have m: "dt_wall d mod 3600000000 = ?r mod 3600000000" by (rule mod_mod_cancel [symmetric]) simp
  have hour: "dt_hour d = ?r div minute_us div 60"
    by (simp add: dt_hour_def zdiv_zmult2_eq [symmetric])
  have minute: "dt_minute d = ?r div minute_us mod 60"
    unfolding dt_minute_def m by (rule mod_div_minute)
  show *: "mins_since_midnight d = ?r div minute_us"
    by (simp only: mins_since_midnight_def hour minute div_mult_mod_eq)
  have "0 \<le> ?r" by simp
  then show "0 \<le> mins_since_midnight d" unfolding * by (simp add: pos_imp_zdiv_nonneg_iff)
  have "?r < 1440 * minute_us" by simp
  then show "mins_since_midnight d < 1440" unfolding * by (simp only: div_less_iff_less_mult zero_less_numeral)
qed

lemma at_time_fields:
  assumes "0 \<le> h * 60 + m" "h * 60 + m < 1440"
  shows "dt_day (at_time d k h m) = dt_day d + k" "dt_weekday (at_time d k h m) = (dt_weekday d + k) mod 7"
    "mins_since_midnight (at_time d k h m) = h * 60 + m" "dt_tz (at_time d k h m) = dt_tz d"
proof -
  define x where "x = h * 60 + m"
  have w: "dt_wall (at_time d k h m) = (dt_day d + k) * day_us + x * minute_us"
    by (simp add: at_time_def x_def)
  have "0 \<le> x" "x < 1440" using assms by (simp_all only: x_def)
  then have x: "0 \<le> x * minute_us" "x * minute_us < 1440 * minute_us" by simp_all
  have q: "((dt_day d + k) * day_us + x * minute_us) div day_us = dt_day d + k"
    by (rule int_div_pos_eq [where r = "x * minute_us"]) (use x in linarith)+
  have r: "((dt_day d + k) * day_us + x * minute_us) mod day_us = x * minute_us"
    by (rule int_mod_pos_eq [where q = "dt_day d + k"]) (use x in linarith)+
  show "dt_day (at_time d k h m) = dt_day d + k" by (simp only: dt_day_def [of "at_time d k h m"] w q)
  then show "dt_weekday (at_time d k h m) = (dt_weekday d + k) mod 7"
    by (simp add: dt_weekday_def mod_simps ac_simps)
  show "mins_since_midnight (at_time d k h m) = h * 60 + m"
    unfolding minute_of_day(3) w r by (simp add: x_def)
  show "dt_tz (at_time d k h m) = dt_tz d" by (simp add: at_time_def)
qed

text \<open>The order of wall clock readings is that of day and minute.\<close>

lemma wall_order:
  assumes "dt_wall a \<le> dt_wall b"
  shows "dt_day a \<le> dt_day b" "dt_day a = dt_day b \<Longrightarrow> mins_since_midnight a \<le> mins_since_midnight b"
proof -
  show "dt_day a \<le> dt_day b" unfolding dt_day_def by (rule zdiv_mono1 [OF assms]) simp
  assume "dt_day a = dt_day b"
  then have "dt_wall a mod day_us \<le> dt_wall b mod day_us"
    using assms by (simp add: dt_day_def minus_div_mult_eq_mod [symmetric])
  then show "mins_since_midnight a \<le> mins_since_midnight b"
    unfolding minute_of_day(3) by (rule zdiv_mono1) simp
qed

lemma before_at_time:
  assumes "dt_wall d < dt_wall (at_time a k h m)" "0 \<le> h * 60 + m" "h * 60 + m < 1440"
  shows "dt_day d \<le> dt_day a + k" "dt_day d = dt_day a + k \<Longrightarrow> mins_since_midnight d < h * 60 + m"
proof -
  define x where "x = h * 60 + m"
  have w: "dt_wall d < (dt_day a + k) * day_us + x * minute_us"
    using assms(1) by (simp add: at_time_def x_def)
  have d: "dt_wall d = dt_day d * day_us + dt_wall d mod day_us"
    by (simp add: dt_day_def)
  have r: "0 \<le> dt_wall d mod day_us" by simp
  have x: "x * minute_us < day_us" using assms(3) [folded x_def] by linarith
  have lt: "dt_day d * day_us < (dt_day a + k + 1) * day_us" using w d r x by (simp add: algebra_simps)
  then have "dt_day d < dt_day a + k + 1" by (simp add: mult_less_cancel_right)
  then show "dt_day d \<le> dt_day a + k" by simp
  assume e: "dt_day d = dt_day a + k"
  then have "dt_wall d mod day_us < x * minute_us" using w d by simp
  then have "dt_wall d mod day_us div minute_us < x" by (simp only: div_less_iff_less_mult zero_less_numeral)
  then show "mins_since_midnight d < h * 60 + m" unfolding minute_of_day(3) x_def .
qed

section \<open>First openings\<close>

text \<open>
  \<open>n\<close> is the first instant from \<open>d\<close> on at which a weekly calendar \<open>f\<close>, given the minute of the
  day and the weekday, is open.
\<close>

definition opens_first :: "(int \<Rightarrow> int \<Rightarrow> bool) \<Rightarrow> datetime \<Rightarrow> datetime \<Rightarrow> bool" where
  "opens_first f d n \<longleftrightarrow> dt_tz n = dt_tz d \<and> dt_wall d < dt_wall n \<and> f (mins_since_midnight n) (dt_weekday n) \<and>
     (\<forall>e. dt_wall d \<le> dt_wall e \<and> dt_wall e < dt_wall n \<longrightarrow> \<not> f (mins_since_midnight e) (dt_weekday e))"

lemma opens_firstI:
  assumes r: "0 \<le> h * 60 + m" "h * 60 + m < 1440"
    and later: "0 < k \<or> k = 0 \<and> mins_since_midnight d < h * 60 + m"
    and opens: "f (h * 60 + m) ((dt_weekday d + k) mod 7)"
    and closed: "list_all (\<lambda>j. \<forall>x. (j = 0 \<longrightarrow> mins_since_midnight d \<le> x) \<longrightarrow> (j = k \<longrightarrow> x < h * 60 + m) \<longrightarrow>
      \<not> f x ((dt_weekday d + j) mod 7)) [0..k]"
  shows "opens_first f d (at_time d k h m)"
proof -
  note n = at_time_fields [OF r, of d k]
  have "dt_wall d < dt_wall (at_time d k h m)"
  proof (rule ccontr)
    assume "\<not> ?thesis"
    then have "dt_wall (at_time d k h m) \<le> dt_wall d" by simp
    from wall_order [OF this] later show False unfolding n by auto
  qed
  moreover have "\<not> f (mins_since_midnight e) (dt_weekday e)"
    if e: "dt_wall d \<le> dt_wall e" "dt_wall e < dt_wall (at_time d k h m)" for e
  proof -
    have wd: "dt_weekday e = (dt_weekday d + (dt_day e - dt_day d)) mod 7"
      by (simp add: dt_weekday_def mod_simps add.commute)
    show ?thesis unfolding wd
      using wall_order [OF e(1)] before_at_time [OF e(2) r] by (intro closed [unfolded list_all_iff, rule_format]) auto
  qed
  ultimately show ?thesis unfolding opens_first_def n using opens by blast
qed

lemma weekday_mod [simp]: "dt_weekday d mod 7 = dt_weekday d"
  using weekday_range [of d] by simp

lemmas break_defs = xau_break_state_def XAU_BREAK_START_def XAU_BREAK_END_def

lemma indices_as_xau: "indices_break_state = xau_break_state" "INDICES_BREAK_START = XAU_BREAK_START"
    "INDICES_BREAK_END = XAU_BREAK_END"
  by (auto simp: fun_eq_iff indices_break_state_def break_defs INDICES_BREAK_START_def INDICES_BREAK_END_def)

lemma next_sunday_opens:
  assumes "opens_first f d (at_time d 0 18 0)" "dt_weekday d = 6"
  shows "next_sunday_18 d = at_time d 0 18 0"
proof -
  have "dt_less d (at_time d 0 18 0)"
    using assms(1) by (simp add: opens_first_def dt_less_def dt_sub_def same_tz_def at_time_def)
  with assms(2) show ?thesis by (simp add: next_sunday_18_def Let_def)
qed

lemma break_opens_first:
  assumes p: "profile = ''ostium_xau_break'' \<or> profile = ''ostium_indices_break''"
    and s: "xau_break_state (mins_since_midnight d) (dt_weekday d) = (False, reason)"
  shows "\<exists>n. get_next_open_ny False reason d profile = Some n \<and>
    opens_first (\<lambda>m w. fst (xau_break_state m w)) d n"
proof -
  let ?f = "\<lambda>m w. fst (xau_break_state m w)" and ?m = "mins_since_midnight d" and ?w = "dt_weekday d"
  consider (sat) "?w = 5" | (sun) "?w = 6" | (fri) "?w = 4" "1020 \<le> ?m" | (day) "?w \<noteq> 5" "?w \<noteq> 6" "?w \<noteq> 4 \<or> ?m < 1020"
    by linarith
  then show ?thesis
  proof cases
    case sat
    then have "reason = ''weekend''" using s by (simp add: break_defs)
    moreover have "opens_first ?f d (at_time d 1 18 0)"
      by (rule opens_firstI) (simp_all add: sat break_defs upto.simps)
    ultimately show ?thesis using p sat
      by (simp add: get_next_open_ny_def Let_def next_sunday_18_def)
  next
    case sun
    then have r: "reason = ''weekend''" "?m < 1080" using s by (auto simp: break_defs split: if_splits)
    have "opens_first ?f d (at_time d 0 18 0)"
      by (rule opens_firstI) (use sun r in \<open>simp_all add: break_defs upto.simps\<close>)
    moreover from next_sunday_opens [OF this sun] have "next_sunday_18 d = at_time d 0 18 0" .
    ultimately show ?thesis using p r by (simp add: get_next_open_ny_def Let_def)
  next
    case fri
    then have "reason = ''weekend''" using s by (simp add: break_defs)
    moreover have "opens_first ?f d (at_time d 2 18 0)"
      by (rule opens_firstI) (use fri in \<open>simp_all add: break_defs upto.simps\<close>)
    ultimately show ?thesis using p fri
      by (simp add: get_next_open_ny_def Let_def next_sunday_18_def)
  next
    case day
    then have r: "reason = ''daily_break''" "1020 \<le> ?m" "?m < 1080" using s by (auto simp: break_defs split: if_splits)
    have "opens_first ?f d (at_time d 0 18 0)"
      by (rule opens_firstI) (use day r in \<open>simp_all add: break_defs upto.simps\<close>)
    then show ?thesis using p r
      by (auto simp: get_next_open_ny_def Let_def indices_as_xau(2,3) break_defs)
  qed
qed

text \<open>The loop over the weekend moves from Friday to Monday.\<close>

lemma skip_weekend_step:
  assumes "0 \<le> h * 60 + m" "h * 60 + m < 1440"
  shows "skip_weekend (at_time d k h m) =
    (if (dt_weekday d + k) mod 7 \<ge> 5 then skip_weekend (at_time d (k + 1) h m) else at_time d k h m)"
proof -
  have "(at_time d k h m)\<lparr>dt_wall := dt_wall (at_time d k h m) + day_us\<rparr> = at_time d (k + 1) h m"
    by (simp add: at_time_def algebra_simps)
  then show ?thesis
    using at_time_fields(2) [OF assms, of d k] by (subst skip_weekend.simps) simp
qed

lemma skip_weekend_next:
  assumes "0 \<le> h * 60 + m" "h * 60 + m < 1440" "dt_weekday d < 5"
  shows "skip_weekend (at_time d 1 h m) = at_time d (if dt_weekday d = 4 then 3 else 1) h m"
proof (cases "dt_weekday d = 4")
  case True
  then show ?thesis
    by (simp add: skip_weekend_step [OF assms(1,2), of d 1] skip_weekend_step [OF assms(1,2), of d 2]
        skip_weekend_step [OF assms(1,2), of d 3])
next
  case False
  then have "dt_weekday d + 1 < 5" using assms(3) by simp
  moreover have "0 \<le> dt_weekday d + 1" using weekday_range(1) [of d] by simp
  ultimately have "(dt_weekday d + 1) mod 7 < 5" by simp
  with False show ?thesis by (simp add: skip_weekend_step [OF assms(1,2), of d 1])
qed

text \<open>
  The two equity calendars differ only in their bounds: open from \<open>a\<close> to \<open>b\<close> on weekdays.
\<close>

definition rth :: "int \<Rightarrow> int \<Rightarrow> int \<Rightarrow> int \<Rightarrow> bool" where
  "rth a b m w \<longleftrightarrow> w < 5 \<and> a \<le> m \<and> m < b"

lemma rth_opens_first:
  assumes r: "0 \<le> h * 60 + m" "h * 60 + m < b" "b \<le> 1440" and closed: "\<not> rth (h * 60 + m) b (mins_since_midnight d) (dt_weekday d)"
  defines "before \<equiv> mins_since_midnight d < h * 60 + m"
  shows "dt_weekday d < 5 \<and> before \<Longrightarrow> opens_first (rth (h * 60 + m) b) d (at_time d 0 h m)"
    and "dt_weekday d < 5 \<and> \<not> before \<Longrightarrow> opens_first (rth (h * 60 + m) b) d (skip_weekend (at_time d 1 h m))"
    and "\<not> dt_weekday d < 5 \<Longrightarrow> opens_first (rth (h * 60 + m) b) d (at_time d ((7 - dt_weekday d) mod 7) h m)
      \<and> (7 - dt_weekday d) mod 7 \<noteq> 0"
proof -
  let ?f = "rth (h * 60 + m) b"
  have r': "h * 60 + m < 1440" using r by linarith
  show "opens_first ?f d (at_time d 0 h m)" if "dt_weekday d < 5 \<and> before"
    by (rule opens_firstI) (use that r r' in \<open>simp_all add: rth_def before_def upto.simps\<close>)
  show "opens_first ?f d (skip_weekend (at_time d 1 h m))" if *: "dt_weekday d < 5 \<and> \<not> before"
  proof -
    have late: "b \<le> mins_since_midnight d" using closed * by (auto simp: rth_def before_def)
    show ?thesis
    proof (cases "dt_weekday d = 4")
      case True
      have "opens_first ?f d (at_time d 3 h m)"
        by (rule opens_firstI) (use r r' late True in \<open>simp_all add: rth_def upto.simps\<close>)
      with True show ?thesis using skip_weekend_next [OF r(1) r'] by simp
    next
      case False
      then have "(dt_weekday d + 1) mod 7 < 5" using * weekday_range(1) [of d] by simp
      then have "opens_first ?f d (at_time d 1 h m)"
        by (intro opens_firstI) (use r r' late in \<open>simp_all add: rth_def upto.simps\<close>)
      with False show ?thesis using skip_weekend_next [OF r(1) r'] * by simp
    qed
  qed
  show "opens_first ?f d (at_time d ((7 - dt_weekday d) mod 7) h m) \<and> (7 - dt_weekday d) mod 7 \<noteq> 0"
    if *: "\<not> dt_weekday d < 5"
  proof -
    consider "dt_weekday d = 5" | "dt_weekday d = 6" using * weekday_range(2) [of d] by linarith
    then show ?thesis
    proof cases
      case 1
      have "opens_first ?f d (at_time d 2 h m)"
        by (rule opens_firstI) (use r r' 1 in \<open>simp_all add: rth_def upto.simps\<close>)
      with 1 show ?thesis by simp
    next
      case 2
      have "opens_first ?f d (at_time d 1 h m)"
        by (rule opens_firstI) (use r r' 2 in \<open>simp_all add: rth_def upto.simps\<close>)
      with 2 show ?thesis by simp
    qed
  qed
qed

lemma us_equities_opens_first:
  assumes s: "us_equities_ny_state (mins_since_midnight d) (dt_weekday d) = (False, reason)"
  shows "\<exists>n. get_next_open_ny False reason d ''us_equities_ny'' = Some n \<and>
    opens_first (\<lambda>m w. fst (us_equities_ny_state m w)) d n"
proof -
  have f: "(\<lambda>m w. fst (us_equities_ny_state m w)) = rth (9 * 60 + 30) 960"
    by (auto simp: fun_eq_iff us_equities_ny_state_def rth_def US_EQ_OPEN_START_def US_EQ_OPEN_END_def)
  have "\<not> rth (9 * 60 + 30) 960 (mins_since_midnight d) (dt_weekday d)"
    using s unfolding f [symmetric] by simp
  note first = rth_opens_first [OF _ _ _ this]
  have r: "reason = (if 5 \<le> dt_weekday d then ''weekend'' else ''rth_closed'')"
    using s by (simp add: us_equities_ny_state_def split: if_splits)
  consider "\<not> dt_weekday d < 5" | "dt_weekday d < 5" "mins_since_midnight d < 9 * 60 + 30"
    | "dt_weekday d < 5" "\<not> mins_since_midnight d < 9 * 60 + 30" by blast
  then show ?thesis unfolding f
    by cases (insert first, simp_all add: r get_next_open_ny_def Let_def US_EQ_OPEN_START_def)
qed

lemma nvda_opens_first:
  assumes s: "nvda_rth_state (mins_since_midnight d) (dt_weekday d) = (False, reason)"
  shows "\<exists>n. get_next_open_ny False reason d ''ostium_rth_equities'' = Some n \<and>
    opens_first (\<lambda>m w. fst (nvda_rth_state m w)) d n"
proof -
  have f: "(\<lambda>m w. fst (nvda_rth_state m w)) = rth (9 * 60 + 31) 960"
    by (auto simp: fun_eq_iff nvda_rth_state_def rth_def NVDA_OPEN_START_def NVDA_OPEN_END_def)
  have closed: "\<not> rth (9 * 60 + 31) 960 (mins_since_midnight d) (dt_weekday d)"
    using s unfolding f [symmetric] by simp
  note first = rth_opens_first [OF _ _ _ closed]
  have r: "reason = (if 5 \<le> dt_weekday d then ''weekend'' else ''rth_closed'')"
    using s by (simp add: nvda_rth_state_def split: if_splits)
  have late: "959 < mins_since_midnight d" if "dt_weekday d < 5" "\<not> mins_since_midnight d < 9 * 60 + 31"
    using closed that by (simp add: rth_def)
  consider "\<not> dt_weekday d < 5" | "dt_weekday d < 5" "mins_since_midnight d < 9 * 60 + 31"
    | "dt_weekday d < 5" "\<not> mins_since_midnight d < 9 * 60 + 31" "959 < mins_since_midnight d"
    using late by blast
  then show ?thesis unfolding f
    by cases (insert first, simp_all add: r get_next_open_ny_def Let_def NVDA_OPEN_START_def NVDA_OPEN_END_def)
qed

section \<open>Foreign exchange\<close>

lemma fields_of_wall:
  assumes "dt_wall d = ts * second_us"
  shows "dt_weekday d = (ts div 60 div 1440 + 3) mod 7" "mins_since_midnight d = ts div 60 mod 1440"
proof -
  have "dt_weekday d = dt_weekday (fromtimestamp utc (ts * second_us))"
    "mins_since_midnight d = mins_since_midnight (fromtimestamp utc (ts * second_us))"
    using assms by (simp_all add: dt_weekday_def dt_day_def mins_since_midnight_def dt_hour_def dt_minute_def)
  then show "dt_weekday d = (ts div 60 div 1440 + 3) mod 7" "mins_since_midnight d = ts div 60 mod 1440"
    using dt_fields_of_ts [of ts] by (simp_all add: mins_since_midnight_def)
qed

definition FX_DEFAULTS :: "string set" where
  "FX_DEFAULTS = {''EURUSD'', ''GBPUSD'', ''USDJPY'', ''AUDUSD''}"

lemma fx_states:
  fixes ts :: int
  defines "d \<equiv> fromtimestamp utc (ts * second_us)" and "t \<equiv> ts mod 604800"
  shows "fx_24_5_state d =
    (if 172800 \<le> t \<and> t < 259200 then (False, ''weekend'')
     else if 165600 \<le> t \<and> t < 338400 then (False, ''closed'') else (True, ''open''))"
proof -
  define D S where "D = t div 86400" and "S = t mod 86400"
  have t: "t = D * 86400 + S" "0 \<le> S" "S < 86400" by (simp_all add: D_def S_def)
  have "0 \<le> t" "t < 604800" by (simp_all add: t_def)
  then have D: "0 \<le> D" "D < 7" unfolding D_def by (simp_all add: div_less_iff_less_mult pos_imp_zdiv_nonneg_iff)
  have wall: "dt_wall d = ts * second_us" by (simp add: d_def fromtimestamp_def utc_def)
  have S': "S = ts mod 86400" by (simp add: S_def t_def mod_mod_cancel)
  have "ts mod (86400 * 7) = 86400 * (ts div 86400 mod 7) + ts mod 86400"
    by (rule zmod_zmult2_eq) simp
  then have "D = ts div 86400 mod 7" using t(1) by (simp add: t_def S')
  moreover have "ts div 60 div 1440 = ts div 86400" by (simp add: zdiv_zmult2_eq [symmetric])
  ultimately have wd: "dt_weekday d = (D + 3) mod 7"
    using fields_of_wall(1) [OF wall] by (simp add: mod_simps)
  have "ts mod (60 * 1440) = 60 * (ts div 60 mod 1440) + ts mod 60"
    by (rule zmod_zmult2_eq) simp
  then have "S = 60 * mins_since_midnight d + ts mod 60"
    using fields_of_wall(2) [OF wall] by (simp add: S')
  moreover have "0 \<le> ts mod 60" "ts mod 60 < 60" by simp_all
  ultimately have m: "mins_since_midnight d < 1320 \<longleftrightarrow> S < 79200" by linarith
  from D consider "D = 0" | "D = 1" | "D = 2" | "D = 3" | "D = 4" | "D = 5" | "D = 6" by linarith
  then show ?thesis
    by cases (insert m t wd, simp_all add: fx_24_5_state_def Let_def mins_since_midnight_def [symmetric] not_less [symmetric])
qed

section \<open>Properties\<close>

text \<open>Whether a New York calendar is open at an instant.\<close>

definition profile_open :: "string \<Rightarrow> datetime \<Rightarrow> bool" where
  "profile_open profile d = (case d_get market_profiles profile of Some state_fn \<Rightarrow> fst (state_fn d d) | None \<Rightarrow> False)"

definition NY_PROFILES :: "string set" where
  "NY_PROFILES = {''ostium_xau_break'', ''ostium_indices_break'', ''ostium_rth_equities'', ''us_equities_ny''}"

lemma ny_profile_opens_first:
  assumes "profile \<in> NY_PROFILES" "d_get market_profiles profile = Some state_fn" "state_fn u d = (False, reason)"
  shows "\<exists>n. get_next_open_ny False reason d profile = Some n \<and> dt_tz n = dt_tz d \<and> dt_wall d < dt_wall n \<and>
    profile_open profile n \<and> (\<forall>e. dt_wall d \<le> dt_wall e \<and> dt_wall e < dt_wall n \<longrightarrow> \<not> profile_open profile e)"
  using assms break_opens_first [of profile d reason] us_equities_opens_first [of d reason] nvda_opens_first [of d reason]
  by (auto simp: NY_PROFILES_def market_profiles_def profile_open_def opens_first_def indices_as_xau(1))

text \<open>C31. For the calendars kept in New York time the engine says whether the market is open, and the
next opening of a closed market is the first open instant: the market is open then and at no instant
from now until then, on the wall clock of New York. It is always given.\<close>

theorem next_open_is_first_open:
  fixes ny :: tzinfo and ts :: int and symbol :: string
  assumes "profile \<in> NY_PROFILES"
  defines "now \<equiv> astimezone ny (utc_dt (ts * second_us))"
    and "r \<equiv> get_market_state_ny ny symbol (Inl ts) (Some profile)"
  shows "(ms_state r = (if profile_open profile now then ''open'' else ''closed'')) \<and>
    (profile_open profile now \<longrightarrow> ms_next_open_utc r = None) \<and>
    (\<not> profile_open profile now \<longrightarrow>
      (\<exists>n. ms_next_open_utc r = Some (timestamp_int n) \<and> ms_next_open_local r = Some (format_next_open n @ '' NY'') \<and>
        dt_tz n = dt_tz now \<and> dt_wall now < dt_wall n \<and> profile_open profile n \<and>
        (\<forall>d. dt_wall now \<le> dt_wall d \<and> dt_wall d < dt_wall n \<longrightarrow> \<not> profile_open profile d)))"
proof -
  obtain f where f: "d_get market_profiles profile = Some f" "\<And>u v d. f u d = f v d"
    using assms(1) unfolding NY_PROFILES_def by (auto simp: market_profiles_def)
  obtain b reason where b: "f (utc_dt (ts * second_us)) now = (b, reason)" by fastforce
  have "f now now = (b, reason)" using f(2) b by metis
  then have o: "profile_open profile now \<longleftrightarrow> b" by (simp add: profile_open_def f(1))
  have p: "profile \<noteq> ''unknown''" "profile \<noteq> []" using assms(1) by (auto simp: NY_PROFILES_def)
  have r: "r = \<lparr>ms_state = (if b then ''open'' else ''closed''), ms_reason = reason,
      ms_next_open_utc = map_option timestamp_int (if b then None else get_next_open_ny b reason now profile),
      ms_next_open_local = map_option (\<lambda>d. format_next_open d @ '' NY'') (if b then None else get_next_open_ny b reason now profile)\<rparr>"
    using p b by (simp add: r_def get_market_state_ny_def Let_def now_def f(1))
  show ?thesis
  proof (cases b)
    case False
    with b have "f (utc_dt (ts * second_us)) now = (False, reason)" by simp
    from ny_profile_opens_first [OF assms(1) f(1) this]
    obtain n where "get_next_open_ny False reason now profile = Some n" "dt_tz n = dt_tz now" "dt_wall now < dt_wall n"
      "profile_open profile n" "\<forall>e. dt_wall now \<le> dt_wall e \<and> dt_wall e < dt_wall n \<longrightarrow> \<not> profile_open profile e"
      by blast
    with False show ?thesis unfolding o r by auto
  qed (simp add: o r)
qed

text \<open>Gold on Friday 1970-01-02, 18:00 in New York, opens on Sunday at 18:00.\<close>

lemma next_open_is_first_open_witness:
  fixes ny :: tzinfo
  defines "ny \<equiv> switch_zone ''America/New_York'' 0 (- 18000000000) (- 18000000000)"
  shows "\<exists>n. ms_next_open_utc (get_market_state_ny ny ''xau'' (Inl 169200) (Some ''ostium_xau_break'')) = Some (timestamp_int n)
    \<and> timestamp_int n = 342000 \<and> profile_open ''ostium_xau_break'' n"
proof -
  have mem: "''ostium_xau_break'' \<in> NY_PROFILES" by (simp add: NY_PROFILES_def)
  have "\<not> profile_open ''ostium_xau_break'' (astimezone ny (utc_dt (169200 * second_us)))"
    "ms_next_open_utc (get_market_state_ny ny ''xau'' (Inl 169200) (Some ''ostium_xau_break'')) = Some 342000"
    unfolding ny_def by code_simp+
  with next_open_is_first_open [OF mem, where ny = ny and ts = 169200 and symbol = "''xau''"] show ?thesis by auto
qed

text \<open>C40. For foreign exchange the two calendars of the repository agree on when the market is open,
but the next opening the engine reports is 17:00 in New York on some day: with New York \<open>k\<close> hours
behind UTC for the days around the instant (five in winter, four in summer) it is exact only in winter, from Saturday to Sunday 22:00
UTC outside the first hours of Sunday. On Friday after 22:00 UTC and in the first \<open>k\<close> hours of
Sunday it is not after the present instant.\<close>

theorem fx_next_open_exact:
  fixes ny :: tzinfo and ts k :: int
  assumes "symbol \<in> FX_DEFAULTS" "k = 4 \<or> k = 5" "tz_name ny \<noteq> ''UTC''"
    and "tz_fromutc ny (ts * second_us) = ((ts - 3600 * k) * second_us, fd)"
    and "\<forall>w. \<bar>w - (ts - 3600 * k) * second_us\<bar> < 3 * day_us \<longrightarrow> tz_utcoff ny w fd = - (3600 * k) * second_us"
  defines "r \<equiv> get_market_state_ny ny symbol (Inl ts) None" and "t \<equiv> ts mod 604800"
    and "sunday \<equiv> ts - ts mod 604800 + 320400 + 3600 * k"
  shows "(ms_state r = (if is_market_open symbol (Inl ts) then ''open'' else ''closed'')) \<and>
    (ms_next_open_utc r =
      (if \<not> (165600 \<le> t \<and> t < 338400) then None
       else if t < 172800 then Some (sunday - 172800)
       else if 259200 \<le> t \<and> t < 259200 + 3600 * k then Some (sunday - 86400)
       else Some sunday)) \<and>
    (165600 \<le> t \<and> t < 172800 \<or> 259200 \<le> t \<and> t < 259200 + 3600 * k \<longrightarrow>
      (\<exists>n. ms_next_open_utc r = Some n \<and> n \<le> ts))"
proof -
  define u where "u = utc_dt (ts * second_us)"
  define now where "now = astimezone ny u"
  have now: "dt_wall now = (ts - 3600 * k) * second_us" "dt_fold now = fd" "dt_tz now = Some ny"
    using assms(3,4) by (simp_all add: now_def u_def astimezone_def utc_dt_def utc_def fromtimestamp_def dt_epoch_def)
  define W where "W = ts div 604800"
  have ts: "ts = 604800 * W + t" "0 \<le> t" "t < 604800" by (simp_all add: W_def t_def)
  have sunday: "sunday = 604800 * W + 320400 + 3600 * k" using ts by (simp add: sunday_def t_def)
  have day: "dt_day now = 7 * W + (t - 3600 * k) div 86400"
  proof -
    have "dt_day now = (ts - 3600 * k) div 86400" by (simp add: dt_day_def now(1))
    also have "ts - 3600 * k = (t - 3600 * k) + 86400 * (7 * W)" using ts(1) by simp
    finally show ?thesis by simp
  qed
  have at: "timestamp_int (at_time now j 17 0) = (dt_day now + j) * 86400 + 61200 + 3600 * k" if j: "0 \<le> j" "j \<le> 2" for j
  proof -
    have "dt_wall now = dt_day now * day_us + dt_wall now mod day_us" "0 \<le> dt_wall now mod day_us" "dt_wall now mod day_us < day_us"
      by (simp_all add: dt_day_def)
    moreover have "dt_wall (at_time now j 17 0) = dt_day now * day_us + j * day_us + 61200 * second_us"
      by (simp add: at_time_def algebra_simps)
    moreover have "0 \<le> j * day_us" "j * day_us \<le> 2 * day_us" using j by simp_all
    ultimately have "\<bar>dt_wall (at_time now j 17 0) - (ts - 3600 * k) * second_us\<bar> < 3 * day_us"
      unfolding now(1) [symmetric] by linarith
    with assms(5) have "tz_utcoff ny (dt_wall (at_time now j 17 0)) fd = - (3600 * k) * second_us" by blast
    then have "dt_epoch (at_time now j 17 0) = ((dt_day now + j) * 86400 + 61200 + 3600 * k) * second_us"
      using now by (simp add: dt_epoch_def at_time_def algebra_simps)
    then show ?thesis by (simp only: timestamp_int_def trunc_div_mult zero_less_numeral)
  qed
  have at: "timestamp_int (at_time now j 17 0) = sunday - 259200 + ((t - 3600 * k) div 86400 + j) * 86400"
    if "0 \<le> j" "j \<le> 2" for j
    using that by (simp add: at day sunday)
  have sunday': "sunday = ts - t + 320400 + 3600 * k" by (simp add: sunday_def t_def)
  have st: "fx_24_5_state u = (if 172800 \<le> t \<and> t < 259200 then (False, ''weekend'')
     else if 165600 \<le> t \<and> t < 338400 then (False, ''closed'') else (True, ''open''))"
    using fx_states [of ts] by (simp add: u_def t_def)
  have prof: "d_get DEFAULT_PROFILE symbol = Some ''fx_24_5''" "py_strip (py_upper symbol) = symbol" "symbol \<noteq> ''XAU''"
    using assms(1) by (auto simp: FX_DEFAULTS_def DEFAULT_PROFILE_def) (code_simp+)?
  have open_iff: "is_market_open symbol (Inl ts) \<longleftrightarrow> \<not> (165600 \<le> t \<and> t < 338400)"
  proof -
    have "is_fx symbol" using assms(1) by (auto simp: FX_DEFAULTS_def) (code_simp+)?
    then show ?thesis
      unfolding t_def by (simp only: market_open_arith fx_closed_minute_def week_minute)
  qed
  have next_fx: "get_next_open_ny False ''closed'' d ''fx_24_5'' = Some (at_time d 0 17 0)"
    "get_next_open_ny False ''weekend'' d ''fx_24_5'' =
       Some (at_time d (if (6 - dt_weekday d) mod 7 = 0 then 7 else (6 - dt_weekday d) mod 7) 17 0)" for d
    by (simp_all add: get_next_open_ny_def Let_def)
  have r: "r = (let (o', reason) = fx_24_5_state u; n = (if o' then None else get_next_open_ny o' reason now ''fx_24_5'')
      in \<lparr>ms_state = (if o' then ''open'' else ''closed''), ms_reason = reason,
          ms_next_open_utc = map_option timestamp_int n, ms_next_open_local = map_option (\<lambda>d. format_next_open d @ '' NY'') n\<rparr>)"
    using prof by (cases "fx_24_5_state u") (simp add: r_def get_market_state_ny_def Let_def u_def now_def market_profiles_def)
  have wd: "dt_weekday now = ((t - 3600 * k) div 86400 + 3) mod 7"
    unfolding dt_weekday_def day using mod_mult_self3 [of W 7 "(t - 3600 * k) div 86400 + 3"]
    by (simp only: mult.commute [of W] add.assoc)
  have q: "(t - 3600 * k) div 86400 = j" if "86400 * j \<le> t - 3600 * k" "t - 3600 * k < 86400 * (j + 1)" for j
    by (rule int_div_pos_eq [where r = "t - 3600 * k - 86400 * j"]) (use that in simp_all)
  have k: "14400 \<le> 3600 * k" "3600 * k \<le> 18000" using assms(2) by auto
  consider (opens) "\<not> (165600 \<le> t \<and> t < 338400)" | (fri) "165600 \<le> t" "t < 172800"
    | (sat) "172800 \<le> t" "t < 172800 + 3600 * k" | (sat') "172800 + 3600 * k \<le> t" "t < 259200"
    | (sun) "259200 \<le> t" "t < 259200 + 3600 * k" | (sun') "259200 + 3600 * k \<le> t" "t < 338400"
    by linarith
  then show ?thesis
  proof cases
    case opens
    then have "fx_24_5_state u = (True, ''open'')" using st by (auto split: if_splits)
    moreover have "\<not> (165600 \<le> t \<and> t < 172800)" "\<not> (259200 \<le> t \<and> t < 259200 + 3600 * k)"
      using opens k by linarith+
    ultimately show ?thesis using opens by (simp add: r open_iff)
  next
    case fri
    then have "(t - 3600 * k) div 86400 = 1" using q [of 1] k by simp
    with fri k show ?thesis using st by (simp add: r Let_def next_fx at open_iff sunday')
  next
    case sat
    then have "(t - 3600 * k) div 86400 = 1" using q [of 1] k by simp
    with sat k show ?thesis using st wd by (simp add: r Let_def next_fx at open_iff sunday')
  next
    case sat'
    then have "(t - 3600 * k) div 86400 = 2" using q [of 2] k by simp
    with sat' k show ?thesis using st wd by (simp add: r Let_def next_fx at open_iff sunday')
  next
    case sun
    then have "(t - 3600 * k) div 86400 = 2" using q [of 2] k by simp
    with sun k show ?thesis using st by (simp add: r Let_def next_fx at open_iff sunday')
  next
    case sun'
    then have "(t - 3600 * k) div 86400 = 3" using q [of 3] k by simp
    with sun' k show ?thesis using st by (simp add: r Let_def next_fx at open_iff sunday')
  qed
qed

text \<open>In summer, Saturday noon: the engine says 21:00 UTC; the market opens at 22:00.\<close>

lemma fx_next_open_exact_witness:
  "ms_next_open_utc (get_market_state_ny (switch_zone ''America/New_York'' 0 (- 14400000000) (- 14400000000)) ''EURUSD'' (Inl 216000) None)
    = Some 334800 \<and> \<not> is_market_open ''EURUSD'' (Inl 334800)"
proof -
  have "''EURUSD'' \<in> FX_DEFAULTS" by (simp add: FX_DEFAULTS_def)
  from fx_next_open_exact [OF this, of 4 "switch_zone ''America/New_York'' 0 (- 14400000000) (- 14400000000)" 216000 False]
  have "ms_next_open_utc (get_market_state_ny (switch_zone ''America/New_York'' 0 (- 14400000000) (- 14400000000)) ''EURUSD'' (Inl 216000) None)
    = Some 334800"
    by (simp add: switch_zone_def)
  moreover have "\<not> is_market_open ''EURUSD'' (Inl 334800)" by code_simp
  ultimately show ?thesis by simp
qed

text \<open>
  The two calendars disagree about gold: the other one knows no daily break.
\<close>

lemma gold_calendars_disagree:
  fixes ny :: tzinfo
  defines "ny \<equiv> switch_zone ''America/New_York'' 0 (- 18000000000) (- 18000000000)"
  shows "ms_reason (get_market_state_ny ny ''XAUUSD'' (Inl 79200) None) = ''daily_break'' \<and>
    is_market_open ''XAUUSD'' (Inl 79200)"
  unfolding ny_def by code_simp

end
