(* ===== verification/Bi5.thy ===== *)
theory Bi5
  imports MarketEngine Models "HOL-Library.Word"
begin

text \<open>
  The binary feed of Dukascopy, \<open>foundation/market_data/dukascopy_bi5.py\<close>: one compressed file of
  24-byte records a day, downloaded with retries, and the provider over it,
  \<open>infrastructure/venues/dukascopy/bi5_backfill_provider.py\<close>. Bytes are \<open>8 word\<close>, the fields of a record
  \<open>32 word\<close>, as \<open>struct\<close> unpacks them. The decompressor (\<open>None\<close> is an \<open>LZMAError\<close>) and the network
  are parameters. Days are numbered from 1970-01-01.
\<close>

type_synonym byte = "8 word"
type_synonym bytes = "byte list"
type_synonym decompressor = "bytes \<Rightarrow> bytes option"

section \<open>Words and floats in bytes\<close>

text \<open>\<open>struct.unpack(">I", b)\<close> and \<open>struct.unpack(">f", b)\<close>; a float that is not finite is \<open>None\<close>.\<close>

definition unpack_u32 :: "bytes \<Rightarrow> 32 word" where
  "unpack_u32 b = word_rcat b"

definition f32_value :: "32 word \<Rightarrow> rat option" where
  "f32_value w =
     (let e = uint (take_bit 8 (drop_bit 23 w)); m = uint (take_bit 23 w); s = (if bit w 31 then - 1 else 1)
      in if e = 255 then None
         else if e = 0 then Some (s * of_int m * 2 powi (- 149))
         else Some (s * of_int (2 ^ 23 + m) * 2 powi (e - 150)))"

text \<open>\<open>xs[a:b]\<close> for bounds inside the list.\<close>

definition slice :: "nat \<Rightarrow> nat \<Rightarrow> 'a list \<Rightarrow> 'a list" where
  "slice a b xs = take (b - a) (drop a xs)"

section \<open>Candles of a day\<close>

record m1_record =
  b_ts :: int
  b_open :: pfloat
  b_high :: pfloat
  b_low :: pfloat
  b_close :: pfloat
  b_vol :: "pfloat option"

definition RECORD_SIZE_M1 :: nat where "RECORD_SIZE_M1 = 24"
definition PRICE_SCALE :: pfloat where "PRICE_SCALE = 100000"
definition PRICE_SCALE_JPY :: pfloat where "PRICE_SCALE_JPY = 1000"

definition py_endswith :: "string \<Rightarrow> string \<Rightarrow> bool" where
  "py_endswith s p = py_startswith (rev s) (rev p)"

definition get_price_scale :: "string \<Rightarrow> pfloat" where
  "get_price_scale symbol =
     (let sm = py_upper symbol in
      if py_endswith sm ''JPY'' \<or> py_startswith sm ''JPY'' then PRICE_SCALE_JPY else PRICE_SCALE)"

definition price_of :: "32 word \<Rightarrow> pfloat \<Rightarrow> pfloat" where
  "price_of raw scale = fround 6 (fdiv (of_int (uint raw)) scale)"

text \<open>One record; a record without an open and a high is empty.\<close>

definition decode_record :: "bytes \<Rightarrow> pfloat \<Rightarrow> int \<Rightarrow> m1_record option" where
  "decode_record chunk scale day_epoch_utc =
     (let ts_s = unpack_u32 (slice 0 4 chunk);
          o_raw = unpack_u32 (slice 4 8 chunk);
          h_raw = unpack_u32 (slice 8 12 chunk);
          l_raw = unpack_u32 (slice 12 16 chunk);
          c_raw = unpack_u32 (slice 16 20 chunk);
          vol = f32_value (unpack_u32 (slice 20 24 chunk))
      in if o_raw = 0 \<and> h_raw = 0 then None
         else Some \<lparr>b_ts = day_epoch_utc + uint ts_s, b_open = price_of o_raw scale, b_high = price_of h_raw scale,
                b_low = price_of l_raw scale, b_close = price_of c_raw scale, b_vol = map_option (fround 2) vol\<rparr>)"

definition decode_bi5_m1 :: "decompressor \<Rightarrow> bytes \<Rightarrow> string \<Rightarrow> int \<Rightarrow> m1_record list" where
  "decode_bi5_m1 lzma raw_bytes symbol day_epoch_utc =
     (if length raw_bytes < 5 then []
      else case lzma raw_bytes of
        None \<Rightarrow> []
      | Some decompressed \<Rightarrow>
          (let n_records = length decompressed div RECORD_SIZE_M1; scale = get_price_scale symbol in
           List.map_filter (\<lambda>i. decode_record (slice (i * RECORD_SIZE_M1) (i * RECORD_SIZE_M1 + RECORD_SIZE_M1) decompressed)
             scale day_epoch_utc) [0..<n_records]))"

section \<open>Downloading\<close>

text \<open>
  What \<open>urlopen\<close> does on one attempt: an answer with its status, an \<open>HTTPError\<close> with its code and
  \<open>Retry-After\<close> header, another \<open>URLError\<close>, or any other exception.
\<close>

datatype http_reply =
    Http_ok int bytes
  | Http_error int "string option"
  | Url_error
  | Net_error py_error

type_synonym network = "string \<Rightarrow> nat \<Rightarrow> http_reply"

definition RETRY_ATTEMPTS :: nat where "RETRY_ATTEMPTS = 3"

fun download_attempts :: "(nat \<Rightarrow> http_reply) \<Rightarrow> nat list \<Rightarrow> bytes option result" where
  "download_attempts replies [] = Inl (RuntimeError ''download'')"
| "download_attempts replies (attempt # attempts) =
     (case replies attempt of
        Http_ok status data \<Rightarrow> Inr (if status = 200 \<and> data \<noteq> [] then Some data else None)
      | Http_error code _ \<Rightarrow> if code = 404 then Inr None else download_attempts replies attempts
      | Url_error \<Rightarrow> download_attempts replies attempts
      | Net_error e \<Rightarrow> Inl e)"

definition download_bytes :: "network \<Rightarrow> string \<Rightarrow> nat \<Rightarrow> bytes option result" where
  "download_bytes net url retries = download_attempts (net url) [0..<retries]"

section \<open>Days and ranges\<close>

definition BASE_URL :: string where "BASE_URL = ''https://datafeed.dukascopy.com/datafeed''"

definition build_m1_url :: "string \<Rightarrow> int \<Rightarrow> int \<Rightarrow> int \<Rightarrow> string" where
  "build_m1_url symbol year month day =
     (let month_0idx = month - 1 in
      BASE_URL @ ''/'' @ symbol @ ''/'' @ show_int year @ ''/'' @ two_digits month_0idx @ ''/'' @ two_digits day
        @ ''/BID_candles_min_1.bi5'')"

text \<open>A date and its day number; \<open>datetime(y, m, d)\<close> raises on a day the month does not have.\<close>

definition ymd :: "int \<Rightarrow> int \<times> int \<times> int" where
  "ymd d = (let i = month_of_day d in (i div 12, i mod 12 + 1, d - month_start i + 1))"

definition day_number :: "int \<Rightarrow> int \<Rightarrow> int \<Rightarrow> int result" where
  "day_number y m d =
     (let i = 12 * y + (m - 1) in
      if 1 \<le> m \<and> m \<le> 12 \<and> 1 \<le> d \<and> d \<le> month_start (i + 1) - month_start i then Inr (month_start i + d - 1)
      else Inl (ValueError ''day is out of range for month''))"

definition fetch_m1_day :: "network \<Rightarrow> decompressor \<Rightarrow> string \<Rightarrow> int \<Rightarrow> int \<Rightarrow> int \<Rightarrow> m1_record list result" where
  "fetch_m1_day net lzma symbol year month day =
     sbind (download_bytes net (build_m1_url symbol year month day) RETRY_ATTEMPTS) (\<lambda>raw.
       case raw of
         None \<Rightarrow> Inr []
       | Some data \<Rightarrow> sbind (day_number year month day) (\<lambda>d. Inr (decode_bi5_m1 lzma data symbol (d * 86400))))"

text \<open>The loop over the days; the first exception ends it.\<close>

fun fetch_m1_days :: "(int \<Rightarrow> 'a list result) \<Rightarrow> int list \<Rightarrow> 'a list result" where
  "fetch_m1_days fetch [] = Inr []"
| "fetch_m1_days fetch (d # ds) = sbind (fetch d) (\<lambda>cs. sbind (fetch_m1_days fetch ds) (\<lambda>rest. Inr (cs @ rest)))"

definition fetch_m1_range :: "network \<Rightarrow> decompressor \<Rightarrow> string \<Rightarrow> int \<Rightarrow> int \<Rightarrow> m1_record list result" where
  "fetch_m1_range net lzma symbol from_dt to_dt =
     sbind (fetch_m1_days (\<lambda>current. let (y, m, d) = ymd current in fetch_m1_day net lzma symbol y m d) [from_dt..to_dt - 1])
       (\<lambda>all_candles. Inr (sort_key b_ts all_candles))"

definition fetch_m1_month :: "network \<Rightarrow> decompressor \<Rightarrow> string \<Rightarrow> int \<Rightarrow> int \<Rightarrow> m1_record list result" where
  "fetch_m1_month net lzma symbol year month =
     (let i = 12 * year + (month - 1) in fetch_m1_range net lzma symbol (month_start i) (month_start (i + 1)))"

section \<open>The provider\<close>

text \<open>
  A record in the range becomes a closed candle whose high and low enclose its prices. A volume
  that is not finite has no rational value, and the candle made of it is outside the model.
\<close>

definition record_candle :: "string \<Rightarrow> m1_record \<Rightarrow> candle result" where
  "record_candle symbol r =
     (let op = b_open r; h = b_high r; l = b_low r; c = b_close r;
          h = max op (max h c);
          l = min op (min l c)
      in case b_vol r of
           None \<Rightarrow> Inl (OtherError ''volume'')
         | Some v \<Rightarrow> candle_post_init \<lparr>c_symbol = py_upper symbol, c_ts = fromtimestamp utc (b_ts r * second_us),
             c_open = op, c_high = h, c_low = l, c_close = c, c_volume = v, c_closed = True\<rparr>)"

fun map_result :: "('a \<Rightarrow> 'b result) \<Rightarrow> 'a list \<Rightarrow> 'b list result" where
  "map_result f [] = Inr []"
| "map_result f (x # xs) = sbind (f x) (\<lambda>y. sbind (map_result f xs) (\<lambda>ys. Inr (y # ys)))"

text \<open>A \<open>RuntimeError\<close> of the download is raised again with a longer text.\<close>

definition bi5_fetch_ohlcv :: "network \<Rightarrow> decompressor \<Rightarrow> string \<Rightarrow> datetime \<Rightarrow> datetime \<Rightarrow> candle list result" where
  "bi5_fetch_ohlcv net lzma symbol start stop =
     (case fetch_m1_range net lzma symbol (dt_day start) (dt_day stop) of
        Inl e \<Rightarrow> Inl (case e of RuntimeError t \<Rightarrow> RuntimeError (''Bi5BackfillProvider fetch error '' @ t) | _ \<Rightarrow> e)
      | Inr raw_candles \<Rightarrow>
          (let start_ts = timestamp_int start; end_ts = timestamp_int stop in
           map_result (record_candle symbol) (filter (\<lambda>r. \<not> (b_ts r < start_ts \<or> b_ts r \<ge> end_ts)) raw_candles)))"

end
