(* ===== verification/TickFeed.thy ===== *)
theory TickFeed
  imports Bi5 Config
begin

text \<open>
  The tick provider, \<open>infrastructure/venues/dukascopy/bi5_ticks_backfill_provider.py\<close>: raw ticks hour by
  hour, a local cache of the downloaded files with markers for empty hours, and one-minute candles
  made of the ticks. Hours are numbered from 1970-01-01T00:00 UTC. The network, the decompressor,
  the zone \<open>ny\<close> and the clock (the time at which an hour is fetched) are parameters.
\<close>

section \<open>Downloading\<close>

text \<open>
  The pause before the next attempt. For the answer 429 it is the time the server names, or an
  exponential one from the environment; \<open>float\<close> of a malformed setting raises.
\<close>

definition retry_delay :: "environ \<Rightarrow> http_reply \<Rightarrow> nat \<Rightarrow> pfloat result" where
  "retry_delay env error attempt =
     (let linear = fmul 2 (of_nat (attempt + 1));
          number = (\<lambda>s. case py_float s of None \<Rightarrow> Inl (ValueError s) | Some x \<Rightarrow> Inr x);
          backoff = sbind (number (getenv env ''DUKASCOPY_TICK_429_BACKOFF_S'' ''60'')) (\<lambda>base.
            sbind (number (getenv env ''DUKASCOPY_TICK_429_BACKOFF_MAX_S'' ''900'')) (\<lambda>maximum.
              Inr (min (fmul base (2 ^ attempt)) maximum)))
      in case error of
           Http_error code retry_after \<Rightarrow>
             if code = 429
             then (case retry_after of
                 Some h \<Rightarrow> if h = [] then backoff
                   else (case py_float h of Some x \<Rightarrow> Inr (max x 0) | None \<Rightarrow> backoff)
               | None \<Rightarrow> backoff)
             else Inr linear
         | _ \<Rightarrow> Inr linear)"

text \<open>The attempts with their pauses: the pauses made, and the result.\<close>

definition TICK_RETRY_ATTEMPTS :: nat where "TICK_RETRY_ATTEMPTS = 5"

function tick_attempts :: "environ \<Rightarrow> (nat \<Rightarrow> http_reply) \<Rightarrow> nat \<Rightarrow> pfloat list \<times> bytes option result" where
  "tick_attempts env replies attempt =
     (if attempt \<ge> TICK_RETRY_ATTEMPTS then ([], Inr None)
      else case replies attempt of
        Http_ok _ data \<Rightarrow> ([], Inr (if data \<noteq> [] then Some data else None))
      | error \<Rightarrow>
          if (case error of Http_error code _ \<Rightarrow> code = 404 | _ \<Rightarrow> False) then ([], Inr None)
          else if attempt < TICK_RETRY_ATTEMPTS - 1
          then (case retry_delay env error attempt of
              Inl e \<Rightarrow> ([], Inl e)
            | Inr wait \<Rightarrow> (let (waits, r) = tick_attempts env replies (attempt + 1) in (wait # waits, r)))
          else ([], Inl (case error of Net_error e \<Rightarrow> e | _ \<Rightarrow> OtherError ''URLError'')))"
  by pat_completeness auto
termination by (relation "measure (\<lambda>(_, _, attempt). TICK_RETRY_ATTEMPTS - attempt)") auto

declare tick_attempts.simps [simp del]

section \<open>Ticks and candles\<close>

definition TICK_SIZE :: nat where "TICK_SIZE = 20"

text \<open>A tick is its minute, in epoch seconds, and its bid price.\<close>

definition decode_tick :: "int \<Rightarrow> pfloat \<Rightarrow> bytes \<Rightarrow> int \<times> pfloat" where
  "decode_tick hour_epoch_ms scale chunk =
     (let ts_ms_rel = unpack_u32 (slice 0 4 chunk); bid_raw = unpack_u32 (slice 8 12 chunk);
          ts_epoch_ms = hour_epoch_ms + uint ts_ms_rel;
          ts_epoch_s = ts_epoch_ms div 1000;
          ts_min = ts_epoch_s div 60 * 60
      in (ts_min, fdiv (of_int (uint bid_raw)) scale))"

definition decode_ticks :: "decompressor \<Rightarrow> bytes \<Rightarrow> int \<Rightarrow> pfloat \<Rightarrow> (int \<times> pfloat) list" where
  "decode_ticks lzma raw_lzma hour_epoch_ms scale =
     (case lzma raw_lzma of
        None \<Rightarrow> []
      | Some raw \<Rightarrow>
          map (\<lambda>i. decode_tick hour_epoch_ms scale (slice (i * TICK_SIZE) (i * TICK_SIZE + TICK_SIZE) raw))
            [0..<length raw div TICK_SIZE])"

type_synonym ohlc = "pfloat \<times> pfloat \<times> pfloat \<times> pfloat"

definition bucket_tick :: "int \<times> pfloat \<Rightarrow> (int, pfloat list) dict \<Rightarrow> (int, pfloat list) dict" where
  "bucket_tick tick buckets =
     (let (ts_min, bid) = tick;
          buckets = (if d_has buckets ts_min then buckets else d_set ts_min [] buckets)
      in d_set ts_min (the (d_get buckets ts_min) @ [bid]) buckets)"

definition bucket_ohlc :: "pfloat list \<Rightarrow> ohlc" where
  "bucket_ohlc prices =
     (let op = hd prices; c = last prices;
          h = fold max (tl prices) (hd prices);
          l = fold min (tl prices) (hd prices);
          h = max op (max h c);
          l = min op (min l c)
      in (op, h, l, c))"

definition ticks_to_m1 :: "(int \<times> pfloat) list \<Rightarrow> (int, ohlc) dict" where
  "ticks_to_m1 ticks = map (\<lambda>(ts_min, prices). (ts_min, bucket_ohlc prices)) (fold bucket_tick ticks [])"

section \<open>The cache\<close>

text \<open>Files and empty markers by symbol and hour, the pair the path is made of.\<close>

record tick_cache =
  tc_files :: "(string \<times> int, bytes) dict"
  tc_empty :: "(string \<times> int) list"

definition cache_key :: "string \<Rightarrow> int \<Rightarrow> string \<times> int" where
  "cache_key symbol hour = (py_upper symbol, hour)"

definition load_cache :: "tick_cache \<Rightarrow> string \<Rightarrow> int \<Rightarrow> bytes option" where
  "load_cache cache symbol hour = (case d_get (tc_files cache) (cache_key symbol hour) of
     None \<Rightarrow> None | Some data \<Rightarrow> if data = [] then None else Some data)"

definition save_cache :: "string \<Rightarrow> int \<Rightarrow> bytes \<Rightarrow> tick_cache \<Rightarrow> tick_cache" where
  "save_cache symbol hour data cache = cache\<lparr>tc_files := d_set (cache_key symbol hour) data (tc_files cache)\<rparr>"

section \<open>Hours, days and ranges\<close>

definition tick_url :: "string \<Rightarrow> int \<Rightarrow> string" where
  "tick_url symbol hour =
     (let (year, month, day) = ymd (hour div 24); month_0idx = month - 1 in
      BASE_URL @ ''/'' @ py_upper symbol @ ''/'' @ show_int year @ ''/'' @ two_digits month_0idx @ ''/'' @ two_digits day
        @ ''/'' @ two_digits (hour mod 24) @ ''h_ticks.bi5'')"

record tick_world =
  tw_env :: environ
  tw_net :: network
  tw_lzma :: decompressor
  tw_clock :: "int \<Rightarrow> int"

text \<open>Only hours that began more than two hours ago get a marker.\<close>

definition fetch_hour :: "tick_world \<Rightarrow> string \<Rightarrow> int \<Rightarrow> tick_cache \<Rightarrow> tick_cache \<times> (int \<times> pfloat) list result" where
  "fetch_hour w symbol hour cache =
     (let decode = (\<lambda>raw. decode_ticks (tw_lzma w) raw (hour * 3600 * 1000) (get_price_scale symbol)) in
      case load_cache cache symbol hour of
        Some raw \<Rightarrow> (cache, Inr (decode raw))
      | None \<Rightarrow>
          if cache_key symbol hour \<in> set (tc_empty cache) then (cache, Inr [])
          else (case snd (tick_attempts (tw_env w) (tw_net w (tick_url symbol hour)) 0) of
              Inl e \<Rightarrow> (cache, Inl e)
            | Inr (Some raw) \<Rightarrow> (save_cache symbol hour raw cache, Inr (decode raw))
            | Inr None \<Rightarrow>
                ((if hour * 3600 * second_us < tw_clock w hour - 7200 * second_us
                  then cache\<lparr>tc_empty := set_add (cache_key symbol hour) (tc_empty cache)\<rparr> else cache), Inr [])))"

fun fetch_hours :: "tick_world \<Rightarrow> string \<Rightarrow> int list \<Rightarrow> tick_cache \<Rightarrow> tick_cache \<times> (int \<times> pfloat) list result" where
  "fetch_hours w symbol [] cache = (cache, Inr [])"
| "fetch_hours w symbol (hour # hours) cache =
     (case fetch_hour w symbol hour cache of
        (cache1, Inl e) \<Rightarrow> (cache1, Inl e)
      | (cache1, Inr ticks) \<Rightarrow>
          (case fetch_hours w symbol hours cache1 of
             (cache2, Inl e) \<Rightarrow> (cache2, Inl e)
           | (cache2, Inr later) \<Rightarrow> (cache2, Inr (ticks @ later))))"

definition fetch_day :: "tick_world \<Rightarrow> string \<Rightarrow> int \<Rightarrow> tick_cache \<Rightarrow> tick_cache \<times> (int, ohlc) dict result" where
  "fetch_day w symbol day cache =
     (case fetch_hours w symbol (map (\<lambda>h. day * 24 + h) [0..23]) cache of
        (cache1, Inl e) \<Rightarrow> (cache1, Inl e)
      | (cache1, Inr all_ticks) \<Rightarrow> (cache1, Inr (ticks_to_m1 all_ticks)))"

text \<open>\<open>all_candles.update(day_candles)\<close>, day by day.\<close>

fun fetch_days :: "tick_world \<Rightarrow> string \<Rightarrow> int list \<Rightarrow> (int, ohlc) dict \<Rightarrow> tick_cache \<Rightarrow> tick_cache \<times> (int, ohlc) dict result" where
  "fetch_days w symbol [] all_candles cache = (cache, Inr all_candles)"
| "fetch_days w symbol (day # days) all_candles cache =
     (case fetch_day w symbol day cache of
        (cache1, Inl e) \<Rightarrow> (cache1, Inl e)
      | (cache1, Inr day_candles) \<Rightarrow>
          fetch_days w symbol days (fold (\<lambda>(k, v) d. d_set k v d) day_candles all_candles) cache1)"

definition is_dst_fold :: "tzinfo \<Rightarrow> int \<Rightarrow> bool" where
  "is_dst_fold ny ts_utc = dt_fold (astimezone ny (fromtimestamp utc (ts_utc * second_us)))"

definition tick_candle :: "string \<Rightarrow> int \<times> ohlc \<Rightarrow> candle result" where
  "tick_candle sym_upper kv =
     (let (ts_min, op, h, l, c) = kv in
      candle_post_init \<lparr>c_symbol = sym_upper, c_ts = fromtimestamp utc (ts_min * second_us),
        c_open = op, c_high = h, c_low = l, c_close = c, c_volume = 0, c_closed = True\<rparr>)"

definition ticks_fetch_ohlcv ::
    "tick_world \<Rightarrow> tzinfo \<Rightarrow> string \<Rightarrow> datetime \<Rightarrow> datetime \<Rightarrow> tick_cache \<Rightarrow> tick_cache \<times> candle list result" where
  "ticks_fetch_ohlcv w ny symbol start stop cache =
     (let start_ts = timestamp_int start div 60 * 60;
          end_ts = timestamp_int stop div 60 * 60;
          current = start_ts div 86400;
          end_date = end_ts div 86400;
          end_date = (if end_ts > end_date * 86400 then end_date + 1 else end_date)
      in case fetch_days w symbol [current..end_date - 1] [] cache of
           (cache1, Inl e) \<Rightarrow> (cache1, Inl (RuntimeError ''Bi5TicksBackfillProvider fetch error''))
         | (cache1, Inr all_candles) \<Rightarrow>
             (cache1, map_result (tick_candle (py_upper symbol))
               (filter (\<lambda>(ts_min, _). \<not> (ts_min < start_ts \<or> ts_min \<ge> end_ts) \<and> \<not> is_dst_fold ny ts_min)
                 (sort_key fst all_candles))))"

end
