(* ===== verification/Bi5_Props.thy ===== *)
theory Bi5_Props
  imports Bi5
begin

text \<open>
  The codec of the binary feed: packing and unpacking are inverse, so a file of records is read
  back record by record, and the decoded prices are bounded and ordered as the raw ones are.
\<close>

section \<open>Packing\<close>

text \<open>\<open>struct.pack(">I", w)\<close>.\<close>

definition pack_u32 :: "32 word \<Rightarrow> bytes" where
  "pack_u32 w = [ucast (drop_bit 24 w), ucast (drop_bit 16 w), ucast (drop_bit 8 w), ucast w]"

lemma length_pack [simp]: "length (pack_u32 w) = 4"
  by (simp add: pack_u32_def)

lemma rcat4: "word_rcat [a, b, c, d :: 8 word] =
    (word_of_int (16777216 * uint a + 65536 * uint b + 256 * uint c + uint d) :: 32 word)"
  by (simp add: word_rcat_def algebra_simps)

lemma pack_unpack [simp]: "unpack_u32 (pack_u32 w) = w"
proof -
  define n where "n = uint w"
  have n: "0 \<le> n" "n < 2 ^ 32" using uint_lt2p [of w] by (simp_all add: n_def)
  have byte: "uint (ucast (drop_bit k w) :: 8 word) = n div 2 ^ k mod 256" for k
    using n unfolding n_def unsigned_ucast_eq unsigned_drop_bit_eq by (simp add: take_bit_eq_mod drop_bit_eq_div)
  have b0: "uint (ucast w :: 8 word) = n mod 256" using byte [of 0] by simp
  have "n = 16777216 * (n div 2 ^ 24 mod 256) + 65536 * (n div 2 ^ 16 mod 256) + 256 * (n div 2 ^ 8 mod 256) + n mod 256"
  proof -
    have "n div 256 div 256 = n div 65536" "n div 65536 div 256 = n div 16777216"
      by (simp_all add: zdiv_zmult2_eq [symmetric])
    moreover have top: "n div 16777216 mod 256 = n div 16777216"
      using n by (simp add: pos_imp_zdiv_nonneg_iff div_less_iff_less_mult)
    moreover have "(2::int) ^ 24 = 16777216" "(2::int) ^ 16 = 65536" "(2::int) ^ 8 = 256" by simp_all
    ultimately show ?thesis
      using div_mult_mod_eq [of n 256] div_mult_mod_eq [of "n div 256" 256] div_mult_mod_eq [of "n div 65536" 256] top
      by (simp only:)
  qed
  then have sum: "word_of_int n = (word_of_int (16777216 * (n div 2 ^ 24 mod 256) + 65536 * (n div 2 ^ 16 mod 256)
      + 256 * (n div 2 ^ 8 mod 256) + n mod 256) :: 32 word)" by (rule arg_cong)
  have "unpack_u32 (pack_u32 w) = word_of_int (16777216 * (n div 2 ^ 24 mod 256) + 65536 * (n div 2 ^ 16 mod 256)
      + 256 * (n div 2 ^ 8 mod 256) + n mod 256)"
    by (simp only: unpack_u32_def pack_u32_def rcat4 byte b0)
  also have "\<dots> = w" unfolding sum [symmetric] by (simp add: n_def)
  finally show ?thesis .
qed

definition pack_record :: "32 word \<times> 32 word \<times> 32 word \<times> 32 word \<times> 32 word \<times> 32 word \<Rightarrow> bytes" where
  "pack_record r = (case r of (ts, op, h, l, c, v) \<Rightarrow>
     pack_u32 ts @ pack_u32 op @ pack_u32 h @ pack_u32 l @ pack_u32 c @ pack_u32 v)"

lemma length_pack_record [simp]: "length (pack_record r) = 24"
  by (simp add: pack_record_def split: prod.split)

text \<open>What a record of the file stands for.\<close>

definition record_of :: "pfloat \<Rightarrow> int \<Rightarrow> 32 word \<times> 32 word \<times> 32 word \<times> 32 word \<times> 32 word \<times> 32 word \<Rightarrow> m1_record" where
  "record_of scale day r = (case r of (ts, op, h, l, c, v) \<Rightarrow>
     \<lparr>b_ts = day + uint ts, b_open = price_of op scale, b_high = price_of h scale, b_low = price_of l scale,
      b_close = price_of c scale, b_vol = map_option (fround 2) (f32_value v)\<rparr>)"

definition is_empty_record :: "32 word \<times> 32 word \<times> 32 word \<times> 32 word \<times> 32 word \<times> 32 word \<Rightarrow> bool" where
  "is_empty_record r = (case r of (ts, op, h, l, c, v) \<Rightarrow> op = 0 \<and> h = 0)"

lemma slice_pack:
  "slice 0 4 (pack_u32 a @ xs) = pack_u32 a"
  "4 \<le> i \<Longrightarrow> slice i j (pack_u32 a @ xs) = slice (i - 4) (j - 4) xs"
  by (simp_all add: slice_def)

lemma decode_pack_record:
  "decode_record (pack_record r) scale day = (if is_empty_record r then None else Some (record_of scale day r))"
proof -
  obtain ts op h l c v where r: "r = (ts, op, h, l, c, v)" by (metis prod_cases6)
  have "slice 20 24 (pack_record r) = pack_u32 v"
    by (simp add: pack_record_def r slice_def)
  moreover have "slice 0 4 (pack_record r) = pack_u32 ts" "slice 4 8 (pack_record r) = pack_u32 op"
    "slice 8 12 (pack_record r) = pack_u32 h" "slice 12 16 (pack_record r) = pack_u32 l" "slice 16 20 (pack_record r) = pack_u32 c"
    by (simp_all add: pack_record_def r slice_def)
  ultimately show ?thesis
    by (simp add: decode_record_def r is_empty_record_def record_of_def Let_def)
qed

text \<open>Cutting a file into records of \<open>n\<close> bytes; what is left over is ignored.\<close>

lemma slice_chunk:
  assumes "length c = n"
  shows "slice 0 n (c @ xs) = c" "slice (Suc i * n) (Suc i * n + n) (c @ xs) = slice (i * n) (i * n + n) xs"
  using assms by (simp_all add: slice_def)

lemma chunks_concat:
  assumes "\<forall>c \<in> set cs. length c = n" "length junk < n"
  shows "length (concat cs @ junk) div n = length cs" 
    "map (\<lambda>i. slice (i * n) (i * n + n) (concat cs @ junk)) [0..<length cs] = cs"
proof -
  have "length (concat cs) = length cs * n" using assms(1) by (induction cs) auto
  then show "length (concat cs @ junk) div n = length cs" using assms(2) by simp
  show "map (\<lambda>i. slice (i * n) (i * n + n) (concat cs @ junk)) [0..<length cs] = cs"
    using assms(1)
  proof (induction cs)
    case (Cons c cs)
    have "map (\<lambda>i. slice (i * n) (i * n + n) (concat (c # cs) @ junk)) [0..<length (c # cs)] =
        slice 0 n (c @ concat cs @ junk) # map (\<lambda>i. slice (Suc i * n) (Suc i * n + n) (c @ concat cs @ junk)) [0..<length cs]"
      by (simp del: upt_Suc mult_Suc add: upt_conv_Cons map_Suc_upt [symmetric] comp_def)
    also have "\<dots> = c # map (\<lambda>i. slice (i * n) (i * n + n) (concat cs @ junk)) [0..<length cs]"
      using Cons.prems slice_chunk [where c = c and n = n and xs = "concat cs @ junk"] by (simp del: mult_Suc)
    finally show ?case using Cons by simp
  qed simp
qed

section \<open>Bounds\<close>

lemma fround_mono: "x \<le> y \<Longrightarrow> fround n x \<le> fround n y"
  unfolding fround_def
  by (intro rnd_mono divide_right_mono) (simp_all add: round_half_even_mono mult_right_mono)

lemma price_of_mono: "uint a \<le> uint b \<Longrightarrow> 0 < scale \<Longrightarrow> price_of a scale \<le> price_of b scale"
  unfolding price_of_def by (intro fround_mono fdiv_mono) (simp_all only: of_int_le_iff)

lemma scale_cases: "get_price_scale symbol = 1000 \<or> get_price_scale symbol = 100000"
  by (simp add: get_price_scale_def Let_def PRICE_SCALE_def PRICE_SCALE_JPY_def)

lemma price_of_bounds: "0 \<le> price_of w (get_price_scale symbol) \<and> price_of w (get_price_scale symbol) * get_price_scale symbol \<le> 4295000000"
proof -
  have "uint w \<le> uint (- 1 :: 32 word)" using uint_lt2p [of w] by (simp add: unsigned_minus_1_eq_mask mask_eq_exp_minus_1)
  then have "price_of w 1000 \<le> price_of (- 1) 1000" "price_of w 100000 \<le> price_of (- 1) 100000"
    by (simp_all add: price_of_mono)
  moreover have "price_of (- 1) 1000 \<le> 4295000" "price_of (- 1) 100000 \<le> 42950" by code_simp+
  moreover have "price_of 0 1000 = 0" "price_of 0 100000 = 0" by code_simp+
  then have "0 \<le> price_of w 1000" "0 \<le> price_of w 100000"
    using price_of_mono [of 0 w 1000] price_of_mono [of 0 w 100000] by simp_all
  ultimately show ?thesis using scale_cases [of symbol] by auto
qed

lemma decode_record_words:
  assumes "decode_record chunk scale day = Some r"
  obtains w where "\<not> is_empty_record w" "r = record_of scale day w"
  using assms that [of "(unpack_u32 (slice 0 4 chunk), unpack_u32 (slice 4 8 chunk), unpack_u32 (slice 8 12 chunk),
      unpack_u32 (slice 12 16 chunk), unpack_u32 (slice 16 20 chunk), unpack_u32 (slice 20 24 chunk))"]
  by (simp add: decode_record_def Let_def is_empty_record_def record_of_def split: if_splits)

section \<open>Properties\<close>

text \<open>C32. A file of packed records, with less than one record of junk at its end, is decoded record by
record and in order: the records that have an open or a high price, each with the time, the prices
and the volume that were packed.\<close>

theorem m1_file_roundtrip:
  assumes "5 \<le> length raw" "lzma raw = Some (concat (map pack_record rs) @ junk)" "length junk < 24"
  shows "decode_bi5_m1 lzma raw symbol day =
    map (record_of (get_price_scale symbol) day) (filter (\<lambda>r. \<not> is_empty_record r) rs)"
proof -
  let ?cs = "map pack_record rs" and ?s = "get_price_scale symbol"
  have len: "\<forall>c \<in> set ?cs. length c = 24" by auto
  note chunks = chunks_concat [OF len assms(3)]
  have "decode_bi5_m1 lzma raw symbol day =
      List.map_filter (\<lambda>c. decode_record c ?s day) (map (\<lambda>i. slice (i * 24) (i * 24 + 24) (concat ?cs @ junk)) [0..<length ?cs])"
    using assms(1,2) chunks(1) by (simp add: decode_bi5_m1_def Let_def RECORD_SIZE_M1_def map_filter_def filter_map comp_def)
  also have "\<dots> = List.map_filter (\<lambda>c. decode_record c ?s day) ?cs" by (simp only: chunks(2))
  also have "\<dots> = map (record_of ?s day) (filter (\<lambda>r. \<not> is_empty_record r) rs)"
    by (induction rs) (auto simp: map_filter_simps decode_pack_record)
  finally show ?thesis .
qed

lemma m1_file_roundtrip_witness:
  "decode_bi5_m1 (\<lambda>_. Some (pack_record (60, 110000, 110500, 109000, 110100, 0x3FC00000) @ [1])) [1, 2, 3, 4, 5] ''EURUSD'' 0 =
    [\<lparr>b_ts = 60, b_open = rnd (11 / 10), b_high = rnd (1105 / 1000), b_low = rnd (109 / 100), b_close = rnd (1101 / 1000),
      b_vol = Some (3 / 2)\<rparr>]"
proof -
  let ?r = "(60, 110000, 110500, 109000, 110100, 0x3FC00000) :: 32 word \<times> 32 word \<times> 32 word \<times> 32 word \<times> 32 word \<times> 32 word"
  have p: "price_of 110000 100000 = rnd (11 / 10)" "price_of 110500 100000 = rnd (1105 / 1000)"
    "price_of 109000 100000 = rnd (109 / 100)" "price_of 110100 100000 = rnd (1101 / 1000)"
    by code_simp+
  have s: "get_price_scale ''EURUSD'' = 100000" by code_simp
  have v: "map_option (fround 2) (f32_value 0x3FC00000) = Some (3 / 2)" by code_simp
  have "decode_bi5_m1 (\<lambda>_. Some (pack_record ?r @ [1])) [1, 2, 3, 4, 5] ''EURUSD'' 0 =
      map (record_of (get_price_scale ''EURUSD'') 0) (filter (\<lambda>r. \<not> is_empty_record r) [?r])"
    by (rule m1_file_roundtrip [where junk = "[1]"]) simp_all
  also have "\<dots> = [\<lparr>b_ts = 60, b_open = rnd (11 / 10), b_high = rnd (1105 / 1000), b_low = rnd (109 / 100), b_close = rnd (1101 / 1000),
      b_vol = Some (3 / 2)\<rparr>]"
    using p v by (simp add: record_of_def is_empty_record_def s)
  finally show ?thesis .
qed

text \<open>C33. Whatever the bytes, a decoded record lies within 2^32 seconds of its day, and its prices are not
negative and at most 42950 (4295000 for a yen pair); where the raw prices of the record are
ordered, the decoded ones are too.\<close>

theorem m1_prices_bounded:
  assumes "r \<in> set (decode_bi5_m1 lzma raw symbol day)"
  shows "(day \<le> b_ts r \<and> b_ts r < day + 2 ^ 32) \<and>
    (\<forall>p \<in> {b_open r, b_high r, b_low r, b_close r}. 0 \<le> p \<and> p * get_price_scale symbol \<le> 4295000000) \<and>
    (\<exists>ts op h l c v. r = record_of (get_price_scale symbol) day (ts, op, h, l, c, v) \<and> (op \<noteq> 0 \<or> h \<noteq> 0) \<and>
      (l \<le> h \<longrightarrow> b_low r \<le> b_high r) \<and> (l \<le> op \<and> op \<le> h \<longrightarrow> b_low r \<le> b_open r \<and> b_open r \<le> b_high r) \<and>
      (l \<le> c \<and> c \<le> h \<longrightarrow> b_low r \<le> b_close r \<and> b_close r \<le> b_high r))"
proof -
  let ?s = "get_price_scale symbol"
  have "\<exists>chunk. decode_record chunk ?s day = Some r"
    using assms by (auto simp: decode_bi5_m1_def Let_def set_map_filter split: if_splits option.splits)
  then obtain w where w: "\<not> is_empty_record w" "r = record_of ?s day w" by (metis decode_record_words)
  obtain ts op h l c v where e: "w = (ts, op, h, l, c, v)" by (metis prod_cases6)
  have s: "0 < ?s" using scale_cases [of symbol] by auto
  have mono: "price_of a ?s \<le> price_of b ?s" if "a \<le> b" for a b :: "32 word"
    using that s by (intro price_of_mono) (simp_all add: word_le_def)
  have ts: "uint ts < 2 ^ 32" using uint_lt2p [of ts] by simp
  have "day \<le> b_ts r \<and> b_ts r < day + 2 ^ 32" using ts by (simp add: w(2) e record_of_def)
  moreover have "\<forall>p \<in> {b_open r, b_high r, b_low r, b_close r}. 0 \<le> p \<and> p * ?s \<le> 4295000000"
    using price_of_bounds [of _ symbol] by (auto simp: w(2) e record_of_def)
  moreover have "r = record_of ?s day (ts, op, h, l, c, v) \<and> (op \<noteq> 0 \<or> h \<noteq> 0) \<and>
      (l \<le> h \<longrightarrow> b_low r \<le> b_high r) \<and> (l \<le> op \<and> op \<le> h \<longrightarrow> b_low r \<le> b_open r \<and> b_open r \<le> b_high r) \<and>
      (l \<le> c \<and> c \<le> h \<longrightarrow> b_low r \<le> b_close r \<and> b_close r \<le> b_high r)"
    using w mono by (simp add: e record_of_def is_empty_record_def)
  ultimately show ?thesis by blast
qed

lemma m1_prices_bounded_witness:
  fixes r :: m1_record
  defines "r \<equiv> hd (decode_bi5_m1 (\<lambda>b. Some b) (replicate 24 255) ''USDJPY'' 86400)"
  shows "b_ts r < 86400 + 2 ^ 32 \<and> 0 \<le> b_high r \<and> b_high r * get_price_scale ''USDJPY'' \<le> 4295000000"
proof -
  have "r \<in> set (decode_bi5_m1 (\<lambda>b. Some b) (replicate 24 255) ''USDJPY'' 86400)"
    unfolding r_def by (rule hd_in_set) code_simp
  from m1_prices_bounded [OF this] show ?thesis by simp
qed

end
