(* ===== verification/TickFeed_Props.thy ===== *)
theory TickFeed_Props
  imports TickFeed Bi5_Props Backfill_Props
begin

text \<open>
  The tick provider: candles are the first, highest, lowest and last bid of their minute; the
  cache does not change the result; and the provider meets what the backfill service asks of one,
  so a backfill over it stores every minute that has ticks.
\<close>

section \<open>Candles of ticks\<close>

definition bids :: "(int \<times> pfloat) list \<Rightarrow> int \<Rightarrow> pfloat list" where
  "bids ticks m = map snd (filter (\<lambda>t. fst t = m) ticks)"

lemma bids_simps [simp]:
  "bids [] m = []" "bids (xs @ ys) m = bids xs m @ bids ys m"
  "bids ((k, p) # ts) m = (if k = m then p # bids ts m else bids ts m)"
  by (simp_all add: bids_def)

lemma bucket_tick_get: "d_get (bucket_tick (k, p) d) m =
    (if m = k then Some ((case d_get d k of None \<Rightarrow> [] | Some ps \<Rightarrow> ps) @ [p]) else d_get d m)"
  by (auto simp: bucket_tick_def Let_def split: option.splits)

lemma buckets_get: "d_get (fold bucket_tick ticks d) m =
    (if bids ticks m = [] then d_get d m
     else Some ((case d_get d m of None \<Rightarrow> [] | Some ps \<Rightarrow> ps) @ bids ticks m))"
proof (induction ticks arbitrary: d)
  case (Cons t ticks)
  obtain k p where t: "t = (k, p)" by (cases t)
  show ?case by (auto simp: t Cons.IH bucket_tick_get split: option.splits)
qed simp

lemma buckets_wf: "dict_wf d \<Longrightarrow> dict_wf (fold bucket_tick ticks d)"
proof (induction ticks arbitrary: d)
  case (Cons t ticks)
  then show ?case by (cases t) (simp add: bucket_tick_def Let_def)
qed simp

lemma fold_extremes:
  fixes x :: "'a :: linorder"
  shows "fold max xs x = Max (insert x (set xs))" "fold min xs x = Min (insert x (set xs))"
  by (simp_all only: Max.set_eq_fold [symmetric] Min.set_eq_fold [symmetric] list.set(2) [symmetric])

text \<open>Open, high, low and close of the bids of a minute.\<close>

definition ohlc_of :: "pfloat list \<Rightarrow> ohlc" where
  "ohlc_of ps = (hd ps, Max (set ps), Min (set ps), last ps)"

lemma bucket_ohlc: "ps \<noteq> [] \<Longrightarrow> bucket_ohlc ps = ohlc_of ps"
proof -
  assume ne: "ps \<noteq> []"
  then have "insert (hd ps) (set (tl ps)) = set ps" by (cases ps) auto
  moreover have "hd ps \<le> Max (set ps)" "last ps \<le> Max (set ps)" "Min (set ps) \<le> hd ps" "Min (set ps) \<le> last ps"
    using ne by simp_all
  ultimately show ?thesis
    by (simp add: bucket_ohlc_def ohlc_of_def Let_def fold_extremes max_def min_def)
qed

lemma ticks_to_m1_get: "d_get (ticks_to_m1 ticks) m = (if bids ticks m = [] then None else Some (ohlc_of (bids ticks m)))"
proof -
  have "d_get (ticks_to_m1 ticks) m = map_option bucket_ohlc (d_get (fold bucket_tick ticks []) m)"
    unfolding ticks_to_m1_def map_of_map by simp
  then show ?thesis by (simp add: buckets_get bucket_ohlc)
qed

lemma ticks_to_m1_wf: "dict_wf (ticks_to_m1 ticks)"
  using buckets_wf [OF dict_wf_Nil, of ticks] by (simp add: ticks_to_m1_def dict_wf_def comp_def case_prod_unfold)

section \<open>The cache\<close>

text \<open>What the network answers for an hour, and the ticks it stands for.\<close>

definition hour_answer :: "tick_world \<Rightarrow> string \<Rightarrow> int \<Rightarrow> bytes option result" where
  "hour_answer w symbol hour = snd (tick_attempts (tw_env w) (tw_net w (tick_url symbol hour)) 0)"

definition hour_ticks :: "tick_world \<Rightarrow> string \<Rightarrow> int \<Rightarrow> (int \<times> pfloat) list result" where
  "hour_ticks w symbol hour = sbind (hour_answer w symbol hour) (\<lambda>a. Inr (case a of None \<Rightarrow> []
     | Some raw \<Rightarrow> decode_ticks (tw_lzma w) raw (hour * 3600 * 1000) (get_price_scale symbol)))"

text \<open>A cache holds only what the network answers.\<close>

definition coherent :: "tick_world \<Rightarrow> tick_cache \<Rightarrow> bool" where
  "coherent w cache \<longleftrightarrow>
     (\<forall>symbol hour data. d_get (tc_files cache) (cache_key symbol hour) = Some data \<and> data \<noteq> [] \<longrightarrow>
        hour_answer w symbol hour = Inr (Some data)) \<and>
     (\<forall>symbol hour. cache_key symbol hour \<in> set (tc_empty cache) \<longrightarrow> hour_answer w symbol hour = Inr None)"

definition empty_cache :: tick_cache where
  "empty_cache = \<lparr>tc_files = [], tc_empty = []\<rparr>"

lemma coherent_empty [simp]: "coherent w empty_cache"
  by (simp add: coherent_def empty_cache_def)

lemma same_key: "cache_key s h = cache_key s' h' \<Longrightarrow> hour_answer w s h = hour_answer w s' h'"
  by (simp add: cache_key_def hour_answer_def tick_url_def)

lemma fetch_hour_coherent:
  assumes "coherent w cache"
  shows "snd (fetch_hour w symbol hour cache) = hour_ticks w symbol hour" "coherent w (fst (fetch_hour w symbol hour cache))"
proof -
  let ?a = "hour_answer w symbol hour"
  have files: "load_cache cache symbol hour = Some raw \<Longrightarrow> ?a = Inr (Some raw)" for raw
    using assms by (auto simp: load_cache_def coherent_def split: option.splits if_splits)
  have marker: "cache_key symbol hour \<in> set (tc_empty cache) \<Longrightarrow> ?a = Inr None"
    using assms by (auto simp: coherent_def)
  have save: "coherent w (save_cache symbol hour raw cache)" if "?a = Inr (Some raw)" for raw
  proof -
    have "hour_answer w s h = Inr (Some data)" if "d_get (tc_files (save_cache symbol hour raw cache)) (cache_key s h) = Some data" "data \<noteq> []" for s h data
    proof (cases "cache_key s h = cache_key symbol hour")
      case True
      with that show ?thesis using \<open>?a = Inr (Some raw)\<close> same_key [OF True] by (simp add: save_cache_def)
    next
      case False
      with that assms show ?thesis by (simp add: save_cache_def coherent_def)
    qed
    moreover have "hour_answer w s h = Inr None" if "cache_key s h \<in> set (tc_empty (save_cache symbol hour raw cache))" for s h
      using assms that by (simp add: save_cache_def coherent_def)
    ultimately show ?thesis unfolding coherent_def by blast
  qed
  have mark: "coherent w (cache\<lparr>tc_empty := set_add (cache_key symbol hour) (tc_empty cache)\<rparr>)" if "?a = Inr None"
  proof -
    have "hour_answer w s h = Inr None" if "cache_key s h \<in> set (set_add (cache_key symbol hour) (tc_empty cache))" for s h
    proof (cases "cache_key s h = cache_key symbol hour")
      case True
      show ?thesis using \<open>?a = Inr None\<close> same_key [OF True] by simp
    next
      case False
      with that assms show ?thesis by (simp add: coherent_def)
    qed
    with assms show ?thesis unfolding coherent_def by simp
  qed
  show "snd (fetch_hour w symbol hour cache) = hour_ticks w symbol hour"
    using files marker
    by (auto simp: fetch_hour_def hour_ticks_def hour_answer_def [symmetric] Let_def split: option.splits sum.splits)
  show "coherent w (fst (fetch_hour w symbol hour cache))"
    using assms save mark
    by (auto simp: fetch_hour_def hour_answer_def [symmetric] Let_def split: option.splits sum.splits)
qed

lemma fetch_hours_coherent:
  "coherent w cache \<Longrightarrow> snd (fetch_hours w symbol hours cache) = fetch_m1_days (hour_ticks w symbol) hours \<and>
     coherent w (fst (fetch_hours w symbol hours cache))"
proof (induction hours arbitrary: cache)
  case (Cons h hs)
  obtain cache1 r where h: "fetch_hour w symbol h cache = (cache1, r)" by fastforce
  have r: "r = hour_ticks w symbol h" "coherent w cache1"
    using fetch_hour_coherent [OF Cons.prems, of symbol h] by (simp_all add: h)
  obtain cache2 r2 where hs: "fetch_hours w symbol hs cache1 = (cache2, r2)" by fastforce
  have r2: "r2 = fetch_m1_days (hour_ticks w symbol) hs" "coherent w cache2"
    using Cons.IH [OF r(2)] by (simp_all add: hs)
  show ?case
  proof (cases "hour_ticks w symbol h")
    case (Inl e)
    then show ?thesis using h r by simp
  next
    case (Inr ts)
    have eq: "fetch_m1_days (hour_ticks w symbol) (h # hs) = sbind r2 (\<lambda>rest. Inr (ts @ rest))"
      by (simp only: fetch_m1_days.simps Inr sbind_simps r2(1))
    have "fetch_hours w symbol (h # hs) cache = (cache2, sbind r2 (\<lambda>rest. Inr (ts @ rest)))"
      by (cases r2) (simp_all add: h hs r(1) Inr)
    then show ?thesis using eq r2(2) by (simp only: fst_conv snd_conv)
  qed
qed simp

definition day_ticks :: "tick_world \<Rightarrow> string \<Rightarrow> int \<Rightarrow> (int \<times> pfloat) list result" where
  "day_ticks w symbol day = fetch_m1_days (hour_ticks w symbol) (map (\<lambda>h. day * 24 + h) [0..23])"

lemma fetch_day_coherent:
  assumes "coherent w cache"
  shows "snd (fetch_day w symbol day cache) = sbind (day_ticks w symbol day) (\<lambda>ts. Inr (ticks_to_m1 ts))"
    "coherent w (fst (fetch_day w symbol day cache))"
proof -
  obtain cache1 r where h: "fetch_hours w symbol (map (\<lambda>h. day * 24 + h) [0..23]) cache = (cache1, r)" by fastforce
  then have r: "day_ticks w symbol day = r" "coherent w cache1"
    using fetch_hours_coherent [OF assms, of symbol "map (\<lambda>h. day * 24 + h) [0..23]"] by (simp_all only: day_ticks_def fst_conv snd_conv)
  show "snd (fetch_day w symbol day cache) = sbind (day_ticks w symbol day) (\<lambda>ts. Inr (ticks_to_m1 ts))"
    "coherent w (fst (fetch_day w symbol day cache))"
    unfolding fetch_day_def h r(1) using r(2) by (cases r; simp)+
qed

fun days_result :: "tick_world \<Rightarrow> string \<Rightarrow> int list \<Rightarrow> (int, ohlc) dict \<Rightarrow> (int, ohlc) dict result" where
  "days_result w symbol [] acc = Inr acc"
| "days_result w symbol (d # ds) acc =
     sbind (day_ticks w symbol d) (\<lambda>ts. days_result w symbol ds (fold (\<lambda>(k, v) d. d_set k v d) (ticks_to_m1 ts) acc))"

lemma fetch_days_coherent:
  "coherent w cache \<Longrightarrow> snd (fetch_days w symbol days acc cache) = days_result w symbol days acc \<and>
     coherent w (fst (fetch_days w symbol days acc cache))"
proof (induction days arbitrary: acc cache)
  case (Cons d ds)
  obtain cache1 r where d: "fetch_day w symbol d cache = (cache1, r)" by fastforce
  have r: "r = sbind (day_ticks w symbol d) (\<lambda>ts. Inr (ticks_to_m1 ts))" "coherent w cache1"
    using fetch_day_coherent [OF Cons.prems, of symbol d] by (simp_all add: d)
  show ?case
  proof (cases "day_ticks w symbol d")
    case (Inl e)
    then show ?thesis using r d by simp
  next
    case (Inr ts)
    then show ?thesis using r d Cons.IH [OF r(2)] by simp
  qed
qed simp

section \<open>Minutes\<close>

text \<open>The ticks of an hour's file lie in the hour.\<close>

definition well_timed :: "tick_world \<Rightarrow> string \<Rightarrow> bool" where
  "well_timed w symbol \<longleftrightarrow> (\<forall>hour ts. hour_ticks w symbol hour = Inr ts \<longrightarrow> (\<forall>t \<in> set ts. fst t div 3600 = hour))"

definition minute_bids :: "tick_world \<Rightarrow> string \<Rightarrow> int \<Rightarrow> pfloat list" where
  "minute_bids w symbol m = (case hour_ticks w symbol (m div 60) of Inl e \<Rightarrow> [] | Inr ts \<Rightarrow> bids ts (m * 60))"

lemma gather_Inr:
  "fetch_m1_days f ds = Inr xs \<Longrightarrow> (\<forall>d \<in> set ds. \<exists>ys. f d = Inr ys) \<and> xs = concat (map (\<lambda>d. projr (f d)) ds)"
  by (induction ds arbitrary: xs) (auto simp: sbind_eq_Inr)

lemma gather_mem: "fetch_m1_days f ds = Inr xs \<Longrightarrow> x \<in> set xs \<Longrightarrow> \<exists>d \<in> set ds. \<exists>ys. f d = Inr ys \<and> x \<in> set ys"
  by (induction ds arbitrary: xs) (auto simp: sbind_eq_Inr)

lemma gather_all: "\<forall>d \<in> set ds. \<exists>ys. f d = Inr ys \<Longrightarrow> \<exists>xs. fetch_m1_days f ds = Inr xs"
  by (induction ds) auto

lemma gather_fails: "d \<in> set ds \<Longrightarrow> f d = Inl e \<Longrightarrow> \<exists>e. fetch_m1_days f ds = Inl e"
proof (induction ds)
  case (Cons x xs)
  then show ?case by (cases "f x"; cases "fetch_m1_days f xs") auto
qed simp

lemma bids_concat: "bids (concat tss) m = concat (map (\<lambda>ts. bids ts m) tss)"
  by (induction tss) simp_all

lemma bids_empty_iff: "bids ts m = [] \<longleftrightarrow> m \<notin> fst ` set ts"
  by (auto simp: bids_def filter_empty_conv)

lemma concat_single:
  assumes "distinct xs" "\<And>x. x \<in> set xs \<Longrightarrow> x \<noteq> y \<Longrightarrow> f x = []"
  shows "concat (map f xs) = (if y \<in> set xs then f y else [])"
  using assms by (induction xs) auto

lemma day_bids:
  assumes wt: "well_timed w symbol" and t: "day_ticks w symbol day = Inr ts"
  shows "bids ts (m * 60) = (if m div 1440 = day then minute_bids w symbol m else [])"
proof -
  let ?hs = "map (\<lambda>h. day * 24 + h) [0..23]" and ?f = "\<lambda>h. bids (projr (hour_ticks w symbol h)) (m * 60)"
  note g = gather_Inr [OF t [unfolded day_ticks_def], THEN conjunct1] gather_Inr [OF t [unfolded day_ticks_def], THEN conjunct2]
  have outside: "?f h = []" if in_day: "h \<in> set ?hs" and other: "h \<noteq> m div 60" for h
  proof -
    obtain ys where ys: "hour_ticks w symbol h = Inr ys" using bspec [OF g(1) in_day] by blast
    then have "\<forall>t \<in> set ys. fst t div 3600 = h" using wt unfolding well_timed_def by blast
    moreover have "m * 60 div 3600 = m div 60" by simp
    ultimately have "m * 60 \<notin> fst ` set ys" using other by auto
    then show ?thesis by (simp add: ys bids_empty_iff)
  qed
  have mem: "x \<in> set ?hs \<longleftrightarrow> (\<exists>h \<in> {0..23}. x = day * 24 + h)" for x by (simp only: set_map set_upto image_iff)
  have dist: "distinct ?hs" by (simp only: distinct_map distinct_upto) (simp add: inj_on_def)
  have "m div 60 \<in> set ?hs \<longleftrightarrow> m div 1440 = day"
  proof -
    have "m div 60 div 24 = m div 1440" by (simp add: zdiv_zmult2_eq [symmetric])
    moreover have "m div 60 \<in> set ?hs \<longleftrightarrow> m div 60 div 24 = day"
    proof
      assume "m div 60 div 24 = day"
      then have "m div 60 = day * 24 + m div 60 mod 24" "0 \<le> m div 60 mod 24" "m div 60 mod 24 \<le> 23"
        using div_mult_mod_eq [of "m div 60" 24] pos_mod_bound [of 24 "m div 60"] by simp_all
      then show "m div 60 \<in> set ?hs" unfolding mem by (intro bexI [of _ "m div 60 mod 24"]) auto
    next
      assume "m div 60 \<in> set ?hs"
      then obtain h where h: "m div 60 = day * 24 + h" "0 \<le> h" "h \<le> 23" unfolding mem by auto
      show "m div 60 div 24 = day" unfolding h(1) using h(2,3) by simp
    qed
    ultimately show ?thesis by simp
  qed
  moreover have "?f (m div 60) = minute_bids w symbol m" if in_day: "m div 60 \<in> set ?hs"
  proof -
    obtain ys where "hour_ticks w symbol (m div 60) = Inr ys" using bspec [OF g(1) in_day] by blast
    then show ?thesis by (simp add: minute_bids_def)
  qed
  moreover have "bids ts (m * 60) = concat (map ?f ?hs)"
    by (simp only: g(2) bids_concat map_map comp_def)
  moreover have "concat (map ?f ?hs) = (if m div 60 \<in> set ?hs then ?f (m div 60) else [])"
    by (rule concat_single [OF dist outside])
  ultimately show ?thesis by presburger
qed

lemma get_fold_set:
  "dict_wf d \<Longrightarrow> d_get (fold (\<lambda>(k, v) e. d_set k v e) d acc) k = (case d_get d k of Some v \<Rightarrow> Some v | None \<Rightarrow> d_get acc k)"
proof -
  assume wf: "dict_wf d"
  then have "dict_wf (rev d)" by (simp add: dict_wf_def rev_map [symmetric])
  then have "map_of (rev d) k = map_of d k"
    using wf by (metis d_in_iff_get not_Some_eq set_rev)
  then show ?thesis by (simp add: d_get_fold_set)
qed

lemma days_result_get:
  assumes "well_timed w symbol" "days_result w symbol days acc = Inr d"
  shows "d_get d (m * 60) = (if m div 1440 \<in> set days \<and> minute_bids w symbol m \<noteq> []
      then Some (ohlc_of (minute_bids w symbol m)) else d_get acc (m * 60))"
    and "dict_wf acc \<Longrightarrow> dict_wf d"
proof -
  have "d_get d (m * 60) = (if m div 1440 \<in> set days \<and> minute_bids w symbol m \<noteq> []
      then Some (ohlc_of (minute_bids w symbol m)) else d_get acc (m * 60)) \<and> (dict_wf acc \<longrightarrow> dict_wf d)"
    using assms(2)
  proof (induction days arbitrary: acc)
    case (Cons day days)
    then obtain ts where ts: "day_ticks w symbol day = Inr ts"
      and rest: "days_result w symbol days (fold (\<lambda>(k, v) d. d_set k v d) (ticks_to_m1 ts) acc) = Inr d"
      by (auto simp: sbind_eq_Inr)
    from Cons.IH [OF rest] show ?case
      using dict_wf_fold_set [of acc "ticks_to_m1 ts"]
      by (auto simp: get_fold_set [OF ticks_to_m1_wf] ticks_to_m1_get day_bids [OF assms(1) ts])
  qed simp
  then show "d_get d (m * 60) = (if m div 1440 \<in> set days \<and> minute_bids w symbol m \<noteq> []
      then Some (ohlc_of (minute_bids w symbol m)) else d_get acc (m * 60))" "dict_wf acc \<Longrightarrow> dict_wf d"
    by simp_all
qed

lemma hour_ticks_aligned: "hour_ticks w symbol hour = Inr ts \<Longrightarrow> t \<in> set ts \<Longrightarrow> 60 dvd fst t"
proof -
  have d: "60 dvd fst t" if "t \<in> set (decode_ticks lzma raw e scale)" for lzma raw e scale
    using that by (cases "lzma raw") (auto simp: decode_ticks_def decode_tick_def Let_def)
  show "hour_ticks w symbol hour = Inr ts \<Longrightarrow> t \<in> set ts \<Longrightarrow> 60 dvd fst t"
    using d by (fastforce simp: hour_ticks_def sbind_eq_Inr split: option.splits)
qed

lemma day_ticks_aligned: "day_ticks w symbol day = Inr ts \<Longrightarrow> t \<in> set ts \<Longrightarrow> 60 dvd fst t"
proof -
  assume a: "day_ticks w symbol day = Inr ts" "t \<in> set ts"
  from gather_mem [OF a(1) [unfolded day_ticks_def] a(2)] obtain h ys where "hour_ticks w symbol h = Inr ys" "t \<in> set ys"
    by blast
  then show ?thesis by (rule hour_ticks_aligned)
qed

lemma days_result_aligned:
  "days_result w symbol days acc = Inr d \<Longrightarrow> \<forall>k. d_has acc k \<longrightarrow> 60 dvd k \<Longrightarrow> d_has d k \<Longrightarrow> 60 dvd k"
proof (induction days arbitrary: acc)
  case (Cons day days)
  then obtain ts where ts: "day_ticks w symbol day = Inr ts"
    and rest: "days_result w symbol days (fold (\<lambda>(k, v) d. d_set k v d) (ticks_to_m1 ts) acc) = Inr d"
    by (auto simp: sbind_eq_Inr)
  have "60 dvd k" if "d_has (fold (\<lambda>(k, v) d. d_set k v d) (ticks_to_m1 ts) acc) k" for k
  proof (cases "bids ts k = []")
    case True
    with that Cons.prems(2) show ?thesis by (simp add: get_fold_set [OF ticks_to_m1_wf] ticks_to_m1_get)
  next
    case False
    then show ?thesis using day_ticks_aligned [OF ts] by (auto simp: bids_empty_iff)
  qed
  with Cons.IH [OF rest] Cons.prems(3) show ?case by blast
qed auto

lemma map_result_map: "\<forall>x \<in> set xs. f x = Inr (g x) \<Longrightarrow> map_result f xs = Inr (map g xs)"
  by (induction xs) auto

definition candle_of_ticks :: "string \<Rightarrow> int \<times> ohlc \<Rightarrow> candle" where
  "candle_of_ticks symbol kv = (case kv of (k, op, h, l, c) \<Rightarrow>
     \<lparr>c_symbol = symbol, c_ts = utc_dt (k * second_us), c_open = op, c_high = h, c_low = l, c_close = c,
      c_volume = 0, c_closed = True\<rparr>)"

lemma tick_candle_ohlc: "ps \<noteq> [] \<Longrightarrow> tick_candle symbol (k, ohlc_of ps) = Inr (candle_of_ticks symbol (k, ohlc_of ps))"
  by (simp add: tick_candle_def candle_of_ticks_def ohlc_of_def Let_def candle_post_init_Inr candle_ok_def)

lemma timestamp_grid [simp]: "timestamp_int (grid m) = m * 60"
proof -
  have "m * minute_us = (m * 60) * second_us" by simp
  then show ?thesis by (simp only: grid_def timestamp_int_seconds)
qed

text \<open>The days a fetch of \<open>[a, b)\<close> reads.\<close>

definition day_range :: "int \<Rightarrow> int \<Rightarrow> int list" where
  "day_range a b = [a div 1440..(if b mod 1440 = 0 then b div 1440 else b div 1440 + 1) - 1]"

lemma day_range_mem: "a \<le> m \<Longrightarrow> m < b \<Longrightarrow> m div 1440 \<in> set (day_range a b)"
proof -
  assume a: "a \<le> m" "m < b"
  have "a div 1440 \<le> m div 1440" by (rule zdiv_mono1 [OF a(1)]) simp
  moreover have "m div 1440 \<le> b div 1440" using a by (intro zdiv_mono1) simp_all
  moreover have "m div 1440 \<noteq> b div 1440" if "b mod 1440 = 0"
  proof
    assume "m div 1440 = b div 1440"
    then have "b div 1440 * 1440 \<le> m" using div_mult_mod_eq [of m 1440] pos_mod_sign [of 1440 m] by linarith
    with that a(2) show False by (simp add: minus_mod_eq_div_mult [symmetric])
  qed
  ultimately show ?thesis by (auto simp: day_range_def)
qed

definition fold_minute :: "tzinfo \<Rightarrow> int \<Rightarrow> bool" where
  "fold_minute ny m = is_dst_fold ny (m * 60)"

lemma fetch_as_days:
  assumes "coherent w cache"
  shows "coherent w (fst (ticks_fetch_ohlcv w ny symbol (grid a) (grid b) cache))"
    "snd (ticks_fetch_ohlcv w ny symbol (grid a) (grid b) cache) =
      (case days_result w symbol (day_range a b) [] of
         Inl e \<Rightarrow> Inl (RuntimeError ''Bi5TicksBackfillProvider fetch error'')
       | Inr d \<Rightarrow> map_result (tick_candle (py_upper symbol))
           (filter (\<lambda>(k, _). \<not> (k < a * 60 \<or> k \<ge> b * 60) \<and> \<not> is_dst_fold ny k) (sort_key fst d)))"
proof -
  obtain cache1 r where f: "fetch_days w symbol (day_range a b) [] cache = (cache1, r)" by fastforce
  then have r: "r = days_result w symbol (day_range a b) []" "coherent w cache1"
    using fetch_days_coherent [OF assms, of symbol "day_range a b" "[]"] by simp_all
  have q: "x * 60 div 86400 = x div 1440" for x :: int
    using div_mult_mult2 [of 60 x 1440] by simp
  have e: "x * 60 > x div 1440 * 86400 \<longleftrightarrow> x mod 1440 \<noteq> 0" for x :: int
    using div_mult_mod_eq [of x 1440] pos_mod_sign [of 1440 x] by linarith
  have sixty: "x * 60 div 60 * 60 = x * 60" for x :: int by simp
  have days: "(if b div 1440 * 86400 < b * 60 then b div 1440 + 1 else b div 1440) =
      (if b mod 1440 = 0 then b div 1440 else b div 1440 + 1)"
    by (simp add: e)
  have "ticks_fetch_ohlcv w ny symbol (grid a) (grid b) cache =
      (case fetch_days w symbol (day_range a b) [] cache of
           (cache1, Inl e) \<Rightarrow> (cache1, Inl (RuntimeError ''Bi5TicksBackfillProvider fetch error''))
         | (cache1, Inr all_candles) \<Rightarrow>
             (cache1, map_result (tick_candle (py_upper symbol))
               (filter (\<lambda>(ts_min, _). \<not> (ts_min < a * 60 \<or> ts_min \<ge> b * 60) \<and> \<not> is_dst_fold ny ts_min)
                 (sort_key fst all_candles))))"
    by (simp only: ticks_fetch_ohlcv_def Let_def timestamp_grid day_range_def sixty q days)
  then show "coherent w (fst (ticks_fetch_ohlcv w ny symbol (grid a) (grid b) cache))"
    "snd (ticks_fetch_ohlcv w ny symbol (grid a) (grid b) cache) =
      (case days_result w symbol (day_range a b) [] of
         Inl e \<Rightarrow> Inl (RuntimeError ''Bi5TicksBackfillProvider fetch error'')
       | Inr d \<Rightarrow> map_result (tick_candle (py_upper symbol))
           (filter (\<lambda>(k, _). \<not> (k < a * 60 \<or> k \<ge> b * 60) \<and> \<not> is_dst_fold ny k) (sort_key fst d)))"
    unfolding f r(1) [symmetric] using r(2) by (simp_all split: sum.split)
qed

section \<open>A fetch\<close>

text \<open>The minutes of \<open>[a, b)\<close> a fetch returns, and their candles.\<close>

definition tick_minutes :: "tick_world \<Rightarrow> tzinfo \<Rightarrow> string \<Rightarrow> int \<Rightarrow> int \<Rightarrow> int list" where
  "tick_minutes w ny symbol a b = filter (\<lambda>m. minute_bids w symbol m \<noteq> [] \<and> \<not> fold_minute ny m) [a..b - 1]"

definition minute_candle :: "tick_world \<Rightarrow> string \<Rightarrow> int \<Rightarrow> candle" where
  "minute_candle w symbol m = candle_of_ticks (py_upper symbol) (m * 60, ohlc_of (minute_bids w symbol m))"

lemma days_answered:
  assumes "well_timed w symbol" "days_result w symbol (day_range a b) [] = Inr d"
  shows "map_result (tick_candle (py_upper symbol))
      (filter (\<lambda>(k, _). \<not> (k < a * 60 \<or> k \<ge> b * 60) \<and> \<not> is_dst_fold ny k) (sort_key fst d)) =
    Inr (map (minute_candle w symbol) (tick_minutes w ny symbol a b))"
proof -
  let ?P = "\<lambda>(k, v). \<not> (k < a * 60 \<or> k \<ge> b * 60) \<and> \<not> is_dst_fold ny k" and ?ms = "tick_minutes w ny symbol a b"
  let ?kv = "\<lambda>m. (m * 60, ohlc_of (minute_bids w symbol m))"
  have wf: "dict_wf d" by (rule days_result_get(2) [OF assms]) simp
  have al: "60 dvd k" if "d_has d k" for k
    using days_result_aligned [OF assms(2) _ that] by simp
  have get: "d_get d (m * 60) = (if m div 1440 \<in> set (day_range a b) \<and> minute_bids w symbol m \<noteq> []
      then Some (ohlc_of (minute_bids w symbol m)) else None)" for m
    using days_result_get(1) [OF assms, of m] by simp
  have mem: "(k, v) \<in> set (filter ?P (sort_key fst d)) \<longleftrightarrow> (k, v) \<in> set (map ?kv ?ms)" for k v
  proof
    assume "(k, v) \<in> set (filter ?P (sort_key fst d))"
    then have k: "d_get d k = Some v" "a * 60 \<le> k" "k < b * 60" "\<not> is_dst_fold ny k"
      by (auto simp: d_in_iff_get [OF wf])
    obtain m where m: "k = m * 60" using al [of k] k(1) by (auto elim!: dvdE)
    with k get [of m] show "(k, v) \<in> set (map ?kv ?ms)"
      by (force simp: tick_minutes_def fold_minute_def split: if_splits)
  next
    assume "(k, v) \<in> set (map ?kv ?ms)"
    then obtain m where m: "k = m * 60" "v = ohlc_of (minute_bids w symbol m)" "a \<le> m" "m < b"
      "minute_bids w symbol m \<noteq> []" "\<not> fold_minute ny m"
      by (auto simp: tick_minutes_def)
    with get [of m] day_range_mem [of a m b] show "(k, v) \<in> set (filter ?P (sort_key fst d))"
      by (simp add: d_in_iff_get [OF wf] fold_minute_def)
  qed
  have "sorted_wrt (<) (map fst (filter ?P (sort_key fst d)))"
    using sorted_wrt_filter [of "\<lambda>x y. fst x < fst y" "sort_key fst d" ?P] sort_key_fst_strict [OF wf]
    by (simp add: sorted_wrt_map)
  moreover have "sorted_wrt (<) (map fst (map ?kv ?ms))"
    using sorted_wrt_filter [of "(<)" "[a..b - 1]"] by (simp add: tick_minutes_def sorted_wrt_map comp_def)
  moreover have "set (filter ?P (sort_key fst d)) = set (map ?kv ?ms)"
  proof (rule set_eqI)
    fix x show "x \<in> set (filter ?P (sort_key fst d)) \<longleftrightarrow> x \<in> set (map ?kv ?ms)"
      using mem [of "fst x" "snd x"] by (simp only: prod.collapse)
  qed
  ultimately have "filter ?P (sort_key fst d) = map ?kv ?ms"
    by (rule strict_sorted_map_unique [where f = fst])
  moreover have "map_result (tick_candle (py_upper symbol)) (map ?kv ?ms) = Inr (map (candle_of_ticks (py_upper symbol)) (map ?kv ?ms))"
    by (rule map_result_map) (auto simp: tick_minutes_def tick_candle_ohlc)
  ultimately show ?thesis by (simp add: minute_candle_def comp_def)
qed

lemma days_result_fails:
  "d \<in> set days \<Longrightarrow> day_ticks w symbol d = Inl e \<Longrightarrow> \<exists>e. days_result w symbol days acc = Inl e"
proof (induction days arbitrary: acc)
  case (Cons x xs)
  then show ?case by (cases "day_ticks w symbol x") auto
qed simp

lemma days_result_ok:
  "\<forall>d \<in> set days. \<exists>ts. day_ticks w symbol d = Inr ts \<Longrightarrow> \<exists>r. days_result w symbol days acc = Inr r"
  by (induction days arbitrary: acc) auto

definition hours_of_day :: "int \<Rightarrow> int list" where
  "hours_of_day day = map (\<lambda>h. day * 24 + h) [0..23]"

lemma days_result_cases:
  "(\<exists>r. days_result w symbol days acc = Inr r) \<longleftrightarrow>
     (\<forall>d \<in> set days. \<forall>h \<in> set (hours_of_day d). \<exists>ts. hour_ticks w symbol h = Inr ts)"
proof
  assume "\<exists>r. days_result w symbol days acc = Inr r"
  then have "\<forall>d \<in> set days. \<exists>ts. day_ticks w symbol d = Inr ts"
    using days_result_fails by (metis sum.distinct(1) sum.exhaust)
  then show "\<forall>d \<in> set days. \<forall>h \<in> set (hours_of_day d). \<exists>ts. hour_ticks w symbol h = Inr ts"
    using gather_Inr [of "hour_ticks w symbol"] unfolding day_ticks_def hours_of_day_def by blast
next
  assume "\<forall>d \<in> set days. \<forall>h \<in> set (hours_of_day d). \<exists>ts. hour_ticks w symbol h = Inr ts"
  then show "\<exists>r. days_result w symbol days acc = Inr r"
    using gather_all [of _ "hour_ticks w symbol"] unfolding hours_of_day_def
    by (intro days_result_ok) (simp only: day_ticks_def, blast)
qed

section \<open>Properties\<close>

text \<open>C34. Fetching whole minutes \<open>[a, b)\<close> with a cache that holds only what the network answers, and
hour files whose ticks lie in their hour. If every hour of the days read is answered, the candles
are exactly those of the minutes of the range that have a tick and are not repeated by daylight
saving, in order: open, high, low and close are the first, highest, lowest and last bid of the
minute. If some hour fails, the fetch raises. The cache stays as good, and with an empty cache the
result is the same.\<close>

theorem tick_fetch_exact:
  fixes w :: tick_world and ny :: tzinfo and a b :: int
  assumes "coherent w cache" "well_timed w symbol"
  defines "r \<equiv> ticks_fetch_ohlcv w ny symbol (grid a) (grid b) cache"
    and "answered \<equiv> \<forall>d \<in> set (day_range a b). \<forall>h \<in> set (hours_of_day d). \<exists>ts. hour_ticks w symbol h = Inr ts"
  shows "coherent w (fst r) \<and>
    snd r = snd (ticks_fetch_ohlcv w ny symbol (grid a) (grid b) empty_cache) \<and>
    (answered \<longrightarrow> snd r = Inr (map (minute_candle w symbol) (tick_minutes w ny symbol a b))) \<and>
    (\<not> answered \<longrightarrow> snd r = Inl (RuntimeError ''Bi5TicksBackfillProvider fetch error''))"
proof -
  note f = fetch_as_days [OF assms(1), of ny symbol a b] and f0 = fetch_as_days(2) [OF coherent_empty, of w ny symbol a b]
  have "answered \<longleftrightarrow> (\<exists>d. days_result w symbol (day_range a b) [] = Inr d)"
    unfolding answered_def by (rule days_result_cases [symmetric])
  then show ?thesis unfolding r_def
    using f f0 days_answered [OF assms(2), of a b _ ny]
    by (cases "days_result w symbol (day_range a b) []") simp_all
qed

text \<open>A feed with one tick, one second into the third hour.\<close>

definition demo_feed :: tick_world where
  "demo_feed = \<lparr>tw_env = Map.empty,
     tw_net = (\<lambda>url _. if url = tick_url ''EURUSD'' 3
       then Http_ok 200 (pack_u32 1000 @ pack_u32 110002 @ pack_u32 110000 @ pack_u32 0 @ pack_u32 0) else Http_error 404 None),
     tw_lzma = Some, tw_clock = (\<lambda>_. 0)\<rparr>"

lemma demo_feed_ticks:
  "hour_ticks demo_feed symbol hour = Inr [] \<or>
   hour_ticks demo_feed symbol hour = Inr [(hour * 3600, fdiv 110000 (get_price_scale symbol))]"
proof -
  have d: "decode_ticks Some (pack_u32 1000 @ pack_u32 110002 @ pack_u32 110000 @ pack_u32 0 @ pack_u32 0) (hour * 3600 * 1000) s =
      [(hour * 3600, fdiv 110000 s)]" for s
  proof -
    have "(hour * 3600 * 1000 + 1000) div 1000 div 60 * 60 = hour * 3600"
    proof -
      have "(hour * 3600 * 1000 + 1000) div 1000 = 1 + (hour * 60) * 60" by simp
      then show ?thesis by (simp only: div_mult_self1) simp
    qed
    moreover have "slice 0 4 (pack_u32 1000 @ pack_u32 110002 @ pack_u32 110000 @ pack_u32 0 @ pack_u32 0) = pack_u32 1000"
      "slice 8 12 (pack_u32 1000 @ pack_u32 110002 @ pack_u32 110000 @ pack_u32 0 @ pack_u32 0) = pack_u32 110000"
      by (simp_all add: slice_def)
    moreover have "slice 0 20 (pack_u32 1000 @ pack_u32 110002 @ pack_u32 110000 @ pack_u32 0 @ pack_u32 0) =
        pack_u32 1000 @ pack_u32 110002 @ pack_u32 110000 @ pack_u32 0 @ pack_u32 0"
      by (simp add: slice_def)
    ultimately show ?thesis by (simp add: decode_ticks_def decode_tick_def TICK_SIZE_def Let_def)
  qed
  have a: "hour_answer demo_feed symbol hour = Inr None \<or> hour_answer demo_feed symbol hour =
      Inr (Some (pack_u32 1000 @ pack_u32 110002 @ pack_u32 110000 @ pack_u32 0 @ pack_u32 0))"
    by (simp add: hour_answer_def demo_feed_def tick_attempts.simps TICK_RETRY_ATTEMPTS_def pack_u32_def)
  have "tw_lzma demo_feed = Some" by (simp add: demo_feed_def)
  with a d show ?thesis by (auto simp: hour_ticks_def)
qed

lemma demo_feed_ok: "well_timed demo_feed symbol"
  unfolding well_timed_def
proof (intro allI impI ballI)
  fix hour ts t assume "hour_ticks demo_feed symbol hour = Inr ts" "t \<in> set ts"
  with demo_feed_ticks [of symbol hour] show "fst t div 3600 = hour" by auto
qed

lemma demo_feed_answers: "\<exists>ts. hour_ticks demo_feed symbol hour = Inr ts"
  using demo_feed_ticks [of symbol hour] by blast

lemma demo_feed_hours: "minute_bids demo_feed ''EURUSD'' 180 \<noteq> []" "hour_ticks demo_feed ''EURUSD'' 2 = Inr []"
proof -
  have "hour_ticks demo_feed ''EURUSD'' 3 \<noteq> Inr []"
    by (simp add: hour_ticks_def hour_answer_def demo_feed_def tick_attempts.simps TICK_RETRY_ATTEMPTS_def pack_u32_def
        decode_ticks_def TICK_SIZE_def)
  then show "minute_bids demo_feed ''EURUSD'' 180 \<noteq> []"
    using demo_feed_ticks [of "''EURUSD''" 3] by (auto simp: minute_bids_def)
  have "tick_url ''EURUSD'' 2 \<noteq> tick_url ''EURUSD'' 3" by code_simp
  then show "hour_ticks demo_feed ''EURUSD'' 2 = Inr []"
    by (simp add: hour_ticks_def hour_answer_def demo_feed_def tick_attempts.simps TICK_RETRY_ATTEMPTS_def)
qed

lemma demo_feed_minutes: "tick_minutes demo_feed utc ''EURUSD'' 175 185 = [180]"
proof -
  have f: "\<not> fold_minute utc m" for m
    by (simp add: fold_minute_def is_dst_fold_def astimezone_def)
  have "minute_bids demo_feed ''EURUSD'' m = []" if "m div 60 = 2" for m
    using demo_feed_hours(2) by (simp add: minute_bids_def that)
  moreover have "minute_bids demo_feed ''EURUSD'' m = []" if "m div 60 = 3" "m \<noteq> 180" for m
    using demo_feed_ticks [of "''EURUSD''" 3] that by (auto simp: minute_bids_def)
  moreover have "[175..184] = [175, 176, 177, 178, 179, 180, 181, 182, 183, 184 :: int]" by (simp add: upto.simps)
  ultimately show ?thesis using demo_feed_hours(1) by (simp add: tick_minutes_def f)
qed

lemma tick_fetch_exact_witness:
  "snd (ticks_fetch_ohlcv demo_feed utc ''EURUSD'' (grid 175) (grid 185) empty_cache) =
    Inr [minute_candle demo_feed ''EURUSD'' 180]"
proof -
  have "\<forall>d \<in> set (day_range 175 185). \<forall>h \<in> set (hours_of_day d). \<exists>ts. hour_ticks demo_feed ''EURUSD'' h = Inr ts"
    using demo_feed_answers by blast
  with tick_fetch_exact [OF coherent_empty demo_feed_ok, of utc "''EURUSD''" 175 185]
  show ?thesis by (simp add: demo_feed_minutes)
qed

section \<open>Backfilling from ticks\<close>

lemma day_range_sub: "a \<le> x \<Longrightarrow> y \<le> b \<Longrightarrow> set (day_range x y) \<subseteq> set (day_range a b)"
proof -
  have c: "(if z mod 1440 = 0 then z div 1440 else z div 1440 + 1) = (z + 1439) div 1440" for z :: int
  proof (cases "z mod 1440 = 0")
    case True
    then show ?thesis using int_div_pos_eq [of "z + 1439" 1440 "z div 1440" 1439] div_mult_mod_eq [of z 1440] by simp
  next
    case False
    then have "0 \<le> z mod 1440 - 1" "z mod 1440 - 1 < 1440"
      using pos_mod_sign [of 1440 z] pos_mod_bound [of 1440 z] by linarith+
    with False show ?thesis
      using int_div_pos_eq [of "z + 1439" 1440 "z div 1440 + 1" "z mod 1440 - 1"] div_mult_mod_eq [of z 1440] by simp
  qed
  assume "a \<le> x" "y \<le> b"
  then have "a div 1440 \<le> x div 1440" "(y + 1439) div 1440 \<le> (b + 1439) div 1440"
    by (simp_all add: zdiv_mono1)
  then show ?thesis unfolding day_range_def c by auto
qed

lemma minute_candle_good:
  assumes "m \<in> set (tick_minutes w ny symbol x y)"
  shows "good_candle (py_upper symbol) (minute_candle w symbol m) \<and> instant (minute_candle w symbol m) = m * minute_us \<and> x \<le> m \<and> m < y"
proof -
  have ne: "minute_bids w symbol m \<noteq> []" "x \<le> m" "m < y" using assms by (auto simp: tick_minutes_def)
  then have "candle_ok (minute_candle w symbol m)"
    using tick_candle_ohlc [OF ne(1), of "py_upper symbol" "m * 60"]
    by (simp add: tick_candle_def minute_candle_def candle_of_ticks_def ohlc_of_def candle_post_init_Inr Let_def)
  moreover have "c_symbol (minute_candle w symbol m) = py_upper symbol" "c_closed (minute_candle w symbol m)"
    "c_ts (minute_candle w symbol m) = utc_dt (m * 60 * second_us)"
    by (simp_all add: minute_candle_def candle_of_ticks_def ohlc_of_def)
  ultimately show ?thesis using ne by (auto simp: good_candle_def instant_def)
qed

lemma tick_provider_honest:
  assumes "coherent w cache" "well_timed w symb" "py_upper symb = symb"
  shows "honest (\<lambda>symbol s e. snd (ticks_fetch_ohlcv w ny symbol s e cache)) symb"
  unfolding honest_def
proof (intro allI impI ballI)
  fix x y cs c
  assume "snd (ticks_fetch_ohlcv w ny symb (grid x) (grid y) cache) = Inr cs" "c \<in> set cs"
  then obtain d where "days_result w symb (day_range x y) [] = Inr d"
    "map_result (tick_candle (py_upper symb))
      (filter (\<lambda>(k, _). \<not> (k < x * 60 \<or> k \<ge> y * 60) \<and> \<not> is_dst_fold ny k) (sort_key fst d)) = Inr cs"
    unfolding fetch_as_days(2) [OF assms(1)] by (auto split: sum.splits)
  then have "cs = map (minute_candle w symb) (tick_minutes w ny symb x y)"
    using days_answered [OF assms(2)] by simp
  with \<open>c \<in> set cs\<close> obtain m where "m \<in> set (tick_minutes w ny symb x y)" "c = minute_candle w symb m" by auto
  with minute_candle_good [of m w ny symb x y] assms(3)
  show "good_candle symb c \<and> instant c mod minute_us = 0 \<and> x \<le> minute_of c \<and> minute_of c < y"
    by (simp add: minute_of_def)
qed

lemma tick_provider_supplies:
  assumes "coherent w cache" "well_timed w symb"
    and "\<forall>d \<in> set (day_range a b). \<forall>h \<in> set (hours_of_day d). \<exists>ts. hour_ticks w symb h = Inr ts"
    and "m \<in> set (tick_minutes w ny symb a b)"
  shows "supplies (\<lambda>symbol s e. snd (ticks_fetch_ohlcv w ny symbol s e cache)) symb a b m"
  unfolding supplies_def
proof (intro allI impI)
  fix x y assume xy: "a \<le> x \<and> x \<le> m \<and> m < y \<and> y \<le> b"
  have "\<forall>d \<in> set (day_range x y). \<forall>h \<in> set (hours_of_day d). \<exists>ts. hour_ticks w symb h = Inr ts"
    using assms(3) day_range_sub [of a x y b] xy by blast
  then obtain d where "days_result w symb (day_range x y) [] = Inr d" using days_result_cases by metis
  from days_answered [OF assms(2) this, of ny] this
  have cs: "snd (ticks_fetch_ohlcv w ny symb (grid x) (grid y) cache) = Inr (map (minute_candle w symb) (tick_minutes w ny symb x y))"
    unfolding fetch_as_days(2) [OF assms(1)] by simp
  have m: "m \<in> set (tick_minutes w ny symb x y)" using assms(4) xy by (simp add: tick_minutes_def)
  then have "minute_of (minute_candle w symb m) = m"
    using minute_candle_good [OF m] by (simp add: minute_of_def)
  with cs m show "\<exists>cs. snd (ticks_fetch_ohlcv w ny symb (grid x) (grid y) cache) = Inr cs \<and> m \<in> minute_of ` set cs"
    by (force simp: image_image)
qed

text \<open>C35. Backfilling whole minutes \<open>[a, b)\<close> of a symbol of the CSV store from the tick provider never
raises and never alters a candle that was stored, nor anything outside the range or of another
symbol; and if the feed answers every hour of the days of the range, every minute of it that has a
tick and is not repeated by daylight saving is stored afterwards.\<close>

theorem backfill_from_ticks:
  fixes W :: "csv_files backfill_world" and w :: tick_world and ny :: tzinfo and a b :: int and cfg :: backfill_config
  assumes "files_ok (bw_store W)" "a < b" "b * minute_us \<le> month_start 119999 * day_us"
    and "\<forall>u. store_map (bw_store W) symb u \<noteq> None \<longrightarrow> u mod minute_us = 0"
    and "coherent w cache" "well_timed w symb" "py_upper symb = symb"
  defines "fetch \<equiv> (\<lambda>symbol s e. snd (ticks_fetch_ohlcv w ny symbol s e cache))"
  shows "\<exists>W' n. backfill_symbol (csv_ops now (\<lambda>_. True)) fetch (\<lambda>_ _ s. s) cfg now symb (Some (grid a)) (Some (grid b)) W = (W', Inr n) \<and>
    files_ok (bw_store W') \<and>
    (\<forall>y u. store_map (bw_store W) y u \<noteq> None \<or> y \<noteq> symb \<or> u < a * minute_us \<or> b * minute_us \<le> u \<longrightarrow>
       store_map (bw_store W') y u = store_map (bw_store W) y u) \<and>
    ((\<forall>d \<in> set (day_range a b). \<forall>h \<in> set (hours_of_day d). \<exists>ts. hour_ticks w symb h = Inr ts) \<longrightarrow>
      (\<forall>m \<in> set (tick_minutes w ny symb a b). store_map (bw_store W') symb (m * minute_us) \<noteq> None))"
proof -
  have h: "honest fetch symb" unfolding fetch_def by (rule tick_provider_honest [OF assms(5-7)])
  obtain W' n where W': "backfill_symbol (csv_ops now (\<lambda>_. True)) fetch (\<lambda>_ _ s. s) cfg now symb (Some (grid a)) (Some (grid b)) W = (W', Inr n)"
    "files_ok (bw_store W')"
    "\<forall>y u. store_map (bw_store W) y u \<noteq> None \<or> y \<noteq> symb \<or> u < a * minute_us \<or> b * minute_us \<le> u \<longrightarrow>
       store_map (bw_store W') y u = store_map (bw_store W) y u"
    "\<forall>m \<in> {a..<b}. supplies fetch symb a b m \<longrightarrow> store_map (bw_store W') symb (m * minute_us) \<noteq> None"
    using csv.backfill_contents [OF assms(1-3) h assms(4)] by blast
  have "m \<in> {a..<b}" if "m \<in> set (tick_minutes w ny symb a b)" for m using that by (auto simp: tick_minutes_def)
  with W'(4) tick_provider_supplies [OF assms(5,6), of a b _ ny, folded fetch_def]
  have "(\<forall>d \<in> set (day_range a b). \<forall>h \<in> set (hours_of_day d). \<exists>ts. hour_ticks w symb h = Inr ts) \<longrightarrow>
      (\<forall>m \<in> set (tick_minutes w ny symb a b). store_map (bw_store W') symb (m * minute_us) \<noteq> None)"
    by blast
  with W'(1-3) show ?thesis by blast
qed

lemma backfill_from_ticks_witness:
  "\<exists>W' n. backfill_symbol (csv_ops (utc_dt 0) (\<lambda>_. True)) (\<lambda>symbol s e. snd (ticks_fetch_ohlcv demo_feed utc symbol s e empty_cache))
      (\<lambda>_ _ s. s) \<lparr>bc_symbols = [''EURUSD''], bc_corrective_window = 5, bc_interval = 600\<rparr> (utc_dt 0) ''EURUSD''
      (Some (grid 175)) (Some (grid 185)) \<lparr>bw_store = [], bw_repair = repair_stats_init, bw_metrics = None\<rparr> = (W', Inr n) \<and>
     store_map (bw_store W') ''EURUSD'' (180 * minute_us) \<noteq> None"
proof -
  let ?W = "\<lparr>bw_store = [] :: csv_files, bw_repair = repair_stats_init, bw_metrics = None\<rparr>"
  have up: "py_upper ''EURUSD'' = ''EURUSD''" by code_simp
  have "files_ok (bw_store ?W)" "(175::int) < 185" "185 * minute_us \<le> month_start 119999 * day_us"
    "\<forall>u. store_map (bw_store ?W) ''EURUSD'' u \<noteq> None \<longrightarrow> u mod minute_us = 0"
    using early_horizon [of 185] by simp_all
  from backfill_from_ticks [OF this coherent_empty demo_feed_ok up, where ny = utc and now = "utc_dt 0" and
      cfg = "\<lparr>bc_symbols = [''EURUSD''], bc_corrective_window = 5, bc_interval = 600\<rparr>"]
  show ?thesis using demo_feed_answers by (simp add: demo_feed_minutes) blast
qed

text \<open>The provider over the daily files asks for the days from that of the start up to, but not
including, that of the end. A range inside one day is therefore always empty, whatever the
network would answer, and a gap inside one day is never filled from it.\<close>

theorem bi5_provider_misses_last_day:
  assumes "dt_day start = dt_day stop"
  shows "bi5_fetch_ohlcv net lzma symbol start stop = Inr [] \<and>
    (gap_start g = start \<and> gap_end g = stop \<longrightarrow>
      fill_gap ops (bi5_fetch_ohlcv net lzma) env symbol g st = (env symbol g (fst st), snd st))"
proof -
  have e: "bi5_fetch_ohlcv net lzma symbol start stop = Inr []"
    using assms by (simp add: bi5_fetch_ohlcv_def fetch_m1_range_def Let_def)
  then show ?thesis by (auto simp: fill_gap_def Let_def)
qed

lemma bi5_provider_misses_last_day_witness:
  "bi5_fetch_ohlcv (\<lambda>_ _. Http_ok 200 (pack_record (36000, 110000, 110500, 109000, 110100, 0))) Some ''EURUSD'' (utc_dt 0) (grid 1439) = Inr [] \<and>
   fetch_m1_range (\<lambda>_ _. Http_ok 200 (pack_record (36000, 110000, 110500, 109000, 110100, 0))) Some ''EURUSD'' 0 1 \<noteq> Inr []"
proof -
  have "dt_day (utc_dt 0) = dt_day (grid 1439)" by code_simp
  moreover have "fetch_m1_range (\<lambda>_ _. Http_ok 200 (pack_record (36000, 110000, 110500, 109000, 110100, 0))) Some ''EURUSD'' 0 1 \<noteq> Inr []"
    by code_simp
  ultimately show ?thesis using bi5_provider_misses_last_day [of "utc_dt 0" "grid 1439"] by blast
qed

end
