(* ===== verification/RawSync.thy ===== *)
theory RawSync
  imports Bi5 Config
begin

text \<open>
  The raw archive of the binary feed: the immutable store of one file a day,
  \<open>infrastructure/venues/dukascopy/raw_bi5_store.py\<close>, and the worker that fills it job by job under a
  lock file, \<open>raw_sync_worker.py\<close>. The file system maps paths to bytes. Writing a file is opening it,
  which empties it, and then one byte after the other, so that a write that stops leaves any part of
  its data; a rename is one step. Watermarks and jobs, which are written to a temporary file and
  renamed, are updated in one step. The hash function, the clock and what the network answers are
  parameters, and so is a disk that fails. Dates are day numbers.
\<close>

section \<open>The store\<close>

record manifest =
  mf_symbol :: string
  mf_date :: int
  mf_source_url :: string
  mf_bytes :: nat
  mf_sha256 :: string
  mf_downloaded_at :: string

record watermark =
  wm_last_complete_day :: "int option"
  wm_last_attempt_day :: "int option"
  wm_last_success_at :: "string option"
  wm_last_error :: "string option"

type_synonym day_key = "string \<times> int"

text \<open>The files in the directory of a day.\<close>

datatype day_file = Bi5File | Bi5Tmp | ManifestFile | ManifestTmp

type_synonym raw_path = "day_key \<times> day_file"

record raw_store =
  rs_files :: "(raw_path, bytes) dict"
  rs_watermark :: "(string, watermark) dict"

definition raw_store_empty :: raw_store where
  "raw_store_empty = \<lparr>rs_files = [], rs_watermark = []\<rparr>"

definition path_for_day :: "string \<Rightarrow> int \<Rightarrow> day_key" where
  "path_for_day symbol day = (norm_symbol symbol, day)"

definition path_bi5 :: "string \<Rightarrow> int \<Rightarrow> raw_path" where
  "path_bi5 symbol day = (path_for_day symbol day, Bi5File)"

definition exists_day :: "raw_store \<Rightarrow> string \<Rightarrow> int \<Rightarrow> bool" where
  "exists_day s symbol day = (case d_get (rs_files s) (path_bi5 symbol day) of None \<Rightarrow> False | Some data \<Rightarrow> data \<noteq> [])"

section \<open>Operations on files\<close>

datatype fs_op = Unlink raw_path | OpenEmpty raw_path | PutByte raw_path byte | Rename raw_path raw_path

fun fs_step :: "fs_op \<Rightarrow> raw_store \<Rightarrow> raw_store" where
  "fs_step (Unlink p) s = s\<lparr>rs_files := d_del p (rs_files s)\<rparr>"
| "fs_step (OpenEmpty p) s = s\<lparr>rs_files := d_set p [] (rs_files s)\<rparr>"
| "fs_step (PutByte p b) s =
     s\<lparr>rs_files := d_set p ((case d_get (rs_files s) p of None \<Rightarrow> [] | Some data \<Rightarrow> data) @ [b]) (rs_files s)\<rparr>"
| "fs_step (Rename p q) s = (case d_get (rs_files s) p of
       None \<Rightarrow> s
     | Some data \<Rightarrow> s\<lparr>rs_files := d_del p (d_set q data (rs_files s))\<rparr>)"

definition run_ops :: "fs_op list \<Rightarrow> raw_store \<Rightarrow> raw_store" where
  "run_ops ops s = fold fs_step ops s"

text \<open>\<open>write_bytes\<close>, and \<open>write_text\<close> of an ASCII text.\<close>

definition write_file :: "raw_path \<Rightarrow> bytes \<Rightarrow> fs_op list" where
  "write_file p data = OpenEmpty p # map (PutByte p) data"

definition ascii_bytes :: "string \<Rightarrow> bytes" where
  "ascii_bytes s = map of_char s"

section \<open>The manifest\<close>

text \<open>\<open>json.dumps\<close> of a text escapes what is not printable ASCII.\<close>

definition hex_digit :: "nat \<Rightarrow> char" where
  "hex_digit n = ''0123456789abcdef'' ! n"

definition json_char :: "char \<Rightarrow> string" where
  "json_char c =
     (let n = of_char c :: nat in
      if c = CHR 0x22 then [CHR 0x5C, CHR 0x22] else if c = CHR 0x5C then [CHR 0x5C, CHR 0x5C]
      else if n = 10 then CHR 0x5C # ''n'' else if n = 13 then CHR 0x5C # ''r'' else if n = 9 then CHR 0x5C # ''t''
      else if n = 12 then CHR 0x5C # ''f'' else if n = 8 then CHR 0x5C # ''b''
      else if n < 32 \<or> 126 < n then CHR 0x5C # ''u00'' @ [hex_digit (n div 16), hex_digit (n mod 16)]
      else [c])"

definition json_text :: "string \<Rightarrow> string" where
  "json_text s = CHR 0x22 # concat (map json_char s) @ [CHR 0x22]"

definition pad2 :: "int \<Rightarrow> string" where
  "pad2 n = (if n < 10 then CHR ''0'' # show_int n else show_int n)"

definition date_text :: "int \<Rightarrow> string" where
  "date_text date = (let (y, m, d) = ymd date in show_int y @ ''-'' @ pad2 m @ ''-'' @ pad2 d)"

definition manifest_text :: "manifest \<Rightarrow> string" where
  "manifest_text mf =
     (let entry = (\<lambda>key val. CHR 0x0A # ''  '' @ json_text key @ '': '' @ val)
      in ''{'' @ entry ''symbol'' (json_text (mf_symbol mf)) @ '','' @ entry ''date'' (json_text (date_text (mf_date mf))) @
         '','' @ entry ''source_url'' (json_text (mf_source_url mf)) @ '','' @ entry ''bytes'' (show_int (int (mf_bytes mf))) @
         '','' @ entry ''sha256'' (json_text (mf_sha256 mf)) @ '','' @ entry ''downloaded_at'' (json_text (mf_downloaded_at mf)) @
         [CHR 0x0A, CHR ''}''])"

section \<open>Writing a day\<close>

text \<open>A left-over temporary file is dropped; the file and then the manifest are written aside and renamed.\<close>

definition write_steps :: "day_key \<Rightarrow> bytes \<Rightarrow> manifest \<Rightarrow> fs_op list" where
  "write_steps k raw_bytes mf =
     Unlink (k, Bi5Tmp) # write_file (k, Bi5Tmp) raw_bytes @ Rename (k, Bi5Tmp) (k, Bi5File) #
     write_file (k, ManifestTmp) (ascii_bytes (manifest_text mf)) @ [Rename (k, ManifestTmp) (k, ManifestFile)]"

text \<open>The operations a write makes, and whether it wrote the day.\<close>

definition write_day_atomic ::
    "(bytes \<Rightarrow> string) \<Rightarrow> string \<Rightarrow> string \<Rightarrow> int \<Rightarrow> bytes \<Rightarrow> string \<Rightarrow> bool \<Rightarrow> raw_store \<Rightarrow> fs_op list \<times> bool" where
  "write_day_atomic sha256 now_iso symbol day raw_bytes source_url force s =
     (let k = path_for_day symbol day in
      if exists_day s symbol day \<and> \<not> force then ([], False)
      else if raw_bytes = [] then ([Unlink (k, Bi5Tmp)], False)
      else (write_steps k raw_bytes \<lparr>mf_symbol = py_upper symbol, mf_date = day, mf_source_url = source_url,
              mf_bytes = length raw_bytes, mf_sha256 = sha256 raw_bytes, mf_downloaded_at = now_iso\<rparr>, True))"

section \<open>Watermarks\<close>

definition no_watermark :: watermark where
  "no_watermark = \<lparr>wm_last_complete_day = None, wm_last_attempt_day = None, wm_last_success_at = None, wm_last_error = None\<rparr>"

definition read_watermark :: "raw_store \<Rightarrow> string \<Rightarrow> watermark" where
  "read_watermark s symbol = (case d_get (rs_watermark s) (norm_symbol symbol) of None \<Rightarrow> no_watermark | Some m \<Rightarrow> m)"

text \<open>An argument that is \<open>None\<close> keeps the stored value.\<close>

definition keep :: "'a option \<Rightarrow> 'a option \<Rightarrow> 'a option" where
  "keep new_value old = (case new_value of None \<Rightarrow> old | Some _ \<Rightarrow> new_value)"

definition write_watermark :: "string \<Rightarrow> watermark \<Rightarrow> raw_store \<Rightarrow> raw_store" where
  "write_watermark symbol given s =
     (let current = read_watermark s symbol in
      s\<lparr>rs_watermark := d_set (norm_symbol symbol)
        \<lparr>wm_last_complete_day = keep (wm_last_complete_day given) (wm_last_complete_day current),
         wm_last_attempt_day = keep (wm_last_attempt_day given) (wm_last_attempt_day current),
         wm_last_success_at = keep (wm_last_success_at given) (wm_last_success_at current),
         wm_last_error = keep (wm_last_error given) (wm_last_error current)\<rparr> (rs_watermark s)\<rparr>)"

section \<open>Jobs\<close>

datatype job_status = JOB_QUEUED | JOB_RUNNING | JOB_DONE | JOB_FAILED

record raw_job =
  rj_job_id :: string
  rj_status :: job_status
  rj_symbols :: "string list"
  rj_from_date :: int
  rj_to_date :: int
  rj_force :: bool
  rj_days_total :: int
  rj_days_done :: int
  rj_days_skipped :: int
  rj_days_failed :: int
  rj_last_error :: "string option"
  rj_failed_day_last :: "int option"
  rj_started_at :: string
  rj_updated_at :: string

definition days_in_range :: "int \<Rightarrow> int \<Rightarrow> int list" where
  "days_in_range from_d to_d = [from_d..to_d - 1]"

definition progress_pct :: "raw_job \<Rightarrow> pfloat" where
  "progress_pct job =
     (let total = (if rj_days_total job = 0 then 1 else rj_days_total job) in
      fround 1 (fdiv (fmul 100 (of_int (rj_days_done job + rj_days_skipped job + rj_days_failed job))) (of_int total)))"

text \<open>The worker's part of the file system: the archive, the persisted jobs, the lock file.\<close>

record raw_world =
  rw_store :: raw_store
  rw_jobs :: "(string, raw_job) dict"
  rw_locked :: bool

definition acquire_lock :: "raw_world \<Rightarrow> raw_world \<times> bool" where
  "acquire_lock w = (if rw_locked w then (w, False) else (w\<lparr>rw_locked := True\<rparr>, True))"

definition release_lock :: "raw_world \<Rightarrow> raw_world" where
  "release_lock w = w\<lparr>rw_locked := False\<rparr>"

definition persist_job :: "raw_job \<Rightarrow> raw_world \<Rightarrow> raw_world" where
  "persist_job job w = w\<lparr>rw_jobs := d_set (rj_job_id job) job (rw_jobs w)\<rparr>"

definition get_job :: "raw_world \<Rightarrow> string \<Rightarrow> raw_job option" where
  "get_job w job_id = d_get (rw_jobs w) job_id"

definition create_job ::
    "string \<Rightarrow> string \<Rightarrow> string list \<Rightarrow> int \<Rightarrow> int \<Rightarrow> bool \<Rightarrow> raw_world \<Rightarrow> raw_world \<times> raw_job" where
  "create_job job_id now_iso symbols from_date to_date force w =
     (let total = foldl (\<lambda>total _. total + int (length (days_in_range from_date to_date))) 0 symbols;
          job = \<lparr>rj_job_id = job_id, rj_status = JOB_QUEUED, rj_symbols = symbols, rj_from_date = from_date,
            rj_to_date = to_date, rj_force = force, rj_days_total = total, rj_days_done = 0, rj_days_skipped = 0,
            rj_days_failed = 0, rj_last_error = None, rj_failed_day_last = None, rj_started_at = now_iso,
            rj_updated_at = now_iso\<rparr>
      in (persist_job job w, job))"

text \<open>
  \<open>_download_day\<close>: the attempts of the worker around those of the downloader. An empty day and an
  exhausted retry are both \<open>None\<close>.
\<close>

fun download_day_attempts :: "(nat \<Rightarrow> network) \<Rightarrow> string \<Rightarrow> nat list \<Rightarrow> bytes option" where
  "download_day_attempts nets url [] = None"
| "download_day_attempts nets url (attempt # attempts) =
     (case download_bytes (nets attempt) url RETRY_ATTEMPTS of
        Inr data \<Rightarrow> data
      | Inl _ \<Rightarrow> download_day_attempts nets url attempts)"

record raw_inputs =
  ri_nets :: "string \<Rightarrow> int \<Rightarrow> nat \<Rightarrow> network"
  ri_sha256 :: "bytes \<Rightarrow> string"
  ri_now_iso :: string
  ri_retries :: nat
  ri_disk :: "string \<Rightarrow> int \<Rightarrow> nat option"

definition day_url :: "string \<Rightarrow> int \<Rightarrow> string" where
  "day_url symbol day = (let (y, m, d) = ymd day in build_m1_url symbol y m d)"

definition download_day :: "raw_inputs \<Rightarrow> string \<Rightarrow> int \<Rightarrow> bytes option" where
  "download_day ri symbol day = download_day_attempts (ri_nets ri symbol day) (day_url symbol day) [0..<ri_retries ri]"

text \<open>
  The body of the loop over the days of a symbol. The counts are those of the job. When the disk fails,
  \<open>ri_disk\<close> says after how many operations the write of the day stops with an exception, whose text stands for \<open>OSError\<close>.
\<close>

definition sync_day :: "raw_inputs \<Rightarrow> string \<Rightarrow> int \<Rightarrow> raw_world \<times> raw_job \<Rightarrow> (raw_world \<times> raw_job) \<times> unit result" where
  "sync_day ri sm day st =
     (let (w, job) = st in
      if rj_status job = JOB_FAILED then (st, Inr ())
      else if \<not> exists_day (rw_store w) sm day \<or> rj_force job
      then (case download_day ri sm day of
          None \<Rightarrow>
            (let job1 = job\<lparr>rj_days_failed := rj_days_failed job + 1, rj_last_error := Some (''Download failed: '' @ sm @ '' '' @ date_text day),
                   rj_failed_day_last := Some day, rj_updated_at := ri_now_iso ri\<rparr>
             in ((persist_job job1 w, job1), Inr ()))
        | Some raw \<Rightarrow>
            (let (ops, written) = write_day_atomic (ri_sha256 ri) (ri_now_iso ri) sm day raw (day_url sm day) (rj_force job) (rw_store w) in
             case ri_disk ri sm day of
               Some n \<Rightarrow> ((w\<lparr>rw_store := run_ops (take n ops) (rw_store w)\<rparr>, job), Inl (OtherError ''OSError''))
             | None \<Rightarrow>
                 (let store1 = run_ops ops (rw_store w);
                      store2 = (if written
                        then write_watermark sm \<lparr>wm_last_complete_day = Some day, wm_last_attempt_day = Some day,
                               wm_last_success_at = Some (ri_now_iso ri), wm_last_error = None\<rparr> store1
                        else store1);
                      job1 = (if written then job\<lparr>rj_days_done := rj_days_done job + 1\<rparr>
                              else job\<lparr>rj_days_skipped := rj_days_skipped job + 1\<rparr>)\<lparr>rj_updated_at := ri_now_iso ri\<rparr>
                  in ((persist_job job1 (w\<lparr>rw_store := store2\<rparr>), job1), Inr ()))))
      else
        (let job1 = job\<lparr>rj_days_skipped := rj_days_skipped job + 1, rj_updated_at := ri_now_iso ri\<rparr>
         in ((persist_job job1 w, job1), Inr ())))"

text \<open>The loops over symbols and days; an exception leaves both.\<close>

fun sync_loop :: "raw_inputs \<Rightarrow> (string \<times> int) list \<Rightarrow> raw_world \<times> raw_job \<Rightarrow> (raw_world \<times> raw_job) \<times> unit result" where
  "sync_loop ri [] st = (st, Inr ())"
| "sync_loop ri ((sm, day) # ds) st =
     (case sync_day ri sm day st of
        (st1, Inl e) \<Rightarrow> (st1, Inl e)
      | (st1, Inr u) \<Rightarrow> sync_loop ri ds st1)"

definition sync_days :: "raw_job \<Rightarrow> (string \<times> int) list" where
  "sync_days job = concat (map (\<lambda>symbol. map (Pair (norm_symbol symbol)) (days_in_range (rj_from_date job) (rj_to_date job)))
     (rj_symbols job))"

definition run_job :: "raw_inputs \<Rightarrow> string \<Rightarrow> raw_world \<Rightarrow> raw_world \<times> raw_job result" where
  "run_job ri job_id w =
     (case get_job w job_id of
        None \<Rightarrow> (w, Inl (ValueError ''Job not found''))
      | Some job \<Rightarrow>
          if rj_status job \<noteq> JOB_QUEUED \<and> rj_status job \<noteq> JOB_RUNNING then (w, Inr job)
          else (case acquire_lock w of
            (w1, False) \<Rightarrow>
              (let job1 = job\<lparr>rj_last_error := Some ''Another raw sync job is running (lock held)'',
                     rj_status := JOB_FAILED, rj_updated_at := ri_now_iso ri\<rparr>
               in (persist_job job1 w1, Inr job1))
          | (w1, True) \<Rightarrow>
              (let job1 = job\<lparr>rj_status := JOB_RUNNING, rj_updated_at := ri_now_iso ri\<rparr>;
                   ((w2, job2), outcome) = sync_loop ri (sync_days job1) (persist_job job1 w1, job1);
                   job3 = (case outcome of
                       Inr u \<Rightarrow> job2\<lparr>rj_status := JOB_DONE, rj_last_error := None, rj_updated_at := ri_now_iso ri\<rparr>
                     | Inl e \<Rightarrow> job2\<lparr>rj_status := JOB_FAILED, rj_last_error := Some ''OSError'', rj_updated_at := ri_now_iso ri\<rparr>)
               in (release_lock (persist_job job3 w2), Inr job3))))"

end
