(* ===== verification/RawSync_Props.thy ===== *)
theory RawSync_Props
  imports RawSync
begin

text \<open>
  The raw archive: a crash after any operation of a write leaves the old day or the new one, what a job
  stores and counts, also when it is resumed or the disk fails, and what a crash of the worker leaves behind.
\<close>

section \<open>Operations on files\<close>

lemma path_for_day_norm [simp]: "path_for_day (norm_symbol s) d = path_for_day s d"
  by (simp add: path_for_day_def)

fun op_paths :: "fs_op \<Rightarrow> raw_path set" where
  "op_paths (Unlink p) = {p}"
| "op_paths (OpenEmpty p) = {p}"
| "op_paths (PutByte p b) = {p}"
| "op_paths (Rename p q) = {p, q}"

lemma run_ops_simps [simp]: "run_ops [] s = s" "run_ops (f # fs) s = run_ops fs (fs_step f s)"
    "run_ops (fs @ gs) s = run_ops gs (run_ops fs s)"
  by (simp_all add: run_ops_def)

lemma fs_step_frame: "p \<notin> op_paths f \<Longrightarrow> d_get (rs_files (fs_step f s)) p = d_get (rs_files s) p"
  by (cases f) (auto split: option.split)

lemma run_ops_frame: "\<forall>f \<in> set fs. p \<notin> op_paths f \<Longrightarrow> d_get (rs_files (run_ops fs s)) p = d_get (rs_files s) p"
  by (induction fs arbitrary: s) (simp_all add: fs_step_frame)

lemma fs_step_watermark [simp]: "rs_watermark (fs_step f s) = rs_watermark s"
  by (cases f) (simp_all split: option.split)

lemma write_file_paths: "f \<in> set (write_file p data) \<Longrightarrow> op_paths f = {p}"
  by (auto simp: write_file_def)

lemma put_bytes: "d_get (rs_files s) p = Some pre \<Longrightarrow> d_get (rs_files (run_ops (map (PutByte p) data) s)) p = Some (pre @ data)"
  by (induction data arbitrary: s pre) simp_all

lemma write_file_content: "d_get (rs_files (run_ops (write_file p data) s)) p = Some data"
  using put_bytes [of "fs_step (OpenEmpty p) s" p "[]"] by (simp add: write_file_def)

lemma write_file_other: "q \<noteq> p \<Longrightarrow> d_get (rs_files (run_ops (take n (write_file p data)) s)) q = d_get (rs_files s) q"
  by (rule run_ops_frame) (auto dest: in_set_takeD write_file_paths)

lemma write_file_all: "d_get (rs_files (run_ops (write_file p data) s)) q = (if q = p then Some data else d_get (rs_files s) q)"
  using write_file_other [of q p "length (write_file p data)" data s] by (simp add: write_file_content)

lemma length_write_file [simp]: "length (write_file p data) = Suc (length data)"
  by (simp add: write_file_def)

section \<open>Writes\<close>

lemma length_write_steps: "length (write_steps k raw mf) = length raw + length (manifest_text mf) + 5"
  by (simp add: write_steps_def ascii_bytes_def)

text \<open>What a file that is not a temporary one holds after a crash, exactly.\<close>

lemma crash_content:
  assumes "snd p \<noteq> Bi5Tmp" "snd p \<noteq> ManifestTmp"
  shows "d_get (rs_files (run_ops (take n (write_steps k raw mf)) s)) p =
    (if p = (k, Bi5File) \<and> length raw + 2 < n then Some raw
     else if p = (k, ManifestFile) \<and> length (write_steps k raw mf) \<le> n then Some (ascii_bytes (manifest_text mf))
     else d_get (rs_files s) p)"
proof -
  let ?A = "Unlink (k, Bi5Tmp) # write_file (k, Bi5Tmp) raw" and ?B = "write_file (k, ManifestTmp) (ascii_bytes (manifest_text mf))"
  have ws: "write_steps k raw mf = ?A @ Rename (k, Bi5Tmp) (k, Bi5File) # ?B @ [Rename (k, ManifestTmp) (k, ManifestFile)]"
    by (simp add: write_steps_def)
  have tmp: "p \<noteq> (k, Bi5Tmp)" "p \<noteq> (k, ManifestTmp)" using assms by auto
  have A: "d_get (rs_files (run_ops (take n ?A) t)) p = d_get (rs_files t) p" for t
    by (rule run_ops_frame) (use tmp in \<open>auto dest!: in_set_takeD write_file_paths\<close>)
  define s1 where "s1 = fs_step (Rename (k, Bi5Tmp) (k, Bi5File)) (run_ops ?A s)"
  have s1: "d_get (rs_files s1) q = (if q = (k, Bi5Tmp) then None else if q = (k, Bi5File) then Some raw else d_get (rs_files s) q)" for q
    by (simp add: s1_def write_file_all)
  consider (a) "n \<le> length raw + 2" | (b) m where "n = length raw + 3 + m" "m \<le> length (manifest_text mf) + 1"
    | (c) "length (write_steps k raw mf) \<le> n"
  proof (cases "n \<le> length raw + 2 \<or> length (write_steps k raw mf) \<le> n")
    case True
    then show ?thesis using that(1,3) by blast
  next
    case False
    then have "n = length raw + 3 + (n - (length raw + 3))" "n - (length raw + 3) \<le> length (manifest_text mf) + 1"
      by (auto simp: length_write_steps)
    then show ?thesis using that(2) by blast
  qed
  then show ?thesis
  proof cases
    case a
    have "take n (write_steps k raw mf) = take n ?A" unfolding ws using a by (subst take_append) simp
    then show ?thesis using a A [of s] by (auto simp: length_write_steps)
  next
    case b
    have "take n (write_steps k raw mf) = ?A @ Rename (k, Bi5Tmp) (k, Bi5File) # take m ?B"
      unfolding ws using b by (subst take_append) (simp add: ascii_bytes_def)
    then have "run_ops (take n (write_steps k raw mf)) s = run_ops (take m ?B) s1" by (simp add: s1_def)
    then show ?thesis using b tmp write_file_other [OF tmp(2)] by (auto simp: s1 length_write_steps)
  next
    case c
    have "run_ops (write_steps k raw mf) s = fs_step (Rename (k, ManifestTmp) (k, ManifestFile)) (run_ops ?B s1)"
      by (simp add: ws s1_def)
    then show ?thesis using c tmp by (auto simp: s1 write_file_all length_write_steps)
  qed
qed

lemma write_steps_run: "snd p \<noteq> Bi5Tmp \<Longrightarrow> snd p \<noteq> ManifestTmp \<Longrightarrow>
    d_get (rs_files (run_ops (write_steps k raw mf) s)) p =
    (if p = (k, Bi5File) then Some raw else if p = (k, ManifestFile) then Some (ascii_bytes (manifest_text mf)) else d_get (rs_files s) p)"
  using crash_content [of p "length (write_steps k raw mf)" k raw mf s] by (simp add: length_write_steps)

lemma write_steps_clean: "d_get (rs_files (run_ops (write_steps k raw mf) s)) (k, Bi5Tmp) = None"
    "d_get (rs_files (run_ops (write_steps k raw mf) s)) (k, ManifestTmp) = None"
  by (simp_all add: write_steps_def write_file_all)

text \<open>The complete file of a day, and the files of a directory.\<close>

definition day_bytes :: "raw_store \<Rightarrow> day_key \<Rightarrow> bytes option" where
  "day_bytes s k = d_get (rs_files s) (k, Bi5File)"

definition day_manifest :: "raw_store \<Rightarrow> day_key \<Rightarrow> bytes option" where
  "day_manifest s k = d_get (rs_files s) (k, ManifestFile)"

lemma exists_day_bytes: "exists_day s symbol day \<longleftrightarrow> (\<exists>data. day_bytes s (path_for_day symbol day) = Some data \<and> data \<noteq> [])"
  by (auto simp: exists_day_def day_bytes_def path_bi5_def split: option.splits)

lemma write_watermark_files [simp]: "rs_files (write_watermark sm wm s) = rs_files s"
  by (simp add: write_watermark_def Let_def)

lemma crash_bytes:
  "day_bytes (run_ops (take n (write_steps k raw mf)) s) k' = (if k' = k \<and> length raw + 2 < n then Some raw else day_bytes s k')"
  by (simp add: day_bytes_def crash_content)

lemma write_bytes_done: "day_bytes (run_ops (write_steps k raw mf) s) k' = (if k' = k then Some raw else day_bytes s k')"
  by (simp add: day_bytes_def write_steps_run)

text \<open>C36. A write of a day, stopped after any number of its operations on files, of which each writes at most
one byte, leaves the file of the day as it was or complete, its manifest as it was or complete, and
every file of every other day as it was; a new manifest stands only beside the new file. Until the
file of the day is renamed, a later write decides as if the stopped one had never begun. Run to the
end the write leaves both files complete and no temporary file, whatever a stopped write had left
before. Stopped between the two renames it leaves the day without its new manifest, and since the day
exists, a later write without \<open>force\<close> does nothing.\<close>

theorem write_crash_safe:
  fixes s :: raw_store
  assumes "write_day_atomic sha now symbol day raw url force s = (ops, True)"
  defines "k \<equiv> path_for_day symbol day" and "crash \<equiv> (\<lambda>n. run_ops (take n ops) s)"
    and "entry \<equiv> ascii_bytes (manifest_text \<lparr>mf_symbol = py_upper symbol, mf_date = day, mf_source_url = url,
      mf_bytes = length raw, mf_sha256 = sha raw, mf_downloaded_at = now\<rparr>)"
  shows "day_bytes (crash n) k \<in> {day_bytes s k, Some raw} \<and>
    day_manifest (crash n) k \<in> {day_manifest s k, Some entry} \<and>
    (day_manifest (crash n) k \<noteq> day_manifest s k \<longrightarrow> day_bytes (crash n) k = Some raw) \<and>
    (k' \<noteq> k \<longrightarrow> d_get (rs_files (crash n)) (k', file) = d_get (rs_files s) (k', file)) \<and>
    (n < length raw + 3 \<longrightarrow> day_bytes (crash n) k = day_bytes s k \<and>
      write_day_atomic sha' now' symbol day raw' url' force' (crash n) = write_day_atomic sha' now' symbol day raw' url' force' s) \<and>
    (let done = run_ops ops s in
      day_bytes done k = Some raw \<and> day_manifest done k = Some entry \<and>
      d_get (rs_files done) (k, Bi5Tmp) = None \<and> d_get (rs_files done) (k, ManifestTmp) = None) \<and>
    (day_bytes (crash (length raw + 3)) k = Some raw \<and> day_manifest (crash (length raw + 3)) k = day_manifest s k \<and>
      write_day_atomic sha' now' symbol day raw' url' False (crash (length raw + 3)) = ([], False))"
proof -
  define mf where "mf = \<lparr>mf_symbol = py_upper symbol, mf_date = day, mf_source_url = url,
      mf_bytes = length raw, mf_sha256 = sha raw, mf_downloaded_at = now\<rparr>"
  have raw: "raw \<noteq> []" and ops: "ops = write_steps k raw mf"
    using assms(1) by (auto simp: write_day_atomic_def k_def mf_def Let_def split: if_splits)
  have ent: "entry = ascii_bytes (manifest_text mf)" by (simp add: entry_def mf_def)
  have bi5: "day_bytes (crash m) k = (if length raw + 2 < m then Some raw else day_bytes s k)" for m
    by (simp add: crash_def ops crash_bytes)
  have man: "day_manifest (crash m) k = (if length ops \<le> m then Some entry else day_manifest s k)" for m
    by (simp add: crash_def ops crash_content day_manifest_def ent)
  have len: "length raw + 3 < length ops" by (simp add: ops length_write_steps)
  have others: "k' \<noteq> k \<Longrightarrow> d_get (rs_files (crash n)) (k', file) = d_get (rs_files s) (k', file)"
    unfolding crash_def ops
    by (rule run_ops_frame) (auto simp: write_steps_def dest!: in_set_takeD write_file_paths)
  have again: "exists_day (crash m) symbol day = exists_day s symbol day" if "m < length raw + 3" for m
    using that bi5 [of m] by (simp add: exists_day_bytes k_def)
  have redo: "write_day_atomic sha' now' symbol day raw' url' force' (crash m) = write_day_atomic sha' now' symbol day raw' url' force' s"
    if "m < length raw + 3" for m using again [OF that] by (simp add: write_day_atomic_def)
  have "exists_day (crash (length raw + 3)) symbol day"
    using raw bi5 [of "length raw + 3"] by (simp add: exists_day_bytes k_def)
  then have stuck: "write_day_atomic sha' now' symbol day raw' url' False (crash (length raw + 3)) = ([], False)"
    by (simp add: write_day_atomic_def Let_def)
  have fin: "day_bytes (run_ops ops s) k = Some raw" "day_manifest (run_ops ops s) k = Some entry"
      "d_get (rs_files (run_ops ops s)) (k, Bi5Tmp) = None" "d_get (rs_files (run_ops ops s)) (k, ManifestTmp) = None"
    by (simp_all add: ops day_bytes_def day_manifest_def write_steps_run write_steps_clean ent)
  show ?thesis unfolding Let_def
    using bi5 [of n] man [of n] bi5 [of "length raw + 3"] man [of "length raw + 3"] len others redo [of n] stuck fin
    by (auto simp del: One_nat_def)
qed

text \<open>A write that stops after the first of two bytes, over the rest of an older one.\<close>

lemma write_crash_safe_witness:
  fixes s :: raw_store
  defines "s \<equiv> \<lparr>rs_files = [(((''EURUSD'', 7), Bi5Tmp), [9, 9, 9])], rs_watermark = []\<rparr>"
  shows "\<exists>ops. write_day_atomic (\<lambda>_. ''sha'') ''now'' ''eurusd'' 7 [1, 2] ''url'' False s = (ops, True) \<and>
     d_get (rs_files (run_ops (take 3 ops) s)) ((''EURUSD'', 7), Bi5Tmp) = Some [1] \<and>
     day_bytes (run_ops (take 3 ops) s) (''EURUSD'', 7) = None \<and>
     day_bytes (run_ops ops s) (''EURUSD'', 7) = Some [1, 2]"
proof -
  have k: "path_for_day ''eurusd'' 7 = (''EURUSD'', 7)" by code_simp
  obtain mf where w: "write_day_atomic (\<lambda>_. ''sha'') ''now'' ''eurusd'' 7 [1, 2] ''url'' False s = (write_steps (''EURUSD'', 7) [1, 2] mf, True)"
    by (simp add: write_day_atomic_def Let_def exists_day_def s_def path_bi5_def k)
  note safe = write_crash_safe [OF w, where n = 3 and k' = "(''EURUSD'', 8)"]
  have "d_get (rs_files (run_ops (take 3 (write_steps (''EURUSD'', 7) [1, 2] mf)) s)) ((''EURUSD'', 7), Bi5Tmp) = Some [1]"
    by (simp add: write_steps_def write_file_def take_Cons' s_def)
  moreover have "day_bytes s (''EURUSD'', 7) = None" by (simp add: s_def day_bytes_def)
  ultimately show ?thesis using w safe by (auto simp: k Let_def)
qed

section \<open>Jobs\<close>

lemma download_attempts_nonempty: "download_attempts replies as = Inr (Some data) \<Longrightarrow> data \<noteq> []"
  by (induction replies as rule: download_attempts.induct) (auto split: http_reply.splits if_splits)

lemma download_day_nonempty: "download_day ri sm day = Some data \<Longrightarrow> data \<noteq> []"
proof -
  have "download_day_attempts nets url as = Some data \<Longrightarrow> data \<noteq> []" for nets url as
    by (induction as) (auto simp: download_bytes_def download_attempts_nonempty split: sum.splits)
  then show "download_day ri sm day = Some data \<Longrightarrow> data \<noteq> []" by (simp add: download_day_def)
qed

text \<open>The days a job finds missing and cannot download.\<close>

definition undeliverable :: "raw_inputs \<Rightarrow> raw_store \<Rightarrow> string \<times> int \<Rightarrow> bool" where
  "undeliverable ri s k \<longleftrightarrow> \<not> exists_day s (fst k) (snd k) \<and> download_day ri (fst k) (snd k) = None"

definition job_frame :: "raw_job \<Rightarrow> raw_job \<Rightarrow> bool" where
  "job_frame job job' \<longleftrightarrow> rj_job_id job' = rj_job_id job \<and> rj_status job' = rj_status job \<and> rj_force job' = rj_force job \<and>
     rj_days_total job' = rj_days_total job"

lemma job_frame_trans: "job_frame a b \<Longrightarrow> job_frame b c \<Longrightarrow> job_frame a c"
  by (simp add: job_frame_def)

definition job_count :: "raw_job \<Rightarrow> int" where
  "job_count job = rj_days_done job + rj_days_skipped job + rj_days_failed job"

text \<open>The days whose file a write cannot complete: there is something to write and the disk fails.\<close>

definition to_store :: "raw_inputs \<Rightarrow> raw_store \<Rightarrow> string \<times> int \<Rightarrow> bool" where
  "to_store ri s k \<longleftrightarrow> \<not> exists_day s (fst k) (snd k) \<and> download_day ri (fst k) (snd k) \<noteq> None"

definition passes :: "raw_inputs \<Rightarrow> raw_store \<Rightarrow> string \<times> int \<Rightarrow> bool" where
  "passes ri s k \<longleftrightarrow> \<not> to_store ri s k \<or> ri_disk ri (fst k) (snd k) = None"

lemma write_day_missing:
  assumes "\<not> exists_day s sm day" "raw \<noteq> []" "norm_symbol sm = sm"
  obtains mf where "write_day_atomic sha now sm day raw url False s = (write_steps (sm, day) raw mf, True)"
  using assms by (simp add: write_day_atomic_def Let_def path_for_day_def)

lemma sync_day_step:
  assumes "sync_day ri sm day (w, job) = ((w', job'), r)" "rj_status job \<noteq> JOB_FAILED" "\<not> rj_force job" "norm_symbol sm = sm"
    and "passes ri (rw_store w) (sm, day)"
  shows "r = Inr ()" "job_frame job job'" "job_count job' = job_count job + 1" "rw_locked w' = rw_locked w"
    "rj_days_failed job' = rj_days_failed job + (if undeliverable ri (rw_store w) (sm, day) then 1 else 0)"
    "day_bytes (rw_store w') k =
      (if k = (sm, day) \<and> to_store ri (rw_store w) k then download_day ri sm day else day_bytes (rw_store w) k)"
proof -
  have "r = Inr () \<and> job_frame job job' \<and> job_count job' = job_count job + 1 \<and> rw_locked w' = rw_locked w \<and>
    rj_days_failed job' = rj_days_failed job + (if undeliverable ri (rw_store w) (sm, day) then 1 else 0) \<and>
    day_bytes (rw_store w') k =
      (if k = (sm, day) \<and> to_store ri (rw_store w) k then download_day ri sm day else day_bytes (rw_store w) k)"
  proof -
    consider (stored) "exists_day (rw_store w) sm day" | (gone) "\<not> exists_day (rw_store w) sm day" "download_day ri sm day = None"
      | (got) raw where "\<not> exists_day (rw_store w) sm day" "download_day ri sm day = Some raw" by blast
    then show ?thesis
    proof cases
      case got
      then have "raw \<noteq> []" by (simp add: download_day_nonempty)
      then obtain mf where "write_day_atomic (ri_sha256 ri) (ri_now_iso ri) sm day raw (day_url sm day) False (rw_store w) =
          (write_steps (sm, day) raw mf, True)"
        using got(1) assms(4) write_day_missing by blast
      moreover have "ri_disk ri sm day = None" using assms(5) got by (simp add: passes_def to_store_def)
      ultimately show ?thesis using assms(1-3) got
        by (auto simp: sync_day_def job_frame_def job_count_def persist_job_def undeliverable_def
            write_bytes_done day_bytes_def [of "write_watermark sm wm s" for wm s] day_bytes_def [symmetric] to_store_def Let_def)
    qed (use assms in \<open>auto simp: sync_day_def job_frame_def job_count_def persist_job_def undeliverable_def to_store_def Let_def\<close>)
  qed
  then show "r = Inr ()" "job_frame job job'" "job_count job' = job_count job + 1" "rw_locked w' = rw_locked w"
    "rj_days_failed job' = rj_days_failed job + (if undeliverable ri (rw_store w) (sm, day) then 1 else 0)"
    "day_bytes (rw_store w') k =
      (if k = (sm, day) \<and> to_store ri (rw_store w) k then download_day ri sm day else day_bytes (rw_store w) k)"
    by blast+
qed

lemma sync_day_fails:
  assumes "sync_day ri sm day (w, job) = ((w', job'), r)" "rj_status job \<noteq> JOB_FAILED" "\<not> rj_force job" "norm_symbol sm = sm"
    and "\<not> passes ri (rw_store w) (sm, day)"
  shows "r = Inl (OtherError ''OSError'')" "job' = job" "rw_locked w' = rw_locked w"
    "day_bytes (rw_store w') k \<in> {day_bytes (rw_store w) k, if k = (sm, day) then download_day ri sm day else day_bytes (rw_store w) k}"
proof -
  obtain raw n where d: "\<not> exists_day (rw_store w) sm day" "download_day ri sm day = Some raw" "ri_disk ri sm day = Some n"
    using assms(5) by (auto simp: passes_def to_store_def)
  then have "raw \<noteq> []" by (simp add: download_day_nonempty)
  then obtain mf where "write_day_atomic (ri_sha256 ri) (ri_now_iso ri) sm day raw (day_url sm day) False (rw_store w) =
      (write_steps (sm, day) raw mf, True)"
    using d(1) assms(4) write_day_missing by blast
  then have s: "sync_day ri sm day (w, job) =
      ((w\<lparr>rw_store := run_ops (take n (write_steps (sm, day) raw mf)) (rw_store w)\<rparr>, job), Inl (OtherError ''OSError''))"
    using assms(2,3) d by (simp add: sync_day_def Let_def)
  show "r = Inl (OtherError ''OSError'')" "job' = job" "rw_locked w' = rw_locked w" using s assms(1) by auto
  show "day_bytes (rw_store w') k \<in> {day_bytes (rw_store w) k, if k = (sm, day) then download_day ri sm day else day_bytes (rw_store w) k}"
    using s assms(1) d(2) by (auto simp: crash_bytes)
qed

text \<open>What the loop leaves: the days before the one it stops at, and that one.\<close>

definition day_after :: "raw_inputs \<Rightarrow> raw_store \<Rightarrow> (string \<times> int) list \<Rightarrow> day_key \<Rightarrow> bytes option" where
  "day_after ri s ds k = (if k \<in> set ds \<and> to_store ri s k then download_day ri (fst k) (snd k) else day_bytes s k)"

lemma sync_loop_run:
  assumes "sync_loop ri ds (w, job) = ((w', job'), r)"
    and "rj_status job \<noteq> JOB_FAILED" "\<not> rj_force job" "\<forall>k \<in> set ds. norm_symbol (fst k) = fst k"
  defines "gone \<equiv> takeWhile (passes ri (rw_store w)) ds"
  shows "r = (if gone = ds then Inr () else Inl (OtherError ''OSError'')) \<and> job_frame job job' \<and>
    job_count job' = job_count job + int (length gone) \<and> rw_locked w' = rw_locked w \<and>
    rj_days_failed job' = rj_days_failed job + int (length (filter (undeliverable ri (rw_store w)) gone)) \<and>
    (\<forall>k. day_bytes (rw_store w') k \<in> {day_after ri (rw_store w) gone k, day_after ri (rw_store w) ds k} \<and>
      (\<not> passes ri (rw_store w) k \<and> k \<in> set ds \<or> day_bytes (rw_store w') k = day_after ri (rw_store w) gone k))"
  using assms(1-4) unfolding gone_def
proof (induction ds arbitrary: w job)
  case Nil
  then show ?case by (simp add: job_frame_def day_after_def)
next
  case (Cons d ds)
  obtain sm day where d: "d = (sm, day)" by (cases d)
  obtain w1 job1 r1 where s1: "sync_day ri sm day (w, job) = ((w1, job1), r1)" by (metis prod.collapse)
  have nsm: "norm_symbol sm = sm" using Cons.prems(4) by (simp add: d)
  let ?s = "rw_store w"
  show ?case
  proof (cases "passes ri ?s d")
    case False
    note f = sync_day_fails [OF s1 Cons.prems(2,3) nsm False [unfolded d]]
    have st: "to_store ri ?s (sm, day)" using False by (simp add: passes_def d)
    have "w' = w1" "job' = job" "r = Inl (OtherError ''OSError'')" using Cons.prems(1) s1 f(1,2) by (simp_all add: d)
    moreover have "day_bytes (rw_store w1) k \<in> {day_bytes ?s k, day_after ri ?s (d # ds) k} \<and>
        (\<not> passes ri ?s k \<and> k \<in> set (d # ds) \<or> day_bytes (rw_store w1) k = day_bytes ?s k)" for k
      using f(4) [of k] False st by (auto simp: day_after_def d split: if_splits)
    ultimately show ?thesis using False f(3) by (simp add: job_frame_def day_after_def)
  next
    case True
    note one = sync_day_step [OF s1 Cons.prems(2,3) nsm True [unfolded d]]
    have rest: "sync_loop ri ds (w1, job1) = ((w', job'), r)" using Cons.prems(1) s1 one(1) by (simp add: d)
    have f: "rj_status job1 \<noteq> JOB_FAILED" "\<not> rj_force job1" "\<forall>k \<in> set ds. norm_symbol (fst k) = fst k"
      using one(2) Cons.prems(2-4) by (simp_all add: job_frame_def)
    note IH = Cons.IH [OF rest f]
    have ex: "exists_day (rw_store w1) (fst k) (snd k) \<longleftrightarrow> exists_day ?s (fst k) (snd k) \<or> k = (sm, day) \<and> to_store ri ?s k"
      if "k \<in> set ds" for k
    proof -
      have "path_for_day (fst k) (snd k) = k" using that f(3) by (cases k) (auto simp: path_for_day_def)
      then show ?thesis using one(6) [of k] download_day_nonempty [of ri sm day]
        by (auto simp: exists_day_bytes to_store_def)
    qed
    have same: "passes ri (rw_store w1) k = passes ri ?s k" "undeliverable ri (rw_store w1) k = undeliverable ri ?s k"
        "to_store ri (rw_store w1) k \<longleftrightarrow> to_store ri ?s k \<and> k \<noteq> (sm, day)"
      if "k \<in> set ds" for k
      using ex [OF that] True unfolding d
      by (cases "k = (sm, day)"; auto simp: passes_def undeliverable_def to_store_def)+
    have tw: "takeWhile (passes ri (rw_store w1)) ds = takeWhile (passes ri ?s) ds"
      using same(1) by (intro takeWhile_cong) auto
    have und: "filter (undeliverable ri (rw_store w1)) (takeWhile (passes ri ?s) ds) = filter (undeliverable ri ?s) (takeWhile (passes ri ?s) ds)"
      using same(2) by (intro filter_cong) (auto dest: set_takeWhileD)
    have after: "day_after ri (rw_store w1) es k = day_after ri ?s (d # es) k" if "set es \<subseteq> set ds" for es k
      using one(6) [of k] same(3) [of k] that by (auto simp: day_after_def d)
    have sub: "set (takeWhile (passes ri ?s) ds) \<subseteq> set ds" by (auto dest: set_takeWhileD)
    have frame: "job_frame job job'" using one(2) IH job_frame_trans by blast
    note IH = IH [unfolded tw und after [OF sub] after [OF subset_refl]]
    have bytes: "day_bytes (rw_store w') k \<in> {day_after ri ?s (d # takeWhile (passes ri ?s) ds) k, day_after ri ?s (d # ds) k} \<and>
        (\<not> passes ri ?s k \<and> k \<in> set (d # ds) \<or> day_bytes (rw_store w') k = day_after ri ?s (d # takeWhile (passes ri ?s) ds) k)" for k
    proof -
      from IH have "day_bytes (rw_store w') k \<in> {day_after ri ?s (d # takeWhile (passes ri ?s) ds) k, day_after ri ?s (d # ds) k} \<and>
          (\<not> passes ri (rw_store w1) k \<and> k \<in> set ds \<or> day_bytes (rw_store w') k = day_after ri ?s (d # takeWhile (passes ri ?s) ds) k)"
        by blast
      then show ?thesis using same(1) [of k] by auto
    qed
    have "r = (if takeWhile (passes ri ?s) ds = ds then Inr () else Inl (OtherError ''OSError''))"
        "job_count job' = job_count job1 + int (length (takeWhile (passes ri ?s) ds))" "rw_locked w' = rw_locked w1"
        "rj_days_failed job' = rj_days_failed job1 + int (length (filter (undeliverable ri ?s) (takeWhile (passes ri ?s) ds)))"
      using IH by blast+
    then show ?thesis using one(3-5) frame True bytes by (simp add: d)
  qed
qed

text \<open>C37. A job without \<open>force\<close> that finds the lock free goes through its days in order, up to the first one
whose file the disk refuses (\<open>gone\<close>), and leaves the lock free. With a disk that does not fail it goes
through all and ends done, without an error, even when days failed; otherwise it ends failed with the
error of the disk. Each day it has gone through is counted once, as done, skipped or failed: so a job
that starts with empty counts ends with as many as it has days, but one that is resumed with counts
counts its days again on top of them, past its total. A stored day is kept as it is; a missing day is
stored exactly when it could be downloaded, and counted as failed otherwise, also when the network
answered that there is no file; the day at which the disk failed is as it was or complete. While the
lock is held, the job fails without a download, for ever.\<close>

theorem raw_job_correct:
  fixes w :: raw_world and job :: raw_job and ri :: raw_inputs
  assumes "get_job w jid = Some job" "rj_job_id job = jid" "rj_status job = JOB_QUEUED \<or> rj_status job = JOB_RUNNING"
    and "\<not> rj_force job"
  defines "ds \<equiv> sync_days job" and "s \<equiv> rw_store w"
  defines "gone \<equiv> takeWhile (\<lambda>k. to_store ri s k \<longrightarrow> ri_disk ri (fst k) (snd k) = None) ds"
  shows "(\<not> rw_locked w \<longrightarrow> (\<exists>w' job'. run_job ri jid w = (w', Inr job') \<and> get_job w' jid = Some job' \<and> \<not> rw_locked w' \<and>
      rj_status job' = (if gone = ds then JOB_DONE else JOB_FAILED) \<and>
      rj_last_error job' = (if gone = ds then None else Some ''OSError'') \<and>
      job_count job' = job_count job + int (length gone) \<and>
      rj_days_failed job' = rj_days_failed job + int (length (filter (undeliverable ri s) gone)) \<and>
      (\<forall>k. exists_day s (fst k) (snd k) \<and> k \<in> set ds \<longrightarrow> day_bytes (rw_store w') k = day_bytes s k) \<and>
      (\<forall>k. (k \<in> set ds \<longrightarrow> k \<in> set gone) \<longrightarrow> day_bytes (rw_store w') k =
        (if k \<in> set gone \<and> to_store ri s k then download_day ri (fst k) (snd k) else day_bytes s k)) \<and>
      (\<forall>k. day_bytes (rw_store w') k \<in> {day_bytes s k, download_day ri (fst k) (snd k)}) \<and>
      (gone = ds \<and> rj_days_total job = int (length ds) \<longrightarrow> rj_days_total job' = rj_days_total job \<and>
        (job_count job = 0 \<longrightarrow> job_count job' = rj_days_total job') \<and> (0 < job_count job \<longrightarrow> rj_days_total job' < job_count job')))) \<and>
    length ds = length (rj_symbols job) * length (days_in_range (rj_from_date job) (rj_to_date job)) \<and>
    (rw_locked w \<longrightarrow> (\<exists>w' job'. run_job ri jid w = (w', Inr job') \<and> rj_status job' = JOB_FAILED \<and> rw_store w' = s \<and> rw_locked w' \<and>
      run_job ri' jid (release_lock w') = (release_lock w', Inr job')))"
proof -
  have len: "length ds = length (rj_symbols job) * length (days_in_range (rj_from_date job) (rj_to_date job))"
    by (simp add: ds_def sync_days_def length_concat comp_def sum_list_triv)
  show ?thesis
  proof (cases "rw_locked w")
    case False
    define job1 where "job1 = job\<lparr>rj_status := JOB_RUNNING, rj_updated_at := ri_now_iso ri\<rparr>"
    define w1 where "w1 = persist_job job1 (w\<lparr>rw_locked := True\<rparr>)"
    have ds: "sync_days job1 = ds" by (simp add: ds_def sync_days_def job1_def)
    obtain w2 job2 r where f: "sync_loop ri ds (w1, job1) = ((w2, job2), r)" by (metis prod.collapse)
    have norm: "\<forall>k \<in> set ds. norm_symbol (fst k) = fst k" by (auto simp: ds_def sync_days_def)
    have j1: "rj_status job1 \<noteq> JOB_FAILED" "\<not> rj_force job1" "job_count job1 = job_count job" "rj_days_failed job1 = rj_days_failed job"
      "rj_job_id job1 = jid" "rw_store w1 = s" "rj_days_total job1 = rj_days_total job"
      using assms(2,4) by (simp_all add: job1_def job_count_def w1_def persist_job_def s_def)
    have gone: "takeWhile (passes ri s) ds = gone" unfolding gone_def by (rule arg_cong2 [where f = takeWhile]) (auto simp: passes_def fun_eq_iff)
    note L = sync_loop_run [OF f j1(1,2) norm, unfolded j1(3,4,6) gone]
    define job3 where "job3 = job2\<lparr>rj_status := (if gone = ds then JOB_DONE else JOB_FAILED),
        rj_last_error := (if gone = ds then None else Some ''OSError''), rj_updated_at := ri_now_iso ri\<rparr>"
    define w3 where "w3 = release_lock (persist_job job3 w2)"
    have run: "run_job ri jid w = (w3, Inr job3)"
      using assms(1,3) False f ds L by (auto simp: run_job_def acquire_lock_def job1_def w1_def w3_def job3_def Let_def)
    have got: "get_job w3 jid = Some job3"
      using L j1(5) by (simp add: w3_def job3_def get_job_def release_lock_def persist_job_def job_frame_def)
    have tot: "rj_days_total job3 = rj_days_total job" using L j1(7) by (simp add: job3_def job_frame_def)
    have w3: "\<not> rw_locked w3" "rw_store w3 = rw_store w2" "job_count job3 = job_count job2" "rj_days_failed job3 = rj_days_failed job2"
      "rj_status job3 = (if gone = ds then JOB_DONE else JOB_FAILED)" "rj_last_error job3 = (if gone = ds then None else Some ''OSError'')"
      by (simp_all add: w3_def job3_def release_lock_def persist_job_def job_count_def)
    have count: "job_count job3 = job_count job + int (length gone)"
      "rj_days_failed job3 = rj_days_failed job + int (length (filter (undeliverable ri s) gone))"
      using L unfolding w3(3,4) by blast+
    have bytes: "day_bytes (rw_store w3) k \<in> {day_after ri s gone k, day_after ri s ds k}"
        "\<not> passes ri s k \<and> k \<in> set ds \<or> day_bytes (rw_store w3) k = day_after ri s gone k" for k
      using L unfolding w3(2) by blast+
    have through: "passes ri s k" if "k \<in> set gone" for k using that by (auto simp: gone [symmetric] dest: set_takeWhileD)
    have kept: "day_bytes (rw_store w3) k = day_bytes s k" if "exists_day s (fst k) (snd k)" for k
      using bytes(1) [of k] that by (auto simp: day_after_def to_store_def)
    have exact: "day_bytes (rw_store w3) k =
        (if k \<in> set gone \<and> to_store ri s k then download_day ri (fst k) (snd k) else day_bytes s k)"
      if "k \<in> set ds \<longrightarrow> k \<in> set gone" for k
      using bytes(2) [of k] through [of k] that by (auto simp: day_after_def)
    have either: "day_bytes (rw_store w3) k \<in> {day_bytes s k, download_day ri (fst k) (snd k)}" for k
      using bytes(1) [of k] by (auto simp: day_after_def split: if_splits)
    have fresh: "gone = ds \<and> rj_days_total job = int (length ds) \<longrightarrow> rj_days_total job3 = rj_days_total job \<and>
        (job_count job = 0 \<longrightarrow> job_count job3 = rj_days_total job3) \<and> (0 < job_count job \<longrightarrow> rj_days_total job3 < job_count job3)"
      using count(1) tot by auto
    from run got w3(1,5,6) count kept exact either fresh len False show ?thesis by blast
  next
    case True
    let ?job1 = "job\<lparr>rj_last_error := Some ''Another raw sync job is running (lock held)'',
                       rj_status := JOB_FAILED, rj_updated_at := ri_now_iso ri\<rparr>"
    have run: "run_job ri jid w = (persist_job ?job1 w, Inr ?job1)"
      using assms(1,3) True by (auto simp: run_job_def acquire_lock_def Let_def)
    moreover have "get_job (release_lock (persist_job ?job1 w)) jid = Some ?job1"
      using assms(2) by (simp add: get_job_def release_lock_def persist_job_def)
    then have "run_job ri' jid (release_lock (persist_job ?job1 w)) = (release_lock (persist_job ?job1 w), Inr ?job1)"
      by (simp add: run_job_def)
    ultimately show ?thesis using True len by (simp add: s_def persist_job_def)
  qed
qed

text \<open>Two days of which the second has no file, by a job that is new and by one that was stopped after a day.\<close>

lemma raw_job_correct_witness:
  fixes ri :: raw_inputs
  defines "ri \<equiv> \<lparr>ri_nets = (\<lambda>sm day _ url _. if day = 4 then Http_ok 200 [1] else Http_error 404 None), ri_sha256 = (\<lambda>_. ''sha''),
     ri_now_iso = ''now'', ri_retries = 3, ri_disk = (\<lambda>_ _. None)\<rparr>"
    and "w0 \<equiv> \<lparr>rw_store = raw_store_empty, rw_jobs = [], rw_locked = False\<rparr>"
  defines "w \<equiv> fst (create_job ''j'' ''now'' [''EURUSD''] 4 6 False w0)" and "job \<equiv> snd (create_job ''j'' ''now'' [''EURUSD''] 4 6 False w0)"
  defines "old \<equiv> job\<lparr>rj_status := JOB_RUNNING, rj_days_done := 1\<rparr>"
  shows "(\<exists>w' job'. run_job ri ''j'' w = (w', Inr job') \<and> rj_status job' = JOB_DONE \<and> job_count job' = 2 \<and> rj_days_failed job' = 1 \<and>
      day_bytes (rw_store w') (''EURUSD'', 4) = Some [1]) \<and>
    (\<exists>w' job'. run_job ri ''j'' (persist_job old w) = (w', Inr job') \<and> job_count job' = 3 \<and> rj_days_total job' = 2)"
proof -
  have j: "get_job w ''j'' = Some job" "rj_job_id job = ''j''" "rj_status job = JOB_QUEUED \<or> rj_status job = JOB_RUNNING" "\<not> rj_force job"
    "\<not> rw_locked w" "job_count job = 0" "rj_days_failed job = 0" "sync_days job = [(''EURUSD'', 4), (''EURUSD'', 5)]"
    "rj_days_total job = 2" "rj_days_skipped job = 0"
    unfolding w_def job_def w0_def by code_simp+
  have s: "rw_store w = raw_store_empty" "rw_store (persist_job old w) = raw_store_empty"
    by (simp_all add: w_def w0_def create_job_def persist_job_def Let_def)
  have f: "length (filter (undeliverable ri raw_store_empty) [(''EURUSD'', 4), (''EURUSD'', 5)]) = 1"
      "to_store ri raw_store_empty (''EURUSD'', 4)" "download_day ri ''EURUSD'' 4 = Some [1]"
    unfolding ri_def by code_simp+
  have d: "ri_disk ri x y = None" for x y by (simp add: ri_def)
  have o: "get_job (persist_job old w) ''j'' = Some old" "rj_job_id old = ''j''" "rj_status old = JOB_QUEUED \<or> rj_status old = JOB_RUNNING"
      "\<not> rj_force old" "\<not> rw_locked (persist_job old w)" "job_count old = 1" "sync_days old = sync_days job" "rj_days_total old = 2"
    using j by (simp_all add: old_def persist_job_def get_job_def job_count_def sync_days_def)
  have "\<exists>w' job'. run_job ri ''j'' w = (w', Inr job') \<and> rj_status job' = JOB_DONE \<and> job_count job' = 2 \<and> rj_days_failed job' = 1 \<and>
      day_bytes (rw_store w') (''EURUSD'', 4) = Some [1]"
    using raw_job_correct [OF j(1-4), of ri] j(5-8) f by (auto simp: s d)
  moreover have "\<exists>w' job'. run_job ri ''j'' (persist_job old w) = (w', Inr job') \<and> job_count job' = 3 \<and> rj_days_total job' = 2"
    using raw_job_correct [OF o(1-4), of ri] o(5-8) j(8) by (auto simp: s d)
  ultimately show ?thesis by blast
qed

end
