(* ===== verification/DataLayer.thy ===== *)
theory DataLayer
  imports OstiumIngest Backfill Config
begin

text \<open>
  The production data layer, \<open>application/services/data_layer_prod_service.py\<close>: prefetch, the writer
  loop over a provider, the gates that degrade symbols, and the life cycle status of the process,
  \<open>application/data/data_layer_lifecycle.py\<close>. A turn of a loop is one step; the clock readings of a
  turn, the answers of the provider and what other tasks do to the store during a fetch are
  arguments. The metrics are the instance of the process, if there is one.
\<close>

section \<open>Life cycle status\<close>

type_synonym layer_status = "string option \<times> string option"

definition get_data_layer_status :: "layer_status \<Rightarrow> string \<times> string option" where
  "get_data_layer_status st = (case fst st of Some (c # cs) \<Rightarrow> (c # cs, snd st) | _ \<Rightarrow> (''disabled'', snd st))"

definition set_data_layer_status :: "string \<Rightarrow> string option \<Rightarrow> layer_status" where
  "set_data_layer_status status reason = (Some status, reason)"

definition is_data_layer_enabled :: "layer_status \<Rightarrow> bool" where
  "is_data_layer_enabled st = (fst (get_data_layer_status st) \<in> {''initializing'', ''warming_up'', ''ready'', ''degraded''})"

definition is_ready_for_soak :: "layer_status \<Rightarrow> bool" where
  "is_ready_for_soak st = (fst (get_data_layer_status st) \<in> {''ready'', ''warming_up'', ''degraded''})"

section \<open>State\<close>

record data_layer_config =
  dc_symbols :: "string list"
  dc_prefetch_minutes :: int
  dc_warmup_minutes :: int
  dc_max_gap_s :: int
  dc_max_missing_per_24h :: int
  dc_stale_seconds :: int
  dc_write_mode :: string
  dc_market_hours :: "(string \<Rightarrow> int \<Rightarrow> bool \<times> string) option"
  dc_closed_minutes :: "(string \<Rightarrow> int \<Rightarrow> int \<Rightarrow> int) option"

text \<open>Reading the settings; \<open>int\<close> of a text that is no number raises \<open>ValueError\<close>.\<close>

definition int_setting :: "environ \<Rightarrow> string \<Rightarrow> int \<Rightarrow> int result" where
  "int_setting env key dflt =
     (case py_int (getenv env key (show_int dflt)) of None \<Rightarrow> Inl (ValueError ''invalid literal for int()'') | Some n \<Rightarrow> Inr n)"

definition layer_symbols :: "environ \<Rightarrow> string list" where
  "layer_symbols env =
     (let symbols_raw = (case env ''DATA_LAYER_WRITE_SYMBOLS'' of
            Some (c # cs) \<Rightarrow> c # cs | _ \<Rightarrow> getenv env ''SYMBOLS'' ''XAUUSD,EURUSD'')
      in filter (\<lambda>s. s \<noteq> []) (map py_strip (py_split CHR '','' symbols_raw)))"

definition layer_write_mode :: "environ \<Rightarrow> string" where
  "layer_write_mode env =
     (let write_mode = py_lower (getenv env ''DATA_LAYER_WRITE_MODE'' ''realtime'')
      in if write_mode \<in> {''realtime'', ''backfill_only'', ''realtime_only'', ''realtime_plus_backfill''}
         then write_mode else ''realtime'')"

definition read_layer_config :: "environ \<Rightarrow> (bool \<times> data_layer_config) result" where
  "read_layer_config env =
     sbind (int_setting env ''DATA_LAYER_PREFETCH_MINUTES'' 0) (\<lambda>prefetch.
      sbind (int_setting env ''DATA_LAYER_WARMUP_MINUTES'' 120) (\<lambda>warmup.
      sbind (int_setting env ''DATA_LAYER_GATES_MAX_GAP_S'' 180) (\<lambda>gap.
      sbind (int_setting env ''DATA_LAYER_GATES_MAX_MISSING_PER_24H'' 1) (\<lambda>missing.
      sbind (int_setting env ''DATA_LAYER_STALE_SECONDS'' 180) (\<lambda>stale.
      Inr (getenv env ''DATA_LAYER_ENABLED'' ''0'' = ''1'',
           \<lparr>dc_symbols = layer_symbols env, dc_prefetch_minutes = prefetch, dc_warmup_minutes = warmup,
             dc_max_gap_s = gap, dc_max_missing_per_24h = missing, dc_stale_seconds = stale,
             dc_write_mode = layer_write_mode env, dc_market_hours = None, dc_closed_minutes = None\<rparr>))))))"

datatype data_layer_task = WriterLoop | GateMetricsLoop

record 's data_layer =
  dl_store :: 's
  dl_metrics :: "layer_metrics option"
  dl_running :: bool
  dl_task :: "data_layer_task option"
  dl_degraded :: "string list"
  dl_reason :: "(string, string) dict"
  dl_start_ts :: int
  dl_status :: layer_status

definition data_layer_init :: "'s \<Rightarrow> layer_metrics option \<Rightarrow> layer_status \<Rightarrow> 's data_layer" where
  "data_layer_init store metrics status = \<lparr>dl_store = store, dl_metrics = metrics, dl_running = False,
     dl_task = None, dl_degraded = [], dl_reason = [], dl_start_ts = 0, dl_status = status\<rparr>"

definition dl_mark_degraded :: "string \<Rightarrow> string \<Rightarrow> int \<Rightarrow> int \<Rightarrow> 's data_layer \<Rightarrow> 's data_layer" where
  "dl_mark_degraded symbol reason duplicates step_errs s =
     s\<lparr>dl_degraded := set_add symbol (dl_degraded s),
       dl_reason := d_set symbol reason (dl_reason s),
       dl_metrics := map_option (set_symbol_state symbol DEGRADED (Some reason) duplicates step_errs 0 0 0) (dl_metrics s)\<rparr>"

definition bad_report :: "string \<Rightarrow> validation_report \<Rightarrow> string \<Rightarrow> 's data_layer \<Rightarrow> 's data_layer" where
  "bad_report who report symbol s =
     dl_mark_degraded symbol (who @ '' duplicates='' @ show_int (vr_duplicates report) @
       '' ts_step_errors='' @ show_int (vr_step_errors report)) (vr_duplicates report) (vr_step_errors report) s"

section \<open>Prefetch\<close>

text \<open>One symbol of \<open>_run_prefetch\<close>; every exception is logged.\<close>

definition prefetch_symbol ::
    "'s store_ops \<Rightarrow> provider \<Rightarrow> (string \<Rightarrow> 's \<Rightarrow> 's) \<Rightarrow> datetime \<Rightarrow> datetime \<Rightarrow> string \<Rightarrow> 's data_layer \<Rightarrow> 's data_layer" where
  "prefetch_symbol ops fetch env start stop symbol s =
     (if symbol \<in> set (dl_degraded s) then s
      else
        (let s1 = s\<lparr>dl_store := env symbol (dl_store s)\<rparr> in
         case fetch symbol start stop of
           Inl e \<Rightarrow> s1
         | Inr cs \<Rightarrow>
             if cs = [] then s1
             else
               (let report = validate cs start stop symbol in
                if vr_duplicates report > 0 \<or> vr_step_errors report > 0 then bad_report ''prefetch'' report symbol s1
                else (case so_patch ops cs (dl_store s1) of
                    (store, Inl e) \<Rightarrow> s1\<lparr>dl_store := store\<rparr>
                  | (store, Inr written) \<Rightarrow>
                      s1\<lparr>dl_store := store,
                         dl_metrics := map_option (\<lambda>m. update_gate_metrics symbol (Some (timestamp_int (c_ts (last cs))))
                           None None None None None None None (inc_candles_written symbol written None m)) (dl_metrics s1)\<rparr>))))"

definition run_prefetch ::
    "'s store_ops \<Rightarrow> provider \<Rightarrow> (string \<Rightarrow> 's \<Rightarrow> 's) \<Rightarrow> data_layer_config \<Rightarrow> datetime \<Rightarrow> 's data_layer \<Rightarrow> 's data_layer" where
  "run_prefetch ops fetch env cfg now s =
     (let stop = floor_minute now; start = dt_add stop (- (dc_prefetch_minutes cfg * minute_us)) in
      fold (prefetch_symbol ops fetch env start stop) (dc_symbols cfg) s)"

section \<open>The writer\<close>

text \<open>The appends of one fetch; the first exception ends them and is logged by the caller.\<close>

fun append_all :: "'s store_ops \<Rightarrow> string \<Rightarrow> candle list \<Rightarrow> 's data_layer \<Rightarrow> 's data_layer" where
  "append_all ops symbol [] s = s"
| "append_all ops symbol (c # cs) s =
     (case so_append ops c (dl_store s) of
        (store, Inl e) \<Rightarrow> s\<lparr>dl_store := store\<rparr>
      | (store, Inr appended) \<Rightarrow>
          append_all ops symbol cs
            (s\<lparr>dl_store := store,
               dl_metrics := (if appended then map_option (inc_candles_written symbol 1 (Some (timestamp_int (c_ts c)))) (dl_metrics s)
                              else dl_metrics s)\<rparr>))"

definition write_next_if_missing ::
    "'s store_ops \<Rightarrow> provider \<Rightarrow> (string \<Rightarrow> 's \<Rightarrow> 's) \<Rightarrow> string \<Rightarrow> datetime \<Rightarrow> 's data_layer \<Rightarrow> 's data_layer" where
  "write_next_if_missing ops fetch env symbol target_ts s =
     (if (case so_last_timestamp ops (dl_store s) symbol of None \<Rightarrow> False | Some last_stored \<Rightarrow> dt_le target_ts last_stored) then s
      else
        (let start = target_ts; stop = dt_add target_ts minute_us;
             s1 = s\<lparr>dl_store := env symbol (dl_store s)\<rparr> in
         case fetch symbol start stop of
           Inl e \<Rightarrow> s1
         | Inr cs \<Rightarrow>
             if cs = [] then s1
             else
               (let report = validate cs start stop symbol in
                if vr_duplicates report > 0 \<or> vr_step_errors report > 0 then bad_report ''writer'' report symbol s1
                else append_all ops symbol cs s1)))"

section \<open>Gates\<close>

definition dl_state :: "data_layer_config \<Rightarrow> string \<Rightarrow> int \<Rightarrow> bool \<times> string" where
  "dl_state cfg symbol ts = (case dc_market_hours cfg of None \<Rightarrow> get_market_state symbol (Inl ts) | Some f \<Rightarrow> f symbol ts)"

definition dl_closed_minutes :: "data_layer_config \<Rightarrow> string \<Rightarrow> int \<Rightarrow> int \<Rightarrow> int" where
  "dl_closed_minutes cfg = (case dc_closed_minutes cfg of None \<Rightarrow> count_closed_minutes_between | Some f \<Rightarrow> f)"

definition dl_gate_values :: "'s store_ops \<Rightarrow> data_layer_config \<Rightarrow> datetime \<Rightarrow> string \<Rightarrow> int \<Rightarrow> 's data_layer \<Rightarrow> gate_values" where
  "dl_gate_values ops cfg now symbol last_ts s =
     (let now_ts = timestamp_int now; (market_open, reason) = dl_state cfg symbol now_ts;
          stale_s = (if market_open \<and> reason = ''open''
            then max 0 (if last_ts > 0 then now_ts - last_ts - 60 else 0) else 0);
          uptime_s = (if dl_start_ts s \<noteq> 0 then max 0 (now_ts - dl_start_ts s) else 0)
      in gate_values_of (dc_max_gap_s cfg) stale_s uptime_s
           (day_coverage ops (dl_closed_minutes cfg) now (dl_store s) symbol))"

definition dl_gate_decision :: "data_layer_config \<Rightarrow> int \<Rightarrow> string \<Rightarrow> gate_values \<Rightarrow> 's data_layer \<Rightarrow> 's data_layer" where
  "dl_gate_decision cfg now_ts symbol g s =
     (let (market_open, reason) = dl_state cfg symbol now_ts; in_warmup = gv_observed g < dc_warmup_minutes cfg in
      if symbol \<notin> set (dl_degraded s)
      then if gv_stale_s g > dc_stale_seconds cfg
           then dl_mark_degraded symbol (''stale_seconds='' @ show_int (gv_stale_s g) @ '' > '' @ show_int (dc_stale_seconds cfg)) 0 0 s
           else if market_open \<and> reason = ''open'' \<and> gv_missing_24h g > dc_max_missing_per_24h cfg \<and> \<not> in_warmup
           then dl_mark_degraded symbol (''missing_minutes_24h='' @ show_int (gv_missing_24h g) @ '' > '' @
                  show_int (dc_max_missing_per_24h cfg)) 0 0 s
           else s
      else if py_startswith (case d_get (dl_reason s) symbol of None \<Rightarrow> [] | Some r \<Rightarrow> r) ''missing_minutes_24h='' \<and>
              gv_missing_24h g \<le> dc_max_missing_per_24h cfg \<and> gv_stale_s g \<le> dc_stale_seconds cfg
      then s\<lparr>dl_degraded := removeAll symbol (dl_degraded s), dl_reason := d_del symbol (dl_reason s),
             dl_metrics := map_option (set_symbol_state symbol ACTIVE None 0 0 0 0 0) (dl_metrics s)\<rparr>
      else s)"

definition dl_gate_symbol :: "'s store_ops \<Rightarrow> data_layer_config \<Rightarrow> datetime \<Rightarrow> string \<Rightarrow> 's data_layer \<Rightarrow> 's data_layer" where
  "dl_gate_symbol ops cfg now symbol s =
     (case so_last_timestamp ops (dl_store s) symbol of
        None \<Rightarrow> s
      | Some last_ts \<Rightarrow>
          (let now_ts = timestamp_int now; last_ts_int = timestamp_int last_ts;
               (market_open, reason) = dl_state cfg symbol now_ts;
               g = dl_gate_values ops cfg now symbol last_ts_int s
           in dl_gate_decision cfg now_ts symbol g
                (s\<lparr>dl_metrics := map_option (update_gate_metrics symbol (Some last_ts_int) (Some (gv_stale_s g))
                    (Some (gv_missing_24h g)) (Some (gv_max_gap_s g)) (Some market_open) (Some reason)
                    (Some (gv_expected g)) (Some (gv_observed g))) (dl_metrics s)\<rparr>)))"

definition observed_of :: "layer_metrics \<Rightarrow> string \<Rightarrow> int" where
  "observed_of m symbol = (case d_get (lm_by_symbol m) symbol of None \<Rightarrow> 0 | Some sm \<Rightarrow> sm_observed_open_minutes_24h sm)"

definition dl_lifecycle :: "data_layer_config \<Rightarrow> layer_metrics \<Rightarrow> 's data_layer \<Rightarrow> 's data_layer" where
  "dl_lifecycle cfg m s =
     (if dl_degraded s \<noteq> [] then s\<lparr>dl_status := set_data_layer_status ''degraded'' (Some ''symbol(s) DEGRADED'')\<rparr>
      else
        (let observed_min = fold (\<lambda>symbol acc. min acc (observed_of m symbol)) (dc_symbols cfg) 1440 in
         if observed_min < dc_warmup_minutes cfg
         then s\<lparr>dl_status := set_data_layer_status ''warming_up'' (Some (''recent_coverage='' @ show_int observed_min @
                ''m < warmup '' @ show_int (dc_warmup_minutes cfg) @ ''m''))\<rparr>
         else s\<lparr>dl_status := set_data_layer_status ''ready'' None\<rparr>))"

definition dl_update_gate_metrics :: "'s store_ops \<Rightarrow> data_layer_config \<Rightarrow> datetime \<Rightarrow> 's data_layer \<Rightarrow> 's data_layer" where
  "dl_update_gate_metrics ops cfg now s =
     (case dl_metrics s of
        None \<Rightarrow> s
      | Some _ \<Rightarrow>
          (let s1 = fold (dl_gate_symbol ops cfg now) (dc_symbols cfg) s
           in case dl_metrics s1 of None \<Rightarrow> s1 | Some m \<Rightarrow> dl_lifecycle cfg m s1))"

section \<open>Loops, start and stop\<close>

text \<open>A turn of the writer loop after its sleep, and one of the gate metrics loop.\<close>

definition writer_turn ::
    "'s store_ops \<Rightarrow> provider \<Rightarrow> (string \<Rightarrow> 's \<Rightarrow> 's) \<Rightarrow> data_layer_config \<Rightarrow> datetime \<Rightarrow> datetime \<Rightarrow> 's data_layer \<Rightarrow> 's data_layer" where
  "writer_turn ops fetch env cfg now later s =
     (if \<not> dl_running s then s
      else
        (let last_closed = dt_add (floor_minute now) (- minute_us) in
         dl_update_gate_metrics ops cfg later
           (fold (\<lambda>symbol s. if symbol \<in> set (dl_degraded s) then s
                   else write_next_if_missing ops fetch env symbol last_closed s) (dc_symbols cfg) s)))"

definition gate_turn :: "'s store_ops \<Rightarrow> data_layer_config \<Rightarrow> datetime \<Rightarrow> 's data_layer \<Rightarrow> 's data_layer" where
  "gate_turn ops cfg now s = (if \<not> dl_running s then s else dl_update_gate_metrics ops cfg now s)"

definition data_layer_start ::
    "'s store_ops \<Rightarrow> provider \<Rightarrow> (string \<Rightarrow> 's \<Rightarrow> 's) \<Rightarrow> data_layer_config \<Rightarrow> bool \<Rightarrow> datetime \<Rightarrow> 's data_layer \<Rightarrow> 's data_layer" where
  "data_layer_start ops fetch env cfg available now s =
     (if dl_running s then s
      else
        (let s1 = s\<lparr>dl_running := True, dl_start_ts := timestamp_int now\<rparr> in
         if \<not> available
         then if dc_write_mode cfg = ''realtime_only'' \<or> dc_write_mode cfg = ''realtime_plus_backfill''
              then s1\<lparr>dl_task := Some GateMetricsLoop\<rparr>
              else s1\<lparr>dl_running := False\<rparr>
         else
           (let s2 = (if dc_prefetch_minutes cfg > 0 then run_prefetch ops fetch env cfg now s1 else s1)
            in s2\<lparr>dl_task := Some (if dc_write_mode cfg = ''realtime'' then WriterLoop else GateMetricsLoop)\<rparr>)))"

text \<open>The cancelled task stays in the attribute.\<close>

definition data_layer_stop :: "'s data_layer \<Rightarrow> 's data_layer" where
  "data_layer_stop s = s\<lparr>dl_running := False\<rparr>"

section \<open>The startup gate\<close>

text \<open>The first symbol that fails a rule decides; a symbol without metrics is read with the defaults.\<close>

definition startup_rule :: "data_layer_config \<Rightarrow> string \<Rightarrow> symbol_metrics \<Rightarrow> string option" where
  "startup_rule cfg symbol m =
     (if sm_state m = DEGRADED
      then Some (case sm_degrade_reason m of Some (c # cs) \<Rightarrow> c # cs | _ \<Rightarrow> ''symbol '' @ symbol @ '' DEGRADED'')
      else if sm_duplicates m > 0 \<or> sm_ts_step_errors m > 0
      then Some (''symbol '' @ symbol @ '' duplicates='' @ show_int (sm_duplicates m) @ '' ts_step_errors='' @ show_int (sm_ts_step_errors m))
      else if sm_market_open m \<and> sm_stale_seconds m > dc_stale_seconds cfg
      then Some (''symbol '' @ symbol @ '' stale_seconds='' @ show_int (sm_stale_seconds m) @ '' > '' @ show_int (dc_stale_seconds cfg))
      else if sm_observed_open_minutes_24h m \<ge> dc_warmup_minutes cfg \<and> sm_missing_minutes_24h m > dc_max_missing_per_24h cfg
      then Some (''symbol '' @ symbol @ '' missing_minutes_24h='' @ show_int (sm_missing_minutes_24h m) @ '' > '' @
             show_int (dc_max_missing_per_24h cfg))
      else if sm_max_gap_s m > dc_max_gap_s cfg
      then Some (''symbol '' @ symbol @ '' max_gap_s='' @ show_int (sm_max_gap_s m) @ '' > '' @ show_int (dc_max_gap_s cfg))
      else None)"

fun startup_rules :: "data_layer_config \<Rightarrow> layer_metrics \<Rightarrow> string list \<Rightarrow> bool \<times> string" where
  "startup_rules cfg m [] = (True, [])"
| "startup_rules cfg m (symbol # symbols) =
     (case startup_rule cfg symbol (get_or_create m symbol) of
        Some reason \<Rightarrow> (False, reason)
      | None \<Rightarrow> startup_rules cfg m symbols)"

definition run_startup_gate_check :: "'s store_ops \<Rightarrow> data_layer_config \<Rightarrow> datetime \<Rightarrow> 's data_layer \<Rightarrow> 's data_layer \<times> bool \<times> string" where
  "run_startup_gate_check ops cfg now s =
     (let s1 = dl_update_gate_metrics ops cfg now s in
      case dl_metrics s1 of
        None \<Rightarrow> (s1, True, [])
      | Some m \<Rightarrow> (s1, startup_rules cfg m (dc_symbols cfg)))"

end
