(* ===== verification/DataLayer_Props.thy ===== *)
theory DataLayer_Props
  imports DataLayer Backfill_Props
begin

text \<open>
  The production data layer over any run of its steps: what degradation freezes, what the writer and
  the prefetch do to stored candles, and which rules of the startup gate can decide.
\<close>

section \<open>What a step leaves alone\<close>

text \<open>A reason that no gate takes back.\<close>

definition final_reason :: "string \<Rightarrow> 's data_layer \<Rightarrow> string \<Rightarrow> bool" where
  "final_reason x s r \<longleftrightarrow> x \<in> set (dl_degraded s) \<and> d_get (dl_reason s) x = Some r \<and>
     \<not> py_startswith r ''missing_minutes_24h=''"

lemma dl_mark_degraded_fields [simp]:
  "dl_store (dl_mark_degraded y r d e s) = dl_store s" "dl_running (dl_mark_degraded y r d e s) = dl_running s"
  "set (dl_degraded (dl_mark_degraded y r d e s)) = insert y (set (dl_degraded s))"
  "dl_reason (dl_mark_degraded y r d e s) = d_set y r (dl_reason s)"
  by (simp_all add: dl_mark_degraded_def)

lemma bad_report_fields [simp]:
  "dl_store (bad_report who rep y s) = dl_store s"
  "set (dl_degraded (bad_report who rep y s)) = insert y (set (dl_degraded s))"
  "x \<noteq> y \<Longrightarrow> d_get (dl_reason (bad_report who rep y s)) x = d_get (dl_reason s) x"
  by (simp_all add: bad_report_def)

lemma gate_decision_final:
  "dl_store (dl_gate_decision cfg t y g s) = dl_store s \<and>
   (final_reason x s r \<longrightarrow> final_reason x (dl_gate_decision cfg t y g s) r)"
  unfolding dl_gate_decision_def Let_def by (auto simp: final_reason_def split: prod.split)

lemma gate_symbol_final:
  "dl_store (dl_gate_symbol ops cfg now y s) = dl_store s \<and>
   (final_reason x s r \<longrightarrow> final_reason x (dl_gate_symbol ops cfg now y s) r)"
proof (cases "so_last_timestamp ops (dl_store s) y")
  case (Some last_ts)
  have *: "final_reason x (s\<lparr>dl_metrics := m\<rparr>) r = final_reason x s r" for m by (simp add: final_reason_def)
  show ?thesis unfolding dl_gate_symbol_def Some Let_def
    using gate_decision_final [of cfg _ y _ "s\<lparr>dl_metrics := _\<rparr>" x r] * by (simp split: prod.split)
qed (simp add: dl_gate_symbol_def)

lemma gates_final:
  "dl_store (dl_update_gate_metrics ops cfg now s) = dl_store s \<and>
   (final_reason x s r \<longrightarrow> final_reason x (dl_update_gate_metrics ops cfg now s) r)"
proof -
  have f: "dl_store (fold (dl_gate_symbol ops cfg now) xs s) = dl_store s \<and>
      (final_reason x s r \<longrightarrow> final_reason x (fold (dl_gate_symbol ops cfg now) xs s) r)" for xs
  proof (induction xs arbitrary: s)
    case (Cons y ys)
    note g = gate_symbol_final [of ops cfg now y s x r]
    show ?case using g Cons.IH [of "dl_gate_symbol ops cfg now y s"] by simp
  qed simp
  have l: "dl_store (dl_lifecycle cfg m s') = dl_store s' \<and> final_reason x (dl_lifecycle cfg m s') r = final_reason x s' r"
    for m and s' :: "'a data_layer"
    by (simp add: dl_lifecycle_def final_reason_def Let_def)
  show ?thesis
    using f [of "dc_symbols cfg"] l
    by (auto simp: dl_update_gate_metrics_def Let_def split: option.split)
qed

section \<open>The writer\<close>

context candle_store
begin

text \<open>Appending adds what is free and keeps the rest.\<close>

lemma append_all_spec:
  assumes "wf (dl_store s)" "\<forall>c \<in> set cs. good_candle y c"
  shows "wf (dl_store (append_all ops y cs s)) \<and>
    dl_degraded (append_all ops y cs s) = dl_degraded s \<and> dl_reason (append_all ops y cs s) = dl_reason s \<and>
    (\<forall>x u. contents (dl_store (append_all ops y cs s)) x u = contents (dl_store s) x u \<or>
       (x = y \<and> contents (dl_store s) x u = None \<and>
        (\<exists>c \<in> set cs. instant c = u \<and> contents (dl_store (append_all ops y cs s)) x u = Some c)))"
  using assms
proof (induction cs arbitrary: s)
  case (Cons c cs)
  have good: "good_candle y c" using Cons.prems(2) by simp
  show ?case
  proof (cases "contents (dl_store s) y (instant c)")
    case None
    then obtain st where st: "so_append ops c (dl_store s) = (st, Inr True)" "wf st"
      "\<forall>x u. contents st x u = (if x = y \<and> u = instant c then Some c else contents (dl_store s) x u)"
      using append_law [OF Cons.prems(1) good] by blast
    obtain s1 where s1: "append_all ops y (c # cs) s = append_all ops y cs s1" "dl_store s1 = st"
      "dl_degraded s1 = dl_degraded s" "dl_reason s1 = dl_reason s"
      by (simp add: st(1))
    have rest: "wf (dl_store s1)" "\<forall>c \<in> set cs. good_candle y c" using Cons.prems(2) st(2) s1(2) by simp_all
    note IH = Cons.IH [OF rest, unfolded s1(2)]
    have "contents (dl_store (append_all ops y cs s1)) x u = contents (dl_store s) x u \<or>
       (x = y \<and> contents (dl_store s) x u = None \<and>
        (\<exists>d \<in> set (c # cs). instant d = u \<and> contents (dl_store (append_all ops y cs s1)) x u = Some d))" for x u
    proof -
      have "contents st x u = (if x = y \<and> u = instant c then Some c else contents (dl_store s) x u)"
        using st(3) by blast
      moreover have "contents (dl_store (append_all ops y cs s1)) x u = contents st x u \<or>
         (x = y \<and> contents st x u = None \<and>
          (\<exists>d \<in> set cs. instant d = u \<and> contents (dl_store (append_all ops y cs s1)) x u = Some d))"
        using IH by blast
      ultimately show ?thesis using None by (cases "x = y \<and> u = instant c") auto
    qed
    then show ?thesis using IH unfolding s1(1) by (simp add: s1(3,4))
  next
    case (Some d)
    then have "so_append ops c (dl_store s) = (dl_store s, Inr False)"
      using append_law [OF Cons.prems(1) good] by simp
    then have step: "append_all ops y (c # cs) s = append_all ops y cs s" by simp
    have rest: "\<forall>c \<in> set cs. good_candle y c" using Cons.prems(2) by simp
    show ?thesis unfolding step using Cons.IH [OF Cons.prems(1) rest] by fastforce
  qed
qed simp

text \<open>\<open>good_answers\<close>: a provider answers with candles of the symbol it is asked for.\<close>

lemma write_next_spec:
  fixes y :: string and target :: datetime
  assumes "wf (dl_store s)" "\<forall>a b cs. fetch y a b = Inr cs \<longrightarrow> (\<forall>c \<in> set cs. good_candle y c)"
    and "\<forall>st. wf st \<longrightarrow> wf (env y st)"
  defines "s' \<equiv> write_next_if_missing ops fetch env y target s"
  shows "wf (dl_store s') \<and> set (dl_degraded s) \<subseteq> set (dl_degraded s') \<and>
    (\<forall>x. x \<noteq> y \<longrightarrow> (final_reason x s r \<longrightarrow> final_reason x s' r)) \<and>
    (\<forall>x u. contents (dl_store s') x u = contents (dl_store s) x u \<or>
       contents (dl_store s') x u = contents (env y (dl_store s)) x u \<or>
       (x = y \<and> contents (env y (dl_store s)) x u = None \<and>
        (\<exists>cs. fetch y target (dt_add target minute_us) = Inr cs \<and>
           (\<exists>c \<in> set cs. instant c = u \<and> contents (dl_store s') x u = Some c))))"
proof -
  let ?s1 = "s\<lparr>dl_store := env y (dl_store s)\<rparr>"
  have w1: "wf (dl_store ?s1)" using assms(1,3) by simp
  consider (old) "s' = s"
    | (none) "s' = ?s1"
    | (bad) rep where "s' = bad_report ''writer'' rep y ?s1"
    | (new) cs where "fetch y target (dt_add target minute_us) = Inr cs" "s' = append_all ops y cs ?s1"
  proof (cases "(case so_last_timestamp ops (dl_store s) y of None \<Rightarrow> False | Some last_stored \<Rightarrow> dt_le target last_stored)")
    case True
    then show ?thesis using old by (simp add: s'_def write_next_if_missing_def)
  next
    case new: False
    show ?thesis
    proof (cases "fetch y target (dt_add target minute_us)")
      case (Inl e)
      then show ?thesis using new none by (simp add: s'_def write_next_if_missing_def)
    next
      case (Inr cs)
      let ?rep = "validate cs target (dt_add target minute_us) y"
      have "s' = (if cs = [] then ?s1 else if vr_duplicates ?rep > 0 \<or> vr_step_errors ?rep > 0
          then bad_report ''writer'' ?rep y ?s1 else append_all ops y cs ?s1)"
        using new by (simp add: s'_def write_next_if_missing_def Inr)
      then show ?thesis using none bad that(4) [OF Inr] by (metis (full_types))
    qed
  qed
  then show ?thesis
  proof cases
    case new
    then have g: "\<forall>c \<in> set cs. good_candle y c" using assms(2) by blast
    show ?thesis using append_all_spec [OF w1 g] unfolding new(2) final_reason_def
      by (auto simp: new(1))
  qed (use assms(1) w1 in \<open>auto simp: final_reason_def\<close>)
qed

text \<open>The prefetch of a clean answer replaces what is stored; one symbol never touches another.\<close>

lemma prefetch_symbol_spec:
  fixes y :: string and start stop :: datetime
  assumes "wf (dl_store s)" "\<forall>a b cs. fetch y a b = Inr cs \<longrightarrow> (\<forall>c \<in> set cs. good_candle y c)"
    and "\<forall>st. wf st \<longrightarrow> wf (env y st)"
  defines "s' \<equiv> prefetch_symbol ops fetch env start stop y s"
  shows "wf (dl_store s') \<and> (\<forall>x. x \<noteq> y \<or> x \<in> set (dl_degraded s) \<longrightarrow> (final_reason x s r \<longrightarrow> final_reason x s' r) \<and>
      (contents (dl_store s') x = contents (dl_store s) x \<or> contents (dl_store s') x = contents (env y (dl_store s)) x))"
    and "\<lbrakk>y \<notin> set (dl_degraded s); fetch y start stop = Inr cs; cs \<noteq> [];
      vr_duplicates (validate cs start stop y) \<le> 0; vr_step_errors (validate cs start stop y) \<le> 0\<rbrakk> \<Longrightarrow>
      contents (dl_store s') y = contents (env y (dl_store s)) y ++ candle_map (rev cs)"
proof -
  let ?s1 = "s\<lparr>dl_store := env y (dl_store s)\<rparr>"
  have w1: "wf (env y (dl_store s))" using assms(1,3) by simp
  have p: "\<exists>st. so_patch ops cs (env y (dl_store s)) = (st, Inr (int (length cs))) \<and> wf st \<and>
      (\<forall>x u. contents st x u = (if x = y then (contents (env y (dl_store s)) y ++ candle_map (rev cs)) u
         else contents (env y (dl_store s)) x u))" if "fetch y start stop = Inr cs" "cs \<noteq> []" for cs
    using patch_law [OF w1 that(2)] assms(2) that(1) by blast
  show "wf (dl_store s') \<and> (\<forall>x. x \<noteq> y \<or> x \<in> set (dl_degraded s) \<longrightarrow> (final_reason x s r \<longrightarrow> final_reason x s' r) \<and>
      (contents (dl_store s') x = contents (dl_store s) x \<or> contents (dl_store s') x = contents (env y (dl_store s)) x))"
  proof (cases "y \<in> set (dl_degraded s)")
    case True
    then show ?thesis using assms(1) by (simp add: s'_def prefetch_symbol_def)
  next
    case new: False
    show ?thesis
    proof (cases "fetch y start stop")
      case (Inl e)
      then show ?thesis using new w1 by (simp add: s'_def prefetch_symbol_def final_reason_def)
    next
      case (Inr cs)
      show ?thesis
      proof (cases "cs = []")
        case False
        obtain st where st: "so_patch ops cs (env y (dl_store s)) = (st, Inr (int (length cs)))" "wf st"
          "\<forall>x u. contents st x u = (if x = y then (contents (env y (dl_store s)) y ++ candle_map (rev cs)) u
             else contents (env y (dl_store s)) x u)" using p [OF Inr False] by blast
        have "contents st x = contents (env y (dl_store s)) x" if "x \<noteq> y" for x using st(3) that by (simp add: fun_eq_iff)
        then show ?thesis using new w1 st(2) False
          by (auto simp: s'_def prefetch_symbol_def final_reason_def Inr Let_def st(1))
      qed (use new w1 in \<open>simp add: s'_def prefetch_symbol_def final_reason_def Inr\<close>)
    qed
  qed
  show "contents (dl_store s') y = contents (env y (dl_store s)) y ++ candle_map (rev cs)"
    if c: "y \<notin> set (dl_degraded s)" "fetch y start stop = Inr cs" "cs \<noteq> []"
      "vr_duplicates (validate cs start stop y) \<le> 0" "vr_step_errors (validate cs start stop y) \<le> 0"
  proof -
    obtain st where st: "so_patch ops cs (env y (dl_store s)) = (st, Inr (int (length cs)))"
      "\<forall>x u. contents st x u = (if x = y then (contents (env y (dl_store s)) y ++ candle_map (rev cs)) u
         else contents (env y (dl_store s)) x u)" using p [OF c(2,3)] by blast
    have "dl_store s' = st" using c by (simp add: s'_def prefetch_symbol_def Let_def st(1))
    then show ?thesis using st(2) by (simp add: fun_eq_iff)
  qed
qed

end

section \<open>Runs\<close>

text \<open>
  The provider answers with candles of the symbol it is asked for, and what else runs meanwhile
  keeps the store well formed and leaves the symbol \<open>x\<close> alone.
\<close>

definition leaves_alone ::
    "('s \<Rightarrow> bool) \<Rightarrow> ('s \<Rightarrow> string \<Rightarrow> int \<Rightarrow> candle option) \<Rightarrow> string \<Rightarrow> provider \<Rightarrow> (string \<Rightarrow> 's \<Rightarrow> 's) \<Rightarrow> bool" where
  "leaves_alone stored_ok C x fetch env \<longleftrightarrow> (\<forall>y a b cs. fetch y a b = Inr cs \<longrightarrow> (\<forall>c \<in> set cs. good_candle y c)) \<and>
     (\<forall>y st. stored_ok st \<longrightarrow> stored_ok (env y st) \<and> C (env y st) x = C st x)"

inductive layer_run ::
    "'s store_ops \<Rightarrow> data_layer_config \<Rightarrow> (provider \<Rightarrow> (string \<Rightarrow> 's \<Rightarrow> 's) \<Rightarrow> bool) \<Rightarrow> 's data_layer \<Rightarrow> 's data_layer \<Rightarrow> bool"
  for ops :: "'s store_ops" and cfg :: data_layer_config and ok :: "provider \<Rightarrow> (string \<Rightarrow> 's \<Rightarrow> 's) \<Rightarrow> bool"
    and s0 :: "'s data_layer" where
  l_begin: "layer_run ops cfg ok s0 s0"
| l_start: "layer_run ops cfg ok s0 s \<Longrightarrow> ok fetch env \<Longrightarrow>
    layer_run ops cfg ok s0 (data_layer_start ops fetch env cfg available now s)"
| l_writer: "layer_run ops cfg ok s0 s \<Longrightarrow> ok fetch env \<Longrightarrow>
    layer_run ops cfg ok s0 (writer_turn ops fetch env cfg now later s)"
| l_gates: "layer_run ops cfg ok s0 s \<Longrightarrow> layer_run ops cfg ok s0 (gate_turn ops cfg now s)"
| l_check: "layer_run ops cfg ok s0 s \<Longrightarrow> layer_run ops cfg ok s0 (fst (run_startup_gate_check ops cfg now s))"
| l_stop: "layer_run ops cfg ok s0 s \<Longrightarrow> layer_run ops cfg ok s0 (data_layer_stop s)"

lemma check_fst: "fst (run_startup_gate_check ops cfg now s) = dl_update_gate_metrics ops cfg now s"
  by (simp add: run_startup_gate_check_def Let_def split: option.split)

context candle_store
begin

lemma write_turn_frozen:
  fixes x :: string and t :: datetime and ys :: "string list"
  assumes "wf (dl_store s)" "leaves_alone wf contents x fetch env" "final_reason x s r"
  defines "s' \<equiv> fold (\<lambda>y s. if y \<in> set (dl_degraded s) then s else write_next_if_missing ops fetch env y t s) ys s"
  shows "wf (dl_store s') \<and> final_reason x s' r \<and> contents (dl_store s') x = contents (dl_store s) x"
  using assms(1,3) unfolding s'_def
proof (induction ys arbitrary: s)
  case (Cons y ys)
  have g: "\<forall>a b cs. fetch y a b = Inr cs \<longrightarrow> (\<forall>c \<in> set cs. good_candle y c)"
    and e: "\<forall>st. wf st \<longrightarrow> wf (env y st)" "contents (env y (dl_store s)) x = contents (dl_store s) x"
    using assms(2) Cons.prems(1) unfolding leaves_alone_def by blast+
  show ?case
  proof (cases "y \<in> set (dl_degraded s)")
    case False
    then have ne: "x \<noteq> y" using Cons.prems(2) by (auto simp: final_reason_def)
    let ?s1 = "write_next_if_missing ops fetch env y t s"
    note w = write_next_spec [where fetch = fetch and env = env and y = y and s = s, OF Cons.prems(1) g e(1), of t r]
    have "contents (dl_store ?s1) x u = contents (dl_store s) x u" for u using w ne e(2) by (metis (no_types))
    then have "contents (dl_store ?s1) x = contents (dl_store s) x" by (simp add: fun_eq_iff)
    then show ?thesis using Cons.IH [of ?s1] w ne Cons.prems(2) False by simp
  qed (use Cons in simp)
qed simp

lemma prefetch_frozen:
  fixes x :: string and a b :: datetime and ys :: "string list"
  assumes "wf (dl_store s)" "leaves_alone wf contents x fetch env" "final_reason x s r"
  defines "s' \<equiv> fold (prefetch_symbol ops fetch env a b) ys s"
  shows "wf (dl_store s') \<and> final_reason x s' r \<and> contents (dl_store s') x = contents (dl_store s) x"
  using assms(1,3) unfolding s'_def
proof (induction ys arbitrary: s)
  case (Cons y ys)
  have g: "\<forall>a b cs. fetch y a b = Inr cs \<longrightarrow> (\<forall>c \<in> set cs. good_candle y c)"
    and e: "\<forall>st. wf st \<longrightarrow> wf (env y st)" "contents (env y (dl_store s)) x = contents (dl_store s) x"
    using assms(2) Cons.prems(1) unfolding leaves_alone_def by blast+
  have d: "x \<in> set (dl_degraded s)" using Cons.prems(2) by (simp add: final_reason_def)
  note p = prefetch_symbol_spec(1) [where fetch = fetch and env = env and y = y and s = s, OF Cons.prems(1) g e(1), of a b r]
  let ?s1 = "prefetch_symbol ops fetch env a b y s"
  have "wf (dl_store ?s1)" "final_reason x ?s1 r" "contents (dl_store ?s1) x = contents (dl_store s) x"
    using p d Cons.prems(2) e(2) by metis+
  then show ?case using Cons.IH [of ?s1] by simp
qed simp

lemma write_turn_adds:
  fixes t :: datetime and ys :: "string list"
  assumes "wf (dl_store s)" "\<forall>y a b cs. fetch y a b = Inr cs \<longrightarrow> (\<forall>c \<in> set cs. good_candle y c)"
  defines "s' \<equiv> fold (\<lambda>y s. if y \<in> set (dl_degraded s) then s
    else write_next_if_missing ops fetch (\<lambda>_ f. f) y t s) ys s"
  shows "wf (dl_store s') \<and> set (dl_degraded s) \<subseteq> set (dl_degraded s') \<and>
    (contents (dl_store s') x u = contents (dl_store s) x u \<or>
      (contents (dl_store s) x u = None \<and> x \<in> set ys \<and> x \<notin> set (dl_degraded s) \<and>
       (\<exists>cs c. fetch x t (dt_add t minute_us) = Inr cs \<and> c \<in> set cs \<and> instant c = u \<and>
          contents (dl_store s') x u = Some c)))"
  using assms(1) unfolding s'_def
proof (induction ys arbitrary: s)
  case (Cons y ys)
  show ?case
  proof (cases "y \<in> set (dl_degraded s)")
    case False
    have g: "\<forall>a b cs. fetch y a b = Inr cs \<longrightarrow> (\<forall>c \<in> set cs. good_candle y c)" using assms(2) by blast
    let ?s1 = "write_next_if_missing ops fetch (\<lambda>_ f. f) y t s"
    note w = write_next_spec [where fetch = fetch and env = "\<lambda>_ f. f" and y = y and s = s,
        OF Cons.prems g, simplified, of t]
    have w': "contents (dl_store ?s1) x u = contents (dl_store s) x u \<or>
       (x = y \<and> contents (dl_store s) x u = None \<and> (\<exists>cs. fetch y t (dt_add t minute_us) = Inr cs \<and>
           (\<exists>c \<in> set cs. instant c = u \<and> contents (dl_store ?s1) x u = Some c)))" using w by blast
    note IH = Cons.IH [of ?s1, OF w [THEN conjunct1]]
    have sub: "set (dl_degraded s) \<subseteq> set (dl_degraded ?s1)" using w by blast
    let ?s2 = "fold (\<lambda>y s. if y \<in> set (dl_degraded s) then s
      else write_next_if_missing ops fetch (\<lambda>_ f. f) y t s) ys ?s1"
    have "contents (dl_store ?s2) x u = contents (dl_store s) x u \<or>
      (contents (dl_store s) x u = None \<and> x \<in> set (y # ys) \<and> x \<notin> set (dl_degraded s) \<and>
       (\<exists>cs c. fetch x t (dt_add t minute_us) = Inr cs \<and> c \<in> set cs \<and> instant c = u \<and>
          contents (dl_store ?s2) x u = Some c))"
    proof (cases "contents (dl_store ?s2) x u = contents (dl_store ?s1) x u")
      case True
      then show ?thesis using w' False by auto
    next
      case changed: False
      then have "contents (dl_store ?s1) x u = None" using IH by blast
      then have "contents (dl_store s) x u = None" using w' by auto
      then show ?thesis using IH changed sub by auto
    qed
    then show ?thesis using IH sub False by auto
  qed (use Cons in auto)
qed simp

lemma layer_run_frozen:
  assumes "layer_run ops cfg (leaves_alone wf contents x) s0 s" "wf (dl_store s0)" "final_reason x s0 r"
  shows "wf (dl_store s) \<and> final_reason x s r \<and> contents (dl_store s) x = contents (dl_store s0) x"
  using assms(1)
proof induction
  case l_begin
  then show ?case using assms(2,3) by simp
next
  case (l_start s fetch env available now)
  let ?s1 = "s\<lparr>dl_running := True, dl_start_ts := timestamp_int now\<rparr>"
  have p: "wf (dl_store (run_prefetch ops fetch env cfg now ?s1)) \<and> final_reason x (run_prefetch ops fetch env cfg now ?s1) r \<and>
      contents (dl_store (run_prefetch ops fetch env cfg now ?s1)) x = contents (dl_store s) x"
    using prefetch_frozen [of ?s1 x fetch env r] l_start unfolding run_prefetch_def Let_def
    by (simp add: final_reason_def)
  show ?case using l_start p unfolding data_layer_start_def Let_def
    by (auto simp: final_reason_def split: if_splits)
next
  case (l_writer s fetch env now later)
  let ?w = "fold (\<lambda>y s. if y \<in> set (dl_degraded s) then s
      else write_next_if_missing ops fetch env y (dt_add (floor_minute now) (- minute_us)) s) (dc_symbols cfg) s"
  note w = write_turn_frozen [of s x fetch env r "dt_add (floor_minute now) (- minute_us)" "dc_symbols cfg"]
  show ?case using l_writer w gates_final [of ops cfg later ?w x r]
    unfolding writer_turn_def Let_def by simp
next
  case (l_gates s now)
  then show ?case using gates_final [of ops cfg now s x r] by (simp add: gate_turn_def)
next
  case (l_check s now)
  then show ?case using gates_final [of ops cfg now s x r] by (simp add: check_fst)
next
  case (l_stop s)
  then show ?case by (simp add: data_layer_stop_def final_reason_def)
qed

end

section \<open>The gates\<close>

text \<open>What the metrics of a symbol say, given whether it is degraded.\<close>

definition sm_ok :: "data_layer_config \<Rightarrow> bool \<Rightarrow> symbol_metrics \<Rightarrow> bool" where
  "sm_ok cfg degraded m \<longleftrightarrow> (degraded \<longleftrightarrow> sm_state m = DEGRADED) \<and>
     (\<not> degraded \<longrightarrow> sm_duplicates m \<le> 0 \<and> sm_ts_step_errors m \<le> 0 \<and> sm_stale_seconds m \<le> dc_stale_seconds cfg) \<and>
     sm_max_gap_s m \<le> dc_max_gap_s cfg"

definition layer_inv :: "data_layer_config \<Rightarrow> 's data_layer \<Rightarrow> bool" where
  [inv_defs]: "layer_inv cfg s \<longleftrightarrow> set (dl_degraded s) \<subseteq> set (dc_symbols cfg) \<and>
     (\<exists>m. dl_metrics s = Some m \<and> (\<forall>x. sm_ok cfg (x \<in> set (dl_degraded s)) (get_or_create m x)))"

lemma layer_inv_cong:
  "dl_degraded s' = dl_degraded s \<Longrightarrow> dl_metrics s' = dl_metrics s \<Longrightarrow> layer_inv cfg s' = layer_inv cfg s"
  by (simp add: layer_inv_def)

lemma inv_written:
  "layer_inv cfg s \<Longrightarrow> dl_degraded s' = dl_degraded s \<Longrightarrow>
   dl_metrics s' = map_option (inc_candles_written y n ts) (dl_metrics s) \<Longrightarrow> layer_inv cfg s'"
  by (auto simp: layer_inv_def inc_candles_written_def sm_ok_def Let_def)

lemma inv_mark:
  "layer_inv cfg s \<Longrightarrow> y \<in> set (dc_symbols cfg) \<Longrightarrow> 0 \<le> dc_max_gap_s cfg \<Longrightarrow> layer_inv cfg (dl_mark_degraded y r d e s)"
  by (auto simp: layer_inv_def dl_mark_degraded_def set_symbol_state_def sm_ok_def)

lemma inv_append_all: "layer_inv cfg s \<Longrightarrow> layer_inv cfg (append_all ops y cs s)"
proof (induction cs arbitrary: s)
  case (Cons c cs)
  obtain st res where a: "so_append ops c (dl_store s) = (st, res)" by fastforce
  show ?case
  proof (cases res)
    case (Inr appended)
    have "layer_inv cfg (s\<lparr>dl_store := st, dl_metrics :=
        (if appended then map_option (inc_candles_written y 1 (Some (timestamp_int (c_ts c)))) (dl_metrics s) else dl_metrics s)\<rparr>)"
      using Cons.prems by (cases appended) (auto intro: inv_written simp: layer_inv_cong [of "s\<lparr>dl_store := st\<rparr>" s])
    then show ?thesis using Cons.IH by (simp add: a Inr)
  next
    case (Inl e)
    then show ?thesis using Cons.prems layer_inv_cong [of "s\<lparr>dl_store := st\<rparr>" s] by (simp add: a)
  qed
qed simp

lemma inv_write_next:
  assumes "layer_inv cfg s" "y \<in> set (dc_symbols cfg)" "0 \<le> dc_max_gap_s cfg"
  shows "layer_inv cfg (write_next_if_missing ops fetch env y t s)"
proof -
  have i: "layer_inv cfg (s\<lparr>dl_store := env y (dl_store s)\<rparr>)"
    using assms(1) layer_inv_cong [of "s\<lparr>dl_store := env y (dl_store s)\<rparr>" s] by simp
  show ?thesis unfolding write_next_if_missing_def Let_def bad_report_def
    using assms i inv_mark [OF i assms(2,3)] inv_append_all [OF i] by (auto split: sum.split option.split)
qed

lemma inv_prefetch:
  assumes "layer_inv cfg s" "y \<in> set (dc_symbols cfg)" "0 \<le> dc_max_gap_s cfg"
  shows "layer_inv cfg (prefetch_symbol ops fetch env a b y s)"
proof -
  have i: "layer_inv cfg (s\<lparr>dl_store := st\<rparr>)" for st
    using assms(1) layer_inv_cong [of "s\<lparr>dl_store := st\<rparr>" s] by simp
  have w: "layer_inv cfg (s\<lparr>dl_store := st, dl_metrics := map_option (\<lambda>m. update_gate_metrics y t
      None None None None None None None (inc_candles_written y n None m)) (dl_metrics s)\<rparr>)" for st t n
    using assms(1) by (auto simp: layer_inv_def inc_candles_written_def update_gate_metrics_def sm_ok_def Let_def)
  show ?thesis unfolding prefetch_symbol_def Let_def bad_report_def
    using assms i inv_mark [OF i assms(2,3)] w by (auto split: sum.split prod.split)
qed

lemma gate_values_gap: "0 \<le> limit \<Longrightarrow> gv_max_gap_s (gate_values_of limit stale up cov) \<le> limit"
  by (cases cov) (simp add: gate_values_of_def Let_def)

text \<open>One symbol of the gates restores the invariant whatever the values are.\<close>

lemma inv_gate_symbol:
  assumes "layer_inv cfg s" "y \<in> set (dc_symbols cfg)" "0 \<le> dc_max_gap_s cfg" "0 \<le> dc_stale_seconds cfg"
  shows "layer_inv cfg (dl_gate_symbol ops cfg now y s)"
proof (cases "so_last_timestamp ops (dl_store s) y")
  case (Some t)
  obtain m where m: "dl_metrics s = Some m" "\<forall>x. sm_ok cfg (x \<in> set (dl_degraded s)) (get_or_create m x)"
    and sub: "set (dl_degraded s) \<subseteq> set (dc_symbols cfg)" using assms(1) by (auto simp: layer_inv_def)
  obtain open_now reason where st: "dl_state cfg y (timestamp_int now) = (open_now, reason)" by fastforce
  define g where "g = dl_gate_values ops cfg now y (timestamp_int t) s"
  have gap: "gv_max_gap_s g \<le> dc_max_gap_s cfg"
    unfolding g_def dl_gate_values_def st Let_def prod.case by (rule gate_values_gap [OF assms(3)])
  define s1 where "s1 = s\<lparr>dl_metrics := map_option (update_gate_metrics y (Some (timestamp_int t)) (Some (gv_stale_s g))
      (Some (gv_missing_24h g)) (Some (gv_max_gap_s g)) (Some open_now) (Some reason)
      (Some (gv_expected g)) (Some (gv_observed g))) (dl_metrics s)\<rparr>"
  have step: "dl_gate_symbol ops cfg now y s = dl_gate_decision cfg (timestamp_int now) y g s1"
    by (simp add: dl_gate_symbol_def Some Let_def st g_def s1_def)
  have d1: "dl_degraded s1 = dl_degraded s" "dl_reason s1 = dl_reason s" by (simp_all add: s1_def)
  have inv1: "layer_inv cfg s1" if "y \<in> set (dl_degraded s) \<or> gv_stale_s g \<le> dc_stale_seconds cfg"
    using m sub gap that by (auto simp: layer_inv_def s1_def update_gate_metrics_def sm_ok_def)
  have mark: "layer_inv cfg (dl_mark_degraded y r 0 0 s1)" for r
    using m sub assms(2,3) by (auto simp: layer_inv_def s1_def update_gate_metrics_def sm_ok_def dl_mark_degraded_def set_symbol_state_def)
  have recover: "layer_inv cfg (s1\<lparr>dl_degraded := removeAll y (dl_degraded s1), dl_reason := d_del y (dl_reason s1),
      dl_metrics := map_option (set_symbol_state y ACTIVE None 0 0 0 0 0) (dl_metrics s1)\<rparr>)"
    using m sub assms(3,4) by (auto simp: layer_inv_def s1_def update_gate_metrics_def sm_ok_def set_symbol_state_def)
  show ?thesis unfolding step dl_gate_decision_def Let_def st
    using inv1 mark recover by (simp add: d1 not_less)
qed (use assms in \<open>simp add: dl_gate_symbol_def\<close>)

lemma inv_fold:
  assumes "\<And>y s. y \<in> set (dc_symbols cfg) \<Longrightarrow> layer_inv cfg s \<Longrightarrow> layer_inv cfg (f y s)" "layer_inv cfg s"
    and "set ys \<subseteq> set (dc_symbols cfg)"
  shows "layer_inv cfg (fold f ys s)"
  using assms(2,3) by (induction ys arbitrary: s) (simp_all add: assms(1))

lemma inv_gates:
  assumes "layer_inv cfg s" "0 \<le> dc_max_gap_s cfg" "0 \<le> dc_stale_seconds cfg"
  shows "layer_inv cfg (dl_update_gate_metrics ops cfg now s)"
proof -
  have f: "layer_inv cfg (fold (dl_gate_symbol ops cfg now) (dc_symbols cfg) s)"
    by (rule inv_fold) (simp_all add: assms inv_gate_symbol)
  have l: "layer_inv cfg (dl_lifecycle cfg m s') = layer_inv cfg s'" for m and s' :: "'a data_layer"
    by (rule layer_inv_cong) (simp_all add: dl_lifecycle_def Let_def)
  with f assms(1) show ?thesis unfolding dl_update_gate_metrics_def Let_def by (auto split: option.split)
qed

lemma layer_run_inv:
  assumes "layer_run ops cfg ok (data_layer_init st (Some layer_metrics_init) status) s"
    and "0 \<le> dc_max_gap_s cfg" "0 \<le> dc_stale_seconds cfg"
  shows "layer_inv cfg s"
  using assms(1)
proof induction
  case l_begin
  show ?case using assms(2,3) by (simp add: layer_inv_def data_layer_init_def layer_metrics_init_def get_or_create_def
        new_symbol_metrics_def sm_ok_def)
next
  case (l_start s fetch env available now)
  have i: "layer_inv cfg (s\<lparr>dl_running := True, dl_start_ts := timestamp_int now\<rparr>)"
    using l_start.IH by (simp add: layer_inv_def)
  have "layer_inv cfg (run_prefetch ops fetch env cfg now (s\<lparr>dl_running := True, dl_start_ts := timestamp_int now\<rparr>))"
    unfolding run_prefetch_def Let_def by (rule inv_fold) (simp_all add: i inv_prefetch assms(2))
  with i l_start.IH show ?case unfolding data_layer_start_def Let_def by (simp add: layer_inv_def)
next
  case (l_writer s fetch env now later)
  let ?f = "\<lambda>y s. if y \<in> set (dl_degraded s) then s
      else write_next_if_missing ops fetch env y (dt_add (floor_minute now) (- minute_us)) s"
  have "layer_inv cfg (fold ?f (dc_symbols cfg) s)"
    by (rule inv_fold) (simp_all add: l_writer.IH inv_write_next assms(2))
  from inv_gates [OF this assms(2,3)] show ?case using l_writer.IH unfolding writer_turn_def Let_def by auto
next
  case (l_gates s now)
  then show ?case using inv_gates [OF l_gates.IH assms(2,3)] by (simp add: gate_turn_def)
next
  case (l_check s now)
  show ?case unfolding check_fst by (rule inv_gates [OF l_check.IH assms(2,3)])
next
  case (l_stop s)
  then show ?case by (simp add: layer_inv_def data_layer_stop_def)
qed

section \<open>The status and the startup gate\<close>

lemma fold_min_less:
  "fold (\<lambda>x acc. min acc (f x)) xs a < (w::int) \<longleftrightarrow> a < w \<or> (\<exists>x \<in> set xs. f x < w)"
  by (induction xs arbitrary: a) auto

lemma observed_of_get: "observed_of m x = sm_observed_open_minutes_24h (get_or_create m x)"
  by (simp add: observed_of_def get_or_create_def new_symbol_metrics_def split: option.split)

lemma status_of_set: "fst (get_data_layer_status (set_data_layer_status (c # cs) r)) = c # cs"
  by (simp add: get_data_layer_status_def set_data_layer_status_def)

text \<open>The symbol has seen enough minutes and misses too many of them.\<close>

definition lacks_minutes :: "data_layer_config \<Rightarrow> layer_metrics \<Rightarrow> string \<Rightarrow> bool" where
  "lacks_minutes cfg m x \<longleftrightarrow> dc_warmup_minutes cfg \<le> observed_of m x \<and>
     dc_max_missing_per_24h cfg < sm_missing_minutes_24h (get_or_create m x)"

text \<open>Three of the five rules never decide: the gates have degraded the symbol before.\<close>

lemma startup_rule_none:
  assumes "sm_ok cfg d (get_or_create m x)"
  shows "startup_rule cfg x (get_or_create m x) = None \<longleftrightarrow> \<not> d \<and> \<not> lacks_minutes cfg m x"
  using assms unfolding startup_rule_def sm_ok_def lacks_minutes_def observed_of_get by auto

lemma startup_rules_exact:
  "fst (startup_rules cfg m xs) \<longleftrightarrow> (\<forall>x \<in> set xs. startup_rule cfg x (get_or_create m x) = None)"
  "fst (startup_rules cfg m xs) \<Longrightarrow> snd (startup_rules cfg m xs) = []"
  by (induction xs) (auto split: option.splits)

lemma gates_status:
  fixes ops :: "'s store_ops" and now :: datetime
  assumes "layer_inv cfg s" "0 \<le> dc_max_gap_s cfg" "0 \<le> dc_stale_seconds cfg"
  defines "s' \<equiv> dl_update_gate_metrics ops cfg now s"
  shows "\<exists>m. dl_metrics s' = Some m \<and> fst (get_data_layer_status (dl_status s')) =
    (if dl_degraded s' \<noteq> [] then ''degraded''
     else if 1440 < dc_warmup_minutes cfg \<or> (\<exists>x \<in> set (dc_symbols cfg). observed_of m x < dc_warmup_minutes cfg)
     then ''warming_up'' else ''ready'')"
proof -
  let ?f = "fold (dl_gate_symbol ops cfg now) (dc_symbols cfg) s"
  have "layer_inv cfg ?f" by (rule inv_fold) (simp_all add: assms inv_gate_symbol)
  then obtain m where m: "dl_metrics ?f = Some m" by (auto simp: layer_inv_def)
  obtain m0 where "dl_metrics s = Some m0" using assms(1) by (auto simp: layer_inv_def)
  then have s': "s' = dl_lifecycle cfg m ?f" by (simp add: s'_def dl_update_gate_metrics_def Let_def m)
  show ?thesis unfolding s' dl_lifecycle_def Let_def fold_min_less
    by (auto simp: m status_of_set)
qed

text \<open>C38. What the production data layer does to stored candles, from any well-formed store. (1) A
  symbol degraded for anything but missing minutes stays so for the same reason over every run of
  starts, writer turns, gate turns, startup checks and stops, and the layer never writes it again,
  however fresh its data become. (2) A turn of the writer changes a cell only from free to a candle
  that the provider returned for the last closed minute, and only of a configured symbol that is not
  degraded, while the service runs. (3) The prefetch overrides: after a clean answer the stored
  candles of the symbol are the answer laid over what was stored.\<close>

theorem data_layer_writes:
  fixes x :: string and s :: "csv_files data_layer" and clock :: datetime
  assumes "files_ok (dl_store s)"
  defines "ops \<equiv> csv_ops clock (\<lambda>_. True)" and "quiet \<equiv> (\<lambda>fetch. leaves_alone files_ok store_map x fetch (\<lambda>_ f. f))"
  shows "(\<forall>r s'. final_reason x s r \<longrightarrow> layer_run ops cfg (leaves_alone files_ok store_map x) s s' \<longrightarrow>
      final_reason x s' r \<and> store_map (dl_store s') x = store_map (dl_store s) x) \<and>
    (\<forall>fetch now later u. quiet fetch \<longrightarrow>
      (let s' = writer_turn ops fetch (\<lambda>_ f. f) cfg now later s; t = dt_add (floor_minute now) (- minute_us) in
       store_map (dl_store s') x u \<noteq> store_map (dl_store s) x u \<longrightarrow>
       store_map (dl_store s) x u = None \<and> dl_running s \<and> x \<in> set (dc_symbols cfg) \<and> x \<notin> set (dl_degraded s) \<and>
       (\<exists>cs c. fetch x t (dt_add t minute_us) = Inr cs \<and> c \<in> set cs \<and> instant c = u \<and>
          store_map (dl_store s') x u = Some c))) \<and>
    (\<forall>fetch a b cs. quiet fetch \<and> x \<notin> set (dl_degraded s) \<and> fetch x a b = Inr cs \<and> cs \<noteq> [] \<and>
      vr_duplicates (validate cs a b x) \<le> 0 \<and> vr_step_errors (validate cs a b x) \<le> 0 \<longrightarrow>
      store_map (dl_store (prefetch_symbol ops fetch (\<lambda>_ f. f) a b x s)) x =
        store_map (dl_store s) x ++ candle_map (rev cs))"
proof -
  have frozen: "final_reason x s' r \<and> store_map (dl_store s') x = store_map (dl_store s) x"
    if "final_reason x s r" "layer_run ops cfg (leaves_alone files_ok store_map x) s s'" for r s'
    using csv.layer_run_frozen [OF that(2) [unfolded ops_def] assms(1) that(1)] by simp
  have turn: "store_map (dl_store s) x u = None \<and> dl_running s \<and> x \<in> set (dc_symbols cfg) \<and> x \<notin> set (dl_degraded s) \<and>
       (\<exists>cs c. fetch x t (dt_add t minute_us) = Inr cs \<and> c \<in> set cs \<and> instant c = u \<and> store_map (dl_store s') x u = Some c)"
    if q: "quiet fetch" and d: "s' = writer_turn ops fetch (\<lambda>_ f. f) cfg now later s" "t = dt_add (floor_minute now) (- minute_us)"
      and ch: "store_map (dl_store s') x u \<noteq> store_map (dl_store s) x u" for fetch now later u s' t
  proof -
    have g: "\<forall>y a b cs. fetch y a b = Inr cs \<longrightarrow> (\<forall>c \<in> set cs. good_candle y c)"
      using q unfolding quiet_def leaves_alone_def by blast
    have r: "dl_running s"
    proof (rule ccontr)
      assume "\<not> dl_running s"
      then have "s' = s" unfolding d(1) by (simp add: writer_turn_def)
      with ch show False by simp
    qed
    let ?w = "fold (\<lambda>y s. if y \<in> set (dl_degraded s) then s else write_next_if_missing ops fetch (\<lambda>_ f. f) y t s) (dc_symbols cfg) s"
    have "dl_store s' = dl_store ?w"
      unfolding d writer_turn_def Let_def using r by (simp add: gates_final [THEN conjunct1])
    then show ?thesis using csv.write_turn_adds [OF assms(1) g, of clock t "dc_symbols cfg" x u] ch r
      unfolding ops_def by auto
  qed
  have fill: "store_map (dl_store (prefetch_symbol ops fetch (\<lambda>_ f. f) a b x s)) x = store_map (dl_store s) x ++ candle_map (rev cs)"
    if "quiet fetch" "x \<notin> set (dl_degraded s)" "fetch x a b = Inr cs" "cs \<noteq> []"
      "vr_duplicates (validate cs a b x) \<le> 0" "vr_step_errors (validate cs a b x) \<le> 0" for fetch a b cs
  proof -
    have g: "\<forall>a b cs. fetch x a b = Inr cs \<longrightarrow> (\<forall>c \<in> set cs. good_candle x c)"
      using that(1) unfolding quiet_def leaves_alone_def by blast
    show ?thesis unfolding ops_def
      by (rule csv.prefetch_symbol_spec(2) [where env = "\<lambda>_ f. f" and fetch = fetch and y = x and s = s, OF assms(1) g _ that(2-6)]) simp
  qed
  show ?thesis unfolding Let_def using frozen turn fill by blast
qed

text \<open>C39. The startup gate after any run from a fresh service with metrics: the check passes exactly when
  no configured symbol is degraded and none lacks minutes after its warm-up, so the rules on
  staleness, duplicates and gaps never decide; passing gives no reason; the life cycle status is
  degraded exactly when some symbol is, warming up exactly when some configured symbol has observed
  too little, and ready otherwise.\<close>

theorem startup_gate_exact:
  assumes "0 \<le> dc_max_gap_s cfg" "0 \<le> dc_stale_seconds cfg"
    and "layer_run ops cfg ok (data_layer_init st (Some layer_metrics_init) status) s"
    and "run_startup_gate_check ops cfg now s = (s', passed, reason)"
  shows "\<exists>m. dl_metrics s' = Some m \<and>
    (passed \<longleftrightarrow> (\<forall>x \<in> set (dc_symbols cfg). x \<notin> set (dl_degraded s') \<and> \<not> lacks_minutes cfg m x)) \<and>
    (passed \<longrightarrow> reason = [] \<and> dl_degraded s' = []) \<and>
    (\<forall>x. x \<in> set (dl_degraded s') \<longleftrightarrow> sm_state (get_or_create m x) = DEGRADED) \<and>
    fst (get_data_layer_status (dl_status s')) =
      (if dl_degraded s' \<noteq> [] then ''degraded''
       else if 1440 < dc_warmup_minutes cfg \<or> (\<exists>x \<in> set (dc_symbols cfg). observed_of m x < dc_warmup_minutes cfg)
       then ''warming_up'' else ''ready'')"
proof -
  have i: "layer_inv cfg s" by (rule layer_run_inv [OF assms(3,1,2)])
  have s': "s' = dl_update_gate_metrics ops cfg now s" using assms(4) check_fst [of ops cfg now s] by simp
  have i': "layer_inv cfg s'" unfolding s' by (rule inv_gates [OF i assms(1,2)])
  obtain m where m: "dl_metrics s' = Some m" "\<forall>x. sm_ok cfg (x \<in> set (dl_degraded s')) (get_or_create m x)"
    and sub: "set (dl_degraded s') \<subseteq> set (dc_symbols cfg)" using i' by (auto simp: layer_inv_def)
  have r: "(passed, reason) = startup_rules cfg m (dc_symbols cfg)"
    using assms(4) unfolding run_startup_gate_check_def Let_def s' [symmetric] by (simp add: m(1))
  have iff: "passed \<longleftrightarrow> (\<forall>x \<in> set (dc_symbols cfg). x \<notin> set (dl_degraded s') \<and> \<not> lacks_minutes cfg m x)"
    using startup_rules_exact(1) [of cfg m "dc_symbols cfg"] startup_rule_none [OF m(2) [rule_format]]
    unfolding r [symmetric] by simp
  have none: "passed \<longrightarrow> dl_degraded s' = []"
  proof
    assume "passed"
    then have "x \<notin> set (dl_degraded s')" for x using iff sub by blast
    then show "dl_degraded s' = []" by (cases "dl_degraded s'") auto
  qed
  have why: "passed \<longrightarrow> reason = []" using startup_rules_exact(2) [of cfg m "dc_symbols cfg"] unfolding r [symmetric] by simp
  have st: "\<forall>x. x \<in> set (dl_degraded s') \<longleftrightarrow> sm_state (get_or_create m x) = DEGRADED"
    using m(2) by (simp add: sm_ok_def)
  show ?thesis using gates_status [OF i assms(1,2), of ops now] iff none why st m(1) unfolding s' [symmetric] by auto
qed

definition demo_layer_config :: data_layer_config where
  "demo_layer_config = \<lparr>dc_symbols = [''EURUSD''], dc_prefetch_minutes = 0, dc_warmup_minutes = 120, dc_max_gap_s = 180,
     dc_max_missing_per_24h = 1, dc_stale_seconds = 180, dc_write_mode = ''realtime'', dc_market_hours = None,
     dc_closed_minutes = None\<rparr>"

text \<open>A running service whose store has a candle: a prefetch of a healthy symbol replaces it and adds the next;
once the symbol is degraded, turns of the writer and of the gates leave it.\<close>

theorem data_layer_writes_witness:
  fixes s :: "csv_files \<Rightarrow> csv_files data_layer" and fetch :: provider
  defines "ops \<equiv> csv_ops (utc_dt 0) (\<lambda>_. True)"
    and "s \<equiv> (\<lambda>files. (data_layer_init files None (None, None))\<lparr>dl_running := True\<rparr>)"
    and "fetch \<equiv> (\<lambda>y _ _. if y = ''EURUSD'' then Inr [demo_candle 0 3, demo_candle 1 4] else Inl (OtherError ''HTTP''))"
  shows "\<exists>files. store_map files ''EURUSD'' 0 = Some (demo_candle 0 2) \<and> store_map files ''EURUSD'' 60000000 = None \<and>
    (let s1 = prefetch_symbol ops fetch (\<lambda>_ f. f) (grid 0) (grid 2) ''EURUSD'' (s files);
         s2 = gate_turn ops demo_layer_config (utc_dt 130000000) (writer_turn ops fetch (\<lambda>_ f. f) demo_layer_config (utc_dt 125000000) (utc_dt 126000000)
           (dl_mark_degraded ''EURUSD'' ''stale_seconds=240 > 180'' 0 0 (s files)))
     in store_map (dl_store s1) ''EURUSD'' 0 = Some (demo_candle 0 3) \<and>
        store_map (dl_store s1) ''EURUSD'' 60000000 = Some (demo_candle 1 4) \<and>
        ''EURUSD'' \<in> set (dl_degraded s2) \<and> store_map (dl_store s2) ''EURUSD'' = store_map files ''EURUSD'')"
proof -
  obtain files where f: "files_ok files" "store_map files ''EURUSD'' = [0 \<mapsto> demo_candle 0 2]"
    using csv.append_law [OF files_ok_Nil demo_candle_good, of 0 2] by (auto simp: fun_eq_iff)
  have quiet: "leaves_alone files_ok store_map ''EURUSD'' fetch (\<lambda>_ f. f)"
    by (auto simp: leaves_alone_def fetch_def split: if_splits)
  have v: "vr_duplicates (validate [demo_candle 0 3, demo_candle 1 4] (grid 0) (grid 2) ''EURUSD'') \<le> 0 \<and>
      vr_step_errors (validate [demo_candle 0 3, demo_candle 1 4] (grid 0) (grid 2) ''EURUSD'') \<le> 0"
    by code_simp
  let ?d = "dl_mark_degraded ''EURUSD'' ''stale_seconds=240 > 180'' 0 0 (s files)"
  let ?s1 = "prefetch_symbol ops fetch (\<lambda>_ f. f) (grid 0) (grid 2) ''EURUSD'' (s files)"
  let ?s2 = "gate_turn ops demo_layer_config (utc_dt 130000000)
    (writer_turn ops fetch (\<lambda>_ f. f) demo_layer_config (utc_dt 125000000) (utc_dt 126000000) ?d)"
  have store: "dl_store (s files) = files" "dl_store ?d = files" "''EURUSD'' \<notin> set (dl_degraded (s files))"
    by (simp_all add: s_def data_layer_init_def)
  have ok: "files_ok (dl_store (s files))" "files_ok (dl_store ?d)" using f(1) store by simp_all
  have got: "fetch ''EURUSD'' (grid 0) (grid 2) = Inr [demo_candle 0 3, demo_candle 1 4]" by (simp add: fetch_def)
  have "store_map (dl_store ?s1) ''EURUSD'' = store_map (dl_store (s files)) ''EURUSD'' ++ candle_map (rev [demo_candle 0 3, demo_candle 1 4])"
    unfolding ops_def
    by (rule data_layer_writes [OF ok(1), where x = "''EURUSD''" and clock = "utc_dt 0", THEN conjunct2, THEN conjunct2, rule_format])
      (intro conjI quiet store(3) got list.distinct(2) v [THEN conjunct1] v [THEN conjunct2])
  then have "store_map (dl_store ?s1) ''EURUSD'' 0 = Some (demo_candle 0 3)"
      "store_map (dl_store ?s1) ''EURUSD'' 60000000 = Some (demo_candle 1 4)"
    by (simp_all add: store f(2) map_add_def)
  note filled = this
  have "final_reason ''EURUSD'' ?d ''stale_seconds=240 > 180''" by (simp add: final_reason_def)
  moreover have run: "layer_run (csv_ops (utc_dt 0) (\<lambda>_. True)) demo_layer_config (leaves_alone files_ok store_map ''EURUSD'') ?d ?s2"
    unfolding ops_def
    by (rule l_gates, rule l_writer [where ok = "leaves_alone files_ok store_map ''EURUSD''" and fetch = fetch and env = "\<lambda>_ f. f", OF l_begin quiet])
  ultimately have "final_reason ''EURUSD'' ?s2 ''stale_seconds=240 > 180'' \<and> store_map (dl_store ?s2) ''EURUSD'' = store_map (dl_store ?d) ''EURUSD''"
    using data_layer_writes [OF ok(2), where x = "''EURUSD''" and clock = "utc_dt 0" and cfg = demo_layer_config, THEN conjunct1]
    by (metis (no_types))
  then show ?thesis
    using filled f(2) store(2) by (intro exI [of _ files]) (simp add: Let_def final_reason_def)
qed

theorem startup_gate_exact_witness:
  "let (s', passed, reason) = run_startup_gate_check (csv_ops (utc_dt 0) (\<lambda>_. True)) demo_layer_config (utc_dt 60000000)
         (data_layer_init [] (Some layer_metrics_init) (None, None))
   in passed \<and> reason = [] \<and> fst (get_data_layer_status (dl_status s')) = ''warming_up''"
proof -
  let ?s = "data_layer_init [] (Some layer_metrics_init) (None, None)"
  obtain s' passed reason where c: "run_startup_gate_check (csv_ops (utc_dt 0) (\<lambda>_. True)) demo_layer_config (utc_dt 60000000) ?s =
      (s', passed, reason)" by (metis prod_cases3)
  have s': "s' = dl_update_gate_metrics (csv_ops (utc_dt 0) (\<lambda>_. True)) demo_layer_config (utc_dt 60000000) ?s"
    using check_fst [of "csv_ops (utc_dt 0) (\<lambda>_. True)" demo_layer_config "utc_dt 60000000" ?s] unfolding c by simp
  have none: "csv_last_timestamp (utc_dt 0) [] ''EURUSD'' = None" by code_simp
  have m: "dl_metrics s' = Some layer_metrics_init \<and> dl_degraded s' = []"
    unfolding s' using none by (simp add: dl_update_gate_metrics_def demo_layer_config_def data_layer_init_def
        dl_gate_symbol_def dl_lifecycle_def Let_def)
  have o: "observed_of layer_metrics_init ''EURUSD'' = 0" by (simp add: observed_of_def layer_metrics_init_def)
  have "0 \<le> dc_max_gap_s demo_layer_config" "0 \<le> dc_stale_seconds demo_layer_config" by (simp_all add: demo_layer_config_def)
  from startup_gate_exact [OF this l_begin c] show ?thesis
    using m o unfolding c by (auto simp: demo_layer_config_def lacks_minutes_def)
qed

end
