(* ===== verification/Spec2Isabelle.thy ===== *)
theory Spec2Isabelle
  imports PaperEngine_Props PaperVenue_Props Quality_Props Trading_Props
    Backfill_Props LiveMarketData_Props Stitching_Props
    WsEndpoint MarketHours_Props SltpStore Reconcile_Props OstiumIngest_Props OstiumVenue_Props
    MarketEngine_Props TickFeed_Props RawSync_Props DataLayer_Props
begin

text \<open>
  A model of the brokerage service and the properties that make it correct.

  \<^bold>\<open>The program.\<close> The service trades on a venue through a guarded trading core, keeps one-minute
  candles of the symbols it trades, and publishes both to clients. Four parts meet in it.
  Orders: a request passes the guards and reaches a venue adapter; the paper adapter runs an
  in-memory execution engine watched by a risk loop, and a store of operations remembers what was
  asked. Market data: ticks become candles, candles are stored in monthly files, gaps are found and
  filled from a provider, and reads stitch sources together. Quality: reports and gates decide
  whether data may be traded on. Publication and supervision: a hub sends messages to WebSocket
  clients, and a loop compares the positions the service believes in with those of the venue.

  \<^bold>\<open>The theories\<close> and the code they translate (paths under \<open>src/\<close>).
  \<^item> \<open>Prelude\<close>, \<open>PyFloat\<close>, \<open>PyTime\<close>, \<open>Config\<close>, \<open>Json\<close>: Python's exceptions, dictionaries, strings,
    floats, dates, environment and JSON values, with the lemmas on them.
  \<^item> \<open>Models\<close>, \<open>Orders_Model\<close>: the dataclasses of \<open>domain/models\<close>, a record each, with their
    properties and validation.
  \<^item> \<open>PaperEngine\<close>: \<open>infrastructure/execution/paper_engine.py\<close>; \<open>PaperEngine_Inv\<close> its invariant and
    runs; \<open>PaperEngine_Props\<close> opening, closing, sweeps, conservation.
  \<^item> \<open>VenueContract\<close>: the interface \<open>domain/interfaces/venue_adapter.py\<close> as a record of functions, and its
    contracts (locales \<open>venue_positions\<close> and \<open>venue_contract\<close>).
  \<^item> \<open>PaperVenue\<close>: \<open>infrastructure/venues/paper/paper_venue_adapter.py\<close> and
    \<open>infrastructure/execution/paper_risk_engine.py\<close>; \<open>PaperVenue_Inv\<close> interprets the contract of a venue;
    \<open>PaperVenue_Props\<close> turns of the loop and races.
  \<^item> \<open>OstiumClient\<close>: \<open>infrastructure/venues/ostium/ostium_client.py\<close>, the fake client
    and the client over an SDK and a node given as parameters, with their contract (locale
    \<open>ostium_client\<close>); \<open>OstiumVenue\<close>, \<open>OstiumVenue_Props\<close>: \<open>ostium_execution_adapter.py\<close> beside it, a venue
    over every such client.
  \<^item> \<open>Quality\<close>, \<open>Quality_Props\<close>: \<open>application/data/ohlcv_integrity.py\<close>, \<open>quality_gate.py\<close>,
    \<open>month_quality.py\<close>, \<open>data_source_policy.py\<close>, \<open>ostium_symbol_policy.py\<close> and
    \<open>application/services/data_quality_guard.py\<close>.
  \<^item> \<open>Guards\<close>: \<open>application/config/live_guards_config.py\<close> and \<open>application/services/live_guards.py\<close>,
    \<open>canary_router.py\<close>, \<open>position_guard.py\<close>.
  \<^item> \<open>Operations\<close>: \<open>application/services/operation_service.py\<close> with the contract of the order services
    (locale \<open>operation_store\<close>); \<open>Trading\<close>: \<open>application/trading/trading_core.py\<close>,
    \<open>application/services/reconcile.py\<close>, \<open>order_open_service.py\<close>, \<open>order_close_service.py\<close>;
    \<open>Trading_Props\<close>: guarding, idempotency and recovery.
  \<^item> \<open>CandleBuilder\<close>, \<open>GapValidator\<close> (and \<open>_Props\<close>): \<open>infrastructure/builders/candle_builder.py\<close> and
    \<open>infrastructure/storage/gap_validator.py\<close>. The builder is compared with a reference over the times of
    the ticks alone, in which a tick belongs to the latest minute up to it in the stream.
  \<^item> \<open>CsvStore\<close>, \<open>CsvStore_Inv\<close>, \<open>CsvStore_Ops\<close>, \<open>CsvStore_Props\<close>: \<open>infrastructure/storage/csv_store.py\<close> and
    its refinement of a map from instants to candles; \<open>StoreContract\<close>: the interface
    \<open>domain/interfaces/candle_store.py\<close> as a record of functions and its contract (locale
    \<open>candle_store\<close>), interpreted on the CSV store; \<open>CsvStore_Zones\<close>: what appending does file by file
    when candles are stamped in another zone than UTC.
  \<^item> \<open>Backfill\<close>, \<open>LiveMarketData\<close>, \<open>Stitching\<close> (and \<open>_Props\<close>), \<open>DataMetrics\<close>: the clients of that
    contract, \<open>application/services/backfill_service.py\<close>, \<open>live_marketdata_service.py\<close>,
    \<open>candle_stitching_service.py\<close>, \<open>read_through_service.py\<close>, \<open>application/data/mixed_ohlcv_stitcher.py\<close>
    and the counters they keep.
  \<^item> \<open>WsHub\<close>, \<open>WsHub_Props\<close>: \<open>infrastructure/ws/hub.py\<close> and \<open>models.py\<close>; \<open>WsEndpoint\<close>:
    \<open>application/api/ws_routes.py\<close>, which refines the runs of the hub.
  \<^item> \<open>MarketHours\<close>, \<open>MarketHours_Props\<close>: \<open>application/market_hours/fx_24_5.py\<close>.
  \<^item> \<open>OstiumIngest\<close>, \<open>OstiumIngest_Props\<close>: \<open>application/services/ostium_candle_ingest_service.py\<close>, the
    realtime writer: turns of its poll loop, runs, and the candles it adds to the store.
  \<^item> \<open>DataLayer\<close>, \<open>DataLayer_Props\<close>: \<open>application/services/data_layer_prod_service.py\<close> and
    \<open>application/data/data_layer_lifecycle.py\<close>, the production data layer over any run of its loops.
  \<^item> \<open>MarketEngine\<close>, \<open>MarketEngine_Props\<close>: \<open>apps/realtime_datalayer/market_hours/engine.py\<close>, calendars in
    New York time with the next opening; the zone is a parameter.
  \<^item> \<open>Bi5\<close>, \<open>TickFeed\<close>, \<open>RawSync\<close> (and \<open>_Props\<close>): the feeds of Dukascopy. \<open>foundation/market_data/dukascopy_bi5.py\<close>
    and \<open>infrastructure/venues/dukascopy/bi5_backfill_provider.py\<close> (binary files of a day, as bytes and
    32-bit words), \<open>bi5_ticks_backfill_provider.py\<close> (hourly ticks with a cache, a provider of the backfill
    service), \<open>raw_bi5_store.py\<close> and \<open>raw_sync_worker.py\<close> (the raw archive, with its writes byte by
    byte, and its jobs). The decompressor, the network and a disk that fails are parameters.
  \<^item> \<open>Reconcile\<close>, \<open>Reconcile_Props\<close>, \<open>SltpStore\<close>: \<open>application/services/reconcile_service.py\<close>,
    \<open>bootstrap_service.py\<close>, \<open>infrastructure/reconcile\<close>, \<open>infrastructure/storage/sltp_store.py\<close>, with the
    contract of a position tracker (locale \<open>position_tracker\<close>).

  \<^bold>\<open>How the code is modelled.\<close> A dataclass or an object's attributes are a record, an operation is a
  function from the state to the new state and the result, and a raised exception is \<open>Inl\<close> of a
  \<^typ>\<open>py_error\<close>. A finite float is the rational it denotes and every operation rounds to binary64;
  infinities and NaN are outside the model. A datetime is a wall clock reading with its \<open>fold\<close> and
  zone; a zone other than UTC is a parameter that keeps the documented contract of \<open>tzinfo\<close>. A
  dictionary is an association list in insertion order; a set is a list without repetitions where
  its order can be seen. A text file is the list of its fields, a JSON file its value; only in the raw archive,
  where it matters what a crash leaves, a file is its bytes and a write a sequence of operations. The clock,
  fresh identifiers, prices, providers and the venue's answers are arguments. An \<open>async\<close> operation is
  one step up to its \<open>await\<close>; what other tasks do while it waits is a function argument or another
  step of a run, so races are theorems about sequences of steps. A lock makes its block one step.

  \<^bold>\<open>Termination.\<close> Loops are structural or have a measure: the months of a read end at the year 9999,
  the calendar loops at the end of their range. The loop that cuts a gap into ranges may run for
  ever, and is \<open>partial_function (option)\<close>; that it returns exactly for positive sizes is a theorem.
  Endless service loops are lists of turns.

  \<^bold>\<open>What the lemmas show.\<close> The \<open>_Inv\<close> theories and the locales carry the invariants: engine conservation,
  the venue contract, files as a map, subscriptions as one relation, trackers as maps. The
  \<open>_Props\<close> theories state what each operation does on every branch, the refinements of maps and
  minutes, the equivalence of reports, calendar and counts with arithmetic, the round trips of
  logs and files, the bounds, and the error paths, including those where the code is wrong.

  \<^bold>\<open>Not modelled.\<close> HTTP routes and application wiring (request parsing and dependency injection), the
  Ostium SDK, its node and the network clients that only fetch, parquet and DuckDB access, command line tools
  and scripts, research code under \<open>lab\<close>, archived venues under \<open>_archive\<close>, logging: they are input and
  output around the modelled operations or not part of the running service.
\<close>

end
